(* ===== verification/Prelude.thy ===== *)
theory Prelude
  imports Complex_Main "HOL-Library.Multiset" "HOL-Library.Product_Lexorder" "HOL-Library.List_Lexorder" "HOL-Library.Char_ord" "HOL-Library.AList"
begin

text \<open>
  Shared vocabulary of the development: instants and durations, the SQL statements the storage
  layer is written in (as list operations on tables in rowid order), stable sorting, and the
  lemma collections the component proofs use.
\<close>

named_theorems sql_simps \<open>what the SQL statements do to a table\<close>
named_theorems inv_intros \<open>introduction rules for the invariants of the tables\<close>

subsection \<open>Instants and durations\<close>

text \<open>
  Every datetime of the program is timezone-aware and compared as an instant; an instant is an
  integer number of microseconds (the resolution of the source language's datetime), a timedelta
  is a difference of two instants.
\<close>

type_synonym datetime = int
type_synonym timedelta = int

definition second :: timedelta where "second = 1000000"
definition seconds :: "int \<Rightarrow> timedelta" where "seconds n = n * 1000000"
definition minutes :: "int \<Rightarrow> timedelta" where "minutes n = n * 60000000"
definition hours :: "int \<Rightarrow> timedelta" where "hours n = n * 3600000000"
definition days :: "int \<Rightarrow> timedelta" where "days n = n * 86400000000"

lemmas duration_defs = second_def seconds_def minutes_def hours_def days_def

lemma div_mod_less:
  fixes t u m :: int
  assumes "0 < m"
  shows "t < u \<longleftrightarrow> t div m < u div m \<or> t div m = u div m \<and> t mod m < u mod m"
proof -
  have split: "t = m * (t div m) + t mod m" "u = m * (u div m) + u mod m" by simp_all
  have bounds: "0 \<le> t mod m" "t mod m < m" "0 \<le> u mod m" "u mod m < m"
    using assms by simp_all
  consider "t div m = u div m" | "t div m + 1 \<le> u div m" | "u div m + 1 \<le> t div m" by linarith
  then show ?thesis
  proof cases
    case 1
    have "t < u \<longleftrightarrow> t mod m < u mod m"
      using split 1 by (metis add_less_cancel_left)
    with 1 show ?thesis by simp
  next
    case 2
    then have "m * (t div m + 1) \<le> m * (u div m)" using assms by (intro mult_left_mono) auto
    then have "m * (t div m) + m \<le> m * (u div m)" by (simp add: distrib_left)
    with split bounds have "t < u" by linarith
    with 2 show ?thesis by simp
  next
    case 3
    then have "m * (u div m + 1) \<le> m * (t div m)" using assms by (intro mult_left_mono) auto
    then have "m * (u div m) + m \<le> m * (t div m)" by (simp add: distrib_left)
    with split bounds have "u < t" by linarith
    with 3 show ?thesis by simp
  qed
qed

lemma div_mod_less_nat:
  fixes t u m :: nat
  assumes "0 < m"
  shows "t < u \<longleftrightarrow> t div m < u div m \<or> t div m = u div m \<and> t mod m < u mod m"
proof -
  have "int t < int u \<longleftrightarrow> int t div int m < int u div int m \<or>
    int t div int m = int u div int m \<and> int t mod int m < int u mod int m"
    using assms by (intro div_mod_less) simp
  then show ?thesis by (simp flip: of_nat_div of_nat_mod)
qed

subsection \<open>SQL statements on tables\<close>

text \<open>
  A table is the list of its rows in rowid order. \<open>update_where\<close> is UPDATE, \<open>filter\<close> with a
  negated condition is DELETE, \<open>insert_or_ignore\<close> is INSERT OR IGNORE under one uniqueness
  constraint, \<open>insert_row\<close> is a plain INSERT, whose violated constraint raises.
\<close>

datatype sql_error = IntegrityError

definition update_where :: "('r \<Rightarrow> bool) \<Rightarrow> ('r \<Rightarrow> 'r) \<Rightarrow> 'r list \<Rightarrow> 'r list" where
  "update_where P f rows = map (\<lambda>r. if P r then f r else r) rows"

definition insert_or_ignore :: "('r \<Rightarrow> 'k) \<Rightarrow> 'r \<Rightarrow> 'r list \<Rightarrow> 'r list" where
  "insert_or_ignore key r rows = (if key r \<in> key ` set rows then rows else rows @ [r])"

definition insert_row :: "('r \<Rightarrow> 'k) \<Rightarrow> 'r \<Rightarrow> 'r list \<Rightarrow> sql_error + 'r list" where
  "insert_row key r rows = (if key r \<in> key ` set rows then Inl IntegrityError else Inr (rows @ [r]))"

definition upsert :: "('r \<Rightarrow> 'k) \<Rightarrow> ('r \<Rightarrow> 'r \<Rightarrow> 'r) \<Rightarrow> 'r \<Rightarrow> 'r list \<Rightarrow> 'r list" where
  \<comment> \<open>INSERT ... ON CONFLICT(key) DO UPDATE: \<open>merge old excluded\<close> is the updated row\<close>
  "upsert key merge r rows =
     (if key r \<in> key ` set rows then map (\<lambda>old. if key old = key r then merge old r else old) rows
      else rows @ [r])"

definition count_where :: "('r \<Rightarrow> bool) \<Rightarrow> 'r list \<Rightarrow> nat" where
  "count_where P rows = length (filter P rows)"

definition order_desc :: "('r \<Rightarrow> 'k::linorder) \<Rightarrow> 'r list \<Rightarrow> 'r list" where
  \<comment> \<open>ORDER BY key DESC, rows with equal keys in rowid order\<close>
  "order_desc k rows = rev (sort_key k (rev rows))"

definition newest :: "('r \<Rightarrow> 'k::linorder) \<Rightarrow> 'r list \<Rightarrow> 'r option" where
  \<comment> \<open>ORDER BY key DESC, rowid DESC LIMIT 1\<close>
  "newest k rows = (case rev (sort_key k rows) of [] \<Rightarrow> None | r # _ \<Rightarrow> Some r)"

definition first_row :: "'r list \<Rightarrow> 'r option" where
  "first_row rows = (case rows of [] \<Rightarrow> None | r # _ \<Rightarrow> Some r)"

lemma update_where_Nil [simp]: "update_where P f [] = []"
  by (simp add: update_where_def)

lemma update_where_append [simp]: "update_where P f (xs @ ys) = update_where P f xs @ update_where P f ys"
  by (simp add: update_where_def)

lemma length_update_where [simp]: "length (update_where P f rows) = length rows"
  by (simp add: update_where_def)

lemma set_update_where: "set (update_where P f rows) = (\<lambda>r. if P r then f r else r) ` set rows"
  by (simp add: update_where_def)

lemma update_where_none: "\<forall>r \<in> set rows. \<not> P r \<Longrightarrow> update_where P f rows = rows"
  by (induction rows) (auto simp: update_where_def)

lemma map_key_update_where:
  "(\<And>r. key (f r) = key r) \<Longrightarrow> map key (update_where P f rows) = map key rows"
  by (simp add: update_where_def)

lemma filter_update_where_other:
  "(\<And>r. P r \<Longrightarrow> \<not> Q r) \<Longrightarrow> (\<And>r. P r \<Longrightarrow> \<not> Q (f r)) \<Longrightarrow>
   filter Q (update_where P f rows) = filter Q rows"
  by (induction rows) (auto simp: update_where_def)

lemma set_insert_or_ignore_subset: "set (insert_or_ignore key r rows) \<subseteq> insert r (set rows)"
  by (auto simp: insert_or_ignore_def)

lemma insert_or_ignore_keys: "key ` set (insert_or_ignore key r rows) = insert (key r) (key ` set rows)"
  by (auto simp: insert_or_ignore_def)

lemma insert_or_ignore_idem: "insert_or_ignore key r (insert_or_ignore key r rows) = insert_or_ignore key r rows"
  by (simp add: insert_or_ignore_def)

lemma insert_or_ignore_mono: "set rows \<subseteq> set (insert_or_ignore key r rows)"
  by (auto simp: insert_or_ignore_def)

lemma map_key_upsert: "(\<And>a b. key a = key b \<Longrightarrow> key (m a b) = key a) \<Longrightarrow>
  map key (upsert key m r rows) = (if key r \<in> key ` set rows then map key rows else map key rows @ [key r])"
  by (auto simp: upsert_def)

lemma upsert_keys:
  assumes "\<And>a b. key a = key b \<Longrightarrow> key (m a b) = key a"
  shows "key ` set (upsert key m r rows) = insert (key r) (key ` set rows)"
proof -
  have "set (map key (upsert key m r rows)) = insert (key r) (set (map key rows))"
    by (simp only: map_key_upsert assms) auto
  then show ?thesis by simp
qed

lemma insert_row_Inr: "insert_row key r rows = Inr rows' \<longleftrightarrow> key r \<notin> key ` set rows \<and> rows' = rows @ [r]"
  by (auto simp: insert_row_def)

lemmas table_defs = update_where_def insert_or_ignore_def insert_row_def upsert_def

text \<open>
  Uniqueness constraints: the contract between a statement that rewrites rows and the constraint
  of the table. A statement that keeps the key of every row it touches keeps the key unique.
\<close>

definition unique :: "('r \<Rightarrow> 'k) \<Rightarrow> 'r list \<Rightarrow> bool" where
  "unique key rows = distinct (map key rows)"

locale key_update =
  fixes key :: "'r \<Rightarrow> 'k" and f :: "'r \<Rightarrow> 'r"
  assumes keeps_key: "key (f r) = key r"
begin

lemma unique_update: "unique key (update_where P f rows) = unique key rows"
  by (simp add: unique_def map_key_update_where keeps_key)

lemma keys_update: "key ` set (update_where P f rows) = key ` set rows"
proof -
  have "set (map key (update_where P f rows)) = set (map key rows)"
    by (simp only: map_key_update_where keeps_key)
  then show ?thesis by simp
qed

end

lemma distinct_map_filter: "distinct (map f xs) \<Longrightarrow> distinct (map f (filter P xs))"
  by (induction xs) auto

lemma unique_Nil [simp]: "unique key []"
  by (simp add: unique_def)

lemma unique_insert_or_ignore [inv_intros]: "unique key rows \<Longrightarrow> unique key (insert_or_ignore key r rows)"
  by (auto simp: unique_def insert_or_ignore_def)

lemma unique_filter [inv_intros]: "unique key rows \<Longrightarrow> unique key (filter P rows)"
  by (auto simp: unique_def distinct_map intro: inj_on_subset)

lemma unique_insert_row: "unique key rows \<Longrightarrow> insert_row key r rows = Inr rows' \<Longrightarrow> unique key rows'"
  by (auto simp: unique_def insert_row_Inr)

lemma unique_upsert:
  "(\<And>a b. key a = key b \<Longrightarrow> key (m a b) = key a) \<Longrightarrow> unique key rows \<Longrightarrow> unique key (upsert key m r rows)"
  by (auto simp: unique_def map_key_upsert)

lemma unique_same: "unique key rows \<Longrightarrow> r \<in> set rows \<Longrightarrow> s \<in> set rows \<Longrightarrow> key r = key s \<Longrightarrow> r = s"
  by (auto simp: unique_def distinct_map inj_on_def)

lemma unique_append: "unique key (xs @ [r]) \<longleftrightarrow> unique key xs \<and> key r \<notin> key ` set xs"
  by (auto simp: unique_def)

lemma unique_filter_le_1:
  assumes "unique key rows" "\<And>r. r \<in> set rows \<Longrightarrow> P r \<Longrightarrow> key r = k"
  shows "length (filter P rows) \<le> 1"
proof -
  have "distinct (map key (filter P rows))"
    using unique_filter [OF assms(1)] by (simp add: unique_def)
  moreover have "set (map key (filter P rows)) \<subseteq> {k}" using assms(2) by auto
  ultimately have "length (map key (filter P rows)) \<le> card {k}"
    by (metis card_mono distinct_card finite.emptyI finite.insertI)
  then show ?thesis by simp
qed

lemma length_filter_map_le:
  "(\<And>x. x \<in> set xs \<Longrightarrow> P (f x) \<Longrightarrow> P x) \<Longrightarrow> length (filter P (map f xs)) \<le> length (filter P xs)"
  by (induction xs) auto

lemma insert_or_ignore_filter:
  "filter P (insert_or_ignore key r rows) = filter P rows \<or>
   filter P (insert_or_ignore key r rows) = filter P rows @ (if P r then [r] else [])"
  by (simp add: insert_or_ignore_def)

subsection \<open>Lookup of the first row\<close>

lemma find_Some_in: "find P xs = Some x \<Longrightarrow> x \<in> set xs \<and> P x"
  by (induction xs) (auto split: if_splits)

lemma find_None_iff_none: "find P xs = None \<longleftrightarrow> (\<forall>x \<in> set xs. \<not> P x)"
  by (induction xs) auto

lemma find_unique:
  "unique key rows \<Longrightarrow> r \<in> set rows \<Longrightarrow> find (\<lambda>x. key x = key r) rows = Some r"
proof (induction rows)
  case (Cons a rows)
  then show ?case by (auto simp: unique_def image_iff)
qed simp

lemma find_append: "find P (xs @ ys) = (case find P xs of None \<Rightarrow> find P ys | Some x \<Rightarrow> Some x)"
  by (induction xs) auto

lemma find_cong_set: "(\<And>x. x \<in> set xs \<Longrightarrow> P x = Q x) \<Longrightarrow> find P xs = find Q xs"
  by (induction xs) auto

lemma find_key_update_where:
  "(\<And>r. key (f r) = key r) \<Longrightarrow>
   find (\<lambda>r. key r = k) (update_where P f rows) =
     map_option (\<lambda>r. if P r then f r else r) (find (\<lambda>r. key r = k) rows)"
  by (induction rows) (auto simp: update_where_def)

lemma find_map_merge:
  assumes "\<And>a. key a = c \<Longrightarrow> key (f a) = c"
  shows "find (\<lambda>x. key x = k) (map (\<lambda>old. if key old = c then f old else old) rows) =
    (if k = c then map_option f (find (\<lambda>x. key x = k) rows) else find (\<lambda>x. key x = k) rows)"
proof (induction rows)
  case (Cons a rows)
  show ?case
  proof (cases "key a = c")
    case True
    with assms [of a] Cons show ?thesis by simp
  next
    case False
    with Cons show ?thesis by (cases "k = c") simp_all
  qed
qed simp

lemma find_upsert:
  assumes "\<And>a b. key a = key b \<Longrightarrow> key (m a b) = key a"
  shows "find (\<lambda>x. key x = k) (upsert key m r rows) =
    (if k = key r then Some (case find (\<lambda>x. key x = k) rows of None \<Rightarrow> r | Some old \<Rightarrow> m old r)
     else find (\<lambda>x. key x = k) rows)"
proof (cases "key r \<in> key ` set rows")
  case True
  then obtain old where old: "find (\<lambda>x. key x = key r) rows = Some old"
    by (cases "find (\<lambda>x. key x = key r) rows") (auto simp: find_None_iff_none)
  have "find (\<lambda>x. key x = k) (upsert key m r rows) =
    (if k = key r then map_option (\<lambda>old. m old r) (find (\<lambda>x. key x = k) rows) else find (\<lambda>x. key x = k) rows)"
    unfolding upsert_def if_P [OF True] by (rule find_map_merge) (metis assms)
  with old show ?thesis by simp
next
  case False
  then have none: "find (\<lambda>x. key x = key r) rows = None"
    unfolding find_None_iff_none by (metis imageI)
  show ?thesis
  proof (cases "find (\<lambda>x. key x = k) rows")
    case None
    with False none show ?thesis by (simp add: upsert_def find_append)
  next
    case (Some x)
    with False none show ?thesis by (auto simp add: upsert_def find_append)
  qed
qed

subsection \<open>Sorting\<close>

lemma sort_key_filter: "filter P (sort_key k xs) = sort_key k (filter P xs)"
  by (rule filter_sort)

lemma sort_key_perm:
  "mset xs = mset ys \<Longrightarrow> inj_on k (set xs) \<Longrightarrow> sort_key k xs = sort_key k ys"
  by (rule sort_key_inj_key_eq) (simp_all add: mset_sort sorted_sort_key)

lemma sort_key_Nil_iff [simp]: "sort_key k xs = [] \<longleftrightarrow> xs = []"
  by (metis length_0_conv length_sort)

lemma newest_None [simp]: "newest k rows = None \<longleftrightarrow> rows = []"
proof (cases "rev (sort_key k rows)")
  case Nil
  then show ?thesis by (simp add: newest_def)
next
  case (Cons r rs)
  moreover from Cons have "rows \<noteq> []" by auto
  ultimately show ?thesis by (simp add: newest_def)
qed

lemma newest_in: "newest k rows = Some r \<Longrightarrow> r \<in> set rows"
proof -
  assume "newest k rows = Some r"
  then have "r \<in> set (rev (sort_key k rows))"
    by (cases "rev (sort_key k rows)") (simp_all add: newest_def)
  then show ?thesis by simp
qed

lemma newest_snoc:
  assumes "\<forall>x \<in> set rows. k x \<le> k r"
  shows "newest k (rows @ [r]) = Some r"
proof -
  have "sort_key k (rows @ [r]) = sort_key k rows @ [r]"
  proof (rule properties_for_sort_key)
    show "mset (sort_key k rows @ [r]) = mset (rows @ [r])" by simp
    show "filter (\<lambda>x. k x' = k x) (sort_key k rows @ [r]) = filter (\<lambda>x. k x' = k x) (rows @ [r])"
      if "x' \<in> set (sort_key k rows @ [r])" for x'
      using sort_key_stable [of k "k x'" rows] by (simp add: eq_commute)
    show "sorted (map k (sort_key k rows @ [r]))"
      using assms by (auto simp: sorted_append)
  qed
  then show ?thesis by (simp add: newest_def)
qed

lemma newest_max:
  assumes "newest k rows = Some r" and "x \<in> set rows"
  shows "k x \<le> k r"
proof -
  from assms(1) obtain rs where rs: "rev (sort_key k rows) = r # rs"
    by (cases "rev (sort_key k rows)") (auto simp: newest_def)
  then have "sort_key k rows = rev rs @ [r]" by (metis rev.simps(2) rev_rev_ident)
  moreover have "sorted (map k (sort_key k rows))" by simp
  ultimately have "\<forall>y \<in> set rs. k y \<le> k r" by (auto simp: sorted_append)
  moreover have "set rows = insert r (set rs)"
    using rs by (metis set_rev set_sort list.simps(15))
  ultimately show ?thesis using assms(2) by auto
qed

subsection \<open>Insertion-ordered dictionaries\<close>

fun setdefault_append :: "'k \<Rightarrow> 'v \<Rightarrow> ('k \<times> 'v list) list \<Rightarrow> ('k \<times> 'v list) list" where
  \<comment> \<open>\<open>d.setdefault(k, []).append(v)\<close> on an insertion-ordered dictionary\<close>
  "setdefault_append k v [] = [(k, [v])]"
| "setdefault_append k v ((k', vs) # d) =
     (if k' = k then (k', vs @ [v]) # d else (k', vs) # setdefault_append k v d)"

definition group_by :: "('v \<Rightarrow> 'k) \<Rightarrow> 'v list \<Rightarrow> ('k \<times> 'v list) list" where
  "group_by f xs = foldl (\<lambda>d x. setdefault_append (f x) x d) [] xs"

lemma map_of_setdefault_append:
  "map_of (setdefault_append k v d) k' =
     (if k' = k then Some ((case map_of d k of None \<Rightarrow> [] | Some vs \<Rightarrow> vs) @ [v]) else map_of d k')"
  by (induction k v d rule: setdefault_append.induct) auto

lemma keys_setdefault_append:
  "map fst (setdefault_append k v d) = (if k \<in> fst ` set d then map fst d else map fst d @ [k])"
  by (induction k v d rule: setdefault_append.induct) auto

lemma group_by_snoc: "group_by f (xs @ [x]) = setdefault_append (f x) x (group_by f xs)"
  by (simp add: group_by_def)

lemma map_of_group_by:
  "map_of (group_by f xs) k = (if k \<in> f ` set xs then Some (filter (\<lambda>x. f x = k) xs) else None)"
proof (induction xs rule: rev_induct)
  case Nil
  then show ?case by (simp add: group_by_def)
next
  case (snoc x xs)
  have "filter (\<lambda>y. f y = k) xs = []" if "k \<notin> f ` set xs"
    using that by (auto simp: filter_empty_conv)
  with snoc show ?case
    by (auto simp: group_by_snoc map_of_setdefault_append)
qed

lemma distinct_group_by: "distinct (map fst (group_by f xs))"
proof (induction xs rule: rev_induct)
  case Nil
  then show ?case by (simp add: group_by_def)
next
  case (snoc x xs)
  then show ?case by (auto simp: group_by_snoc keys_setdefault_append)
qed

lemma set_group_by: "(k, vs) \<in> set (group_by f xs) \<longleftrightarrow> k \<in> f ` set xs \<and> vs = filter (\<lambda>x. f x = k) xs"
proof -
  have "(k, vs) \<in> set (group_by f xs) \<longleftrightarrow> map_of (group_by f xs) k = Some vs"
    by (simp add: distinct_group_by)
  then show ?thesis by (auto simp: map_of_group_by)
qed

lemma group_by_nonempty: "(k, vs) \<in> set (group_by f xs) \<Longrightarrow> vs \<noteq> []"
  by (auto simp: set_group_by filter_empty_conv)

lemma fst_set_group_by: "fst ` set (group_by f xs) = f ` set xs"
proof -
  have "fst ` set (group_by f xs) = dom (map_of (group_by f xs))"
    by (simp add: dom_map_of_conv_image_fst)
  also have "\<dots> = f ` set xs" by (auto simp: dom_def map_of_group_by split: if_splits)
  finally show ?thesis .
qed

subsection \<open>Statements that may raise\<close>

text \<open>
  A body that may raise is a value of \<open>'e + 'a\<close>; a transaction that raises is rolled back, so
  the caller of an \<open>Inl\<close> keeps the database it had.
\<close>

fun bind_err :: "'e + 'a \<Rightarrow> ('a \<Rightarrow> 'e + 'b) \<Rightarrow> 'e + 'b" where
  "bind_err (Inl e) f = Inl e"
| "bind_err (Inr x) f = f x"

fun fold_err :: "('a \<Rightarrow> 's \<Rightarrow> 'e + 's) \<Rightarrow> 'a list \<Rightarrow> 's \<Rightarrow> 'e + 's" where
  "fold_err f [] s = Inr s"
| "fold_err f (x # xs) s = bind_err (f x s) (fold_err f xs)"

lemma bind_err_Inr: "bind_err m f = Inr y \<longleftrightarrow> (\<exists>x. m = Inr x \<and> f x = Inr y)"
  by (cases m) auto

lemma fold_err_inv:
  "(\<And>x s s'. x \<in> set xs \<Longrightarrow> I s \<Longrightarrow> f x s = Inr s' \<Longrightarrow> I s') \<Longrightarrow> I s \<Longrightarrow> fold_err f xs s = Inr s' \<Longrightarrow> I s'"
proof (induction xs arbitrary: s)
  case (Cons x xs)
  from Cons.prems(3) obtain t where t: "f x s = Inr t" "fold_err f xs t = Inr s'" by (auto simp: bind_err_Inr)
  have It: "I t" using Cons.prems(1) [of x s t] Cons.prems(2) t(1) by simp
  show ?case
  proof (rule Cons.IH [OF _ It t(2)])
    show "I b" if "y \<in> set xs" "I a" "f y a = Inr b" for y a b
      using Cons.prems(1) [of y a b] that by simp
  qed
qed simp

subsection \<open>Rounding\<close>

text \<open>\<open>round(x)\<close> rounds to the nearest integer, a half to the even one.\<close>

definition round_half_even :: "rat \<Rightarrow> int" where
  "round_half_even x =
     (let f = \<lfloor>x\<rfloor>; r = x - of_int f
      in if r < 1 / 2 then f else if 1 / 2 < r then f + 1 else if even f then f else f + 1)"

lemma round_half_even_mono_bounds:
  "of_int a \<le> x \<Longrightarrow> x \<le> of_int b \<Longrightarrow> a \<le> round_half_even x \<and> round_half_even x \<le> b"
proof -
  assume x: "of_int a \<le> x" "x \<le> of_int b"
  have fl: "a \<le> \<lfloor>x\<rfloor>" using x(1) by (simp add: le_floor_iff)
  have "\<lfloor>x\<rfloor> + 1 \<le> b" if "x - of_int \<lfloor>x\<rfloor> \<noteq> 0"
  proof -
    from that have "of_int \<lfloor>x\<rfloor> < x" using of_int_floor_le [of x] by linarith
    with x(2) have "(of_int \<lfloor>x\<rfloor> :: rat) < of_int b" by linarith
    then show ?thesis by simp
  qed
  moreover have "\<lfloor>x\<rfloor> \<le> b" using x(2) by (meson floor_le_iff le_less_trans less_add_one of_int_less_iff floor_less_iff linorder_not_less order_trans of_int_floor_le of_int_le_iff)
  ultimately show ?thesis using fl by (auto simp: round_half_even_def Let_def)
qed

end
