(* ===== verification/Timestamps.thy ===== *)
theory Timestamps
  imports Prelude
begin

text \<open>
  The database stores instants as ISO 8601 text and compares the text. Two renderings occur:
  \<open>_iso\<close> of pipeline.py, store.py and read_model.py ends in \<open>Z\<close>, \<open>_iso\<close> of repository.py ends
  in \<open>+00:00\<close>; both leave the fraction out when the microseconds are zero. The prefix up to the
  seconds has a fixed width, so its text order is the order of the whole second; what follows is
  compared character by character, as written here. \<open>_dt\<close> reads either text back.
\<close>

subsection \<open>The stored text\<close>

datatype stamp = StampZ datetime | StampP datetime

fun dt_of :: "stamp \<Rightarrow> datetime" where
  "dt_of (StampZ t) = t"
| "dt_of (StampP t) = t"

definition iso_z :: "datetime option \<Rightarrow> stamp option" where
  "iso_z value = map_option StampZ value"

definition iso_p :: "datetime option \<Rightarrow> stamp option" where
  "iso_p value = map_option StampP value"

definition dt :: "stamp option \<Rightarrow> datetime option" where
  "dt value = map_option dt_of value"

fun digits :: "nat \<Rightarrow> nat \<Rightarrow> nat list" where
  \<comment> \<open>the character codes of a number zero-padded to the given width\<close>
  "digits 0 u = []"
| "digits (Suc k) u = (48 + u div 10 ^ k) # digits k (u mod 10 ^ k)"

definition fraction_text :: "datetime \<Rightarrow> nat list" where
  "fraction_text t = (if t mod second = 0 then [] else 46 # digits 6 (nat (t mod second)))"

fun tail_text :: "stamp \<Rightarrow> nat list" where
  "tail_text (StampZ t) = fraction_text t @ [90]"
| "tail_text (StampP t) = fraction_text t @ [43, 48, 48, 58, 48, 48]"

definition stamp_key :: "stamp \<Rightarrow> int \<times> nat list" where
  "stamp_key s = (dt_of s div second, tail_text s)"

subsection \<open>Text order of padded numbers\<close>

lemma length_digits [simp]: "length (digits k u) = k"
  by (induction k arbitrary: u) auto

lemma digits_less_iff: "u < 10 ^ k \<Longrightarrow> v < 10 ^ k \<Longrightarrow> digits k u < digits k v \<longleftrightarrow> u < v"
proof (induction k arbitrary: u v)
  case (Suc k)
  have IH: "digits k (u mod 10 ^ k) < digits k (v mod 10 ^ k) \<longleftrightarrow> u mod 10 ^ k < v mod 10 ^ k"
    by (rule Suc.IH) simp_all
  have cmp: "u < v \<longleftrightarrow> u div 10 ^ k < v div 10 ^ k \<or> u div 10 ^ k = v div 10 ^ k \<and> u mod 10 ^ k < v mod 10 ^ k"
    by (rule div_mod_less_nat) simp
  show ?case by (simp add: IH cmp)
qed simp

lemma digits_inj: "u < 10 ^ k \<Longrightarrow> v < 10 ^ k \<Longrightarrow> digits k u = digits k v \<longleftrightarrow> u = v"
  by (metis digits_less_iff less_irrefl linorder_less_linear)

lemma append_less_append:
  fixes xs ys s t :: "nat list"
  shows "length xs = length ys \<Longrightarrow> xs @ s < ys @ t \<longleftrightarrow> xs < ys \<or> xs = ys \<and> s < t"
  by (induction xs ys rule: list_induct2) auto

lemma second_pos [simp]: "0 < second"
  by (simp add: second_def)

lemma micros_ge [simp]: "0 \<le> t mod second"
  by simp

lemma micros_pos: "0 < t mod second \<longleftrightarrow> t mod second \<noteq> 0"
  using micros_ge [of t] by linarith

lemma micros_not_neg [simp]: "\<not> t mod second < 0"
  using micros_ge [of t] by linarith

lemma micros_bound: "nat (t mod second) < 10 ^ 6"
  by (simp add: second_def nat_less_iff)

lemma micros_inj: "nat (t mod second) = nat (u mod second) \<longleftrightarrow> t mod second = u mod second"
  by (simp only: eq_nat_nat_iff micros_ge)

lemma micros_less: "nat (t mod second) < nat (u mod second) \<longleftrightarrow> t mod second < u mod second"
  by (simp only: nat_less_eq_zless micros_ge)

lemmas micros_digits = digits_less_iff [OF micros_bound micros_bound] digits_inj [OF micros_bound micros_bound]

lemma fraction_eq_iff: "fraction_text t = fraction_text u \<longleftrightarrow> t mod second = u mod second"
  by (simp add: fraction_text_def micros_digits micros_inj del: digits.simps)

lemma second_split: "t div second = u div second \<Longrightarrow> t mod second = u mod second \<Longrightarrow> t = u"
  by (metis div_mult_mod_eq)

lemma second_later [simp]: "(t + second) div second = t div second + 1"
  by (simp add: second_def)

lemmas second_less = div_mod_less [OF second_pos]

subsection \<open>The text order is a linear order on the stored texts\<close>

lemma stamp_key_inj: "stamp_key a = stamp_key b \<longleftrightarrow> a = b"
proof
  assume eq: "stamp_key a = stamp_key b"
  have ends: "last (tail_text s) = (case s of StampZ _ \<Rightarrow> 90 | StampP _ \<Rightarrow> 48)" for s
    by (cases s) simp_all
  from eq have "tail_text a = tail_text b" and d: "dt_of a div second = dt_of b div second"
    by (simp_all add: stamp_key_def)
  then show "a = b"
    using ends [of a] ends [of b]
    by (cases a; cases b) (auto simp: fraction_eq_iff intro: second_split)
qed simp

instantiation stamp :: linorder
begin

definition less_eq_stamp :: "stamp \<Rightarrow> stamp \<Rightarrow> bool" where
  "a \<le> b \<longleftrightarrow> stamp_key a \<le> stamp_key b"

definition less_stamp :: "stamp \<Rightarrow> stamp \<Rightarrow> bool" where
  "a < b \<longleftrightarrow> stamp_key a < stamp_key b"

instance
proof
  fix x y z :: stamp
  show "x < y \<longleftrightarrow> x \<le> y \<and> \<not> y \<le> x"
    by (auto simp: less_eq_stamp_def less_stamp_def)
  show "x \<le> x" by (simp add: less_eq_stamp_def)
  show "x \<le> y \<Longrightarrow> y \<le> z \<Longrightarrow> x \<le> z" by (simp add: less_eq_stamp_def)
  show "x \<le> y \<Longrightarrow> y \<le> x \<Longrightarrow> x = y"
    by (metis antisym less_eq_stamp_def stamp_key_inj)
  show "x \<le> y \<or> y \<le> x" by (auto simp: less_eq_stamp_def)
qed

end

subsection \<open>What the text comparisons mean for the instants\<close>

lemma stampp_less_iff [simp]: "StampP t < StampP u \<longleftrightarrow> t < u"
proof -
  have "fraction_text t @ [43, 48, 48, 58, 48, 48] < fraction_text u @ [43, 48, 48, 58, 48, 48] \<longleftrightarrow>
    t mod second < u mod second"
    by (auto simp add: fraction_text_def append_less_append micros_digits micros_less micros_pos simp del: digits.simps)
  then show ?thesis
    by (auto simp add: less_stamp_def stamp_key_def second_less [of t u])
qed

lemma stampp_le_iff [simp]: "StampP t \<le> StampP u \<longleftrightarrow> t \<le> u"
  by (metis linorder_not_le stampp_less_iff)

text \<open>
  In the \<open>Z\<close> rendering a whole second sorts after every fraction of the same second, because the
  full stop precedes the letter: the rank of the microseconds is theirs, with zero last.
\<close>

definition z_rank :: "datetime \<Rightarrow> int" where
  "z_rank t = (if t mod second = 0 then second else t mod second)"

lemma micros_top: "t mod second < second"
  by simp

lemma not_second_less [simp]: "\<not> second < t mod second"
  using micros_top [of t] by linarith

lemma stampz_less_iff:
  "StampZ t < StampZ u \<longleftrightarrow> t div second < u div second \<or> t div second = u div second \<and> z_rank t < z_rank u"
proof -
  have "fraction_text t @ [90] < fraction_text u @ [90] \<longleftrightarrow> z_rank t < z_rank u"
    by (auto simp add: fraction_text_def z_rank_def append_less_append micros_digits micros_less micros_top micros_pos
        simp del: digits.simps)
  then show ?thesis by (auto simp add: less_stamp_def stamp_key_def)
qed

lemma stampz_le_iff:
  "StampZ t \<le> StampZ u \<longleftrightarrow> t div second < u div second \<or> t div second = u div second \<and> z_rank t \<le> z_rank u"
  by (metis linorder_not_le stampz_less_iff not_less_iff_gr_or_eq)

text \<open>
  The text order is off by less than a second: texts in order are instants at most a second out
  of order, and instants a second or more apart are ordered as they should be.
\<close>

lemma stampz_le_sound: "StampZ t \<le> StampZ u \<Longrightarrow> t < u + second"
proof -
  assume "StampZ t \<le> StampZ u"
  then have "t div second < (u + second) div second" by (auto simp: stampz_le_iff)
  then show ?thesis by (simp add: second_less [of t])
qed

lemma stampz_less_sound: "StampZ t < StampZ u \<Longrightarrow> t < u + second"
  by (rule stampz_le_sound) simp

lemma stampz_le_complete: "t + second \<le> u \<Longrightarrow> StampZ t < StampZ u"
proof -
  assume "t + second \<le> u"
  then have "(t + second) div second \<le> u div second" by (rule zdiv_mono1) simp
  then show ?thesis by (auto simp: stampz_less_iff)
qed

lemma stampz_whole_le:
  "t mod second = 0 \<Longrightarrow> u mod second = 0 \<Longrightarrow> StampZ t \<le> StampZ u \<longleftrightarrow> t \<le> u"
  by (simp only: linorder_not_less [symmetric] stampz_less_iff z_rank_def second_less [of u t] if_True if_False simp_thms less_irrefl)

lemma stampz_fraction_le:
  "t mod second \<noteq> 0 \<Longrightarrow> u mod second \<noteq> 0 \<Longrightarrow> StampZ t \<le> StampZ u \<longleftrightarrow> t \<le> u"
  by (simp only: linorder_not_less [symmetric] stampz_less_iff z_rank_def second_less [of u t] if_True if_False simp_thms less_irrefl)

lemma dt_iso_z [simp]: "dt (iso_z t) = t"
  by (cases t) (simp_all add: dt_def iso_z_def)

lemma dt_iso_p [simp]: "dt (iso_p t) = t"
  by (cases t) (simp_all add: dt_def iso_p_def)

end
