(* ===== verification/Json.thy ===== *)
theory Json
  imports Prelude
begin

text \<open>
  JSON documents as the standard library parses them: the metrics column of observations, the
  helper's answer, log details. A dictionary is an association list whose first entry for a key is
  its value. \<open>truthy\<close> is the truth value of a Python object, \<open>jget\<close> is \<open>dict.get\<close> with no default.
\<close>

datatype json =
    JNull
  | JBool bool
  | JInt int
  | JFloat rat
  | JStr string
  | JArr "json list"
  | JObj "(string \<times> json) list"

fun truthy :: "json \<Rightarrow> bool" where
  "truthy JNull = False"
| "truthy (JBool b) = b"
| "truthy (JInt i) = (i \<noteq> 0)"
| "truthy (JFloat x) = (x \<noteq> 0)"
| "truthy (JStr s) = (s \<noteq> [])"
| "truthy (JArr xs) = (xs \<noteq> [])"
| "truthy (JObj kvs) = (kvs \<noteq> [])"

type_synonym jdict = "(string \<times> json) list"

definition jget :: "jdict \<Rightarrow> string \<Rightarrow> json" where
  "jget d k = (case map_of d k of None \<Rightarrow> JNull | Some v \<Rightarrow> v)"

fun as_dict :: "json \<Rightarrow> jdict" where
  \<comment> \<open>\<open>value or {}\<close> for a value that is used as a dictionary\<close>
  "as_dict (JObj d) = d"
| "as_dict _ = []"

fun as_list :: "json \<Rightarrow> json list" where
  \<comment> \<open>\<open>value or []\<close> for a value that is iterated over\<close>
  "as_list (JArr xs) = xs"
| "as_list _ = []"

fun is_dict :: "json \<Rightarrow> bool" where
  "is_dict (JObj d) = True"
| "is_dict _ = False"

fun as_bool :: "json \<Rightarrow> bool option" where
  \<comment> \<open>the three-valued reading \<open>is True\<close> / \<open>is False\<close> / neither\<close>
  "as_bool (JBool b) = Some b"
| "as_bool _ = None"

fun as_str :: "json \<Rightarrow> string option" where
  "as_str (JStr s) = Some s"
| "as_str _ = None"

fun as_num :: "json \<Rightarrow> rat option" where
  \<comment> \<open>a JSON number; a boolean is not one\<close>
  "as_num (JInt i) = Some (of_int i)"
| "as_num (JFloat x) = Some x"
| "as_num _ = None"

definition jopt :: "('a \<Rightarrow> json) \<Rightarrow> 'a option \<Rightarrow> json" where
  "jopt f v = (case v of None \<Rightarrow> JNull | Some x \<Rightarrow> f x)"

text \<open>A text column that should hold JSON: \<open>None\<close> is text that does not parse.\<close>

type_synonym jtext = "json option"

definition loads_or_empty :: "jtext \<Rightarrow> jdict" where
  "loads_or_empty t = (case t of None \<Rightarrow> [] | Some j \<Rightarrow> as_dict j)"

lemma jget_Nil [simp]: "jget [] k = JNull"
  by (simp add: jget_def)

lemma jget_Cons [simp]: "jget ((k, v) # d) k' = (if k' = k then v else jget d k')"
  by (simp add: jget_def)

lemma as_bool_jopt [simp]: "as_bool (jopt JBool b) = b"
  by (cases b) (simp_all add: jopt_def)

lemma loads_Some [simp]: "loads_or_empty (Some (JObj d)) = d"
  by (simp add: loads_or_empty_def)

end
