(* ===== verification/Domain.thy ===== *)
theory Domain
  imports Prelude
begin

text \<open>
  The domain model (src/src/vpnpulse/domain/models.py): the four states, an observation, the
  evaluation of a scope and a candidate for the recommendation. The coverage and the load are
  exact rationals where the source has floats.
\<close>

datatype state = Operational | Degraded | Unavailable | Unknown

datatype observation_result = Success | Failure | NotRun

record observation =
  obs_source :: string
  obs_result :: observation_result
  obs_observed_at :: datetime
  obs_fresh_until :: datetime
  obs_full_vpn_test :: bool
  obs_control_internet_ok :: "bool option"
  obs_reason_code :: "string option"
  obs_route_verified :: "bool option"

record evaluation =
  ev_state :: state
  ev_reason_code :: string
  ev_observed_at :: "datetime option"
  ev_fresh_until :: "datetime option"
  ev_evidence_count :: nat
  ev_coverage :: rat

record server_candidate =
  cand_server_id :: string
  cand_evaluation :: evaluation
  cand_load_score :: "rat option"
  cand_complete :: bool
  cand_priority :: int

fun state_value :: "state \<Rightarrow> string" where
  "state_value Operational = ''operational''"
| "state_value Degraded = ''degraded''"
| "state_value Unavailable = ''unavailable''"
| "state_value Unknown = ''unknown''"

fun result_value :: "observation_result \<Rightarrow> string" where
  "result_value Success = ''success''"
| "result_value Failure = ''failure''"
| "result_value NotRun = ''not_run''"

definition parse_result :: "string \<Rightarrow> observation_result option" where
  \<comment> \<open>\<open>ObservationResult(text)\<close>; \<open>None\<close> is the ValueError\<close>
  "parse_result s =
     (if s = ''success'' then Some Success else if s = ''failure'' then Some Failure
      else if s = ''not_run'' then Some NotRun else None)"

definition parse_state :: "string \<Rightarrow> state option" where
  "parse_state s =
     (if s = ''operational'' then Some Operational else if s = ''degraded'' then Some Degraded
      else if s = ''unavailable'' then Some Unavailable else if s = ''unknown'' then Some Unknown else None)"

lemma parse_result_value [simp]: "parse_result (result_value r) = Some r"
  by (cases r) (simp_all add: parse_result_def)

lemma parse_state_value [simp]: "parse_state (state_value s) = Some s"
  by (cases s) (simp_all add: parse_state_def)

lemma state_value_inj [simp]: "state_value a = state_value b \<longleftrightarrow> a = b"
  by (cases a; cases b) simp_all

end
