(* ===== verification/Database.thy ===== *)
theory Database
  imports Timestamps Json Domain
begin

text \<open>
  The tables of src/migrations (0001_initial.sql, 0002_probe_via_server.sql) as the Python code
  uses them: one record per row type, one list per table, and the database as a record of tables.
  A text column that holds an instant is a \<open>stamp\<close>, a JSON column a \<open>json\<close> value or the record it
  serialises, a CHECK-ed integer flag a bool.

  Identifiers and digests are symbolic: \<open>Uuid5\<close> is the name-based identifier of a namespace and
  the parts of the formatted name, \<open>Uuid4\<close> and the token arguments of the operations are the random
  values the environment supplies, \<open>Sha\<close> is SHA-256. Equal inputs give equal values and, as with
  the hashes they stand for, different inputs are taken to give different values.
\<close>

subsection \<open>Identifiers and digests\<close>

datatype uid = Uuid4 string | Uuid5 string "key_part list"
and key_part = KStr string | KNat nat | KTime "stamp option" | KUid uid

text \<open>
  The payload of a probe report (\<open>ProbeReportInput\<close> of api/app.py, dumped to JSON). The hash of the
  serialised payload is a function of the payload that no two payloads share.
\<close>

record report_item =
  ri_target_id :: string
  ri_check :: string
  ri_result :: string
  ri_duration_ms :: "int option"
  ri_not_run_reason :: "string option"
  ri_error_code :: "string option"

record report =
  rp_report_id :: string
  rp_schema_version :: int
  rp_agent_version :: string
  rp_observed_at :: datetime
  rp_network_type :: string
  rp_ip_family :: string
  rp_route_verified :: bool
  rp_results :: "report_item list"

datatype digest = Sha string | ShaReport report | ScriptToken

subsection \<open>Rows\<close>

record server_row =
  srv_id :: string
  srv_public_id :: string
  srv_type :: string
  srv_enabled :: bool
  srv_display_order :: nat
  srv_created_at :: stamp
  srv_updated_at :: stamp

record protocol_row =
  pr_id :: string
  pr_server_id :: string
  pr_kind :: string
  pr_label_key :: string
  pr_enabled :: bool
  pr_coverage_state :: string
  pr_created_at :: stamp
  pr_updated_at :: stamp

record probe_row =
  pb_id :: string
  pb_public_id :: string
  pb_kind :: string
  pb_status :: string
  pb_capabilities :: "string list"
  pb_token_hash :: digest
  pb_token_prefix :: string
  pb_schema_major :: int
  pb_agent_version :: string
  pb_enrolled_at :: stamp
  pb_last_seen_at :: "stamp option"
  pb_revoked_at :: "stamp option"
  pb_via_server_id :: "string option"

record run_row =
  run_id :: uid
  run_started_at :: stamp
  run_finished_at :: "stamp option"
  run_result :: "string option"
  run_trace_id :: string
  run_duration_ms :: "int option"
  run_error_code :: "string option"

record report_row =
  rep_id :: string
  rep_probe_id :: string
  rep_schema_version :: int
  rep_agent_version :: string
  rep_observed_at :: stamp
  rep_received_at :: stamp
  rep_network_type :: string
  rep_ip_family :: string
  rep_route_verified :: bool
  rep_payload_hash :: digest
  rep_result :: string
  rep_not_run_reason :: "string option"

record observation_row =
  ob_id :: uid
  ob_server_id :: string
  ob_source_kind :: string
  ob_network_scope :: string
  ob_observed_at :: stamp
  ob_received_at :: stamp
  ob_result :: string
  ob_fresh_until :: stamp
  ob_confidence :: string
  ob_metrics :: jtext
  ob_error_code :: "string option"
  ob_run_id :: "uid option"
  ob_report_id :: "string option"

record metric_row =
  mt_bucket_at :: stamp
  mt_server_id :: string
  mt_protocol_id :: string
  mt_metric :: string
  mt_min :: rat
  mt_max :: rat
  mt_avg :: rat
  mt_samples :: nat
  mt_unknown_seconds :: int

record snapshot_row =
  sn_scope_key :: string
  sn_server_id :: string
  sn_network_scope :: string
  sn_state :: state
  sn_reason_code :: string
  sn_confidence :: string
  sn_observed_at :: "stamp option"
  sn_evaluated_at :: stamp
  sn_fresh_until :: "stamp option"
  sn_evidence :: "nat \<times> rat"
  sn_version :: int

record transition_row =
  tr_id :: uid
  tr_scope_key :: string
  tr_from_state :: state
  tr_to_state :: state
  tr_reason_code :: string
  tr_opened_at :: stamp
  tr_confirmed_at :: stamp
  tr_closed_at :: "stamp option"
  tr_dedupe_key :: uid
  tr_evidence :: "nat \<times> rat"

record event_row =
  evt_id :: uid
  evt_kind :: string
  evt_severity :: string
  evt_server_id :: "string option"
  evt_transition_id :: "uid option"
  evt_title_key :: string
  evt_params :: jdict
  evt_occurred_at :: stamp
  evt_visible_to :: string
  evt_created_at :: stamp

record note_row =
  nt_id :: uid
  nt_server_id :: "string option"
  nt_text :: string
  nt_status :: string
  nt_starts_at :: stamp
  nt_expires_at :: "stamp option"
  nt_created_by_role :: string
  nt_created_at :: stamp
  nt_updated_at :: stamp

datatype queue_state = Pending | Sent | Failed | Superseded

record queue_params =
  qp_server_id :: string
  qp_scope_key :: string
  qp_state :: state
  qp_from_state :: state

record queue_row =
  q_id :: uid
  q_transition_id :: uid
  q_destination :: string
  q_template_key :: string
  q_params :: queue_params
  q_state :: queue_state
  q_attempts :: int
  q_next_attempt_at :: stamp
  q_sent_at :: "stamp option"
  q_last_error_code :: "string option"
  q_dedupe_key :: uid
  q_created_at :: stamp

record session_row =
  ses_id_hash :: digest
  ses_role :: string
  ses_telegram_user_hash :: digest
  ses_created_at :: stamp
  ses_expires_at :: stamp
  ses_last_membership_check_at :: stamp
  ses_revoked_at :: "stamp option"

record enrollment_row =
  en_code_hash :: digest
  en_kind :: string
  en_capabilities :: "string list"
  en_expires_at :: stamp
  en_used_at :: "stamp option"
  en_created_by_hash :: digest
  en_created_at :: stamp
  en_via_server_id :: "string option"

record product_event_row =
  pe_event_id :: string
  pe_name :: string
  pe_occurred_at :: string
  pe_received_at :: stamp
  pe_session_id :: string
  pe_surface :: string
  pe_schema_version :: int
  pe_properties :: json
  pe_expires_at :: stamp

record audit_row =
  au_id :: uid
  au_actor_hash :: digest
  au_actor_role :: string
  au_action :: string
  au_target_type :: string
  au_target_public_id :: string
  au_result :: string
  au_occurred_at :: stamp
  au_trace_id :: string
  au_details :: jdict

subsection \<open>The database\<close>

record db =
  db_servers :: "server_row list"
  db_protocols :: "protocol_row list"
  db_probes :: "probe_row list"
  db_runs :: "run_row list"
  db_reports :: "report_row list"
  db_observations :: "observation_row list"
  db_metrics :: "metric_row list"
  db_snapshots :: "snapshot_row list"
  db_transitions :: "transition_row list"
  db_events :: "event_row list"
  db_notes :: "note_row list"
  db_queue :: "queue_row list"
  db_sessions :: "session_row list"
  db_enrollments :: "enrollment_row list"
  db_product_events :: "product_event_row list"
  db_audit :: "audit_row list"

definition empty_db :: db where
  \<comment> \<open>the database after the migrations\<close>
  "empty_db = \<lparr>db_servers = [], db_protocols = [], db_probes = [], db_runs = [], db_reports = [],
     db_observations = [], db_metrics = [], db_snapshots = [], db_transitions = [], db_events = [],
     db_notes = [], db_queue = [], db_sessions = [], db_enrollments = [], db_product_events = [], db_audit = []\<rparr>"

text \<open>The ids of the servers table, which reports and collections filter by.\<close>

definition known_servers :: "db \<Rightarrow> string set" where
  "known_servers d = set (map srv_id (db_servers d))"

end
