(* ===== verification/Repository.thy ===== *)
theory Repository
  imports Database
begin

text \<open>
  State snapshots, transitions and what is queued about them (\<open>notification_for\<close> and
  \<open>StateRepository\<close> in src/src/vpnpulse/storage/repository.py).
\<close>

subsection \<open>Who hears about a transition\<close>

definition MAX_ATTEMPTS :: int where "MAX_ATTEMPTS = 20"

definition QUIET_TEMPLATES :: "string list" where
  "QUIET_TEMPLATES = [''bot.degraded'', ''bot.unknown'']"

definition FLAP_NOTICE_AFTER :: nat where "FLAP_NOTICE_AFTER = 6"

definition notification_for :: "state \<Rightarrow> state \<Rightarrow> bool \<Rightarrow> (string \<times> string) option" where
  "notification_for previous current group_alerted =
     (if current = Unavailable then Some (if group_alerted then ''admin'' else ''group'', ''bot.unavailable'')
      else if current = Operational \<and> group_alerted then Some (''group'', ''bot.recovered'')
      else if current = Degraded then Some (''admin'', ''bot.degraded'')
      else if current = Unknown then Some (''admin'', ''bot.unknown'')
      else if current = Operational \<and> previous \<noteq> Unknown then Some (''admin'', ''bot.recovered'')
      else None)"

subsection \<open>Queries\<close>

definition in_scope :: "db \<Rightarrow> string \<Rightarrow> queue_row \<Rightarrow> bool" where
  \<comment> \<open>JOIN state_transitions t ON t.id = q.transition_id WHERE t.scope_key = scope_key\<close>
  "in_scope d scope_key q \<longleftrightarrow>
     list_ex (\<lambda>t. tr_id t = q_transition_id q \<and> tr_scope_key t = scope_key) (db_transitions d)"

definition pending_admin_notices :: "db \<Rightarrow> string \<Rightarrow> queue_row list" where
  "pending_admin_notices d scope_key =
     filter (\<lambda>q. in_scope d scope_key q \<and> q_destination q = ''admin'' \<and> q_state q = Pending) (db_queue d)"

definition dropped_notices :: "db \<Rightarrow> string \<Rightarrow> datetime \<Rightarrow> nat" where
  "dropped_notices d scope_key since =
     count_where (\<lambda>q. in_scope d scope_key q \<and> q_destination q = ''admin'' \<and> q_state q = Superseded \<and>
       StampP since \<le> q_created_at q) (db_queue d)"

definition group_messages :: "db \<Rightarrow> string \<Rightarrow> queue_row list" where
  \<comment> \<open>what the group was told about the scope or is about to be told\<close>
  "group_messages d scope_key =
     filter (\<lambda>q. in_scope d scope_key q \<and> q_destination q = ''group'' \<and> q_state q \<in> {Pending, Sent}) (db_queue d)"

definition group_alerted :: "db \<Rightarrow> string \<Rightarrow> bool" where
  "group_alerted d scope_key =
     (case newest q_created_at (group_messages d scope_key) of
        None \<Rightarrow> False
      | Some row \<Rightarrow> q_template_key row = ''bot.unavailable'')"

definition snapshot_row_of :: "db \<Rightarrow> string \<Rightarrow> snapshot_row option" where
  "snapshot_row_of d scope_key = find (\<lambda>r. sn_scope_key r = scope_key) (db_snapshots d)"

definition previous_state :: "db \<Rightarrow> string \<Rightarrow> state" where
  "previous_state d scope_key = (case snapshot_row_of d scope_key of None \<Rightarrow> Unknown | Some r \<Rightarrow> sn_state r)"

subsection \<open>Saving an evaluation\<close>

definition dedupe_key_of :: "string \<Rightarrow> state \<Rightarrow> state \<Rightarrow> datetime option \<Rightarrow> uid" where
  "dedupe_key_of scope_key previous current observed_at =
     Uuid5 ''url'' [KStr scope_key, KStr (state_value previous), KStr (state_value current), KTime (iso_p observed_at)]"

definition transition_id_of :: "uid \<Rightarrow> uid" where
  "transition_id_of dedupe_key = Uuid5 ''url'' [KStr ''transition'', KUid dedupe_key]"

definition notification_id_of :: "uid \<Rightarrow> uid" where
  "notification_id_of dedupe_key = Uuid5 ''url'' [KStr ''notification'', KUid dedupe_key]"

definition merge_snapshot :: "snapshot_row \<Rightarrow> snapshot_row \<Rightarrow> snapshot_row" where
  \<comment> \<open>the DO UPDATE SET list: scope, server, protocol and network stay\<close>
  "merge_snapshot old excluded =
     old\<lparr>sn_state := sn_state excluded, sn_reason_code := sn_reason_code excluded, sn_confidence := sn_confidence excluded,
         sn_observed_at := sn_observed_at excluded, sn_evaluated_at := sn_evaluated_at excluded,
         sn_fresh_until := sn_fresh_until excluded, sn_evidence := sn_evidence excluded, sn_version := sn_version excluded\<rparr>"

definition write_snapshot :: "db \<Rightarrow> string \<Rightarrow> string \<Rightarrow> string \<Rightarrow> evaluation \<Rightarrow> datetime \<Rightarrow> db" where
  "write_snapshot d scope_key server_id network_scope evaluation evaluated_at =
     (let version = (case snapshot_row_of d scope_key of None \<Rightarrow> 1 | Some r \<Rightarrow> sn_version r + 1);
          row = \<lparr>sn_scope_key = scope_key, sn_server_id = server_id, sn_network_scope = network_scope,
                 sn_state = ev_state evaluation, sn_reason_code = ev_reason_code evaluation,
                 sn_confidence = (if 1 \<le> ev_coverage evaluation then ''sufficient'' else ''partial''),
                 sn_observed_at = iso_p (ev_observed_at evaluation), sn_evaluated_at = StampP evaluated_at,
                 sn_fresh_until = iso_p (ev_fresh_until evaluation),
                 sn_evidence = (ev_evidence_count evaluation, ev_coverage evaluation), sn_version = version\<rparr>
      in d\<lparr>db_snapshots := upsert sn_scope_key merge_snapshot row (db_snapshots d)\<rparr>)"

definition write_transition :: "db \<Rightarrow> string \<Rightarrow> state \<Rightarrow> evaluation \<Rightarrow> datetime \<Rightarrow> uid \<Rightarrow> db" where
  \<comment> \<open>INSERT OR IGNORE of the transition (its id is a function of the dedupe key, so both
      uniqueness constraints agree), then closing every other open transition of the scope\<close>
  "write_transition d scope_key previous evaluation evaluated_at dedupe =
     (let tid = transition_id_of dedupe;
          row = \<lparr>tr_id = tid, tr_scope_key = scope_key, tr_from_state = previous, tr_to_state = ev_state evaluation,
                 tr_reason_code = ev_reason_code evaluation, tr_opened_at = StampP evaluated_at,
                 tr_confirmed_at = StampP evaluated_at, tr_closed_at = None, tr_dedupe_key = dedupe,
                 tr_evidence = (ev_evidence_count evaluation, ev_coverage evaluation)\<rparr>
      in d\<lparr>db_transitions :=
             update_where (\<lambda>t. tr_scope_key t = scope_key \<and> tr_closed_at t = None \<and> tr_id t \<noteq> tid)
               (\<lambda>t. t\<lparr>tr_closed_at := Some (StampP evaluated_at)\<rparr>)
               (insert_or_ignore tr_id row (db_transitions d))\<rparr>)"

definition supersede :: "uid list \<Rightarrow> queue_row list \<Rightarrow> queue_row list" where
  "supersede ids queue =
     foldl (\<lambda>rows nid. update_where (\<lambda>q. q_id q = nid) (\<lambda>q. q\<lparr>q_state := Superseded\<rparr>) rows) queue ids"

definition delivery_plan :: "int \<Rightarrow> db \<Rightarrow> string \<Rightarrow> state \<Rightarrow> state \<Rightarrow> bool \<Rightarrow> datetime \<Rightarrow> ((string \<times> string) \<times> datetime) option" where
  \<comment> \<open>destination, template and the instant the message becomes due; \<open>waiting\<close> says an
      administrator's notice of the scope has just been superseded\<close>
  "delivery_plan quiet_seconds d scope_key previous current waiting evaluated_at =
     (case notification_for previous current (group_alerted d scope_key) of
        None \<Rightarrow> None
      | Some (destination, template) \<Rightarrow>
          if destination = ''admin'' then
            if template = ''bot.recovered'' \<and> waiting then None
            else if template \<in> set QUIET_TEMPLATES then
              (if FLAP_NOTICE_AFTER \<le> dropped_notices d scope_key (evaluated_at - hours 1)
               then Some ((destination, template), evaluated_at)
               else Some ((destination, template), evaluated_at + seconds quiet_seconds))
            else Some ((destination, template), evaluated_at)
          else Some ((destination, template), evaluated_at))"

definition enqueue :: "queue_row list \<Rightarrow> uid \<Rightarrow> string \<Rightarrow> string \<Rightarrow> state \<Rightarrow> state \<Rightarrow> (string \<times> string) \<times> datetime \<Rightarrow> datetime \<Rightarrow> queue_row list" where
  "enqueue queue dedupe server_id scope_key previous current plan evaluated_at =
     insert_or_ignore q_id
       \<lparr>q_id = notification_id_of dedupe, q_transition_id = transition_id_of dedupe,
        q_destination = fst (fst plan), q_template_key = snd (fst plan),
        q_params = \<lparr>qp_server_id = server_id, qp_scope_key = scope_key, qp_state = current, qp_from_state = previous\<rparr>,
        q_state = Pending, q_attempts = 0, q_next_attempt_at = StampP (snd plan), q_sent_at = None,
        q_last_error_code = None, q_dedupe_key = dedupe, q_created_at = StampP evaluated_at\<rparr>
       queue"

definition save_evaluation :: "int \<Rightarrow> db \<Rightarrow> string \<Rightarrow> string \<Rightarrow> string \<Rightarrow> evaluation \<Rightarrow> datetime \<Rightarrow> uid option \<times> db" where
  "save_evaluation quiet_seconds d scope_key server_id network_scope evaluation evaluated_at =
     (let previous = previous_state d scope_key;
          d1 = write_snapshot d scope_key server_id network_scope evaluation evaluated_at
      in if ev_state evaluation = previous then (None, d1)
         else
           let dedupe = dedupe_key_of scope_key previous (ev_state evaluation) (ev_observed_at evaluation);
               d2 = write_transition d1 scope_key previous evaluation evaluated_at dedupe;
               waiting = pending_admin_notices d2 scope_key;
               d3 = d2\<lparr>db_queue := supersede (map q_id waiting) (db_queue d2)\<rparr>;
               d4 = (case delivery_plan quiet_seconds d3 scope_key previous (ev_state evaluation) (waiting \<noteq> []) evaluated_at of
                       None \<Rightarrow> d3
                     | Some plan \<Rightarrow>
                         d3\<lparr>db_queue := enqueue (db_queue d3) dedupe server_id scope_key previous (ev_state evaluation) plan evaluated_at\<rparr>)
           in (Some (transition_id_of dedupe), d4))"

subsection \<open>The snapshot is a map from scopes to states\<close>

lemma merge_snapshot_key: "sn_scope_key a = sn_scope_key b \<Longrightarrow> sn_scope_key (merge_snapshot a b) = sn_scope_key a"
  by (simp add: merge_snapshot_def)

lemma snapshot_row_of_write:
  "snapshot_row_of (write_snapshot d scope_key server_id network_scope evaluation evaluated_at) s =
     (if s = scope_key then
        Some \<lparr>sn_scope_key = scope_key,
          sn_server_id = (case snapshot_row_of d scope_key of None \<Rightarrow> server_id | Some r \<Rightarrow> sn_server_id r),
          sn_network_scope = (case snapshot_row_of d scope_key of None \<Rightarrow> network_scope | Some r \<Rightarrow> sn_network_scope r),
          sn_state = ev_state evaluation, sn_reason_code = ev_reason_code evaluation,
          sn_confidence = (if 1 \<le> ev_coverage evaluation then ''sufficient'' else ''partial''),
          sn_observed_at = iso_p (ev_observed_at evaluation), sn_evaluated_at = StampP evaluated_at,
          sn_fresh_until = iso_p (ev_fresh_until evaluation),
          sn_evidence = (ev_evidence_count evaluation, ev_coverage evaluation),
          sn_version = (case snapshot_row_of d scope_key of None \<Rightarrow> 1 | Some r \<Rightarrow> sn_version r + 1)\<rparr>
      else snapshot_row_of d s)"
  by (auto simp: snapshot_row_of_def write_snapshot_def Let_def merge_snapshot_def
      find_upsert [where key = sn_scope_key and m = merge_snapshot, OF merge_snapshot_key]
      split: option.split dest: find_Some_in)

lemma write_transition_table:
  "db_transitions (write_transition d scope_key previous evaluation evaluated_at dedupe) =
     update_where (\<lambda>t. tr_scope_key t = scope_key \<and> tr_closed_at t = None \<and> tr_id t \<noteq> transition_id_of dedupe)
       (\<lambda>t. t\<lparr>tr_closed_at := Some (StampP evaluated_at)\<rparr>)
       (insert_or_ignore tr_id
          \<lparr>tr_id = transition_id_of dedupe, tr_scope_key = scope_key, tr_from_state = previous,
           tr_to_state = ev_state evaluation, tr_reason_code = ev_reason_code evaluation,
           tr_opened_at = StampP evaluated_at, tr_confirmed_at = StampP evaluated_at, tr_closed_at = None,
           tr_dedupe_key = dedupe, tr_evidence = (ev_evidence_count evaluation, ev_coverage evaluation)\<rparr>
          (db_transitions d))"
  by (simp add: write_transition_def Let_def)

lemma write_transition_snapshots [simp]: "db_snapshots (write_transition d s p e t k) = db_snapshots d"
  by (simp add: write_transition_def Let_def)

lemma write_transition_queue [simp]: "db_queue (write_transition d s p e t k) = db_queue d"
  by (simp add: write_transition_def Let_def)

lemma write_snapshot_frame [simp]:
  "db_transitions (write_snapshot d s i n e t) = db_transitions d" "db_queue (write_snapshot d s i n e t) = db_queue d"
  by (simp_all add: write_snapshot_def Let_def)

lemma save_evaluation_snapshots:
  "db_snapshots (snd (save_evaluation quiet d scope_key server_id network_scope evaluation evaluated_at)) =
   db_snapshots (write_snapshot d scope_key server_id network_scope evaluation evaluated_at)"
  by (simp add: save_evaluation_def Let_def split: option.split)

lemma snapshot_row_of_cong: "db_snapshots d = db_snapshots d' \<Longrightarrow> snapshot_row_of d s = snapshot_row_of d' s"
  by (simp add: snapshot_row_of_def)

lemmas save_evaluation_row = snapshot_row_of_cong [OF save_evaluation_snapshots]

lemma previous_state_save:
  "previous_state (snd (save_evaluation quiet d scope_key server_id network_scope evaluation evaluated_at)) =
   (previous_state d)(scope_key := ev_state evaluation)"
  by (rule ext) (simp add: previous_state_def save_evaluation_row snapshot_row_of_write split: option.split)

subsection \<open>The invariant of snapshots, transitions and queue\<close>

definition transitions_wf :: "db \<Rightarrow> bool" where
  "transitions_wf d \<longleftrightarrow> unique tr_id (db_transitions d) \<and>
     (\<forall>t \<in> set (db_transitions d). tr_id t = transition_id_of (tr_dedupe_key t) \<and>
        (\<exists>obs. tr_dedupe_key t = dedupe_key_of (tr_scope_key t) (tr_from_state t) (tr_to_state t) obs))"

definition queue_row_ok :: "db \<Rightarrow> queue_row \<Rightarrow> bool" where
  "queue_row_ok d q \<longleftrightarrow> q_id q = notification_id_of (q_dedupe_key q) \<and>
     q_transition_id q = transition_id_of (q_dedupe_key q) \<and>
     list_ex (\<lambda>t. tr_id t = q_transition_id q) (db_transitions d)"

definition queue_wf :: "db \<Rightarrow> bool" where
  "queue_wf d \<longleftrightarrow> unique q_id (db_queue d) \<and> (\<forall>q \<in> set (db_queue d). queue_row_ok d q)"

definition one_notice :: "db \<Rightarrow> bool" where
  \<comment> \<open>at most one message to the administrator is waiting per scope\<close>
  "one_notice d \<longleftrightarrow> (\<forall>scope_key. length (pending_admin_notices d scope_key) \<le> 1)"

definition one_open :: "db \<Rightarrow> bool" where
  \<comment> \<open>at most one transition per scope is open\<close>
  "one_open d \<longleftrightarrow> (\<forall>scope_key. count_where (\<lambda>t. tr_scope_key t = scope_key \<and> tr_closed_at t = None) (db_transitions d) \<le> 1)"

definition repository_inv :: "db \<Rightarrow> bool" where
  "repository_inv d \<longleftrightarrow> unique sn_scope_key (db_snapshots d) \<and> transitions_wf d \<and> queue_wf d \<and> one_notice d \<and> one_open d"

lemma repository_inv_empty: "repository_inv empty_db"
  by (simp add: repository_inv_def transitions_wf_def queue_wf_def one_notice_def one_open_def
      pending_admin_notices_def count_where_def empty_db_def)

interpretation superseding: key_update q_id "\<lambda>q. q\<lparr>q_state := Superseded\<rparr>"
  by unfold_locales simp

interpretation closing: key_update tr_id "\<lambda>t. t\<lparr>tr_closed_at := c\<rparr>" for c
  by unfold_locales simp

lemma supersede_eq:
  "supersede ids queue = map (\<lambda>q. if q_id q \<in> set ids then q\<lparr>q_state := Superseded\<rparr> else q) queue"
proof (induction ids arbitrary: queue)
  case Nil
  then show ?case by (simp add: supersede_def)
next
  case (Cons i ids)
  have "supersede (i # ids) queue = supersede ids (update_where (\<lambda>q. q_id q = i) (\<lambda>q. q\<lparr>q_state := Superseded\<rparr>) queue)"
    by (simp add: supersede_def)
  also have "\<dots> = map (\<lambda>q. if q_id q \<in> set (i # ids) then q\<lparr>q_state := Superseded\<rparr> else q) queue"
    by (auto simp: Cons.IH update_where_def)
  finally show ?case .
qed

lemma supersede_ids [simp]: "map q_id (supersede ids queue) = map q_id queue"
  by (simp add: supersede_eq)

lemma in_scope_iff: "in_scope d s q \<longleftrightarrow> (\<exists>t \<in> set (db_transitions d). tr_id t = q_transition_id q \<and> tr_scope_key t = s)"
  by (simp add: in_scope_def list_ex_iff)

lemma in_scope_queue [simp]: "in_scope (d\<lparr>db_queue := rows\<rparr>) s q = in_scope d s q"
  by (simp add: in_scope_def)

lemma in_scope_snapshot [simp]: "in_scope (write_snapshot d a b c e t) s q = in_scope d s q"
  by (simp add: in_scope_def)

lemma in_scope_params: "q_transition_id q = q_transition_id r \<Longrightarrow> in_scope d s q = in_scope d s r"
  by (simp add: in_scope_def)

lemma in_scope_functional: "transitions_wf d \<Longrightarrow> in_scope d s q \<Longrightarrow> in_scope d s' q \<Longrightarrow> s = s'"
  by (auto simp: in_scope_iff transitions_wf_def dest: unique_same)

lemma dedupe_key_inj [simp]:
  "dedupe_key_of s p c t = dedupe_key_of s' p' c' t' \<longleftrightarrow> s = s' \<and> p = p' \<and> c = c' \<and> t = t'"
  by (cases t; cases t') (auto simp: dedupe_key_of_def iso_p_def)

lemma transition_id_inj [simp]: "transition_id_of k = transition_id_of k' \<longleftrightarrow> k = k'"
  by (simp add: transition_id_of_def)

lemma notification_id_inj [simp]: "notification_id_of k = notification_id_of k' \<longleftrightarrow> k = k'"
  by (simp add: notification_id_of_def)

subsection \<open>The invariant is kept\<close>

lemma queue_row_ok_cong:
  "tr_id ` set (db_transitions d) \<subseteq> tr_id ` set (db_transitions d') \<Longrightarrow> queue_row_ok d q \<Longrightarrow> queue_row_ok d' q"
  unfolding queue_row_ok_def list_ex_iff by (metis (no_types, lifting) imageE imageI subsetD)

lemma queue_row_ok_queue [simp]: "queue_row_ok (d\<lparr>db_queue := rows\<rparr>) q = queue_row_ok d q"
  by (simp add: queue_row_ok_def)

lemma queue_row_ok_snapshot [simp]: "queue_row_ok (write_snapshot d s i n e t) q = queue_row_ok d q"
  by (simp add: queue_row_ok_def)

lemma queue_row_ok_state [simp]: "queue_row_ok d (q\<lparr>q_state := st\<rparr>) = queue_row_ok d q"
  by (simp add: queue_row_ok_def)

lemma queue_wf_id: "queue_row_ok d q \<Longrightarrow> q_transition_id q \<in> tr_id ` set (db_transitions d)"
  unfolding queue_row_ok_def list_ex_iff by (metis imageI)

lemma write_transition_set:
  "set (db_transitions (write_transition d scope_key previous evaluation evaluated_at dedupe)) \<subseteq>
     {t\<lparr>tr_closed_at := c\<rparr> | t c. t \<in> set (db_transitions d)} \<union>
     {t. tr_id t = transition_id_of dedupe \<and> tr_scope_key t = scope_key \<and> tr_from_state t = previous \<and>
         tr_to_state t = ev_state evaluation \<and> tr_dedupe_key t = dedupe}"
proof -
  have same: "t = t\<lparr>tr_closed_at := tr_closed_at t\<rparr>" for t :: transition_row by simp
  show ?thesis
    unfolding write_transition_table
    by (auto simp: set_update_where insert_or_ignore_def intro: same)
qed

lemma write_transition_ids:
  "tr_id ` set (db_transitions (write_transition d s p e t dedupe)) = insert (transition_id_of dedupe) (tr_id ` set (db_transitions d))"
  by (simp add: write_transition_table closing.keys_update insert_or_ignore_keys)

lemma write_transition_unique:
  "unique tr_id (db_transitions d) \<Longrightarrow> unique tr_id (db_transitions (write_transition d s p e t dedupe))"
  by (simp add: write_transition_table closing.unique_update unique_insert_or_ignore)

lemma transitions_wf_write:
  assumes "transitions_wf d" "dedupe = dedupe_key_of scope_key previous (ev_state evaluation) obs"
  shows "transitions_wf (write_transition d scope_key previous evaluation evaluated_at dedupe)"
proof -
  let ?d = "write_transition d scope_key previous evaluation evaluated_at dedupe"
  have "tr_id t = transition_id_of (tr_dedupe_key t) \<and>
      (\<exists>obs. tr_dedupe_key t = dedupe_key_of (tr_scope_key t) (tr_from_state t) (tr_to_state t) obs)"
    if "t \<in> set (db_transitions ?d)" for t
    using subsetD [OF write_transition_set that] assms unfolding transitions_wf_def by fastforce
  then show ?thesis
    using assms(1) by (simp add: transitions_wf_def write_transition_unique)
qed

lemma in_scope_write_old:
  assumes "q_transition_id q \<in> tr_id ` set (db_transitions d)"
  shows "in_scope (write_transition d scope_key previous evaluation evaluated_at dedupe) s q = in_scope d s q"
proof -
  let ?pair = "\<lambda>t. (tr_id t, tr_scope_key t)"
  let ?row = "transition_id_of dedupe"
  have pairs: "in_scope d' s q \<longleftrightarrow> (q_transition_id q, s) \<in> ?pair ` set (db_transitions d')" for d'
    by (auto simp: in_scope_iff intro: rev_image_eqI)
  have "map ?pair (update_where P (\<lambda>t. t\<lparr>tr_closed_at := c\<rparr>) rows) = map ?pair rows" for P c rows
    by (simp add: update_where_def)
  from arg_cong [OF this, where f = set]
  have upd: "?pair ` set (update_where P (\<lambda>t. t\<lparr>tr_closed_at := c\<rparr>) rows) = ?pair ` set rows" for P c rows
    unfolding set_map .
  show ?thesis
    using assms unfolding pairs write_transition_table upd
    by (auto simp: insert_or_ignore_def)
qed

lemma in_scope_write_new:
  assumes wf: "transitions_wf d" and dedupe: "dedupe = dedupe_key_of scope_key previous (ev_state evaluation) obs"
    and q: "q_transition_id q = transition_id_of dedupe"
  shows "in_scope (write_transition d scope_key previous evaluation evaluated_at dedupe) s q \<longleftrightarrow> s = scope_key"
proof -
  let ?d = "write_transition d scope_key previous evaluation evaluated_at dedupe"
  have wf': "transitions_wf ?d" by (rule transitions_wf_write [OF wf dedupe])
  have "transition_id_of dedupe \<in> tr_id ` set (db_transitions ?d)" by (simp add: write_transition_ids)
  then obtain t where t: "t \<in> set (db_transitions ?d)" "tr_id t = transition_id_of dedupe" by auto
  from wf' t(1) obtain o' where "tr_id t = transition_id_of (tr_dedupe_key t)"
      "tr_dedupe_key t = dedupe_key_of (tr_scope_key t) (tr_from_state t) (tr_to_state t) o'"
    unfolding transitions_wf_def by blast
  with t(2) dedupe have scope: "tr_scope_key t = scope_key" by simp
  have "in_scope ?d scope_key q" using t scope q by (auto simp: in_scope_iff)
  with in_scope_functional [OF wf'] show ?thesis by blast
qed

lemma pending_admin_notices_write:
  assumes "queue_wf d"
  shows "pending_admin_notices (write_transition d scope_key previous evaluation evaluated_at dedupe) s = pending_admin_notices d s"
  unfolding pending_admin_notices_def write_transition_queue
proof (rule filter_cong [OF refl])
  fix q
  assume "q \<in> set (db_queue d)"
  with assms have "q_transition_id q \<in> tr_id ` set (db_transitions d)"
    by (simp add: queue_wf_def queue_wf_id)
  then show "(in_scope (write_transition d scope_key previous evaluation evaluated_at dedupe) s q \<and>
      q_destination q = ''admin'' \<and> q_state q = Pending) = (in_scope d s q \<and> q_destination q = ''admin'' \<and> q_state q = Pending)"
    by (simp add: in_scope_write_old)
qed

lemma one_open_write:
  assumes "transitions_wf d" "one_open d" "dedupe = dedupe_key_of scope_key previous (ev_state evaluation) obs"
  shows "one_open (write_transition d scope_key previous evaluation evaluated_at dedupe)"
proof -
  let ?d = "write_transition d scope_key previous evaluation evaluated_at dedupe"
  let ?tid = "transition_id_of dedupe"
  have wf': "transitions_wf ?d" by (rule transitions_wf_write [OF assms(1,3)])
  have "count_where (\<lambda>t. tr_scope_key t = s \<and> tr_closed_at t = None) (db_transitions ?d) \<le> 1" for s
  proof (cases "s = scope_key")
    case True
    have "tr_id t = ?tid" if "t \<in> set (db_transitions ?d)" "tr_scope_key t = s \<and> tr_closed_at t = None" for t
    proof -
      let ?P = "\<lambda>t. tr_scope_key t = scope_key \<and> tr_closed_at t = None \<and> tr_id t \<noteq> ?tid"
      from that(1) obtain u where "t = (if ?P u then u\<lparr>tr_closed_at := Some (StampP evaluated_at)\<rparr> else u)"
        unfolding write_transition_table set_update_where by (rule imageE)
      with that(2) True show ?thesis by (cases "?P u") auto
    qed
    with wf' show ?thesis
      unfolding count_where_def transitions_wf_def by (intro unique_filter_le_1 [where key = tr_id and k = ?tid]) auto
  next
    case False
    then have "filter (\<lambda>t. tr_scope_key t = s \<and> tr_closed_at t = None) (db_transitions ?d) =
        filter (\<lambda>t. tr_scope_key t = s \<and> tr_closed_at t = None) (db_transitions d)"
      unfolding write_transition_table
      by (subst filter_update_where_other) (auto simp: insert_or_ignore_def)
    with assms(2) show ?thesis by (simp add: one_open_def count_where_def)
  qed
  then show ?thesis by (simp add: one_open_def)
qed

lemma supersede_waiting_none:
  assumes "transitions_wf d"
  shows "pending_admin_notices (d\<lparr>db_queue := supersede (map q_id (pending_admin_notices d s)) (db_queue d)\<rparr>) s = []"
  by (auto simp: pending_admin_notices_def filter_empty_conv supersede_eq split: if_splits)

lemma supersede_notices_le:
  "length (pending_admin_notices (d\<lparr>db_queue := supersede ids (db_queue d)\<rparr>) s) \<le> length (pending_admin_notices d s)"
proof -
  have "in_scope d s (q\<lparr>q_state := st\<rparr>) = in_scope d s q" for q :: queue_row and st
    by (simp add: in_scope_def)
  then have "length (filter (\<lambda>q. in_scope d s q \<and> q_destination q = ''admin'' \<and> q_state q = Pending)
      (map (\<lambda>q. if q_id q \<in> set ids then q\<lparr>q_state := Superseded\<rparr> else q) (db_queue d)))
    \<le> length (filter (\<lambda>q. in_scope d s q \<and> q_destination q = ''admin'' \<and> q_state q = Pending) (db_queue d))"
    by (intro length_filter_map_le) (simp split: if_splits)
  then show ?thesis by (simp add: pending_admin_notices_def supersede_eq)
qed

lemma queue_wf_write:
  assumes "queue_wf d"
  shows "queue_wf (write_transition d scope_key previous evaluation evaluated_at dedupe)"
  using assms queue_row_ok_cong [of d "write_transition d scope_key previous evaluation evaluated_at dedupe"]
  by (auto simp: queue_wf_def write_transition_ids)

lemma queue_wf_supersede:
  assumes "queue_wf d"
  shows "queue_wf (d\<lparr>db_queue := supersede ids (db_queue d)\<rparr>)"
proof -
  have "unique q_id (supersede ids (db_queue d))"
    using assms by (simp add: queue_wf_def unique_def)
  with assms show ?thesis
    by (auto simp: queue_wf_def supersede_eq)
qed

lemma enqueue_set:
  "set (enqueue queue dedupe server_id scope_key previous current plan evaluated_at) \<subseteq>
     set queue \<union> {q. q_id q = notification_id_of dedupe \<and> q_transition_id q = transition_id_of dedupe \<and> q_dedupe_key q = dedupe}"
  by (auto simp: enqueue_def insert_or_ignore_def)

lemma queue_wf_enqueue:
  assumes "queue_wf d" "transition_id_of dedupe \<in> tr_id ` set (db_transitions d)"
  shows "queue_wf (d\<lparr>db_queue := enqueue (db_queue d) dedupe server_id scope_key previous current plan evaluated_at\<rparr>)"
proof -
  let ?queue = "enqueue (db_queue d) dedupe server_id scope_key previous current plan evaluated_at"
  have "unique q_id ?queue"
    using assms(1) by (simp add: queue_wf_def enqueue_def unique_insert_or_ignore)
  moreover have "queue_row_ok d q" if "q \<in> set ?queue" for q
    using subsetD [OF enqueue_set that]
  proof
    assume "q \<in> set (db_queue d)"
    with assms(1) show ?thesis by (simp add: queue_wf_def)
  next
    assume new: "q \<in> {q. q_id q = notification_id_of dedupe \<and> q_transition_id q = transition_id_of dedupe \<and> q_dedupe_key q = dedupe}"
    from assms(2) obtain t where "t \<in> set (db_transitions d)" "tr_id t = transition_id_of dedupe" by auto
    with new show ?thesis by (auto simp: queue_row_ok_def list_ex_iff)
  qed
  ultimately show ?thesis by (simp add: queue_wf_def)
qed

lemma one_notice_enqueue:
  assumes "one_notice d" "pending_admin_notices d scope_key = []"
    and only: "\<And>s q. q_transition_id q = transition_id_of dedupe \<Longrightarrow> in_scope d s q \<Longrightarrow> s = scope_key"
  shows "one_notice (d\<lparr>db_queue := enqueue (db_queue d) dedupe server_id scope_key previous current plan evaluated_at\<rparr>)"
proof -
  let ?queue = "enqueue (db_queue d) dedupe server_id scope_key previous current plan evaluated_at"
  have "length (pending_admin_notices (d\<lparr>db_queue := ?queue\<rparr>) s) \<le> 1" for s
  proof -
    let ?P = "\<lambda>q. in_scope d s q \<and> q_destination q = ''admin'' \<and> q_state q = Pending"
    obtain r where r: "?queue = insert_or_ignore q_id r (db_queue d)" "q_transition_id r = transition_id_of dedupe"
      by (simp add: enqueue_def)
    have le: "length (filter ?P (db_queue d)) \<le> 1"
      using assms(1) by (simp add: one_notice_def pending_admin_notices_def)
    have none: "s = scope_key \<Longrightarrow> filter ?P (db_queue d) = []"
      using assms(2) by (simp add: pending_admin_notices_def)
    have "length (filter ?P ?queue) \<le> 1"
    proof (cases "?P r")
      case True
      with only r(2) none have "filter ?P (db_queue d) = []" by blast
      with insert_or_ignore_filter [of ?P q_id r "db_queue d"] show ?thesis by (auto simp: r(1))
    next
      case False
      with insert_or_ignore_filter [of ?P q_id r "db_queue d"] le show ?thesis by (auto simp: r(1))
    qed
    then show ?thesis by (simp add: pending_admin_notices_def)
  qed
  then show ?thesis by (simp add: one_notice_def)
qed

lemma repository_inv_snapshot:
  assumes "repository_inv d"
  shows "repository_inv (write_snapshot d scope_key server_id network_scope evaluation evaluated_at)"
proof -
  have "unique sn_scope_key (db_snapshots (write_snapshot d scope_key server_id network_scope evaluation evaluated_at))"
    using assms by (simp add: repository_inv_def write_snapshot_def Let_def unique_upsert merge_snapshot_key)
  with assms show ?thesis
    by (simp add: repository_inv_def transitions_wf_def queue_wf_def one_notice_def one_open_def pending_admin_notices_def)
qed

lemma save_evaluation_inv:
  assumes "repository_inv d"
  shows "repository_inv (snd (save_evaluation quiet d scope_key server_id network_scope evaluation evaluated_at))"
proof -
  let ?d1 = "write_snapshot d scope_key server_id network_scope evaluation evaluated_at"
  let ?prev = "previous_state d scope_key"
  let ?key = "dedupe_key_of scope_key ?prev (ev_state evaluation) (ev_observed_at evaluation)"
  let ?d2 = "write_transition ?d1 scope_key ?prev evaluation evaluated_at ?key"
  let ?waiting = "pending_admin_notices ?d2 scope_key"
  let ?d3 = "?d2\<lparr>db_queue := supersede (map q_id ?waiting) (db_queue ?d2)\<rparr>"
  have inv1: "repository_inv ?d1" by (rule repository_inv_snapshot [OF assms])
  then have wf2: "transitions_wf ?d2" by (simp add: repository_inv_def transitions_wf_write)
  have q2: "queue_wf ?d2" using inv1 by (simp add: repository_inv_def queue_wf_write)
  have n2: "one_notice ?d2"
    using inv1 by (simp add: one_notice_def repository_inv_def pending_admin_notices_write)
  have o2: "one_open ?d2" using inv1 by (simp add: repository_inv_def one_open_write)
  have n3: "one_notice ?d3"
    unfolding one_notice_def using n2 supersede_notices_le unfolding one_notice_def by (meson order_trans)
  have q3: "queue_wf ?d3" by (rule queue_wf_supersede [OF q2])
  have none3: "pending_admin_notices ?d3 scope_key = []" by (rule supersede_waiting_none [OF wf2])
  have only: "s = scope_key" if "q_transition_id q = transition_id_of ?key" "in_scope ?d3 s q" for s q
    using that in_scope_write_new [of ?d1 ?key scope_key ?prev evaluation "ev_observed_at evaluation" q evaluated_at s] inv1
    by (simp add: repository_inv_def)
  have tid: "transition_id_of ?key \<in> tr_id ` set (db_transitions ?d3)" by (simp add: write_transition_ids)
  have snap: "unique sn_scope_key (db_snapshots ?d1)" using inv1 by (simp add: repository_inv_def)
  have inv4: "repository_inv (?d3\<lparr>db_queue := enqueue (db_queue ?d3) ?key server_id scope_key ?prev (ev_state evaluation) plan evaluated_at\<rparr>)"
    for plan
    using snap wf2 o2 queue_wf_enqueue [OF q3 tid] one_notice_enqueue [OF n3 none3 only]
    by (simp add: repository_inv_def transitions_wf_def one_open_def)
  have inv3: "repository_inv ?d3"
    using snap wf2 o2 q3 n3 by (simp add: repository_inv_def transitions_wf_def one_open_def)
  show ?thesis
  proof (cases "ev_state evaluation = ?prev")
    case True
    with inv1 show ?thesis by (simp add: save_evaluation_def Let_def)
  next
    case False
    then show ?thesis
      unfolding save_evaluation_def Let_def if_not_P [OF False] snd_conv
      by (cases "delivery_plan quiet ?d3 scope_key ?prev (ev_state evaluation) (?waiting \<noteq> []) evaluated_at")
        (simp_all only: option.case inv3 inv4)
  qed
qed

subsection \<open>What the group has been told\<close>

definition announced :: "state \<Rightarrow> bool \<Rightarrow> bool" where
  \<comment> \<open>whether the group believes the scope is unavailable after it entered a state\<close>
  "announced current alerted = (case current of Unavailable \<Rightarrow> True | Operational \<Rightarrow> False | _ \<Rightarrow> alerted)"

definition fresh_save :: "db \<Rightarrow> string \<Rightarrow> evaluation \<Rightarrow> datetime \<Rightarrow> bool" where
  \<comment> \<open>the change has not been recorded before and nothing in the queue is younger\<close>
  "fresh_save d scope_key evaluation evaluated_at \<longleftrightarrow>
     list_all (\<lambda>q. q_id q \<noteq> notification_id_of
         (dedupe_key_of scope_key (previous_state d scope_key) (ev_state evaluation) (ev_observed_at evaluation)) \<and>
       q_created_at q \<le> StampP evaluated_at) (db_queue d)"

lemma group_messages_queue [simp]:
  "group_messages (d\<lparr>db_queue := rows\<rparr>) s =
     filter (\<lambda>q. in_scope d s q \<and> q_destination q = ''group'' \<and> q_state q \<in> {Pending, Sent}) rows"
  by (simp add: group_messages_def)

lemma group_messages_snapshot [simp]: "group_messages (write_snapshot d a b c e t) s = group_messages d s"
  by (simp add: group_messages_def)

lemma group_alerted_snapshot [simp]: "group_alerted (write_snapshot d a b c e t) s = group_alerted d s"
  by (simp add: group_alerted_def)

lemma group_messages_write:
  assumes "queue_wf d"
  shows "group_messages (write_transition d scope_key previous evaluation evaluated_at dedupe) s = group_messages d s"
  unfolding group_messages_def write_transition_queue
proof (rule filter_cong [OF refl])
  fix q
  assume "q \<in> set (db_queue d)"
  with assms have "q_transition_id q \<in> tr_id ` set (db_transitions d)"
    by (simp add: queue_wf_def queue_wf_id)
  then show "(in_scope (write_transition d scope_key previous evaluation evaluated_at dedupe) s q \<and>
      q_destination q = ''group'' \<and> q_state q \<in> {Pending, Sent}) =
    (in_scope d s q \<and> q_destination q = ''group'' \<and> q_state q \<in> {Pending, Sent})"
    by (simp add: in_scope_write_old)
qed

lemma filter_map_same:
  "(\<And>x. x \<in> set xs \<Longrightarrow> P (f x) \<or> P x \<Longrightarrow> f x = x) \<Longrightarrow> filter P (map f xs) = filter P xs"
  by (induction xs) fastforce+

lemma group_messages_supersede:
  assumes "unique q_id (db_queue d)"
  shows "group_messages (d\<lparr>db_queue := supersede (map q_id (pending_admin_notices d s)) (db_queue d)\<rparr>) s' = group_messages d s'"
proof -
  have "q_destination q = ''admin''"
    if q: "q \<in> set (db_queue d)" and "q_id q \<in> set (map q_id (pending_admin_notices d s))" for q
  proof -
    from that(2) obtain r where r: "r \<in> set (pending_admin_notices d s)" "q_id q = q_id r"
      unfolding set_map by (rule imageE)
    then have "r \<in> set (db_queue d)" "q_destination r = ''admin''" by (simp_all add: pending_admin_notices_def)
    with unique_same [OF assms q] r(2) show ?thesis by metis
  qed
  then show ?thesis
    unfolding group_messages_queue group_messages_def [of d s'] supersede_eq
    by (intro filter_map_same) (auto split: if_splits)
qed

lemma group_alerted_cong: "group_messages d s = group_messages d' s' \<Longrightarrow> group_alerted d s = group_alerted d' s'"
  by (simp add: group_alerted_def)

definition quiet_step :: "db \<Rightarrow> string \<Rightarrow> string \<Rightarrow> string \<Rightarrow> evaluation \<Rightarrow> datetime \<Rightarrow> db" where
  \<comment> \<open>the database just before the new message of a state change is queued\<close>
  "quiet_step d scope_key server_id network_scope evaluation evaluated_at =
     (let previous = previous_state d scope_key;
          d2 = write_transition (write_snapshot d scope_key server_id network_scope evaluation evaluated_at)
                 scope_key previous evaluation evaluated_at
                 (dedupe_key_of scope_key previous (ev_state evaluation) (ev_observed_at evaluation))
      in d2\<lparr>db_queue := supersede (map q_id (pending_admin_notices d2 scope_key)) (db_queue d2)\<rparr>)"

lemma group_messages_quiet_step:
  assumes "repository_inv d"
  shows "group_messages (quiet_step d scope_key server_id network_scope evaluation evaluated_at) s = group_messages d s"
proof -
  have wf: "queue_wf (write_snapshot d scope_key server_id network_scope evaluation evaluated_at)"
    using repository_inv_snapshot [OF assms] by (simp add: repository_inv_def)
  show ?thesis
    unfolding quiet_step_def Let_def
    by (subst group_messages_supersede, use assms in \<open>simp add: repository_inv_def queue_wf_def\<close>)
      (simp add: group_messages_write [OF wf])
qed

lemma quiet_step_ids: "map q_id (db_queue (quiet_step d s i n e t)) = map q_id (db_queue d)"
  by (simp add: quiet_step_def Let_def)

lemma delivery_plan_notification:
  "delivery_plan quiet d scope_key previous current waiting t = Some plan \<Longrightarrow>
     notification_for previous current (group_alerted d scope_key) = Some (fst plan)"
  "delivery_plan quiet d scope_key previous current waiting t = None \<Longrightarrow>
     (case notification_for previous current (group_alerted d scope_key) of None \<Rightarrow> True | Some target \<Rightarrow> fst target = ''admin'')"
  unfolding delivery_plan_def by (auto split: option.splits prod.splits if_splits)

lemma save_evaluation_cases:
  assumes "ev_state evaluation \<noteq> previous_state d scope_key"
  obtains (silent) "snd (save_evaluation quiet d scope_key server_id network_scope evaluation evaluated_at) =
      quiet_step d scope_key server_id network_scope evaluation evaluated_at"
      "(case notification_for (previous_state d scope_key) (ev_state evaluation)
          (group_alerted (quiet_step d scope_key server_id network_scope evaluation evaluated_at) scope_key) of
        None \<Rightarrow> True | Some target \<Rightarrow> fst target = ''admin'')"
  | (queued) plan where "snd (save_evaluation quiet d scope_key server_id network_scope evaluation evaluated_at) =
      (quiet_step d scope_key server_id network_scope evaluation evaluated_at)\<lparr>db_queue :=
        enqueue (db_queue (quiet_step d scope_key server_id network_scope evaluation evaluated_at))
          (dedupe_key_of scope_key (previous_state d scope_key) (ev_state evaluation) (ev_observed_at evaluation))
          server_id scope_key (previous_state d scope_key) (ev_state evaluation) plan evaluated_at\<rparr>"
      "notification_for (previous_state d scope_key) (ev_state evaluation)
        (group_alerted (quiet_step d scope_key server_id network_scope evaluation evaluated_at) scope_key) = Some (fst plan)"
proof -
  let ?d3 = "quiet_step d scope_key server_id network_scope evaluation evaluated_at"
  obtain waiting where unfolded: "snd (save_evaluation quiet d scope_key server_id network_scope evaluation evaluated_at) =
    (case delivery_plan quiet ?d3 scope_key (previous_state d scope_key) (ev_state evaluation) waiting evaluated_at of
       None \<Rightarrow> ?d3
     | Some plan \<Rightarrow> ?d3\<lparr>db_queue := enqueue (db_queue ?d3)
         (dedupe_key_of scope_key (previous_state d scope_key) (ev_state evaluation) (ev_observed_at evaluation))
         server_id scope_key (previous_state d scope_key) (ev_state evaluation) plan evaluated_at\<rparr>)"
    unfolding save_evaluation_def quiet_step_def Let_def if_not_P [OF assms] snd_conv by blast
  show ?thesis
  proof (cases "delivery_plan quiet ?d3 scope_key (previous_state d scope_key) (ev_state evaluation) waiting evaluated_at")
    case None
    with unfolded show ?thesis by (intro silent) (simp_all add: delivery_plan_notification(2))
  next
    case (Some plan)
    with unfolded show ?thesis by (intro queued) (simp_all add: delivery_plan_notification(1))
  qed
qed

lemma in_scope_quiet_step:
  assumes "repository_inv d"
    and "q_transition_id q = transition_id_of
           (dedupe_key_of scope_key (previous_state d scope_key) (ev_state evaluation) (ev_observed_at evaluation))"
  shows "in_scope (quiet_step d scope_key server_id network_scope evaluation evaluated_at) s q \<longleftrightarrow> s = scope_key"
proof -
  have "transitions_wf (write_snapshot d scope_key server_id network_scope evaluation evaluated_at)"
    using repository_inv_snapshot [OF assms(1)] by (simp add: repository_inv_def)
  from in_scope_write_new [OF this refl assms(2)] show ?thesis
    by (simp add: quiet_step_def Let_def)
qed

lemma group_messages_enqueue:
  assumes inv: "repository_inv d" and fresh: "fresh_save d scope_key evaluation evaluated_at"
  shows "\<exists>r. q_template_key r = snd (fst plan) \<and> q_created_at r = StampP evaluated_at \<and>
    group_messages
      ((quiet_step d scope_key server_id network_scope evaluation evaluated_at)\<lparr>db_queue :=
        enqueue (db_queue (quiet_step d scope_key server_id network_scope evaluation evaluated_at))
          (dedupe_key_of scope_key (previous_state d scope_key) (ev_state evaluation) (ev_observed_at evaluation))
          server_id scope_key (previous_state d scope_key) (ev_state evaluation) plan evaluated_at\<rparr>) s =
      group_messages d s @ (if s = scope_key \<and> fst (fst plan) = ''group'' then [r] else [])"
proof -
  let ?d3 = "quiet_step d scope_key server_id network_scope evaluation evaluated_at"
  let ?key = "dedupe_key_of scope_key (previous_state d scope_key) (ev_state evaluation) (ev_observed_at evaluation)"
  let ?queue = "enqueue (db_queue ?d3) ?key server_id scope_key (previous_state d scope_key) (ev_state evaluation) plan evaluated_at"
  have "notification_id_of ?key \<notin> set (map q_id (db_queue ?d3))"
    using fresh unfolding quiet_step_ids by (auto simp: fresh_save_def list_all_iff)
  then obtain r where r: "?queue = db_queue ?d3 @ [r]" "q_transition_id r = transition_id_of ?key"
      "q_destination r = fst (fst plan)" "q_state r = Pending" "q_template_key r = snd (fst plan)" "q_created_at r = StampP evaluated_at"
    by (simp add: enqueue_def insert_or_ignore_def)
  have "group_messages (?d3\<lparr>db_queue := ?queue\<rparr>) s =
      group_messages ?d3 s @ (if s = scope_key \<and> fst (fst plan) = ''group'' then [r] else [])"
    using in_scope_quiet_step [OF inv r(2), of server_id network_scope evaluated_at s] r(3,4)
    unfolding group_messages_queue r(1) group_messages_def [of ?d3 s] by simp
  with r(5,6) show ?thesis by (auto simp: group_messages_quiet_step [OF inv])
qed

lemma announced_group:
  "notification_for previous current alerted = Some target \<Longrightarrow> fst target = ''group'' \<Longrightarrow>
     announced current alerted = (snd target = ''bot.unavailable'')"
  by (cases target) (auto simp: notification_for_def announced_def split: if_splits)

lemma announced_admin:
  "current \<noteq> previous \<Longrightarrow>
   (case notification_for previous current alerted of None \<Rightarrow> True | Some target \<Rightarrow> fst target \<noteq> ''group'') \<Longrightarrow>
     announced current alerted = alerted"
  by (auto simp: notification_for_def announced_def split: if_splits state.splits)

lemma group_alerted_save:
  assumes inv: "repository_inv d" and fresh: "fresh_save d scope_key evaluation evaluated_at"
    and changed: "ev_state evaluation \<noteq> previous_state d scope_key"
  shows "group_alerted (snd (save_evaluation quiet d scope_key server_id network_scope evaluation evaluated_at)) =
    (group_alerted d)(scope_key := announced (ev_state evaluation) (group_alerted d scope_key))"
proof (rule ext)
  fix s
  let ?d3 = "quiet_step d scope_key server_id network_scope evaluation evaluated_at"
  have alerted3: "group_alerted ?d3 s = group_alerted d s" for s
    by (rule group_alerted_cong [OF group_messages_quiet_step [OF inv]])
  show "group_alerted (snd (save_evaluation quiet d scope_key server_id network_scope evaluation evaluated_at)) s =
    ((group_alerted d)(scope_key := announced (ev_state evaluation) (group_alerted d scope_key))) s"
    using changed
  proof (cases rule: save_evaluation_cases [where quiet = quiet and server_id = server_id
        and network_scope = network_scope and evaluated_at = evaluated_at])
    case silent
    then have "announced (ev_state evaluation) (group_alerted d scope_key) = group_alerted d scope_key"
      by (intro announced_admin [OF changed]) (auto simp: alerted3 split: option.splits)
    with silent(1) show ?thesis by (simp add: alerted3)
  next
    case (queued plan)
    obtain r where r: "q_template_key r = snd (fst plan)" "q_created_at r = StampP evaluated_at"
      "group_messages (snd (save_evaluation quiet d scope_key server_id network_scope evaluation evaluated_at)) s =
        group_messages d s @ (if s = scope_key \<and> fst (fst plan) = ''group'' then [r] else [])"
      using group_messages_enqueue [OF inv fresh] unfolding queued(1) by blast
    have old: "\<forall>q \<in> set (group_messages d s). q_created_at q \<le> q_created_at r"
      using fresh r(2) by (auto simp: fresh_save_def list_all_iff group_messages_def)
    show ?thesis
    proof (cases "s = scope_key \<and> fst (fst plan) = ''group''")
      case True
      with r(3) newest_snoc [OF old] r(1)
      have "group_alerted (snd (save_evaluation quiet d scope_key server_id network_scope evaluation evaluated_at)) s \<longleftrightarrow>
          snd (fst plan) = ''bot.unavailable''"
        by (simp add: group_alerted_def)
      with True queued(2) show ?thesis by (simp add: alerted3 announced_group)
    next
      case False
      with r(3) have "group_alerted (snd (save_evaluation quiet d scope_key server_id network_scope evaluation evaluated_at)) s =
          group_alerted d s"
        by (intro group_alerted_cong) simp
      moreover have "announced (ev_state evaluation) (group_alerted d scope_key) = group_alerted d scope_key" if "s = scope_key"
        using False that queued(2) by (intro announced_admin [OF changed]) (simp add: alerted3)
      ultimately show ?thesis by simp
    qed
  qed
qed

subsection \<open>What a change of state records\<close>

definition open_transitions :: "db \<Rightarrow> string \<Rightarrow> transition_row list" where
  "open_transitions d scope_key = filter (\<lambda>t. tr_scope_key t = scope_key \<and> tr_closed_at t = None) (db_transitions d)"

lemma save_evaluation_unchanged:
  "ev_state evaluation = previous_state d scope_key \<Longrightarrow>
   save_evaluation quiet d scope_key server_id network_scope evaluation evaluated_at =
     (None, write_snapshot d scope_key server_id network_scope evaluation evaluated_at)"
  by (simp add: save_evaluation_def Let_def)

lemma save_evaluation_transitions:
  assumes "ev_state evaluation \<noteq> previous_state d scope_key"
  shows "db_transitions (snd (save_evaluation quiet d scope_key server_id network_scope evaluation evaluated_at)) =
    db_transitions (write_transition d scope_key (previous_state d scope_key) evaluation evaluated_at
      (dedupe_key_of scope_key (previous_state d scope_key) (ev_state evaluation) (ev_observed_at evaluation)))"
proof -
  have "db_transitions (quiet_step d scope_key server_id network_scope evaluation evaluated_at) =
    db_transitions (write_transition d scope_key (previous_state d scope_key) evaluation evaluated_at
      (dedupe_key_of scope_key (previous_state d scope_key) (ev_state evaluation) (ev_observed_at evaluation)))"
    by (simp add: quiet_step_def Let_def write_transition_table)
  then show ?thesis
    by (cases rule: save_evaluation_cases [OF assms, where quiet = quiet and server_id = server_id
          and network_scope = network_scope and evaluated_at = evaluated_at]) simp_all
qed

lemma filter_update_closed:
  "(\<And>r. P r \<Longrightarrow> \<not> Q (f r)) \<Longrightarrow> filter Q (update_where P f rows) = filter (\<lambda>r. Q r \<and> \<not> P r) rows"
  by (induction rows) (auto simp: update_where_def)

lemma open_transitions_write:
  "open_transitions (write_transition d scope_key previous evaluation evaluated_at dedupe) scope_key =
     filter (\<lambda>t. tr_scope_key t = scope_key \<and> tr_closed_at t = None \<and> tr_id t = transition_id_of dedupe)
       (insert_or_ignore tr_id
          \<lparr>tr_id = transition_id_of dedupe, tr_scope_key = scope_key, tr_from_state = previous,
           tr_to_state = ev_state evaluation, tr_reason_code = ev_reason_code evaluation,
           tr_opened_at = StampP evaluated_at, tr_confirmed_at = StampP evaluated_at, tr_closed_at = None,
           tr_dedupe_key = dedupe, tr_evidence = (ev_evidence_count evaluation, ev_coverage evaluation)\<rparr>
          (db_transitions d))"
  unfolding open_transitions_def write_transition_table
  by (subst filter_update_closed) (auto intro: filter_cong)

lemma open_transitions_write_new:
  assumes "transition_id_of dedupe \<notin> tr_id ` set (db_transitions d)"
  shows "map (\<lambda>t. (tr_id t, tr_from_state t, tr_to_state t, tr_opened_at t))
     (open_transitions (write_transition d scope_key previous evaluation evaluated_at dedupe) scope_key) =
     [(transition_id_of dedupe, previous, ev_state evaluation, StampP evaluated_at)]"
proof -
  have "filter (\<lambda>t. tr_scope_key t = scope_key \<and> tr_closed_at t = None \<and> tr_id t = transition_id_of dedupe) (db_transitions d) = []"
    unfolding filter_empty_conv using assms by (metis imageI)
  with assms show ?thesis by (simp add: open_transitions_write insert_or_ignore_def)
qed

lemma open_transitions_cong: "db_transitions d = db_transitions d' \<Longrightarrow> open_transitions d s = open_transitions d' s"
  by (simp add: open_transitions_def)

lemma enqueue_known:
  "notification_id_of dedupe \<in> q_id ` set queue \<Longrightarrow> enqueue queue dedupe server_id scope_key previous current plan t = queue"
  by (simp add: enqueue_def insert_or_ignore_def)

definition recorded :: "db \<Rightarrow> string \<Rightarrow> evaluation \<Rightarrow> bool" where
  \<comment> \<open>the same change (states and newest evidence) has been recorded, announced and left before\<close>
  "recorded d scope_key evaluation =
     (let dedupe = dedupe_key_of scope_key (previous_state d scope_key) (ev_state evaluation) (ev_observed_at evaluation)
      in list_ex (\<lambda>t. tr_id t = transition_id_of dedupe \<and> tr_closed_at t \<noteq> None) (db_transitions d) \<and>
         list_ex (\<lambda>q. q_id q = notification_id_of dedupe) (db_queue d))"

lemma save_evaluation_recorded:
  assumes inv: "repository_inv d" and changed: "ev_state evaluation \<noteq> previous_state d scope_key"
    and rec: "recorded d scope_key evaluation"
    and d': "snd (save_evaluation quiet d scope_key server_id network_scope evaluation evaluated_at) = d'"
  shows "previous_state d' scope_key = ev_state evaluation \<and> open_transitions d' scope_key = [] \<and>
    map tr_id (db_transitions d') = map tr_id (db_transitions d) \<and> map q_id (db_queue d') = map q_id (db_queue d)"
proof -
  let ?key = "dedupe_key_of scope_key (previous_state d scope_key) (ev_state evaluation) (ev_observed_at evaluation)"
  from rec obtain t where t: "t \<in> set (db_transitions d)" "tr_id t = transition_id_of ?key" "tr_closed_at t \<noteq> None"
    by (auto simp: recorded_def Let_def list_ex_iff)
  from rec have q: "notification_id_of ?key \<in> q_id ` set (db_queue d)"
    unfolding recorded_def Let_def list_ex_iff by (metis imageI)
  have uniq: "unique tr_id (db_transitions d)" using inv by (simp add: repository_inv_def transitions_wf_def)
  have known: "insert_or_ignore tr_id r (db_transitions d) = db_transitions d" if "tr_id r = transition_id_of ?key" for r
    using that t(1,2) by (simp add: insert_or_ignore_def) (metis imageI)
  have none: "filter (\<lambda>t. tr_scope_key t = scope_key \<and> tr_closed_at t = None \<and> tr_id t = transition_id_of ?key) (db_transitions d) = []"
    unfolding filter_empty_conv by (metis t unique_same [OF uniq])
  have "open_transitions d' scope_key = []"
    using open_transitions_cong [OF save_evaluation_transitions [OF changed]] none
    by (simp add: d' [symmetric] open_transitions_write known)
  moreover have "map tr_id (db_transitions d') = map tr_id (db_transitions d)"
    unfolding d' [symmetric] save_evaluation_transitions [OF changed] write_transition_table
    by (simp add: known map_key_update_where)
  moreover have "map q_id (db_queue d') = map q_id (db_queue d)"
    using changed
  proof (cases rule: save_evaluation_cases [where quiet = quiet and server_id = server_id
        and network_scope = network_scope and evaluated_at = evaluated_at])
    case silent
    then show ?thesis by (simp add: d' [symmetric] quiet_step_ids)
  next
    case (queued plan)
    have "q_id ` set (db_queue (quiet_step d scope_key server_id network_scope evaluation evaluated_at)) = q_id ` set (db_queue d)"
      using arg_cong [OF quiet_step_ids, where f = set] by simp
    with q have "notification_id_of ?key \<in> q_id ` set (db_queue (quiet_step d scope_key server_id network_scope evaluation evaluated_at))"
      by simp
    with queued(1) show ?thesis by (simp add: d' [symmetric] quiet_step_ids enqueue_known)
  qed
  ultimately show ?thesis by (simp add: d' [symmetric] previous_state_save)
qed

subsection \<open>Properties\<close>

definition sample_evaluation :: "state \<Rightarrow> datetime option \<Rightarrow> evaluation" where
  "sample_evaluation st observed =
     \<lparr>ev_state = st, ev_reason_code = ''SAMPLE'', ev_observed_at = observed, ev_fresh_until = None,
      ev_evidence_count = 2, ev_coverage = 1\<rparr>"

text \<open>
  The storage invariant (one snapshot per scope; transitions and messages identified by their
  dedupe keys and linked to each other; at most one waiting message to the administrator and at most
  one open transition per scope) survives every save of an evaluation.
\<close>

theorem save_evaluation_keeps_invariant:
  assumes "repository_inv d"
  shows "repository_inv (snd (save_evaluation quiet d scope_key server_id network_scope evaluation evaluated_at))"
  by (rule save_evaluation_inv [OF assms])

theorem save_evaluation_keeps_invariant_witness:
  "repository_inv (snd (save_evaluation 600 empty_db ''s1:domestic'' ''s1'' ''domestic'' (sample_evaluation Unavailable (Some 5)) 7))"
  by (rule save_evaluation_keeps_invariant [OF repository_inv_empty])



text \<open>
  C4. What the group believes is a state machine of its own: it is told that a scope became
  unavailable, stays alerted through degraded and unknown states, and is told of the
  recovery only when the scope is operational again; other scopes are not affected. It holds for a
  change that is new to the queue, with nothing in the queue younger than the evaluation.
\<close>

theorem save_evaluation_group_alert:
  assumes "repository_inv d" "fresh_save d scope_key evaluation evaluated_at"
  shows "group_alerted (snd (save_evaluation quiet d scope_key server_id network_scope evaluation evaluated_at)) =
    (group_alerted d)(scope_key :=
       if ev_state evaluation = previous_state d scope_key then group_alerted d scope_key
       else announced (ev_state evaluation) (group_alerted d scope_key))"
proof (cases "ev_state evaluation = previous_state d scope_key")
  case True
  then show ?thesis by (auto simp: save_evaluation_unchanged)
next
  case False
  from group_alerted_save [OF assms False] False show ?thesis by simp
qed

theorem save_evaluation_group_alert_witness:
  "group_alerted (snd (save_evaluation 600 empty_db ''s1:domestic'' ''s1'' ''domestic'' (sample_evaluation Unavailable (Some 5)) 7))
     ''s1:domestic''"
  using save_evaluation_group_alert [OF repository_inv_empty, of "''s1:domestic''" "sample_evaluation Unavailable (Some 5)" 7
      600 "''s1''" "''domestic''"]
  by (simp add: fresh_save_def empty_db_def sample_evaluation_def previous_state_def snapshot_row_of_def announced_def)

text \<open>
  The dedupe key of a change is made of the two states and the instant of the newest evidence,
  so a change recorded before with the same evidence instant (two data gaps without any evidence, for
  instance) is not recorded again: the state moves, and no transition, no message is added.
\<close>

theorem save_evaluation_repeat_is_silent:
  assumes "repository_inv d" "ev_state evaluation \<noteq> previous_state d scope_key" "recorded d scope_key evaluation"
    and "snd (save_evaluation quiet d scope_key server_id network_scope evaluation evaluated_at) = d'"
  shows "previous_state d' scope_key = ev_state evaluation \<and> open_transitions d' scope_key = [] \<and>
    map tr_id (db_transitions d') = map tr_id (db_transitions d) \<and> map q_id (db_queue d') = map q_id (db_queue d)"
  by (rule save_evaluation_recorded [OF assms])

definition first_gap_key :: uid where "first_gap_key = dedupe_key_of ''s1:domestic'' Operational Unknown None"

definition after_first_gap :: db where
  \<comment> \<open>operational again after a gap without evidence, whose notice was superseded\<close>
  "after_first_gap = empty_db
     \<lparr>db_snapshots := [\<lparr>sn_scope_key = ''s1:domestic'', sn_server_id = ''s1'', sn_network_scope = ''domestic'',
        sn_state = Operational, sn_reason_code = ''FRESH_SUCCESS'', sn_confidence = ''sufficient'', sn_observed_at = Some (StampP 4),
        sn_evaluated_at = StampP 5, sn_fresh_until = Some (StampP 9), sn_evidence = (1, 1), sn_version = 3\<rparr>],
      db_transitions := [\<lparr>tr_id = transition_id_of first_gap_key, tr_scope_key = ''s1:domestic'', tr_from_state = Operational,
        tr_to_state = Unknown, tr_reason_code = ''NO_FRESH_EVIDENCE'', tr_opened_at = StampP 3, tr_confirmed_at = StampP 3,
        tr_closed_at = Some (StampP 5), tr_dedupe_key = first_gap_key, tr_evidence = (0, 0)\<rparr>],
      db_queue := [\<lparr>q_id = notification_id_of first_gap_key, q_transition_id = transition_id_of first_gap_key,
        q_destination = ''admin'', q_template_key = ''bot.unknown'',
        q_params = \<lparr>qp_server_id = ''s1'', qp_scope_key = ''s1:domestic'', qp_state = Unknown, qp_from_state = Operational\<rparr>,
        q_state = Superseded, q_attempts = 0, q_next_attempt_at = StampP 603, q_sent_at = None, q_last_error_code = None,
        q_dedupe_key = first_gap_key, q_created_at = StampP 3\<rparr>]\<rparr>"

lemma after_first_gap_inv: "repository_inv after_first_gap"
  by (simp add: repository_inv_def transitions_wf_def queue_wf_def queue_row_ok_def one_notice_def one_open_def
      pending_admin_notices_def count_where_def after_first_gap_def unique_def first_gap_key_def)

theorem save_evaluation_repeat_is_silent_witness:
  "map tr_id (db_transitions (snd (save_evaluation 600 after_first_gap ''s1:domestic'' ''s1'' ''domestic'' (sample_evaluation Unknown None) 700)))
     = [transition_id_of first_gap_key]"
  using save_evaluation_repeat_is_silent [OF after_first_gap_inv, of "sample_evaluation Unknown None" "''s1:domestic''" 600 "''s1''" "''domestic''" 700]
  by (simp add: recorded_def Let_def sample_evaluation_def previous_state_def snapshot_row_of_def after_first_gap_def first_gap_key_def)

end
