(* ===== verification/Config.thy ===== *)
theory Config
  imports Json Text
begin

text \<open>
  The validated configuration (src/src/vpnpulse/config.py, contracts/config.schema.json) as far as
  the modelled code reads it: what \<open>config.get\<close> may not find is an option, its default is applied
  where the code applies it.
\<close>

record server_config =
  sc_id :: string
  sc_type :: string
  sc_enabled :: "bool option"
  sc_name :: json
  sc_country_code :: string
  sc_collector_ref :: "string option"
  sc_recommended_priority :: "int option"

record config =
  cfg_servers :: "server_config list"
  cfg_freshness_seconds :: "int option"
  cfg_collection_interval_seconds :: "int option"
  cfg_confirmations :: "int option"
  cfg_quiet_notice_seconds :: "int option"
  cfg_pc_target_interval_seconds :: "int option"
  cfg_observations_days :: "int option"
  cfg_events_days :: "int option"
  cfg_analytics_raw_days :: "int option"
  cfg_audit_days :: "int option"
  cfg_aggregates_days :: "int option"
  cfg_default_language :: "string option"
  cfg_admin_contact_url :: "string option"

definition or_default :: "'a \<Rightarrow> 'a option \<Rightarrow> 'a" where
  "or_default d v = (case v of None \<Rightarrow> d | Some x \<Rightarrow> x)"

definition is_enabled :: "server_config \<Rightarrow> bool" where
  \<comment> \<open>\<open>s.get("enabled", True)\<close>\<close>
  "is_enabled s = or_default True (sc_enabled s)"

definition enabled_servers :: "config \<Rightarrow> server_config list" where
  "enabled_servers config = filter is_enabled (cfg_servers config)"

lemma or_default_simps [simp]: "or_default d None = d" "or_default d (Some x) = x"
  by (simp_all add: or_default_def)

lemma enabled_servers_subset: "set (enabled_servers config) \<subseteq> set (cfg_servers config)"
  by (auto simp: enabled_servers_def)

end
