(* ===== verification/Timeline.thy ===== *)
theory Timeline
  imports Repository Config
begin

text \<open>
  The state timeline of a server and what is computed from it (\<open>_state_times\<close>, \<open>_timeline\<close>,
  \<open>_availability\<close>, \<open>_points\<close> of src/src/vpnpulse/storage/read_model.py). Ratios are rational numbers; \<open>round4\<close>
  is \<open>round(x, 4)\<close> without the error of binary fractions.
\<close>

subsection \<open>Queries\<close>

definition server_key :: "string \<Rightarrow> string" where
  "server_key server_id = ''server:'' @ server_id"

definition min_stamp :: "stamp list \<Rightarrow> stamp option" where
  \<comment> \<open>SELECT MIN(column): NULL over no rows\<close>
  "min_stamp xs = (if xs = [] then None else Some (Min (set xs)))"

definition first_seen :: "db \<Rightarrow> string \<Rightarrow> stamp option" where
  "first_seen d server_id = min_stamp (map ob_observed_at (filter (\<lambda>r. ob_server_id r = server_id) (db_observations d)))"

definition state_times :: "db \<Rightarrow> string \<Rightarrow> datetime option \<times> datetime option" where
  \<comment> \<open>when the current state began, and when the last non-operational spell ended\<close>
  "state_times d server_id =
     (let rows = filter (\<lambda>t. tr_scope_key t = server_key server_id) (db_transitions d);
          since = newest tr_confirmed_at rows;
          ended = newest tr_confirmed_at (filter (\<lambda>t. tr_to_state t = Operational \<and> tr_from_state t \<noteq> Unknown) rows)
      in (map_option (\<lambda>t. dt_of (tr_confirmed_at t)) since, map_option (\<lambda>t. dt_of (tr_confirmed_at t)) ended))"

subsection \<open>The timeline\<close>

type_synonym interval = "datetime \<times> datetime \<times> state"

fun points_loop :: "datetime \<Rightarrow> datetime \<Rightarrow> (datetime \<times> state) list \<Rightarrow> datetime \<Rightarrow> state \<Rightarrow> (datetime \<times> state) list \<Rightarrow> (datetime \<times> state) list" where
  \<comment> \<open>the loop over the transitions with \<open>cursor\<close>, \<open>state\<close> and \<open>points\<close>, and the append after it\<close>
  "points_loop start stop [] cursor st points = points @ [(cursor, st)]"
| "points_loop start stop ((t, to) # rows) cursor st points =
     (if t \<le> start then points_loop start stop rows cursor to points
      else if stop \<le> t then points @ [(cursor, st)]
      else points_loop start stop rows t to (points @ [(cursor, st)]))"

fun intervals_of :: "datetime \<Rightarrow> datetime \<Rightarrow> (datetime \<times> state) list \<Rightarrow> interval list" where
  "intervals_of known_from stop [] = []"
| "intervals_of known_from stop ((t, st) # points) =
     (let until = (case points of [] \<Rightarrow> stop | (t', _) # _ \<Rightarrow> t');
          rest = intervals_of known_from stop points
      in if until \<le> t then rest
         else if t < known_from then
           (if until \<le> known_from then (t, until, Unknown) # rest
            else (t, known_from, Unknown) # (known_from, until, st) # rest)
         else (t, until, st) # rest)"

definition transition_rows :: "db \<Rightarrow> string \<Rightarrow> transition_row list" where
  "transition_rows d server_id = sort_key tr_confirmed_at (filter (\<lambda>t. tr_scope_key t = server_key server_id) (db_transitions d))"

definition current_state :: "db \<Rightarrow> string \<Rightarrow> datetime \<Rightarrow> state" where
  "current_state d server_id stop =
     (case snapshot_row_of d (server_key server_id) of
        None \<Rightarrow> Unknown
      | Some s \<Rightarrow> (case sn_fresh_until s of
                    None \<Rightarrow> sn_state s
                  | Some f \<Rightarrow> if dt_of f < stop then Unknown else sn_state s))"

definition initial_state :: "db \<Rightarrow> string \<Rightarrow> datetime \<Rightarrow> state" where
  "initial_state d server_id stop =
     (case transition_rows d server_id of [] \<Rightarrow> current_state d server_id stop | r # _ \<Rightarrow> tr_from_state r)"

definition known_from :: "db \<Rightarrow> string \<Rightarrow> datetime \<Rightarrow> datetime" where
  "known_from d server_id stop = or_default stop (dt (first_seen d server_id))"

definition timeline :: "db \<Rightarrow> string \<Rightarrow> datetime \<Rightarrow> datetime \<Rightarrow> interval list" where
  "timeline d server_id start stop =
     intervals_of (known_from d server_id stop) stop
       (points_loop start stop (map (\<lambda>r. (dt_of (tr_confirmed_at r), tr_to_state r)) (transition_rows d server_id)) start
          (initial_state d server_id stop) [])"

subsection \<open>Availability\<close>

definition total_seconds :: "timedelta \<Rightarrow> rat" where
  "total_seconds t = of_int t / 1000000"

definition round4 :: "rat \<Rightarrow> rat" where
  "round4 x = of_int (round_half_even (x * 10000)) / 10000"

definition availability_step :: "rat \<times> rat \<Rightarrow> interval \<Rightarrow> rat \<times> rat" where
  "availability_step s iv =
     (let (known, operational) = s; (t, until, st) = iv; secs = total_seconds (until - t)
      in if st = Unknown then (known, operational)
         else (known + secs, operational + (if st = Operational then secs else if st = Degraded then secs / 2 else 0)))"

definition availability :: "db \<Rightarrow> string \<Rightarrow> timedelta \<Rightarrow> datetime \<Rightarrow> rat option \<times> rat option" where
  "availability d server_id window now =
     (let (known, operational) = foldl availability_step (0, 0) (timeline d server_id (now - window) now);
          total = total_seconds window;
          coverage = (if total \<noteq> 0 then Some (round4 (known / total)) else None)
      in if known \<le> 0 then (None, coverage) else (Some (round4 (operational / known)), coverage))"

subsection \<open>Points of a chart\<close>

record bucket =
  bk_connections :: "rat list"
  bk_seen :: bool

record metric_point =
  mp_at :: datetime
  mp_state :: state
  mp_coverage :: rat
  mp_connections :: "int option"

definition period_step :: "string \<Rightarrow> timedelta \<times> nat" where
  "period_step period = (if period = ''24h'' then (minutes 30, 48) else (hours 1, 168))"

definition truncate_rat :: "rat \<Rightarrow> int" where
  \<comment> \<open>\<open>int(x)\<close>: towards zero\<close>
  "truncate_rat x = (if 0 \<le> x then \<lfloor>x\<rfloor> else - \<lfloor>- x\<rfloor>)"

definition bucket_of :: "datetime \<Rightarrow> timedelta \<Rightarrow> nat \<Rightarrow> stamp \<Rightarrow> nat option" where
  "bucket_of start step n value =
     (let index = truncate_rat (of_int (dt_of value - start) / of_int step)
      in if 0 \<le> index \<and> index < int n then Some (nat index) else None)"

definition update_bucket :: "nat option \<Rightarrow> (bucket \<Rightarrow> bucket) \<Rightarrow> bucket list \<Rightarrow> bucket list" where
  "update_bucket index f buckets = (case index of None \<Rightarrow> buckets | Some i \<Rightarrow> buckets[i := f (buckets ! i)])"

definition known_connections :: "jtext \<Rightarrow> rat list" where
  \<comment> \<open>the connection counts of a payload that are numbers\<close>
  "known_connections t = List.map_filter (\<lambda>(k, v). as_num v) (as_dict (jget (loads_or_empty t) ''connections''))"

definition fill_day :: "db \<Rightarrow> string \<Rightarrow> datetime \<Rightarrow> timedelta \<Rightarrow> nat \<Rightarrow> bucket list \<Rightarrow> bucket list" where
  "fill_day d server_id start step n buckets =
     foldl (\<lambda>bs r. let known = known_connections (ob_metrics r)
                  in if known = [] then bs
                     else update_bucket (bucket_of start step n (ob_observed_at r))
                            (\<lambda>b. b\<lparr>bk_connections := bk_connections b @ [sum_list known]\<rparr>) bs)
       buckets
       (sort_key ob_observed_at
          (filter (\<lambda>r. ob_server_id r = server_id \<and> ob_source_kind r = ''collector'' \<and> StampZ start \<le> ob_observed_at r) (db_observations d)))"

definition fill_week :: "db \<Rightarrow> string \<Rightarrow> datetime \<Rightarrow> timedelta \<Rightarrow> nat \<Rightarrow> bucket list \<Rightarrow> bucket list" where
  "fill_week d server_id start step n buckets =
     foldl (\<lambda>bs m. if mt_samples m = 0 then bs
                  else update_bucket (bucket_of start step n (mt_bucket_at m))
                         (\<lambda>b. b\<lparr>bk_connections := bk_connections b @ [mt_avg m]\<rparr>) bs)
       buckets
       (filter (\<lambda>m. mt_server_id m = server_id \<and> mt_metric m = ''connections'' \<and> StampZ start \<le> mt_bucket_at m) (db_metrics d))"

definition mark_seen :: "db \<Rightarrow> string \<Rightarrow> datetime \<Rightarrow> timedelta \<Rightarrow> nat \<Rightarrow> bucket list \<Rightarrow> bucket list" where
  "mark_seen d server_id start step n buckets =
     foldl (\<lambda>bs r. update_bucket (bucket_of start step n (ob_observed_at r)) (\<lambda>b. b\<lparr>bk_seen := True\<rparr>) bs)
       buckets
       (sort_key ob_observed_at (filter (\<lambda>r. ob_server_id r = server_id \<and> StampZ start \<le> ob_observed_at r) (db_observations d)))"

fun state_at :: "interval list \<Rightarrow> datetime \<Rightarrow> state" where
  "state_at [] t = Unknown"
| "state_at ((since, until, st) # ivs) t = (if since \<le> t \<and> t < until then st else state_at ivs t)"

definition mean_connections :: "rat list \<Rightarrow> int option" where
  "mean_connections xs = (if xs = [] then None else Some \<lfloor>sum_list xs / of_nat (length xs) + 1 / 2\<rfloor>)"

definition chart_points :: "db \<Rightarrow> string \<Rightarrow> string \<Rightarrow> datetime \<Rightarrow> metric_point list" where
  "chart_points d server_id period now =
     (let (step, n) = period_step period;
          start = now - step * int n;
          empty = replicate n \<lparr>bk_connections = [], bk_seen = False\<rparr>;
          filled = (if period = ''24h'' then fill_day d server_id start step n empty
                    else fill_week d server_id start step n empty);
          buckets = mark_seen d server_id start step n filled;
          ivs = timeline d server_id start now
      in map (\<lambda>(i, b).
           let stop = start + step * int i + step
           in \<lparr>mp_at = stop,
               mp_state = (if bk_seen b then state_at ivs (min (stop - seconds 1) (now - seconds 1)) else Unknown),
               mp_coverage = (if bk_seen b then 1 else 0),
               mp_connections = mean_connections (bk_connections b)\<rparr>) (enumerate 0 buckets))"

subsection \<open>The timeline partitions its window\<close>

fun tiles :: "datetime \<Rightarrow> datetime \<Rightarrow> interval list \<Rightarrow> bool" where
  \<comment> \<open>the intervals are not empty and follow each other from \<open>a\<close> to \<open>b\<close>\<close>
  "tiles a b [] = (a = b)"
| "tiles a b ((t, until, st) # ivs) = (t = a \<and> a < until \<and> tiles until b ivs)"

fun ascending :: "datetime \<Rightarrow> datetime \<Rightarrow> (datetime \<times> state) list \<Rightarrow> bool" where
  \<comment> \<open>the points begin at \<open>a\<close>, do not go back and lie before \<open>b\<close>\<close>
  "ascending a b [] = True"
| "ascending a b ((t, st) # ps) = (a \<le> t \<and> t < b \<and> ascending t b ps)"

lemma intervals_tiles:
  "ps \<noteq> [] \<Longrightarrow> ascending (fst (hd ps)) stop ps \<Longrightarrow> tiles (fst (hd ps)) stop (intervals_of known stop ps)"
proof (induction known stop ps rule: intervals_of.induct)
  case (2 known stop t st points)
  show ?case
  proof (cases points)
    case Nil
    with 2 show ?thesis by (simp add: Let_def)
  next
    case (Cons p ps)
    obtain t' st' where p: "p = (t', st')" by fastforce
    with "2.prems" Cons have "ascending t' stop points" "t \<le> t'" "t' < stop" by simp_all
    with "2.IH" [of t'] Cons p have rest: "tiles t' stop (intervals_of known stop points)" by simp
    show ?thesis
    proof (cases "t' \<le> t")
      case True
      with \<open>t \<le> t'\<close> rest Cons p show ?thesis by simp
    next
      case False
      with rest Cons p show ?thesis by (simp del: intervals_of.simps add: intervals_of.simps(2) [of known stop t st] Let_def)
    qed
  qed
qed simp

lemma ascending_append: "ascending a b (ps @ [(t, st)]) \<longleftrightarrow> ascending a b ps \<and> t < b \<and> (\<forall>p \<in> set ps. fst p \<le> t) \<and> a \<le> t"
proof (induction a b ps rule: ascending.induct)
  case (2 a b t' st' ps)
  then show ?case by auto
qed auto

lemma points_loop_ascending:
  "start \<le> cursor \<Longrightarrow> cursor < stop \<Longrightarrow> ascending start stop points \<Longrightarrow> \<forall>p \<in> set points. fst p \<le> cursor \<Longrightarrow>
   sorted (map fst rows) \<Longrightarrow> (\<forall>r \<in> set rows. start < fst r \<longrightarrow> cursor \<le> fst r) \<Longrightarrow>
   ascending start stop (points_loop start stop rows cursor st points)"
proof (induction start stop rows cursor st points rule: points_loop.induct)
  case (1 start stop cursor st points)
  then show ?case by (simp add: ascending_append)
next
  case (2 start stop t to rows cursor st points)
  show ?case
  proof (cases "t \<le> start \<or> stop \<le> t")
    case True
    with 2 show ?thesis by (auto simp: ascending_append)
  next
    case False
    then have t: "start < t" "t < stop" by simp_all
    with "2.prems"(6) have le: "cursor \<le> t" by simp
    have "ascending start stop (points @ [(cursor, st)])" using "2.prems" by (simp add: ascending_append)
    moreover have "\<forall>p \<in> set (points @ [(cursor, st)]). fst p \<le> t" using "2.prems"(4) le by fastforce
    moreover have "\<forall>r \<in> set rows. start < fst r \<longrightarrow> t \<le> fst r" using "2.prems"(5) by auto
    ultimately show ?thesis using "2.IH"(2) False t "2.prems"(5) by simp
  qed
qed

lemma points_loop_nonempty: "points_loop start stop rows cursor st points \<noteq> []"
  by (induction start stop rows cursor st points rule: points_loop.induct) auto

lemma points_loop_hd:
  "(points = [] \<longrightarrow> cursor = start) \<Longrightarrow> (points \<noteq> [] \<longrightarrow> fst (hd points) = start) \<Longrightarrow>
   fst (hd (points_loop start stop rows cursor st points)) = start"
  by (induction start stop rows cursor st points rule: points_loop.induct) (auto simp: hd_append)

definition written_in_utc :: "db \<Rightarrow> bool" where
  \<comment> \<open>the instants of transitions are written by \<open>save_evaluation\<close>, in one rendering\<close>
  "written_in_utc d \<longleftrightarrow> list_all (\<lambda>t. \<exists>u. tr_confirmed_at t = StampP u) (db_transitions d)"

lemma sorted_stampp:
  "\<forall>r \<in> set rows. \<exists>u. k r = StampP u \<Longrightarrow> sorted (map k rows) \<Longrightarrow> sorted (map (\<lambda>r. dt_of (k r)) rows)"
proof (induction rows)
  case (Cons r rows)
  from Cons.prems(1) obtain u where u: "k r = StampP u" by auto
  have "dt_of (k r) \<le> dt_of (k x)" if "x \<in> set rows" for x
  proof -
    from that Cons.prems(1) obtain v where v: "k x = StampP v" by auto
    from that Cons.prems(2) have "k r \<le> k x" by simp
    with u v show ?thesis by simp
  qed
  with Cons show ?case by simp
qed simp

lemma sorted_rows:
  assumes "written_in_utc d"
  shows "sorted (map fst (map (\<lambda>r. (dt_of (tr_confirmed_at r), tr_to_state r)) (transition_rows d server_id)))"
  using sorted_stampp [of "transition_rows d server_id" tr_confirmed_at] assms
  by (simp add: written_in_utc_def list_all_iff transition_rows_def o_def)

lemma timeline_tiles:
  assumes "written_in_utc d" "start < stop"
  shows "tiles start stop (timeline d server_id start stop)"
proof -
  let ?rows = "map (\<lambda>r. (dt_of (tr_confirmed_at r), tr_to_state r)) (transition_rows d server_id)"
  let ?ps = "points_loop start stop ?rows start (initial_state d server_id stop) []"
  have hd: "fst (hd ?ps) = start" by (rule points_loop_hd) simp_all
  have "ascending start stop ?ps"
    by (rule points_loop_ascending) (use assms sorted_rows [OF assms(1)] in auto)
  with intervals_tiles [OF points_loop_nonempty] show ?thesis
    unfolding timeline_def by (metis hd)
qed

subsection \<open>What the timeline says at an instant\<close>

definition last_before :: "(datetime \<times> state) list \<Rightarrow> state \<Rightarrow> datetime \<Rightarrow> state" where
  \<comment> \<open>the state after the last change that is not later than \<open>t\<close>\<close>
  "last_before rows initial t = foldl (\<lambda>st r. if fst r \<le> t then snd r else st) initial rows"

definition state_spec :: "db \<Rightarrow> string \<Rightarrow> datetime \<Rightarrow> datetime \<Rightarrow> state" where
  "state_spec d server_id stop t =
     (if t < known_from d server_id stop then Unknown
      else last_before (map (\<lambda>r. (dt_of (tr_confirmed_at r), tr_to_state r)) (transition_rows d server_id)) (initial_state d server_id stop) t)"

lemma last_before_later: "\<forall>r \<in> set rows. t < fst r \<Longrightarrow> last_before rows st t = st"
  by (induction rows arbitrary: st) (auto simp: last_before_def)

lemma last_before_Cons: "last_before (r # rows) st t = last_before rows (if fst r \<le> t then snd r else st) t"
  by (simp add: last_before_def)

lemma last_before_points:
  "\<forall>p \<in> set points. fst p \<le> cursor \<Longrightarrow> start \<le> t \<Longrightarrow> t < stop \<Longrightarrow> start \<le> cursor \<Longrightarrow> sorted (map fst rows) \<Longrightarrow>
   (\<forall>r \<in> set rows. start < fst r \<longrightarrow> cursor \<le> fst r) \<Longrightarrow>
   last_before (points_loop start stop rows cursor st points) st0 t =
     (if cursor \<le> t then last_before rows st t else last_before points st0 t)"
proof (induction start stop rows cursor st points rule: points_loop.induct)
  case (1 start stop cursor st points)
  then show ?case by (auto simp: last_before_def)
next
  case (2 start stop u to rows cursor st points)
  show ?case
  proof (cases "u \<le> start")
    case True
    have "cursor = cursor" ..
    show ?thesis
    proof (cases "cursor \<le> t")
      case True
      then show ?thesis using 2 \<open>u \<le> start\<close> by (simp add: last_before_Cons)
    next
      case False
      then show ?thesis using 2 \<open>u \<le> start\<close> by simp
    qed
  next
    case False
    then have u: "start < u" "cursor \<le> u" using "2.prems"(6) by simp_all
    show ?thesis
    proof (cases "stop \<le> u")
      case True
      then have "\<forall>r \<in> set ((u, to) # rows). t < fst r" using "2.prems"(3,5) by auto
      with True False show ?thesis
        by (auto simp: last_before_later [of "(u, to) # rows"]) (simp_all add: last_before_def)
    next
      case inside: False
      have pts: "\<forall>p \<in> set (points @ [(cursor, st)]). fst p \<le> u" using "2.prems"(1) u by fastforce
      have IH: "last_before (points_loop start stop rows u to (points @ [(cursor, st)])) st0 t =
          (if u \<le> t then last_before rows to t else last_before (points @ [(cursor, st)]) st0 t)"
        using "2.IH"(2) [OF False inside pts] "2.prems" u by auto
      show ?thesis
      proof (cases "u \<le> t")
        case True
        with IH False inside u show ?thesis by (simp add: last_before_Cons)
      next
        case later: False
        then have "\<forall>r \<in> set ((u, to) # rows). t < fst r" using "2.prems"(5) by auto
        with IH False inside later show ?thesis
          by (simp add: last_before_later [of "(u, to) # rows"]) (simp add: last_before_def)
      qed
    qed
  qed
qed

lemma ascending_ge: "ascending a b ps \<Longrightarrow> \<forall>p \<in> set ps. a \<le> fst p"
  by (induction a b ps rule: ascending.induct) fastforce+

lemma intervals_state:
  "ps \<noteq> [] \<Longrightarrow> ascending (fst (hd ps)) stop ps \<Longrightarrow> fst (hd ps) \<le> t \<Longrightarrow> t < stop \<Longrightarrow>
   state_at (intervals_of known stop ps) t = (if t < known then Unknown else last_before ps st0 t)"
proof (induction known stop ps arbitrary: st0 rule: intervals_of.induct)
  case (2 known stop u st points)
  show ?case
  proof (cases points)
    case Nil
    with "2.prems" show ?thesis by (auto simp: last_before_def)
  next
    case (Cons p ps)
    obtain u' st' where p: "p = (u', st')" by fastforce
    with "2.prems" Cons have asc: "ascending u' stop points" "u \<le> u'" "u' < stop" by simp_all
    have le: "u \<le> t" using "2.prems"(3) by simp
    have unfold: "intervals_of known stop ((u, st) # points) =
        (if u' \<le> u then intervals_of known stop points
         else if u < known then
           (if u' \<le> known then (u, u', Unknown) # intervals_of known stop points
            else (u, known, Unknown) # (known, u', st) # intervals_of known stop points)
         else (u, u', st) # intervals_of known stop points)"
      using Cons p by (simp add: Let_def)
    have step: "last_before ((u, st) # points) st0 t = last_before points st t" using le by (simp add: last_before_Cons)
    show ?thesis
    proof (cases "u' \<le> t")
      case True
      have "state_at (intervals_of known stop points) t = (if t < known then Unknown else last_before points st t)"
        using "2.IH" [of u' st] Cons p asc True "2.prems"(4) by simp
      with True le show ?thesis unfolding unfold step by auto
    next
      case False
      have "\<forall>r \<in> set points. t < fst r" using ascending_ge [OF asc(1)] False by fastforce
      then have "last_before points st t = st" by (rule last_before_later)
      with False le show ?thesis unfolding unfold step by auto
    qed
  qed
qed simp

lemma timeline_state:
  assumes "written_in_utc d" "start \<le> t" "t < stop"
  shows "state_at (timeline d server_id start stop) t = state_spec d server_id stop t"
proof -
  let ?rows = "map (\<lambda>r. (dt_of (tr_confirmed_at r), tr_to_state r)) (transition_rows d server_id)"
  let ?ps = "points_loop start stop ?rows start (initial_state d server_id stop) []"
  have hd: "fst (hd ?ps) = start" by (rule points_loop_hd) simp_all
  have "ascending start stop ?ps"
    by (rule points_loop_ascending) (use assms sorted_rows [OF assms(1)] in auto)
  then have "state_at (timeline d server_id start stop) t =
      (if t < known_from d server_id stop then Unknown else last_before ?ps Unknown t)"
    unfolding timeline_def using assms by (intro intervals_state [OF points_loop_nonempty]) (simp_all add: hd)
  moreover have "last_before ?ps Unknown t = last_before ?rows (initial_state d server_id stop) t"
    using assms sorted_rows [OF assms(1)] by (subst last_before_points) auto
  ultimately show ?thesis by (simp add: state_spec_def)
qed

subsection \<open>Availability is a ratio\<close>

lemma availability_fold:
  "tiles a b ivs \<Longrightarrow> foldl availability_step (k, w) ivs = (k', w') \<Longrightarrow>
   a \<le> b \<and> 0 \<le> w' - w \<and> w' - w \<le> k' - k \<and> k' - k \<le> total_seconds (b - a)"
proof (induction a b ivs arbitrary: k w rule: tiles.induct)
  case (1 a b)
  then show ?case by (simp add: total_seconds_def)
next
  case (2 a b t until st ivs)
  obtain k1 w1 where step: "availability_step (k, w) (t, until, st) = (k1, w1)" by fastforce
  from "2.prems" step have "tiles until b ivs" "foldl availability_step (k1, w1) ivs = (k', w')" "t = a" "a < until" by simp_all
  with "2.IH" have IH: "until \<le> b" "0 \<le> w' - w1" "w' - w1 \<le> k' - k1" "k' - k1 \<le> total_seconds (b - until)" by blast+
  have secs: "0 \<le> total_seconds (until - a)" using \<open>a < until\<close> by (simp add: total_seconds_def)
  have first: "0 \<le> w1 - w" "w1 - w \<le> k1 - k" "k1 - k \<le> total_seconds (until - a)"
    using step secs \<open>t = a\<close> by (auto simp: availability_step_def Let_def split: if_splits)
  have "total_seconds (b - a) = total_seconds (until - a) + total_seconds (b - until)"
    by (simp add: total_seconds_def diff_divide_distrib)
  with IH first \<open>a < until\<close> show ?case by linarith
qed

lemma round4_bounds: "0 \<le> x \<Longrightarrow> x \<le> 1 \<Longrightarrow> 0 \<le> round4 x \<and> round4 x \<le> 1"
  using round_half_even_mono_bounds [of 0 "x * 10000" 10000] by (simp add: round4_def)

lemma availability_bounds:
  assumes "written_in_utc d" "0 < window" "availability d server_id window now = (uptime, coverage)"
  shows "(case uptime of None \<Rightarrow> True | Some u \<Rightarrow> 0 \<le> u \<and> u \<le> 1) \<and> (\<exists>c. coverage = Some c \<and> 0 \<le> c \<and> c \<le> 1)"
proof -
  obtain k w where fold: "foldl availability_step (0, 0) (timeline d server_id (now - window) now) = (k, w)" by fastforce
  have "tiles (now - window) now (timeline d server_id (now - window) now)"
    using assms(1,2) by (intro timeline_tiles) simp_all
  from availability_fold [OF this fold] have b: "0 \<le> w" "w \<le> k" "k \<le> total_seconds window" by simp_all
  have total: "0 < total_seconds window" using assms(2) by (simp add: total_seconds_def)
  have "0 \<le> k / total_seconds window" "k / total_seconds window \<le> 1" using b total by simp_all
  note cov = round4_bounds [OF this]
  show ?thesis
  proof (cases "k \<le> 0")
    case True
    with assms(3) fold total cov show ?thesis by (auto simp: availability_def Let_def)
  next
    case False
    then have "0 \<le> w / k" "w / k \<le> 1" using b by simp_all
    from round4_bounds [OF this] False assms(3) fold total cov show ?thesis by (auto simp: availability_def Let_def)
  qed
qed

subsection \<open>Properties\<close>

definition sample_transition :: "state \<Rightarrow> state \<Rightarrow> datetime \<Rightarrow> transition_row" where
  "sample_transition a b t =
     \<lparr>tr_id = transition_id_of (dedupe_key_of ''server:s1'' a b (Some t)), tr_scope_key = ''server:s1'', tr_from_state = a, tr_to_state = b,
      tr_reason_code = ''SAMPLE'', tr_opened_at = StampP t, tr_confirmed_at = StampP t, tr_closed_at = None,
      tr_dedupe_key = dedupe_key_of ''server:s1'' a b (Some t), tr_evidence = (1, 1)\<rparr>"

definition silent_db :: db where
  \<comment> \<open>operational since instant 0, when the only observation was made\<close>
  "silent_db = empty_db
     \<lparr>db_transitions := [sample_transition Unknown Operational 0],
      db_snapshots := [\<lparr>sn_scope_key = ''server:s1'', sn_server_id = ''s1'', sn_network_scope = ''all'', sn_state = Operational,
        sn_reason_code = ''FULL_SUCCESS_CONFIRMED'', sn_confidence = ''sufficient'', sn_observed_at = Some (StampP 0), sn_evaluated_at = StampP 0,
        sn_fresh_until = Some (StampP (minutes 3)), sn_evidence = (1, 1), sn_version = 1\<rparr>],
      db_observations := [\<lparr>ob_id = Uuid4 ''o'', ob_server_id = ''s1'', ob_source_kind = ''human_activity'', ob_network_scope = ''all'',
        ob_observed_at = StampZ 0, ob_received_at = StampZ 0, ob_result = ''success'', ob_fresh_until = StampZ (minutes 3),
        ob_confidence = ''sufficient'', ob_metrics = Some (JObj []), ob_error_code = None, ob_run_id = None, ob_report_id = None\<rparr>]\<rparr>"

text \<open>
  C22. The timeline of a server cuts its window into intervals without gap, overlap or empty piece,
  and says at every instant of the window the state after the last recorded transition, unknown before
  the first observation.
\<close>

theorem timeline_partition:
  assumes "written_in_utc d" "start < stop"
  shows "tiles start stop (timeline d server_id start stop) \<and>
    (start \<le> t \<longrightarrow> t < stop \<longrightarrow> state_at (timeline d server_id start stop) t = state_spec d server_id stop t)"
  using timeline_tiles [OF assms] timeline_state [OF assms(1)] by blast

theorem timeline_partition_witness:
  "tiles 5 90 (timeline silent_db ''s1'' 5 90) \<and> state_at (timeline silent_db ''s1'' 5 90) 7 = state_spec silent_db ''s1'' 90 7"
  using timeline_partition [of silent_db 5 90 "''s1''" 7] by (simp add: written_in_utc_def silent_db_def sample_transition_def)

text \<open>
  Uptime and coverage are ratios: over any window of positive length both lie between zero and one,
  after rounding too, and the uptime is missing only when nothing is known.
\<close>

theorem availability_is_ratio:
  assumes "written_in_utc d" "0 < window" "availability d server_id window now = (uptime, coverage)"
  shows "(case uptime of None \<Rightarrow> True | Some u \<Rightarrow> 0 \<le> u \<and> u \<le> 1) \<and> (\<exists>c. coverage = Some c \<and> 0 \<le> c \<and> c \<le> 1)"
  by (rule availability_bounds [OF assms])

theorem availability_is_ratio_witness:
  "\<exists>c. snd (availability silent_db ''s1'' 60 90) = Some c \<and> 0 \<le> c \<and> c \<le> 1"
  using availability_is_ratio [of silent_db 60 "''s1''" 90, OF _ _ prod.collapse [symmetric]]
  by (simp add: written_in_utc_def silent_db_def sample_transition_def)

text \<open>
  The timeline knows nothing of freshness once there is a transition: a server seen once, a day
  ago, and never since (the loop was down) is shown as stale, but has a day of uptime and coverage of one.
\<close>

theorem availability_counts_silence:
  "availability silent_db ''s1'' (hours 24) (hours 24) = (Some 1, Some 1) \<and>
   current_state silent_db ''s1'' (hours 24) = Unknown"
proof -
  have rows: "transition_rows silent_db ''s1'' = [sample_transition Unknown Operational 0]"
    by (simp add: transition_rows_def silent_db_def sample_transition_def server_key_def)
  have seen: "known_from silent_db ''s1'' (hours 24) = 0"
    by (simp add: known_from_def first_seen_def silent_db_def min_stamp_def dt_def)
  have "timeline silent_db ''s1'' 0 (hours 24) = [(0, hours 24, Operational)]"
    using seen by (simp add: timeline_def rows sample_transition_def hours_def)
  then show ?thesis
    by (simp add: availability_def availability_step_def total_seconds_def round4_def round_half_even_def Let_def current_state_def
        snapshot_row_of_def silent_db_def server_key_def hours_def minutes_def)
qed

end
