(* ===== verification/Recommendation.thy ===== *)
theory Recommendation
  imports Domain
begin

text \<open>
  The recommendation (\<open>recommend_server\<close> in src/src/vpnpulse/domain/evaluator.py): among the
  eligible candidates the least loaded, the previous one kept while it is within a tenth of the
  best. Loads are exact rationals, the factor 1.10 is eleven tenths.
\<close>

definition eligible :: "server_candidate \<Rightarrow> bool" where
  "eligible item \<longleftrightarrow>
     ev_state (cand_evaluation item) = Operational \<and> 0 < ev_coverage (cand_evaluation item) \<and> cand_complete item"

definition rank :: "server_candidate \<Rightarrow> bool \<times> rat \<times> int \<times> string" where
  \<comment> \<open>the sort key; every candidate without a load shares the infinity of the source, here 0\<close>
  "rank item = (cand_load_score item = None, (case cand_load_score item of None \<Rightarrow> 0 | Some x \<Rightarrow> x),
     - cand_priority item, cand_server_id item)"

definition recommend_server :: "server_candidate list \<Rightarrow> string option \<Rightarrow> string option" where
  "recommend_server candidates previous_server_id =
    (let elig = filter eligible candidates
     in if elig = [] then None
        else
          let previous = find (\<lambda>item. Some (cand_server_id item) = previous_server_id) elig;
              best = hd (sort_key rank elig)
          in case previous of
               None \<Rightarrow> Some (cand_server_id best)
             | Some p \<Rightarrow>
                 (case (cand_load_score p, cand_load_score best) of
                    (Some lp, Some lb) \<Rightarrow>
                      if lp \<le> lb * (11 / 10) then Some (cand_server_id p) else Some (cand_server_id best)
                  | _ \<Rightarrow> Some (cand_server_id p)))"

definition best_of :: "server_candidate list \<Rightarrow> server_candidate" where
  "best_of elig = hd (sort_key rank elig)"

lemma best_of_in: "elig \<noteq> [] \<Longrightarrow> best_of elig \<in> set elig"
  by (metis best_of_def hd_in_set set_sort sort_key_Nil_iff)

lemma best_of_least:
  assumes "c \<in> set elig"
  shows "rank (best_of elig) \<le> rank c"
proof (cases "sort_key rank elig")
  case Nil
  with assms show ?thesis by auto
next
  case (Cons b bs)
  moreover have "sorted (map rank (sort_key rank elig))" by simp
  ultimately have "\<forall>x \<in> set (sort_key rank elig). rank b \<le> rank x" by auto
  moreover have "c \<in> set (sort_key rank elig)" using assms by simp
  ultimately have "rank b \<le> rank c" by blast
  with Cons show ?thesis by (simp add: best_of_def)
qed

lemma best_load_least:
  assumes "c \<in> set elig" "cand_load_score c = Some lc"
  shows "\<exists>lb. cand_load_score (best_of elig) = Some lb \<and> lb \<le> lc"
  using best_of_least [OF assms(1)] assms(2)
  by (cases "cand_load_score (best_of elig)") (auto simp: rank_def)

lemma recommend_server_cases:
  assumes "recommend_server candidates previous = Some sid"
  shows "\<exists>c \<in> set candidates. eligible c \<and> cand_server_id c = sid \<and>
     (c = best_of (filter eligible candidates) \<or> previous = Some sid)"
proof -
  let ?elig = "filter eligible candidates"
  from assms have ne: "?elig \<noteq> []" by (auto simp: recommend_server_def split: if_splits)
  then have best: "best_of ?elig \<in> set candidates" "eligible (best_of ?elig)"
    using best_of_in [OF ne] by simp_all
  show ?thesis
  proof (cases "find (\<lambda>item. Some (cand_server_id item) = previous) ?elig")
    case None
    with assms ne have "sid = cand_server_id (best_of ?elig)"
      by (simp add: recommend_server_def best_of_def)
    with best show ?thesis by blast
  next
    case (Some p)
    then have p: "p \<in> set candidates" "eligible p" "Some (cand_server_id p) = previous"
      by (auto dest: find_Some_in)
    from assms ne Some have "sid = cand_server_id p \<or> sid = cand_server_id (best_of ?elig)"
      by (auto simp: recommend_server_def best_of_def Let_def split: option.splits if_splits)
    with p best show ?thesis by auto
  qed
qed

lemma recommend_server_None: "recommend_server candidates previous = None \<longleftrightarrow> \<not> (\<exists>c \<in> set candidates. eligible c)"
  by (auto simp: recommend_server_def Let_def filter_empty_conv split: option.splits)

text \<open>
  C2. A server is recommended exactly when some candidate is eligible, and what is recommended is
  an eligible candidate that is either the least in the ranking order (known load first, then
  load, priority, id) or the one recommended before.
\<close>

theorem recommend_server_sound:
  "case recommend_server candidates previous of
     None \<Rightarrow> \<not> (\<exists>c \<in> set candidates. eligible c)
   | Some sid \<Rightarrow> (\<exists>c \<in> set candidates. eligible c \<and> cand_server_id c = sid \<and>
       ((\<forall>d \<in> set candidates. eligible d \<longrightarrow> rank c \<le> rank d) \<or> previous = Some sid))"
proof (cases "recommend_server candidates previous")
  case None
  then have "\<not> (\<exists>c \<in> set candidates. eligible c)"
    using recommend_server_None [of candidates previous] by blast
  then show ?thesis unfolding None option.case .
next
  case (Some sid)
  then show ?thesis
    using recommend_server_cases [OF Some] best_of_least [of _ "filter eligible candidates"] by fastforce
qed

definition sample_candidate :: "string \<Rightarrow> rat option \<Rightarrow> server_candidate" where
  "sample_candidate sid load =
     \<lparr>cand_server_id = sid,
      cand_evaluation = \<lparr>ev_state = Operational, ev_reason_code = ''FULL_SUCCESS_CONFIRMED'', ev_observed_at = Some 0,
        ev_fresh_until = Some 0, ev_evidence_count = 1, ev_coverage = 1\<rparr>,
      cand_load_score = load, cand_complete = True, cand_priority = 0\<rparr>"

theorem recommend_server_sound_witness:
  "\<exists>c \<in> {sample_candidate ''a'' (Some 9), sample_candidate ''b'' (Some 4)}.
     cand_server_id c = ''b'' \<and> rank c \<le> rank (sample_candidate ''a'' (Some 9))"
  using recommend_server_sound [of "[sample_candidate ''a'' (Some 9), sample_candidate ''b'' (Some 4)]" None]
  by (simp add: recommend_server_def sample_candidate_def eligible_def rank_def)

text \<open>
  The recommendation does not flap: while the previous server is eligible and its load is at
  most a tenth above every eligible known load (or unknown), it stays recommended.
\<close>

theorem recommend_server_sticky:
  assumes "p \<in> set candidates" "eligible p"
    and "distinct (map cand_server_id candidates)"
    and "\<And>d lp ld. d \<in> set candidates \<Longrightarrow> eligible d \<Longrightarrow> cand_load_score p = Some lp \<Longrightarrow>
      cand_load_score d = Some ld \<Longrightarrow> lp \<le> ld * (11 / 10)"
  shows "recommend_server candidates (Some (cand_server_id p)) = Some (cand_server_id p)"
proof -
  let ?elig = "filter eligible candidates"
  have ne: "?elig \<noteq> []" using assms(1,2) by (auto simp: filter_empty_conv)
  have "unique cand_server_id ?elig"
    by (rule unique_filter) (simp add: unique_def assms(3))
  then have "find (\<lambda>item. cand_server_id item = cand_server_id p) ?elig = Some p"
    by (rule find_unique) (simp add: assms(1,2))
  moreover have "best_of ?elig \<in> set candidates" "eligible (best_of ?elig)"
    using best_of_in [OF ne] by simp_all
  ultimately show ?thesis
    using ne assms(4) [of "best_of ?elig"]
    by (auto simp: recommend_server_def best_of_def [symmetric] Let_def split: option.split)
qed

theorem recommend_server_sticky_witness:
  "recommend_server [sample_candidate ''a'' (Some 11), sample_candidate ''b'' (Some 10)] (Some ''a'') = Some ''a''"
  using recommend_server_sticky [of "sample_candidate ''a'' (Some 11)"
      "[sample_candidate ''a'' (Some 11), sample_candidate ''b'' (Some 10)]"]
  by (fastforce simp: sample_candidate_def eligible_def)

end
