(* ===== verification/Store.thy ===== *)
theory Store
  imports Database Config
begin

text \<open>
  What the API writes (\<open>SqliteStore\<close> and \<open>sync_servers\<close> of src/src/vpnpulse/storage/store.py):
  configured servers, web sessions, enrollment codes and probes. Random tokens and identifiers are
  arguments; an operation that may violate a constraint returns \<open>Inl IntegrityError\<close>.
\<close>

record store_settings =
  st_config :: config
  st_pepper :: string
  st_session_minutes :: int
  st_enrollment_minutes :: int

definition session_ttl :: "store_settings \<Rightarrow> timedelta" where
  "session_ttl st = minutes (st_session_minutes st)"

definition enrollment_ttl :: "store_settings \<Rightarrow> timedelta" where
  "enrollment_ttl st = minutes (st_enrollment_minutes st)"

definition freshness :: "config \<Rightarrow> timedelta" where
  "freshness config = seconds (or_default 180 (cfg_freshness_seconds config))"

subsection \<open>Servers and protocols of the configuration\<close>

definition protocol_of_type :: "string \<Rightarrow> string" where
  \<comment> \<open>\<open>PROTOCOL_OF_TYPE.get(type, "amneziawg")\<close>\<close>
  "protocol_of_type t =
     (if t = ''awg-host'' then ''amneziawg'' else if t = ''awg-docker'' then ''amneziawg''
      else if t = ''hiddify'' then ''xray_reality'' else ''amneziawg'')"

definition merge_server :: "server_row \<Rightarrow> server_row \<Rightarrow> server_row" where
  "merge_server old excluded =
     old\<lparr>srv_type := srv_type excluded, srv_enabled := srv_enabled excluded,
         srv_display_order := srv_display_order excluded, srv_updated_at := srv_updated_at excluded\<rparr>"

definition merge_protocol :: "protocol_row \<Rightarrow> protocol_row \<Rightarrow> protocol_row" where
  "merge_protocol old excluded = old\<lparr>pr_enabled := True, pr_updated_at := pr_updated_at excluded\<rparr>"

definition sync_server :: "datetime \<Rightarrow> db \<Rightarrow> nat \<times> server_config \<Rightarrow> db" where
  "sync_server now d entry =
     (let (order, s) = entry;
          kind = protocol_of_type (sc_type s)
      in d\<lparr>db_servers := upsert srv_id merge_server
             \<lparr>srv_id = sc_id s, srv_public_id = sc_id s, srv_type = sc_type s, srv_enabled = is_enabled s,
              srv_display_order = order + 1, srv_created_at = StampZ now, srv_updated_at = StampZ now\<rparr> (db_servers d),
           db_protocols := upsert pr_id merge_protocol
             \<lparr>pr_id = sc_id s @ '':'' @ kind, pr_server_id = sc_id s, pr_kind = kind, pr_label_key = ''server.protocol.'' @ kind,
              pr_enabled = True, pr_coverage_state = ''complete'', pr_created_at = StampZ now, pr_updated_at = StampZ now\<rparr>
             (db_protocols d)\<rparr>)"

definition sync_servers :: "db \<Rightarrow> config \<Rightarrow> datetime \<Rightarrow> db" where
  "sync_servers d config now =
     (let configured = map sc_id (cfg_servers config);
          d1 = foldl (sync_server now) d (enumerate 0 (cfg_servers config))
      in d1\<lparr>db_servers :=
              update_where (\<lambda>r. srv_enabled r \<and> srv_id r \<notin> set configured)
                (\<lambda>r. r\<lparr>srv_enabled := False, srv_updated_at := StampZ now\<rparr>) (db_servers d1)\<rparr>)"

subsection \<open>Sessions\<close>

record identity =
  id_telegram_user :: int
  id_role :: string

record session =
  se_token :: string
  se_identity :: identity
  se_expires_at :: datetime

definition peppered :: "store_settings \<Rightarrow> string \<Rightarrow> digest" where
  "peppered st who = Sha (st_pepper st @ '':'' @ who)"

definition create_session :: "store_settings \<Rightarrow> db \<Rightarrow> string \<Rightarrow> identity \<Rightarrow> datetime \<Rightarrow> sql_error + session \<times> db" where
  "create_session st d token identity now =
     (let expires = now + session_ttl st
      in case insert_row ses_id_hash
             \<lparr>ses_id_hash = Sha token, ses_role = id_role identity,
              ses_telegram_user_hash = peppered st (show_int (id_telegram_user identity)),
              ses_created_at = StampZ now, ses_expires_at = StampZ expires, ses_last_membership_check_at = StampZ now,
              ses_revoked_at = None\<rparr> (db_sessions d) of
           Inl e \<Rightarrow> Inl e
         | Inr rows \<Rightarrow> Inr (\<lparr>se_token = token, se_identity = identity, se_expires_at = expires\<rparr>, d\<lparr>db_sessions := rows\<rparr>))"

definition get_session :: "db \<Rightarrow> string option \<Rightarrow> datetime \<Rightarrow> session option" where
  \<comment> \<open>the Telegram id is stored only as a hash, so the session found carries 0 and the role\<close>
  "get_session d token now =
     (case token of
        None \<Rightarrow> None
      | Some t \<Rightarrow>
          if t = [] then None
          else
            (case find (\<lambda>r. ses_id_hash r = Sha t) (db_sessions d) of
               None \<Rightarrow> None
             | Some row \<Rightarrow>
                 if ses_revoked_at row \<noteq> None then None
                 else if dt_of (ses_expires_at row) \<le> now then None
                 else Some \<lparr>se_token = t, se_identity = \<lparr>id_telegram_user = 0, id_role = ses_role row\<rparr>,
                            se_expires_at = dt_of (ses_expires_at row)\<rparr>))"

definition revoke_session :: "db \<Rightarrow> string option \<Rightarrow> datetime \<Rightarrow> db" where
  "revoke_session d token now =
     (case token of
        None \<Rightarrow> d
      | Some t \<Rightarrow>
          if t = [] then d
          else d\<lparr>db_sessions := update_where (\<lambda>r. ses_id_hash r = Sha t \<and> ses_revoked_at r = None)
                   (\<lambda>r. r\<lparr>ses_revoked_at := Some (StampZ now)\<rparr>) (db_sessions d)\<rparr>)"

subsection \<open>Enrollment codes\<close>

definition create_enrollment ::
  "store_settings \<Rightarrow> db \<Rightarrow> string \<Rightarrow> string \<Rightarrow> string list \<Rightarrow> string \<Rightarrow> datetime \<Rightarrow> string option \<Rightarrow> sql_error + (string \<times> datetime) \<times> db" where
  "create_enrollment st d code kind capabilities created_by now via_server_id =
     (let expires = now + enrollment_ttl st
      in case insert_row en_code_hash
             \<lparr>en_code_hash = Sha code, en_kind = kind, en_capabilities = capabilities, en_expires_at = StampZ expires,
              en_used_at = None, en_created_by_hash = peppered st created_by, en_created_at = StampZ now,
              en_via_server_id = via_server_id\<rparr> (db_enrollments d) of
           Inl e \<Rightarrow> Inl e
         | Inr rows \<Rightarrow> Inr ((code, expires), d\<lparr>db_enrollments := rows\<rparr>))"

record enrollment =
  el_kind :: string
  el_capabilities :: "string list"
  el_via_server_id :: "string option"

definition consume_enrollment :: "db \<Rightarrow> string \<Rightarrow> datetime \<Rightarrow> enrollment option \<times> db" where
  "consume_enrollment d code now =
     (case find (\<lambda>r. en_code_hash r = Sha code) (db_enrollments d) of
        None \<Rightarrow> (None, d)
      | Some row \<Rightarrow>
          if en_used_at row \<noteq> None then (None, d)
          else if dt_of (en_expires_at row) \<le> now then (None, d)
          else (Some \<lparr>el_kind = en_kind row, el_capabilities = en_capabilities row, el_via_server_id = en_via_server_id row\<rparr>,
                d\<lparr>db_enrollments := update_where (\<lambda>r. en_code_hash r = Sha code)
                    (\<lambda>r. r\<lparr>en_used_at := Some (StampZ now)\<rparr>) (db_enrollments d)\<rparr>))"

subsection \<open>Probes\<close>

record probe_info =
  ps_id :: string
  ps_kind :: string
  ps_status :: string
  ps_last_seen_at :: "stamp option"
  ps_capabilities :: "string list"
  ps_agent_version :: string
  ps_route_verified :: "bool option"
  ps_network_type :: "string option"
  ps_via_server_id :: "string option"
  ps_internal_id :: string

definition latest_report :: "db \<Rightarrow> string \<Rightarrow> report_row option" where
  \<comment> \<open>... WHERE probe_id = ? ORDER BY received_at DESC LIMIT 1\<close>
  "latest_report d probe_id = first_row (order_desc rep_received_at (filter (\<lambda>r. rep_probe_id r = probe_id) (db_reports d)))"

definition probe_summary :: "db \<Rightarrow> string \<Rightarrow> probe_info option" where
  "probe_summary d public_id =
     (case find (\<lambda>r. pb_public_id r = public_id) (db_probes d) of
        None \<Rightarrow> None
      | Some row \<Rightarrow>
          let report = latest_report d (pb_id row)
          in Some \<lparr>ps_id = pb_public_id row, ps_kind = pb_kind row, ps_status = pb_status row,
                   ps_last_seen_at = iso_z (dt (pb_last_seen_at row)), ps_capabilities = pb_capabilities row,
                   ps_agent_version = pb_agent_version row, ps_route_verified = map_option rep_route_verified report,
                   ps_network_type = map_option rep_network_type report, ps_via_server_id = pb_via_server_id row,
                   ps_internal_id = pb_id row\<rparr>)"

definition register_probe ::
  "db \<Rightarrow> string \<Rightarrow> string \<Rightarrow> string \<Rightarrow> string list \<Rightarrow> string \<Rightarrow> datetime \<Rightarrow> string option \<Rightarrow> sql_error + (string \<times> probe_info option) \<times> db" where
  \<comment> \<open>\<open>suffix\<close> is the random part of the public id, \<open>token\<close> the random bearer token\<close>
  "register_probe d token suffix kind capabilities agent_version now via_server_id =
     (let public_id = kind @ ''-'' @ suffix;
          row = \<lparr>pb_id = public_id, pb_public_id = public_id, pb_kind = kind, pb_status = ''active'', pb_capabilities = capabilities,
                 pb_token_hash = Sha token, pb_token_prefix = take 6 token, pb_schema_major = 1, pb_agent_version = agent_version,
                 pb_enrolled_at = StampZ now, pb_last_seen_at = None, pb_revoked_at = None, pb_via_server_id = via_server_id\<rparr>
      in if pb_public_id row \<in> pb_public_id ` set (db_probes d) then Inl IntegrityError
         else case insert_row pb_id row (db_probes d) of
                Inl e \<Rightarrow> Inl e
              | Inr rows \<Rightarrow> Inr ((token, probe_summary (d\<lparr>db_probes := rows\<rparr>) public_id), d\<lparr>db_probes := rows\<rparr>))"

definition probe_by_token :: "db \<Rightarrow> string \<Rightarrow> probe_info option" where
  "probe_by_token d token =
     (case find (\<lambda>r. pb_token_hash r = Sha token) (db_probes d) of
        None \<Rightarrow> None
      | Some row \<Rightarrow> if pb_status row = ''revoked'' then None else probe_summary d (pb_public_id row))"

definition list_probes :: "db \<Rightarrow> probe_info option list" where
  "list_probes d = map (\<lambda>r. probe_summary d (pb_public_id r)) (sort_key pb_enrolled_at (db_probes d))"

definition revoke_probe :: "db \<Rightarrow> string \<Rightarrow> datetime \<Rightarrow> bool \<times> db" where
  "revoke_probe d public_id now =
     (let hit = (\<lambda>r. pb_public_id r = public_id \<and> pb_status r \<noteq> ''revoked'')
      in (0 < count_where hit (db_probes d),
          d\<lparr>db_probes := update_where hit (\<lambda>r. r\<lparr>pb_status := ''revoked'', pb_revoked_at := Some (StampZ now)\<rparr>) (db_probes d)\<rparr>))"

definition probe_checks :: "string \<Rightarrow> string list" where
  \<comment> \<open>\<open>PROBE_CHECKS.get(kind, [])\<close>\<close>
  "probe_checks kind =
     (if kind = ''pc'' then [''control_internet'', ''handshake'', ''https'']
      else if kind = ''android'' then [''dns'', ''tcp''] else if kind = ''abroad'' then [''handshake''] else [])"

record probe_task =
  pc_schema_version :: int
  pc_interval_seconds :: int
  pc_targets :: "(string \<times> string list) list"

definition probe_config :: "config \<Rightarrow> string \<Rightarrow> string option \<Rightarrow> probe_task" where
  "probe_config config kind via_server_id =
     \<lparr>pc_schema_version = 1, pc_interval_seconds = or_default 60 (cfg_pc_target_interval_seconds config),
      pc_targets = map (\<lambda>s. (sc_id s, probe_checks kind))
        (filter (\<lambda>s. is_enabled s \<and> via_server_id \<noteq> Some (sc_id s)) (cfg_servers config))\<rparr>"

subsection \<open>The contract of the session store\<close>

datatype session_op = OpenSession string identity datetime | CloseSession string datetime

type_synonym session_map = "string \<Rightarrow> (string \<times> datetime) option"

definition session_at :: "session_map \<Rightarrow> string \<Rightarrow> datetime \<Rightarrow> session option" where
  \<comment> \<open>what a map from tokens to roles and ends of life answers\<close>
  "session_at m t now =
     (case m t of
        None \<Rightarrow> None
      | Some (role, expires) \<Rightarrow>
          if expires \<le> now then None
          else Some \<lparr>se_token = t, se_identity = \<lparr>id_telegram_user = 0, id_role = role\<rparr>, se_expires_at = expires\<rparr>)"

fun map_op :: "timedelta \<Rightarrow> session_op \<Rightarrow> session_map \<Rightarrow> session_map" where
  "map_op ttl (OpenSession t who now) m = m(t := Some (id_role who, now + ttl))"
| "map_op ttl (CloseSession t now) m = m(t := None)"

fun op_token :: "session_op \<Rightarrow> string" where
  "op_token (OpenSession t who now) = t"
| "op_token (CloseSession t now) = t"

locale session_contract =
  fixes lookup :: "'s \<Rightarrow> string option \<Rightarrow> datetime \<Rightarrow> session option"
    and opened :: "'s \<Rightarrow> string \<Rightarrow> identity \<Rightarrow> datetime \<Rightarrow> sql_error + session \<times> 's"
    and closed :: "'s \<Rightarrow> string option \<Rightarrow> datetime \<Rightarrow> 's"
    and ttl :: timedelta
  assumes lookup_opened: "t \<noteq> [] \<Longrightarrow> opened s t who now = Inr (x, s') \<Longrightarrow> u \<noteq> [] \<Longrightarrow>
      lookup s' (Some u) later = (if u = t then session_at [t \<mapsto> (id_role who, now + ttl)] t later else lookup s (Some u) later)"
    and lookup_closed: "t \<noteq> [] \<Longrightarrow> u \<noteq> [] \<Longrightarrow>
      lookup (closed s (Some t) now) (Some u) later = (if u = t then None else lookup s (Some u) later)"
begin

definition represents :: "'s \<Rightarrow> session_map \<Rightarrow> bool" where
  "represents s m \<longleftrightarrow> (\<forall>u later. u \<noteq> [] \<longrightarrow> lookup s (Some u) later = session_at m u later)"

fun run_op :: "session_op \<Rightarrow> 's \<Rightarrow> sql_error + 's" where
  "run_op (OpenSession t who now) s = bind_err (opened s t who now) (\<lambda>(x, s'). Inr s')"
| "run_op (CloseSession t now) s = Inr (closed s (Some t) now)"

lemma represents_step:
  assumes "represents s m" "run_op op s = Inr s'" "op_token op \<noteq> []"
  shows "represents s' (map_op ttl op m)"
proof (cases op)
  case (OpenSession t who now)
  with assms(2) obtain x where "opened s t who now = Inr (x, s')" by (auto simp: bind_err_Inr)
  with assms(1,3) OpenSession show ?thesis
    by (auto simp: represents_def lookup_opened session_at_def)
next
  case (CloseSession t now)
  with assms show ?thesis by (auto simp: represents_def lookup_closed session_at_def)
qed

lemma represents_run:
  "represents s m \<Longrightarrow> \<forall>op \<in> set ops. op_token op \<noteq> [] \<Longrightarrow> fold_err run_op ops s = Inr s' \<Longrightarrow>
   represents s' (fold (map_op ttl) ops m)"
proof (induction ops arbitrary: s m)
  case (Cons op ops)
  then obtain t where t: "run_op op s = Inr t" "fold_err run_op ops t = Inr s'" by (auto simp: bind_err_Inr)
  have "represents t (map_op ttl op m)" using Cons.prems t(1) by (intro represents_step) auto
  from Cons.IH [OF this _ t(2)] Cons.prems(2) show ?case by simp
qed simp

lemma lookup_run:
  assumes "represents s m" "\<forall>op \<in> set ops. op_token op \<noteq> []" "fold_err run_op ops s = Inr s'" "u \<noteq> []"
  shows "lookup s' (Some u) later = session_at (fold (map_op ttl) ops m) u later"
  using represents_run [OF assms(1-3)] assms(4) by (simp add: represents_def)

end

lemma get_session_alt:
  "t \<noteq> [] \<Longrightarrow> get_session d (Some t) now =
     (case find (\<lambda>r. ses_id_hash r = Sha t) (db_sessions d) of
        None \<Rightarrow> None
      | Some row \<Rightarrow> if ses_revoked_at row \<noteq> None \<or> dt_of (ses_expires_at row) \<le> now then None
          else Some \<lparr>se_token = t, se_identity = \<lparr>id_telegram_user = 0, id_role = ses_role row\<rparr>,
                     se_expires_at = dt_of (ses_expires_at row)\<rparr>)"
  by (simp add: get_session_def split: option.split)

lemma create_session_row:
  assumes "create_session st d token identity now = Inr (x, d')"
  shows "\<exists>row. db_sessions d' = db_sessions d @ [row] \<and> ses_id_hash row = Sha token \<and> ses_role row = id_role identity \<and>
      dt_of (ses_expires_at row) = now + session_ttl st \<and> ses_revoked_at row = None \<and>
      find (\<lambda>r. ses_id_hash r = Sha token) (db_sessions d) = None"
proof -
  from assms have "Sha token \<notin> ses_id_hash ` set (db_sessions d)"
    by (auto simp: create_session_def insert_row_def Let_def split: if_splits)
  then have "find (\<lambda>r. ses_id_hash r = Sha token) (db_sessions d) = None"
    unfolding find_None_iff_none by (metis imageI)
  with assms show ?thesis by (auto simp: create_session_def insert_row_def Let_def split: if_splits)
qed

interpretation sessions: session_contract get_session "create_session st" revoke_session "session_ttl st" for st
proof unfold_locales
  fix d d' :: db and t u :: string and who now x later
  assume t: "t \<noteq> []" "create_session st d t who now = Inr (x, d')" "u \<noteq> []"
  then obtain row where row: "db_sessions d' = db_sessions d @ [row]" "ses_id_hash row = Sha t" "ses_role row = id_role who"
      "dt_of (ses_expires_at row) = now + session_ttl st" "ses_revoked_at row = None"
      "find (\<lambda>r. ses_id_hash r = Sha t) (db_sessions d) = None"
    using create_session_row by blast
  have "find (\<lambda>r. ses_id_hash r = Sha u) (db_sessions d') =
      (if u = t then Some row else find (\<lambda>r. ses_id_hash r = Sha u) (db_sessions d))"
    using row by (cases "u = t") (auto simp: find_append split: option.split)
  with t(3) row(3-5) show
    "get_session d' (Some u) later = (if u = t then session_at [t \<mapsto> (id_role who, now + session_ttl st)] t later else get_session d (Some u) later)"
    by (auto simp: get_session_alt session_at_def)
next
  fix d :: db and t u :: string and now later
  assume t: "t \<noteq> []" "u \<noteq> []"
  have rows: "find (\<lambda>r. ses_id_hash r = Sha u) (db_sessions (revoke_session d (Some t) now)) =
      map_option (\<lambda>r. if ses_id_hash r = Sha t \<and> ses_revoked_at r = None then r\<lparr>ses_revoked_at := Some (StampZ now)\<rparr> else r)
        (find (\<lambda>r. ses_id_hash r = Sha u) (db_sessions d))"
    using t(1) by (simp add: revoke_session_def find_key_update_where [where key = ses_id_hash])
  show "get_session (revoke_session d (Some t) now) (Some u) later = (if u = t then None else get_session d (Some u) later)"
  proof (cases "find (\<lambda>r. ses_id_hash r = Sha u) (db_sessions d)")
    case None
    with t rows show ?thesis by (simp add: get_session_alt)
  next
    case (Some row)
    then have "ses_id_hash row = Sha u" by (auto dest: find_Some_in)
    with Some t rows show ?thesis by (auto simp: get_session_alt)
  qed
qed

fun session_step :: "store_settings \<Rightarrow> session_op \<Rightarrow> db \<Rightarrow> sql_error + db" where
  \<comment> \<open>one call of the store by the session routes\<close>
  "session_step st (OpenSession t who now) d = bind_err (create_session st d t who now) (\<lambda>(x, d'). Inr d')"
| "session_step st (CloseSession t now) d = Inr (revoke_session d (Some t) now)"

lemma session_step_run_op: "session_step st = sessions.run_op st"
  by (intro ext) (rename_tac op d, case_tac op, simp_all)

lemma get_session_run:
  assumes "db_sessions d = []" "\<forall>op \<in> set ops. op_token op \<noteq> []" "fold_err (session_step st) ops d = Inr d'" "u \<noteq> []"
  shows "get_session d' (Some u) later = session_at (fold (map_op (session_ttl st)) ops Map.empty) u later"
proof (rule sessions.lookup_run [OF _ assms(2) _ assms(4)])
  show "sessions.represents d Map.empty"
    using assms(1) by (simp add: sessions.represents_def get_session_alt session_at_def)
  show "fold_err (sessions.run_op st) ops d = Inr d'"
    using assms(3) unfolding session_step_run_op .
qed

subsection \<open>Enrollment codes are spent once\<close>

inductive enrollment_step :: "db \<Rightarrow> db \<Rightarrow> bool" where
  create: "create_enrollment st d code kind capabilities creator now via = Inr (answer, d') \<Longrightarrow> enrollment_step d d'"
| consume: "consume_enrollment d code now = (answer, d') \<Longrightarrow> enrollment_step d d'"
| other: "db_enrollments d' = db_enrollments d \<Longrightarrow> enrollment_step d d'"

definition spent :: "db \<Rightarrow> string \<Rightarrow> bool" where
  "spent d code \<longleftrightarrow> list_ex (\<lambda>r. en_code_hash r = Sha code \<and> en_used_at r \<noteq> None) (db_enrollments d)"

definition enrollments_unique :: "db \<Rightarrow> bool" where
  "enrollments_unique d \<longleftrightarrow> unique en_code_hash (db_enrollments d)"

interpretation using_code: key_update en_code_hash "\<lambda>r. r\<lparr>en_used_at := u\<rparr>" for u
  by unfold_locales simp

lemma list_ex_update_where: "list_ex Q (update_where P f rows) \<longleftrightarrow> (\<exists>r \<in> set rows. Q (if P r then f r else r))"
  by (induction rows) (auto simp: update_where_def)

lemma consume_enrollment_cases:
  obtains (refused) "consume_enrollment d code now = (None, d)"
  | (accepted) row where "row \<in> set (db_enrollments d)" "en_code_hash row = Sha code" "en_used_at row = None"
      "now < dt_of (en_expires_at row)"
      "consume_enrollment d code now = (Some \<lparr>el_kind = en_kind row, el_capabilities = en_capabilities row, el_via_server_id = en_via_server_id row\<rparr>,
         d\<lparr>db_enrollments := update_where (\<lambda>r. en_code_hash r = Sha code) (\<lambda>r. r\<lparr>en_used_at := Some (StampZ now)\<rparr>) (db_enrollments d)\<rparr>)"
proof (cases "find (\<lambda>r. en_code_hash r = Sha code) (db_enrollments d)")
  case None
  then show ?thesis by (intro refused) (simp add: consume_enrollment_def)
next
  case (Some row)
  note row = find_Some_in [OF Some]
  show ?thesis
  proof (cases "en_used_at row \<noteq> None \<or> dt_of (en_expires_at row) \<le> now")
    case True
    with Some show ?thesis by (intro refused) (auto simp: consume_enrollment_def)
  next
    case False
    with Some row show ?thesis by (intro accepted [of row]) (simp_all add: consume_enrollment_def)
  qed
qed

lemma enrollment_step_inv:
  assumes "enrollment_step d d'" "enrollments_unique d"
  shows "enrollments_unique d' \<and> (spent d code \<longrightarrow> spent d' code)"
  using assms
proof (induction rule: enrollment_step.induct)
  case (create st d c kind capabilities creator now via answer d')
  then obtain row where "db_enrollments d' = db_enrollments d @ [row]" "en_code_hash row \<notin> en_code_hash ` set (db_enrollments d)"
    by (auto simp: create_enrollment_def insert_row_def Let_def split: if_splits)
  with create.prems show ?case by (auto simp: enrollments_unique_def unique_append spent_def)
next
  case (consume d c now answer d')
  show ?case
  proof (cases rule: consume_enrollment_cases [of d c now])
    case refused
    with consume show ?thesis by simp
  next
    case (accepted row)
    then have d': "db_enrollments d' = update_where (\<lambda>r. en_code_hash r = Sha c)
        (\<lambda>r. r\<lparr>en_used_at := Some (StampZ now)\<rparr>) (db_enrollments d)"
      using consume.hyps by auto
    have "spent d' code" if "spent d code"
    proof -
      from that obtain r where r: "r \<in> set (db_enrollments d)" "en_code_hash r = Sha code" "en_used_at r \<noteq> None"
        unfolding spent_def list_ex_iff by blast
      show ?thesis
        unfolding spent_def d' list_ex_update_where by (rule bexI [OF _ r(1)]) (use r(2,3) in simp)
    qed
    with d' consume.prems show ?thesis by (simp add: enrollments_unique_def using_code.unique_update)
  qed
next
  case (other d' d)
  then show ?case by (simp add: enrollments_unique_def spent_def)
qed

lemma spent_refused:
  assumes "enrollments_unique d" "spent d code"
  shows "consume_enrollment d code now = (None, d)"
proof (cases rule: consume_enrollment_cases [of d code now])
  case refused
  then show ?thesis .
next
  case (accepted row)
  from assms(2) obtain r where "r \<in> set (db_enrollments d)" "en_code_hash r = Sha code" "en_used_at r \<noteq> None"
    by (auto simp: spent_def list_ex_iff)
  with accepted(1-3) assms(1) have False
    unfolding enrollments_unique_def by (metis unique_same)
  then show ?thesis ..
qed

lemma consume_spends:
  assumes "consume_enrollment d code now = (Some e, d')"
  shows "spent d' code"
proof (cases rule: consume_enrollment_cases [of d code now])
  case refused
  with assms show ?thesis by simp
next
  case (accepted row)
  with assms have "d' = d\<lparr>db_enrollments := update_where (\<lambda>r. en_code_hash r = Sha code)
      (\<lambda>r. r\<lparr>en_used_at := Some (StampZ now)\<rparr>) (db_enrollments d)\<rparr>" by simp
  with accepted(1,2) show ?thesis
    by (auto simp: spent_def list_ex_update_where intro!: bexI [of _ row])
qed

lemma enrollment_single_use:
  assumes "enrollments_unique d" "consume_enrollment d code now = (Some e, d')" "enrollment_step\<^sup>*\<^sup>* d' d''"
  shows "consume_enrollment d'' code later = (None, d'')"
proof -
  have "enrollments_unique d'" using enrollment_step_inv [OF enrollment_step.consume [OF assms(2)] assms(1)] by blast
  with consume_spends [OF assms(2)] have "enrollments_unique d' \<and> spent d' code" by blast
  with assms(3) have "enrollments_unique d'' \<and> spent d'' code"
    by (induction rule: rtranclp_induct) (use enrollment_step_inv in blast)+
  then show ?thesis by (blast intro: spent_refused)
qed

subsection \<open>Bearer tokens of probes\<close>

definition probes_unique :: "db \<Rightarrow> bool" where
  "probes_unique d \<longleftrightarrow> unique pb_public_id (db_probes d) \<and> unique pb_token_hash (db_probes d)"

interpretation revoking: key_update pb_token_hash "\<lambda>r. r\<lparr>pb_status := s, pb_revoked_at := w\<rparr>" for s w
  by unfold_locales simp

interpretation revoking_id: key_update pb_public_id "\<lambda>r. r\<lparr>pb_status := s, pb_revoked_at := w\<rparr>" for s w
  by unfold_locales simp

lemma probe_summary_id: "probe_summary d i = Some p \<Longrightarrow> ps_id p = i"
  by (auto simp: probe_summary_def Let_def split: option.splits dest: find_Some_in)

lemma probe_by_token_id:
  "map_option ps_id (probe_by_token d token) =
     (case find (\<lambda>r. pb_token_hash r = Sha token) (db_probes d) of
        None \<Rightarrow> None | Some row \<Rightarrow> if pb_status row = ''revoked'' then None else Some (pb_public_id row))"
proof (cases "find (\<lambda>r. pb_token_hash r = Sha token) (db_probes d)")
  case None
  then show ?thesis by (simp add: probe_by_token_def)
next
  case (Some row)
  then have "row \<in> set (db_probes d)" by (auto dest: find_Some_in)
  then have "find (\<lambda>r. pb_public_id r = pb_public_id row) (db_probes d) \<noteq> None"
    by (auto simp: find_None_iff_none)
  then obtain p where "probe_summary d (pb_public_id row) = Some p"
    by (auto simp: probe_summary_def Let_def)
  with Some probe_summary_id [OF this] show ?thesis by (simp add: probe_by_token_def)
qed

lemma revoke_probe_token:
  assumes "revoke_probe d public_id now = (ok, d')"
  shows "map_option ps_id (probe_by_token d' token) =
    (case map_option ps_id (probe_by_token d token) of
       None \<Rightarrow> None | Some i \<Rightarrow> if i = public_id then None else Some i)"
proof -
  have d': "db_probes d' = update_where (\<lambda>r. pb_public_id r = public_id \<and> pb_status r \<noteq> ''revoked'')
      (\<lambda>r. r\<lparr>pb_status := ''revoked'', pb_revoked_at := Some (StampZ now)\<rparr>) (db_probes d)"
    using assms by (auto simp: revoke_probe_def Let_def)
  show ?thesis
    unfolding probe_by_token_id d'
    by (subst find_key_update_where [where key = pb_token_hash]) (auto split: option.split)
qed

lemma register_probe_token:
  assumes "register_probe d token suffix kind capabilities agent_version now via = Inr (answer, d')"
    and "Sha token \<notin> pb_token_hash ` set (db_probes d)"
  shows "map_option ps_id (probe_by_token d' t) = (if t = token then Some (kind @ ''-'' @ suffix) else map_option ps_id (probe_by_token d t))"
proof -
  from assms(1) obtain row where row: "db_probes d' = db_probes d @ [row]" "pb_token_hash row = Sha token" "pb_status row = ''active''"
      "pb_public_id row = kind @ ''-'' @ suffix"
    by (auto simp: register_probe_def insert_row_def Let_def split: if_splits)
  have "find (\<lambda>r. pb_token_hash r = Sha token) (db_probes d) = None"
    unfolding find_None_iff_none using assms(2) by (metis imageI)
  with row show ?thesis
    unfolding probe_by_token_id by (cases "t = token") (auto simp: find_append split: option.split)
qed

subsection \<open>Properties\<close>

definition sample_settings :: store_settings where
  "sample_settings = \<lparr>st_config = \<lparr>cfg_servers = [], cfg_freshness_seconds = None, cfg_collection_interval_seconds = None,
      cfg_confirmations = None, cfg_quiet_notice_seconds = None, cfg_pc_target_interval_seconds = None,
      cfg_observations_days = None, cfg_events_days = None, cfg_analytics_raw_days = None, cfg_audit_days = None,
      cfg_aggregates_days = None, cfg_default_language = None, cfg_admin_contact_url = None\<rparr>,
     st_pepper = ''p'', st_session_minutes = 30, st_enrollment_minutes = 10\<rparr>"

text \<open>
  C9. The session table behaves as a map from tokens to roles and ends of life: after any sequence
  of sign-ins and sign-outs that the database accepted, a token opens exactly what the map says, it ends
  at its last sign-out or thirty minutes (the configured time) after its sign-in, and no other token is
  affected.
\<close>

theorem sessions_are_a_map:
  assumes "db_sessions d = []" "\<forall>op \<in> set ops. op_token op \<noteq> []" "fold_err (session_step st) ops d = Inr d'" "u \<noteq> []"
  shows "get_session d' (Some u) later = session_at (fold (map_op (session_ttl st)) ops Map.empty) u later"
  by (rule get_session_run [OF assms])

theorem sessions_are_a_map_witness:
  "\<exists>d'. fold_err (session_step sample_settings) [OpenSession ''tok'' \<lparr>id_telegram_user = 7, id_role = ''admin''\<rparr> 5] empty_db = Inr d' \<and>
     get_session d' (Some ''tok'') 9 =
       Some \<lparr>se_token = ''tok'', se_identity = \<lparr>id_telegram_user = 0, id_role = ''admin''\<rparr>, se_expires_at = 1800000005\<rparr>"
proof -
  obtain d' where d': "fold_err (session_step sample_settings) [OpenSession ''tok'' \<lparr>id_telegram_user = 7, id_role = ''admin''\<rparr> 5] empty_db = Inr d'"
    by (simp add: create_session_def insert_row_def empty_db_def Let_def)
  from sessions_are_a_map [OF _ _ d', of "''tok''" 9] have "get_session d' (Some ''tok'') 9 =
       Some \<lparr>se_token = ''tok'', se_identity = \<lparr>id_telegram_user = 0, id_role = ''admin''\<rparr>, se_expires_at = 1800000005\<rparr>"
    by (simp add: empty_db_def session_at_def session_ttl_def sample_settings_def minutes_def)
  with d' show ?thesis by blast
qed


definition sample_code_db :: db where
  "sample_code_db = empty_db\<lparr>db_enrollments := [\<lparr>en_code_hash = Sha ''code'', en_kind = ''pc'', en_capabilities = [],
     en_expires_at = StampZ 100, en_used_at = None, en_created_by_hash = Sha ''x'', en_created_at = StampZ 1, en_via_server_id = None\<rparr>]\<rparr>"


text \<open>
  C11. A bearer token authenticates exactly the probe it was issued to: a registration adds its token
  and changes no other, a revocation takes away the tokens of that probe and of no other.
\<close>

theorem probe_tokens:
  assumes "register_probe d token suffix kind capabilities agent_version now via = Inr (answer, d1)"
    and "Sha token \<notin> pb_token_hash ` set (db_probes d)"
    and "revoke_probe d1 public_id later = (ok, d2)"
  shows "map_option ps_id (probe_by_token d1 t) = (if t = token then Some (kind @ ''-'' @ suffix) else map_option ps_id (probe_by_token d t)) \<and>
    map_option ps_id (probe_by_token d2 t) =
      (if map_option ps_id (probe_by_token d1 t) = Some public_id then None else map_option ps_id (probe_by_token d1 t))"
  using register_probe_token [OF assms(1,2), of t] revoke_probe_token [OF assms(3), of t] by (simp split: option.split)

theorem probe_tokens_witness:
  "\<exists>d1. map_option ps_id (probe_by_token d1 ''secret'') = Some ''pc-01'' \<and>
     map_option ps_id (probe_by_token (snd (revoke_probe d1 ''pc-01'' 9)) ''secret'') = None"
proof -
  obtain answer d1 where d1: "register_probe empty_db ''secret'' ''01'' ''pc'' [] ''1'' 5 None = Inr (answer, d1)"
    by (auto simp: register_probe_def insert_row_def empty_db_def Let_def)
  obtain ok d2 where d2: "revoke_probe d1 ''pc-01'' 9 = (ok, d2)" by fastforce
  from probe_tokens [OF d1 _ d2, where t = "''secret''"] d2 show ?thesis
    by (intro exI [of _ d1]) (simp add: empty_db_def)
qed

end
