(* ===== verification/Reports.thy ===== *)
theory Reports
  imports Store
begin

text \<open>
  Probe reports become observations (\<open>SqliteStore.accept_report\<close>): a report is stored once under its
  id, its results are grouped by target, and every known target gets one observation.
\<close>

datatype report_error = ReportIntegrity | ReportConflict

definition SOURCE_OF_PROBE :: "(string \<times> string) list" where
  "SOURCE_OF_PROBE = [(''pc'', ''pc''), (''android'', ''mobile''), (''abroad'', ''abroad''), (''watchdog'', ''collector'')]"

definition SCOPE_OF_PROBE :: "(string \<times> string) list" where
  "SCOPE_OF_PROBE = [(''pc'', ''country''), (''android'', ''country''), (''abroad'', ''abroad''), (''watchdog'', ''all'')]"

definition FULL_TEST_CHECKS :: "string list" where
  "FULL_TEST_CHECKS = [''handshake'', ''https'']"

definition lookup_or :: "(string \<times> string) list \<Rightarrow> string \<Rightarrow> string \<Rightarrow> string" where
  "lookup_or table k d = or_default d (map_of table k)"

definition report_summary :: "report_item list \<Rightarrow> string" where
  "report_summary results =
     (if list_all (\<lambda>r. ri_result r = ''success'') results then ''success''
      else if list_ex (\<lambda>r. ri_result r = ''failure'') results then ''failure'' else ''not_run'')"

definition text_or :: "string option \<Rightarrow> string option \<Rightarrow> string option" where
  \<comment> \<open>\<open>a or b\<close> on optional texts: an empty text counts as missing\<close>
  "text_or a b = (case a of Some (c # cs) \<Rightarrow> a | _ \<Rightarrow> b)"

definition nonempty :: "string option \<Rightarrow> bool" where
  "nonempty a \<longleftrightarrow> a \<noteq> None \<and> a \<noteq> Some []"

definition report_row_of :: "report \<Rightarrow> string \<Rightarrow> datetime \<Rightarrow> report_row" where
  "report_row_of payload probe_id now =
     \<lparr>rep_id = rp_report_id payload, rep_probe_id = probe_id, rep_schema_version = rp_schema_version payload,
      rep_agent_version = rp_agent_version payload, rep_observed_at = StampZ (rp_observed_at payload),
      rep_received_at = StampZ now, rep_network_type = rp_network_type payload, rep_ip_family = rp_ip_family payload,
      rep_route_verified = rp_route_verified payload, rep_payload_hash = ShaReport payload,
      rep_result = report_summary (rp_results payload),
      rep_not_run_reason = Option.bind (find (\<lambda>r. nonempty (ri_not_run_reason r)) (rp_results payload)) ri_not_run_reason\<rparr>"

definition target_result :: "report_item list \<Rightarrow> string" where
  "target_result items =
     (let ran = filter (\<lambda>i. ri_result i \<noteq> ''not_run'') items
      in if ran = [] then ''not_run''
         else if list_ex (\<lambda>i. ri_result i = ''failure'') ran then ''failure'' else ''success'')"

definition target_checks :: "report_item list \<Rightarrow> (string \<times> string) list" where
  \<comment> \<open>\<open>{item["check"]: item["result"] for item in items}\<close>: the last result of a check stays\<close>
  "target_checks items = foldl (\<lambda>d i. AList.update (ri_check i) (ri_result i) d) [] items"

definition target_error :: "report_item list \<Rightarrow> string option" where
  "target_error items =
     Option.bind (find (\<lambda>i. ri_result i \<noteq> ''success'' \<and> nonempty (text_or (ri_error_code i) (ri_not_run_reason i))) items)
       (\<lambda>i. text_or (ri_error_code i) (ri_not_run_reason i))"

definition target_metrics :: "probe_info \<Rightarrow> report \<Rightarrow> report_item list \<Rightarrow> jdict" where
  "target_metrics probe payload items =
     (let checks = target_checks items;
          control = map_of checks ''control_internet''
      in [(''checks'', JObj (map (\<lambda>(k, v). (k, JStr v)) checks)),
          (''full_vpn_test'', JBool (set FULL_TEST_CHECKS \<subseteq> fst ` set checks)),
          (''control_internet_ok'', jopt (\<lambda>c. JBool (c = ''success'')) control),
          (''route_verified'', JBool (rp_route_verified payload)),
          (''network_type'', JStr (rp_network_type payload))] @
         (if ps_kind probe = ''abroad'' then [(''via_server_id'', jopt JStr (ps_via_server_id probe))] else []))"

definition report_observation_id :: "string \<Rightarrow> string \<Rightarrow> uid" where
  "report_observation_id report_id target_id = Uuid5 ''url'' [KStr ''report'', KStr report_id, KStr target_id]"

definition target_observation :: "config \<Rightarrow> probe_info \<Rightarrow> report \<Rightarrow> datetime \<Rightarrow> string \<times> report_item list \<Rightarrow> observation_row" where
  "target_observation config probe payload now entry =
     (let (target_id, items) = entry
      in \<lparr>ob_id = report_observation_id (rp_report_id payload) target_id, ob_server_id = target_id,
          ob_source_kind = lookup_or SOURCE_OF_PROBE (ps_kind probe) (ps_kind probe),
          ob_network_scope = lookup_or SCOPE_OF_PROBE (ps_kind probe) ''country'',
          ob_observed_at = StampZ (rp_observed_at payload), ob_received_at = StampZ now, ob_result = target_result items,
          ob_fresh_until = StampZ (rp_observed_at payload + freshness config),
          ob_confidence = (if rp_route_verified payload then ''sufficient'' else ''partial''),
          ob_metrics = Some (JObj (target_metrics probe payload items)), ob_error_code = target_error items,
          ob_run_id = None, ob_report_id = Some (rp_report_id payload)\<rparr>)"

definition insert_observation :: "observation_row \<Rightarrow> db \<Rightarrow> report_error + db" where
  \<comment> \<open>INSERT INTO observations, with its primary key and its references to servers, runs and reports\<close>
  "insert_observation row d =
     (if ob_server_id row \<notin> known_servers d then Inl ReportIntegrity
      else if (case ob_report_id row of None \<Rightarrow> False | Some i \<Rightarrow> i \<notin> rep_id ` set (db_reports d)) then Inl ReportIntegrity
      else if (case ob_run_id row of None \<Rightarrow> False | Some i \<Rightarrow> i \<notin> run_id ` set (db_runs d)) then Inl ReportIntegrity
      else case insert_row ob_id row (db_observations d) of
             Inl _ \<Rightarrow> Inl ReportIntegrity
           | Inr rows \<Rightarrow> Inr (d\<lparr>db_observations := rows\<rparr>))"

definition store_target :: "config \<Rightarrow> probe_info \<Rightarrow> report \<Rightarrow> datetime \<Rightarrow> string \<times> report_item list \<Rightarrow> db \<times> nat \<Rightarrow> report_error + db \<times> nat" where
  \<comment> \<open>a target that is not one of our servers is ignored, never invented\<close>
  "store_target config probe payload now entry s =
     (let (d, written) = s
      in if fst entry \<notin> known_servers d then Inr (d, written)
         else bind_err (insert_observation (target_observation config probe payload now entry) d) (\<lambda>d'. Inr (d', written + 1)))"

definition accept_report :: "config \<Rightarrow> db \<Rightarrow> probe_info \<Rightarrow> report \<Rightarrow> datetime \<Rightarrow> report_error + (bool \<times> nat) \<times> db" where
  "accept_report config d probe payload now =
     (case find (\<lambda>r. rep_id r = rp_report_id payload) (db_reports d) of
        Some existing \<Rightarrow>
          if rep_payload_hash existing \<noteq> ShaReport payload then Inl ReportConflict else Inr ((True, 0), d)
      | None \<Rightarrow>
          if ps_internal_id probe \<notin> pb_id ` set (db_probes d) then Inl ReportIntegrity
          else
            let d1 = d\<lparr>db_reports := db_reports d @ [report_row_of payload (ps_internal_id probe) now]\<rparr>
            in bind_err (fold_err (store_target config probe payload now) (group_by ri_target_id (rp_results payload)) (d1, 0))
                 (\<lambda>(d2, written). Inr ((False, written),
                    d2\<lparr>db_probes := update_where (\<lambda>r. pb_id r = ps_internal_id probe)
                        (\<lambda>r. r\<lparr>pb_last_seen_at := Some (StampZ now)\<rparr>) (db_probes d2)\<rparr>)))"

subsection \<open>References between reports, observations and servers\<close>

definition observation_refs :: "db \<Rightarrow> observation_row \<Rightarrow> bool" where
  "observation_refs d o' \<longleftrightarrow> ob_server_id o' \<in> known_servers d \<and>
     (case ob_report_id o' of None \<Rightarrow> True | Some i \<Rightarrow> list_ex (\<lambda>r. rep_id r = i) (db_reports d)) \<and>
     (case ob_id o' of Uuid5 ns [KStr tag, KStr rid, KStr tid] \<Rightarrow> tag = ''report'' \<longrightarrow> ob_report_id o' = Some rid | _ \<Rightarrow> True)"

definition report_refs :: "db \<Rightarrow> bool" where
  \<comment> \<open>what the constraints of the tables and the way ids are made give: keys are unique, references
      resolve, an observation named after a report refers to it\<close>
  "report_refs d \<longleftrightarrow> unique rep_id (db_reports d) \<and> unique ob_id (db_observations d) \<and> list_all (observation_refs d) (db_observations d)"

lemma known_servers_frame [simp]:
  "known_servers (d\<lparr>db_reports := r\<rparr>) = known_servers d" "known_servers (d\<lparr>db_observations := x\<rparr>) = known_servers d"
  "known_servers (d\<lparr>db_probes := p\<rparr>) = known_servers d"
  by (simp_all add: known_servers_def)

lemma target_observation_fields [simp]:
  "ob_id (target_observation config probe payload now e) = report_observation_id (rp_report_id payload) (fst e)"
  "ob_server_id (target_observation config probe payload now e) = fst e"
  "ob_report_id (target_observation config probe payload now e) = Some (rp_report_id payload)"
  "ob_run_id (target_observation config probe payload now e) = None"
  by (simp_all add: target_observation_def Let_def split: prod.splits)

lemma report_observation_id_inj [simp]:
  "report_observation_id r t = report_observation_id r' t' \<longleftrightarrow> r = r' \<and> t = t'"
  by (simp add: report_observation_id_def)

lemma store_targets:
  assumes "distinct (map fst entries)" "list_ex (\<lambda>r. rep_id r = rp_report_id payload) (db_reports d)"
    and "\<And>o' t. o' \<in> set (db_observations d) \<Longrightarrow> t \<in> fst ` set entries \<Longrightarrow> ob_id o' \<noteq> report_observation_id (rp_report_id payload) t"
  shows "fold_err (store_target config probe payload now) entries (d, n) =
    Inr (d\<lparr>db_observations := db_observations d @
           map (target_observation config probe payload now) (filter (\<lambda>e. fst e \<in> known_servers d) entries)\<rparr>,
         n + length (filter (\<lambda>e. fst e \<in> known_servers d) entries))"
  using assms
proof (induction entries arbitrary: d n)
  case (Cons e entries)
  let ?obs = "target_observation config probe payload now e"
  show ?case
  proof (cases "fst e \<in> known_servers d")
    case False
    with Cons show ?thesis by (simp add: store_target_def)
  next
    case True
    let ?d = "d\<lparr>db_observations := db_observations d @ [?obs]\<rparr>"
    have "rp_report_id payload \<in> rep_id ` set (db_reports d)"
      using Cons.prems(2) unfolding list_ex_iff by (metis imageI)
    moreover have "ob_id ?obs \<notin> ob_id ` set (db_observations d)"
    proof
      assume "ob_id ?obs \<in> ob_id ` set (db_observations d)"
      then obtain o' where "o' \<in> set (db_observations d)" "ob_id o' = ob_id ?obs" by (metis imageE)
      with Cons.prems(3) [of o' "fst e"] show False by simp
    qed
    ultimately have first: "store_target config probe payload now e (d, n) = Inr (?d, n + 1)"
      using True by (simp add: store_target_def insert_observation_def insert_row_def)
    have fresh: "ob_id o' \<noteq> report_observation_id (rp_report_id payload) t"
      if "o' \<in> set (db_observations ?d)" "t \<in> fst ` set entries" for o' t
    proof (cases "o' = ?obs")
      case True
      with that(2) Cons.prems(1) show ?thesis by auto
    next
      case False
      with that Cons.prems(3) [of o' t] show ?thesis by auto
    qed
    from Cons.prems have "distinct (map fst entries)" "list_ex (\<lambda>r. rep_id r = rp_report_id payload) (db_reports ?d)" by simp_all
    from Cons.IH [OF this fresh, of "n + 1"] first True show ?thesis by simp
  qed
qed simp

definition accepted_targets :: "db \<Rightarrow> report \<Rightarrow> (string \<times> report_item list) list" where
  \<comment> \<open>the known targets of a report with their results, in the order they first occur\<close>
  "accepted_targets d payload = filter (\<lambda>e. fst e \<in> known_servers d) (group_by ri_target_id (rp_results payload))"

lemma accept_report_new:
  assumes "report_refs d" "ps_internal_id probe \<in> pb_id ` set (db_probes d)"
    and new: "rp_report_id payload \<notin> rep_id ` set (db_reports d)"
  shows "accept_report config d probe payload now =
    Inr ((False, length (accepted_targets d payload)),
      d\<lparr>db_reports := db_reports d @ [report_row_of payload (ps_internal_id probe) now],
        db_observations := db_observations d @ map (target_observation config probe payload now) (accepted_targets d payload),
        db_probes := update_where (\<lambda>r. pb_id r = ps_internal_id probe) (\<lambda>r. r\<lparr>pb_last_seen_at := Some (StampZ now)\<rparr>) (db_probes d)\<rparr>)"
proof -
  let ?d1 = "d\<lparr>db_reports := db_reports d @ [report_row_of payload (ps_internal_id probe) now]\<rparr>"
  have none: "find (\<lambda>r. rep_id r = rp_report_id payload) (db_reports d) = None"
    unfolding find_None_iff_none using new by (metis imageI)
  have "ob_id o' \<noteq> report_observation_id (rp_report_id payload) t" if "o' \<in> set (db_observations ?d1)" for o' t
  proof
    assume "ob_id o' = report_observation_id (rp_report_id payload) t"
    moreover have "observation_refs d o'" using that assms(1) by (simp add: report_refs_def list_all_iff)
    ultimately have "list_ex (\<lambda>r. rep_id r = rp_report_id payload) (db_reports d)"
      by (auto simp: observation_refs_def report_observation_id_def)
    with new show False unfolding list_ex_iff by (metis imageI)
  qed
  then have "fold_err (store_target config probe payload now) (group_by ri_target_id (rp_results payload)) (?d1, 0) =
    Inr (?d1\<lparr>db_observations := db_observations d @ map (target_observation config probe payload now) (accepted_targets d payload)\<rparr>,
         length (accepted_targets d payload))"
    by (subst store_targets) (simp_all add: distinct_group_by report_row_of_def accepted_targets_def)
  with none assms(2) show ?thesis by (simp add: accept_report_def)
qed

definition has_report :: "db \<Rightarrow> string \<Rightarrow> bool" where
  "has_report d i \<longleftrightarrow> list_ex (\<lambda>r. rep_id r = i) (db_reports d)"

lemma observation_refs_mono:
  assumes "observation_refs d o'" "known_servers d \<subseteq> known_servers d'" "\<And>i. has_report d i \<Longrightarrow> has_report d' i"
  shows "observation_refs d' o'"
  using assms unfolding observation_refs_def has_report_def by (cases "ob_report_id o'") auto

lemma accept_report_refs:
  assumes "report_refs d" "ps_internal_id probe \<in> pb_id ` set (db_probes d)"
    and "accept_report config d probe payload now = Inr (answer, d')"
  shows "report_refs d'"
proof (cases "rp_report_id payload \<in> rep_id ` set (db_reports d)")
  case True
  then obtain r where "find (\<lambda>r. rep_id r = rp_report_id payload) (db_reports d) = Some r"
    by (cases "find (\<lambda>r. rep_id r = rp_report_id payload) (db_reports d)") (auto simp: find_None_iff_none)
  with assms(1,3) show ?thesis by (auto simp: accept_report_def split: if_splits)
next
  case False
  let ?new = "map (target_observation config probe payload now) (accepted_targets d payload)"
  have obs: "db_observations d' = db_observations d @ ?new"
    and reports: "db_reports d' = db_reports d @ [report_row_of payload (ps_internal_id probe) now]"
    and servers: "known_servers d' = known_servers d"
    using accept_report_new [OF assms(1,2) False, of config now] assms(3) by auto
  have row: "rep_id (report_row_of payload (ps_internal_id probe) now) = rp_report_id payload"
    by (simp add: report_row_of_def)
  have refs: "observation_refs d' o'" if "o' \<in> set (db_observations d')" for o'
  proof (cases "o' \<in> set (db_observations d)")
    case True
    with assms(1) have "observation_refs d o'" by (simp add: report_refs_def list_all_iff)
    then show ?thesis by (rule observation_refs_mono) (simp_all add: servers reports has_report_def)
  next
    case False
    with that obs obtain e where e: "o' = target_observation config probe payload now e" "fst e \<in> known_servers d"
      by (auto simp: accepted_targets_def)
    then show ?thesis
      by (simp add: observation_refs_def servers reports row report_observation_id_def)
  qed
  have no_report: "\<not> has_report d (rp_report_id payload)"
    using False unfolding has_report_def list_ex_iff by (metis imageI)
  have "unique ob_id ?new"
  proof -
    have "distinct (map fst (accepted_targets d payload))"
      unfolding accepted_targets_def using distinct_group_by by (metis distinct_map_filter)
    moreover have "map ob_id ?new = map (report_observation_id (rp_report_id payload)) (map fst (accepted_targets d payload))"
      by simp
    ultimately show ?thesis
      unfolding unique_def by (simp only: distinct_map) (simp add: inj_on_def)
  qed
  moreover have "ob_id o' \<noteq> ob_id n'" if "o' \<in> set (db_observations d)" "n' \<in> set ?new" for o' n'
  proof
    assume "ob_id o' = ob_id n'"
    with that(2) obtain t where "ob_id o' = report_observation_id (rp_report_id payload) t" by auto
    moreover have "observation_refs d o'" using that(1) assms(1) by (simp add: report_refs_def list_all_iff)
    ultimately have "has_report d (rp_report_id payload)"
      by (auto simp: observation_refs_def report_observation_id_def has_report_def)
    with no_report show False ..
  qed
  ultimately have "unique ob_id (db_observations d')"
    using assms(1) unfolding obs report_refs_def unique_def map_append distinct_append by force
  moreover have "unique rep_id (db_reports d')"
    using assms(1) False unfolding reports report_refs_def unique_append row by simp
  ultimately show ?thesis using refs by (simp add: report_refs_def list_all_iff)
qed

lemma accept_report_stored:
  assumes "report_refs d" "ps_internal_id probe \<in> pb_id ` set (db_probes d)"
    and "accept_report config d probe payload now = Inr (answer, d')"
  shows "\<exists>r. find (\<lambda>r. rep_id r = rp_report_id payload) (db_reports d') = Some r \<and> rep_payload_hash r = ShaReport payload"
proof (cases "find (\<lambda>r. rep_id r = rp_report_id payload) (db_reports d)")
  case None
  then have "rp_report_id payload \<notin> rep_id ` set (db_reports d)" by (auto simp: find_None_iff_none)
  with assms accept_report_new [of d probe payload config now] None show ?thesis
    by (auto simp: find_append report_row_of_def)
next
  case (Some r)
  with assms(3) show ?thesis by (auto simp: accept_report_def split: if_splits)
qed

subsection \<open>Properties\<close>

definition sample_report :: "string \<Rightarrow> report" where
  "sample_report target = \<lparr>rp_report_id = ''r1'', rp_schema_version = 1, rp_agent_version = ''1'', rp_observed_at = 5, rp_network_type = ''home'',
     rp_ip_family = ''ipv4'', rp_route_verified = True,
     rp_results = [\<lparr>ri_target_id = target, ri_check = ''handshake'', ri_result = ''success'', ri_duration_ms = None, ri_not_run_reason = None, ri_error_code = None\<rparr>]\<rparr>"

definition sample_probe :: probe_info where
  "sample_probe = \<lparr>ps_id = ''pc-01'', ps_kind = ''pc'', ps_status = ''active'', ps_last_seen_at = None, ps_capabilities = [], ps_agent_version = ''1'',
     ps_route_verified = None, ps_network_type = None, ps_via_server_id = None, ps_internal_id = ''pc-01''\<rparr>"

definition sample_report_db :: db where
  "sample_report_db = empty_db\<lparr>db_servers := [\<lparr>srv_id = ''s1'', srv_public_id = ''s1'', srv_type = ''hiddify'', srv_enabled = True, srv_display_order = 1,
       srv_created_at = StampZ 0, srv_updated_at = StampZ 0\<rparr>],
     db_probes := [\<lparr>pb_id = ''pc-01'', pb_public_id = ''pc-01'', pb_kind = ''pc'', pb_status = ''active'', pb_capabilities = [], pb_token_hash = Sha ''t'',
       pb_token_prefix = ''t'', pb_schema_major = 1, pb_agent_version = ''1'', pb_enrolled_at = StampZ 0, pb_last_seen_at = None, pb_revoked_at = None,
       pb_via_server_id = None\<rparr>]\<rparr>"

lemma sample_report_db_refs: "report_refs sample_report_db" "ps_internal_id sample_probe \<in> pb_id ` set (db_probes sample_report_db)"
  by (simp_all add: report_refs_def sample_report_db_def empty_db_def sample_probe_def)



text \<open>
  C13. An enrolled probe's new report is never lost to a constraint: it is stored, every target that
  is a configured server gets exactly one observation from the results about it, unknown targets get none,
  and keys and references stay intact.
\<close>

theorem accept_report_complete:
  assumes "report_refs d" "ps_internal_id probe \<in> pb_id ` set (db_probes d)" "rp_report_id payload \<notin> rep_id ` set (db_reports d)"
  shows "\<exists>d'. accept_report config d probe payload now = Inr ((False, length (accepted_targets d payload)), d') \<and>
    report_refs d' \<and>
    db_observations d' = db_observations d @ map (target_observation config probe payload now) (accepted_targets d payload) \<and>
    map rep_id (db_reports d') = map rep_id (db_reports d) @ [rp_report_id payload] \<and>
    distinct (map fst (accepted_targets d payload)) \<and>
    fst ` set (accepted_targets d payload) = ri_target_id ` set (rp_results payload) \<inter> known_servers d"
proof -
  let ?d' = "d\<lparr>db_reports := db_reports d @ [report_row_of payload (ps_internal_id probe) now],
      db_observations := db_observations d @ map (target_observation config probe payload now) (accepted_targets d payload),
      db_probes := update_where (\<lambda>r. pb_id r = ps_internal_id probe) (\<lambda>r. r\<lparr>pb_last_seen_at := Some (StampZ now)\<rparr>) (db_probes d)\<rparr>"
  have "accept_report config d probe payload now = Inr ((False, length (accepted_targets d payload)), ?d')"
    by (rule accept_report_new [OF assms])
  moreover from accept_report_refs [OF assms(1,2) this] have "report_refs ?d'" .
  moreover have "distinct (map fst (accepted_targets d payload))"
    unfolding accepted_targets_def by (rule distinct_map_filter [OF distinct_group_by])
  moreover have "fst ` set (accepted_targets d payload) = ri_target_id ` set (rp_results payload) \<inter> known_servers d"
  proof -
    have "fst ` set (accepted_targets d payload) = fst ` set (group_by ri_target_id (rp_results payload)) \<inter> known_servers d"
      by (auto simp: accepted_targets_def)
    then show ?thesis by (simp add: fst_set_group_by)
  qed
  ultimately show ?thesis by (intro exI [of _ ?d']) (simp add: report_row_of_def)
qed

theorem accept_report_complete_witness:
  "\<exists>d'. accept_report (st_config sample_settings) sample_report_db sample_probe (sample_report ''s1'') 10 =
     Inr ((False, length (accepted_targets sample_report_db (sample_report ''s1''))), d') \<and> report_refs d'"
  using accept_report_complete [OF sample_report_db_refs, of "sample_report ''s1''" "st_config sample_settings" 10]
  by (auto simp: sample_report_db_def empty_db_def)

end
