(* ===== verification/Retention.thy ===== *)
theory Retention
  imports Reports
begin

text \<open>
  The administrator's note, the audit trail and retention (\<open>put_note\<close>, \<open>delete_note\<close>, \<open>note_state\<close>,
  \<open>audit\<close>, \<open>sweep\<close> of src/src/vpnpulse/storage/store.py), and product analytics
  (src/src/vpnpulse/analytics.py). The JSON schema of an analytics event is a parameter.
\<close>

subsection \<open>The note\<close>

record note_info =
  ni_id :: uid
  ni_server_id :: "string option"
  ni_text :: string
  ni_expires_at :: "stamp option"
  ni_created_at :: stamp

datatype note_status = NoteNone | NoteCleared | NoteActive note_info

definition put_note ::
  "db \<Rightarrow> uid \<Rightarrow> string \<Rightarrow> datetime option \<Rightarrow> string option \<Rightarrow> string \<Rightarrow> datetime \<Rightarrow> sql_error + note_info \<times> db" where
  \<comment> \<open>the insert checks the length of the text, the reference to the server and the key\<close>
  "put_note d note_id txt expires_at server_id created_by_role now =
     (let replaced = update_where (\<lambda>n. nt_status n = ''active'') (\<lambda>n. n\<lparr>nt_status := ''replaced'', nt_updated_at := StampZ now\<rparr>) (db_notes d);
          row = \<lparr>nt_id = note_id, nt_server_id = server_id, nt_text = txt, nt_status = ''active'', nt_starts_at = StampZ now,
                 nt_expires_at = iso_z expires_at, nt_created_by_role = created_by_role, nt_created_at = StampZ now,
                 nt_updated_at = StampZ now\<rparr>
      in if length txt < 1 \<or> 500 < length txt then Inl IntegrityError
         else if (case server_id of None \<Rightarrow> False | Some s \<Rightarrow> s \<notin> known_servers d) then Inl IntegrityError
         else bind_err (insert_row nt_id row replaced)
                (\<lambda>rows. Inr (\<lparr>ni_id = note_id, ni_server_id = server_id, ni_text = txt, ni_expires_at = iso_z expires_at,
                             ni_created_at = StampZ now\<rparr>, d\<lparr>db_notes := rows\<rparr>)))"

definition delete_note :: "db \<Rightarrow> datetime \<Rightarrow> bool \<times> db" where
  "delete_note d now =
     (0 < count_where (\<lambda>n. nt_status n = ''active'') (db_notes d),
      d\<lparr>db_notes := update_where (\<lambda>n. nt_status n = ''active'') (\<lambda>n. n\<lparr>nt_status := ''deleted'', nt_updated_at := StampZ now\<rparr>) (db_notes d)\<rparr>)"

definition note_visible :: "datetime \<Rightarrow> note_row \<Rightarrow> bool" where
  "note_visible now n \<longleftrightarrow> nt_status n = ''active'' \<and> nt_starts_at n \<le> StampZ now \<and>
     (case nt_expires_at n of None \<Rightarrow> True | Some e \<Rightarrow> StampZ now < e)"

definition current_note :: "db \<Rightarrow> datetime \<Rightarrow> note_row option" where
  "current_note d now = first_row (order_desc nt_created_at (filter (note_visible now) (db_notes d)))"

definition note_state :: "db \<Rightarrow> datetime \<Rightarrow> note_status" where
  "note_state d now =
     (if length (db_notes d) = 0 then NoteNone
      else case current_note d now of
             None \<Rightarrow> NoteCleared
           | Some row \<Rightarrow> NoteActive \<lparr>ni_id = nt_id row, ni_server_id = nt_server_id row, ni_text = nt_text row,
               ni_expires_at = iso_z (dt (nt_expires_at row)), ni_created_at = StampZ (dt_of (nt_created_at row))\<rparr>)"

subsection \<open>Audit\<close>

definition audit :: "store_settings \<Rightarrow> db \<Rightarrow> uid \<Rightarrow> string \<Rightarrow> string \<Rightarrow> string \<Rightarrow> string \<Rightarrow> string \<Rightarrow> string \<Rightarrow> jdict \<Rightarrow> string \<Rightarrow> datetime \<Rightarrow> sql_error + db" where
  "audit st d entry_id actor role action target_type target_id result details trace_id now =
     bind_err (insert_row au_id
         \<lparr>au_id = entry_id, au_actor_hash = peppered st actor, au_actor_role = role, au_action = action, au_target_type = target_type,
          au_target_public_id = target_id, au_result = result, au_occurred_at = StampZ now, au_trace_id = trace_id,
          au_details = details\<rparr> (db_audit d))
       (\<lambda>rows. Inr (d\<lparr>db_audit := rows\<rparr>))"

subsection \<open>Product analytics\<close>

record product_event =
  pv_event_id :: string
  pv_name :: string
  pv_occurred_at :: string
  pv_session_id :: string
  pv_surface :: string
  pv_schema_version :: int
  pv_properties :: json

datatype validation_error = ValidationError

definition accept_event :: "(product_event \<Rightarrow> bool) \<Rightarrow> int \<Rightarrow> datetime \<Rightarrow> product_event \<Rightarrow> nat \<times> db \<Rightarrow> validation_error + nat \<times> db" where
  "accept_event valid retention_days received_at event s =
     (let (accepted, d) = s;
          row = \<lparr>pe_event_id = pv_event_id event, pe_name = pv_name event, pe_occurred_at = pv_occurred_at event,
                 pe_received_at = StampP received_at, pe_session_id = pv_session_id event, pe_surface = pv_surface event,
                 pe_schema_version = pv_schema_version event, pe_properties = pv_properties event,
                 pe_expires_at = StampP (received_at + days retention_days)\<rparr>;
          rows = insert_or_ignore pe_event_id row (db_product_events d)
      in if \<not> valid event then Inl ValidationError
         else Inr (accepted + (length rows - length (db_product_events d)), d\<lparr>db_product_events := rows\<rparr>))"

definition accept_batch :: "(product_event \<Rightarrow> bool) \<Rightarrow> int \<Rightarrow> db \<Rightarrow> product_event list \<Rightarrow> datetime \<Rightarrow> validation_error + nat \<times> db" where
  \<comment> \<open>\<open>SqliteAnalyticsRepository.accept_batch\<close>: one transaction for the whole batch\<close>
  "accept_batch valid retention_days d events received_at =
     (if \<not> (1 \<le> length events \<and> length events \<le> 50) then Inl ValidationError
      else fold_err (accept_event valid retention_days received_at) events (0, d))"

record registry =
  reg_seen :: "string list"
  reg_events :: "product_event list"

fun register_events :: "(product_event \<Rightarrow> bool) \<Rightarrow> product_event list \<Rightarrow> nat \<Rightarrow> registry \<Rightarrow> (validation_error + nat) \<times> registry" where
  \<comment> \<open>the loop of \<open>AnalyticsRegistry.accept_batch\<close>: in memory, so what an invalid event leaves behind stays\<close>
  "register_events valid [] accepted reg = (Inr accepted, reg)"
| "register_events valid (event # events) accepted reg =
     (if \<not> valid event then (Inl ValidationError, reg)
      else if pv_event_id event \<in> set (reg_seen reg) then register_events valid events accepted reg
      else register_events valid events (accepted + 1)
             \<lparr>reg_seen = reg_seen reg @ [pv_event_id event], reg_events = reg_events reg @ [event]\<rparr>)"

definition registry_accept_batch :: "(product_event \<Rightarrow> bool) \<Rightarrow> product_event list \<Rightarrow> registry \<Rightarrow> (validation_error + nat) \<times> registry" where
  "registry_accept_batch valid events reg =
     (if \<not> (1 \<le> length events \<and> length events \<le> 50) then (Inl ValidationError, reg) else register_events valid events 0 reg)"

definition delete_expired :: "db \<Rightarrow> datetime \<Rightarrow> nat \<Rightarrow> nat \<times> db" where
  \<comment> \<open>at most \<open>batch_size\<close> of the expired events, in the order of the index on \<open>expires_at\<close>\<close>
  "delete_expired d now batch_size =
     (let doomed = map pe_event_id (take batch_size (sort_key pe_expires_at (filter (\<lambda>e. pe_expires_at e \<le> StampP now) (db_product_events d))))
      in (count_where (\<lambda>e. pe_event_id e \<in> set doomed) (db_product_events d),
          d\<lparr>db_product_events := filter (\<lambda>e. pe_event_id e \<notin> set doomed) (db_product_events d)\<rparr>))"

subsection \<open>Retention\<close>

definition retention_observations :: "config \<Rightarrow> timedelta" where
  "retention_observations config = days (or_default 7 (cfg_observations_days config))"

definition retention_events :: "config \<Rightarrow> timedelta" where
  "retention_events config = days (or_default 180 (cfg_events_days config))"

definition retention_audit :: "config \<Rightarrow> timedelta" where
  "retention_audit config = days (or_default 365 (cfg_audit_days config))"

record sweep_counts =
  swept_sessions :: nat
  swept_enrollments :: nat
  swept_observations :: nat
  swept_reports :: nat
  swept_events :: nat
  swept_audit :: nat
  swept_analytics :: nat

definition delete_where :: "('r \<Rightarrow> bool) \<Rightarrow> 'r list \<Rightarrow> 'r list" where
  "delete_where P rows = filter (\<lambda>r. \<not> P r) rows"

definition sweep_rows :: "config \<Rightarrow> db \<Rightarrow> datetime \<Rightarrow> db" where
  \<comment> \<open>the DELETE statements of the first transaction, in their order\<close>
  "sweep_rows config d now =
     (let horizon = StampZ (now - retention_observations config);
          observations = delete_where (\<lambda>r. ob_observed_at r < horizon) (db_observations d);
          referenced = set (map ob_report_id observations)
      in d\<lparr>db_sessions := delete_where (\<lambda>r. ses_expires_at r \<le> StampZ now \<or> ses_revoked_at r \<noteq> None) (db_sessions d),
           db_enrollments := delete_where (\<lambda>r. en_expires_at r \<le> StampZ now \<or> en_used_at r \<noteq> None) (db_enrollments d),
           db_observations := observations,
           db_reports := delete_where (\<lambda>r. rep_observed_at r < horizon \<and> Some (rep_id r) \<notin> referenced) (db_reports d),
           db_events := delete_where (\<lambda>r. evt_occurred_at r < StampZ (now - retention_events config)) (db_events d),
           db_audit := delete_where (\<lambda>r. au_occurred_at r < StampZ (now - retention_audit config)) (db_audit d)\<rparr>)"

definition sweep :: "config \<Rightarrow> db \<Rightarrow> datetime \<Rightarrow> sweep_counts \<times> db" where
  "sweep config d now =
     (let d1 = sweep_rows config d now;
          (analytics, d2) = delete_expired d1 now 500
      in (\<lparr>swept_sessions = length (db_sessions d) - length (db_sessions d1),
           swept_enrollments = length (db_enrollments d) - length (db_enrollments d1),
           swept_observations = length (db_observations d) - length (db_observations d1),
           swept_reports = length (db_reports d) - length (db_reports d1),
           swept_events = length (db_events d) - length (db_events d1),
           swept_audit = length (db_audit d) - length (db_audit d1),
           swept_analytics = analytics\<rparr>, d2))"

subsection \<open>The note: one at a time\<close>

interpretation note_status: key_update nt_id "\<lambda>n. n\<lparr>nt_status := s, nt_updated_at := t\<rparr>" for s t
  by unfold_locales simp

lemma no_active_after:
  "s \<noteq> ''active'' \<Longrightarrow>
   filter (\<lambda>n. nt_status n = ''active'') (update_where (\<lambda>n. nt_status n = ''active'') (\<lambda>n. n\<lparr>nt_status := s, nt_updated_at := t\<rparr>) rows) = []"
  by (auto simp: filter_empty_conv set_update_where)

lemma put_note_rows:
  assumes "put_note d note_id txt expires_at server_id role now = Inr (info, d')"
  shows "filter (\<lambda>n. nt_status n = ''active'') (db_notes d') =
    [\<lparr>nt_id = note_id, nt_server_id = server_id, nt_text = txt, nt_status = ''active'', nt_starts_at = StampZ now,
      nt_expires_at = iso_z expires_at, nt_created_by_role = role, nt_created_at = StampZ now, nt_updated_at = StampZ now\<rparr>]"
  using assms by (auto simp: put_note_def Let_def bind_err_Inr insert_row_Inr no_active_after split: if_splits option.splits)

lemma note_visible_active: "filter (note_visible now) rows = filter (note_visible now) (filter (\<lambda>n. nt_status n = ''active'') rows)"
  by (induction rows) (auto simp: note_visible_def)

lemma first_order_desc_single [simp]: "first_row (order_desc k [r]) = Some r" "first_row (order_desc k []) = None"
  by (simp_all add: order_desc_def first_row_def)

lemma stampz_refl_later: "t + second \<le> u \<Longrightarrow> \<not> StampZ u \<le> StampZ t"
  using stampz_le_complete [of t u] by simp

lemma note_state_put:
  assumes "put_note d note_id txt expires_at server_id role now = Inr (info, d')"
  shows "note_state d' later =
    (if StampZ now \<le> StampZ later \<and> (case expires_at of None \<Rightarrow> True | Some e \<Rightarrow> StampZ later < StampZ e)
     then NoteActive info else NoteCleared)"
proof -
  have info: "info = \<lparr>ni_id = note_id, ni_server_id = server_id, ni_text = txt, ni_expires_at = iso_z expires_at, ni_created_at = StampZ now\<rparr>"
    using assms by (auto simp: put_note_def Let_def bind_err_Inr split: if_splits)
  have "db_notes d' \<noteq> []" using put_note_rows [OF assms] by auto
  then show ?thesis
    unfolding note_state_def current_note_def note_visible_active [of later "db_notes d'"] put_note_rows [OF assms]
    by (cases expires_at) (simp_all add: note_visible_def info iso_z_def dt_def)
qed

subsection \<open>Analytics\<close>

lemma accept_event_Inr:
  assumes "accept_event valid ret t event (n, d) = Inr (n', d')"
  shows "pe_event_id ` set (db_product_events d') = insert (pv_event_id event) (pe_event_id ` set (db_product_events d)) \<and>
    n' + length (db_product_events d) = n + length (db_product_events d') \<and> valid event \<and>
    (unique pe_event_id (db_product_events d) \<longrightarrow> unique pe_event_id (db_product_events d')) \<and>
    (pv_event_id event \<in> pe_event_id ` set (db_product_events d) \<longrightarrow> d' = d)"
  using assms
  by (auto simp: accept_event_def Let_def insert_or_ignore_def unique_append split: if_splits)

lemma accept_events_Inr:
  assumes "fold_err (accept_event valid ret t) events (n, d) = Inr (n', d')"
  shows "pe_event_id ` set (db_product_events d') = pv_event_id ` set events \<union> pe_event_id ` set (db_product_events d) \<and>
    n' + length (db_product_events d) = n + length (db_product_events d') \<and> list_all valid events \<and>
    (unique pe_event_id (db_product_events d) \<longrightarrow> unique pe_event_id (db_product_events d'))"
  using assms
proof (induction events arbitrary: n d)
  case (Cons event events)
  then obtain m e where step: "accept_event valid ret t event (n, d) = Inr (m, e)"
      "fold_err (accept_event valid ret t) events (m, e) = Inr (n', d')"
    by (auto simp: bind_err_Inr)
  note first = accept_event_Inr [OF step(1)] and rest = Cons.IH [OF step(2)]
  from first rest show ?case by auto
qed simp

lemma accept_events_known:
  "pv_event_id ` set events \<subseteq> pe_event_id ` set (db_product_events d) \<Longrightarrow> list_all valid events \<Longrightarrow>
   fold_err (accept_event valid ret t) events (n, d) = Inr (n, d)"
  by (induction events) (auto simp: accept_event_def Let_def insert_or_ignore_def)

lemma unique_card: "unique key rows \<Longrightarrow> length rows = card (key ` set rows)"
  unfolding unique_def by (metis distinct_card length_map set_map)

subsection \<open>The sweep\<close>

lemma delete_where_set: "set (delete_where P rows) = {r \<in> set rows. \<not> P r}"
  by (simp add: delete_where_def)

lemma sweep_rows_refs:
  assumes "report_refs d"
  shows "report_refs (sweep_rows config d now)"
proof -
  let ?d = "sweep_rows config d now"
  have uniq: "unique rep_id (db_reports ?d) \<and> unique ob_id (db_observations ?d)"
    using assms by (simp add: sweep_rows_def Let_def report_refs_def delete_where_def unique_filter)
  have "observation_refs ?d o'" if o': "o' \<in> set (db_observations ?d)" for o'
  proof -
    from o' have "o' \<in> set (db_observations d)" by (simp add: sweep_rows_def Let_def delete_where_set)
    with assms have refs: "observation_refs d o'" by (simp add: report_refs_def list_all_iff)
    have "list_ex (\<lambda>r. rep_id r = i) (db_reports ?d)" if i: "ob_report_id o' = Some i" for i
    proof -
      from refs i obtain r where r: "r \<in> set (db_reports d)" "rep_id r = i"
        by (auto simp: observation_refs_def list_ex_iff)
      have "Some i \<in> ob_report_id ` set (db_observations ?d)" using o' i by (metis imageI)
      with r have "r \<in> set (db_reports ?d)" by (simp add: sweep_rows_def Let_def delete_where_set)
      with r(2) show ?thesis by (auto simp: list_ex_iff)
    qed
    with refs show ?thesis
      by (cases "ob_report_id o'") (simp_all add: observation_refs_def sweep_rows_def Let_def known_servers_def)
  qed
  with uniq show ?thesis by (simp add: report_refs_def list_all_iff)
qed

lemma sweep_frame:
  "db_sessions (snd (sweep config d now)) = db_sessions (sweep_rows config d now)"
  "db_reports (snd (sweep config d now)) = db_reports (sweep_rows config d now)"
  "db_observations (snd (sweep config d now)) = db_observations (sweep_rows config d now)"
  "db_servers (snd (sweep config d now)) = db_servers d"
  by (simp_all add: sweep_def Let_def delete_expired_def sweep_rows_def)

lemma report_refs_cong:
  "db_reports d = db_reports d' \<Longrightarrow> db_observations d = db_observations d' \<Longrightarrow> db_servers d = db_servers d' \<Longrightarrow> report_refs d = report_refs d'"
  by (simp add: report_refs_def observation_refs_def [abs_def] known_servers_def cong: option.case_cong)

lemma sweep_refs: "report_refs d \<Longrightarrow> report_refs (snd (sweep config d now))"
  using report_refs_cong [of "snd (sweep config d now)" "sweep_rows config d now"] sweep_rows_refs [of d config now]
  by (simp add: sweep_frame sweep_rows_def Let_def)

lemma find_delete_where:
  "unique key rows \<Longrightarrow> find (\<lambda>r. key r = k) (delete_where P rows) =
    (case find (\<lambda>r. key r = k) rows of None \<Rightarrow> None | Some r \<Rightarrow> if P r then None else Some r)"
proof (induction rows)
  case (Cons a rows)
  then have IH: "find (\<lambda>r. key r = k) (delete_where P rows) =
      (case find (\<lambda>r. key r = k) rows of None \<Rightarrow> None | Some r \<Rightarrow> if P r then None else Some r)"
    by (simp add: unique_def)
  show ?case
  proof (cases "key a = k")
    case True
    with Cons.prems have "find (\<lambda>r. key r = k) rows = None"
      unfolding find_None_iff_none unique_def by (auto simp: image_iff)
    with True IH show ?thesis by (simp add: delete_where_def)
  next
    case False
    with IH show ?thesis by (simp add: delete_where_def)
  qed
qed (simp add: delete_where_def)

lemma stamp_before: "s \<le> StampZ now \<Longrightarrow> (\<exists>t. s = StampZ t) \<Longrightarrow> dt_of s < now + second"
  using stampz_le_sound by fastforce

lemma sweep_sessions:
  assumes "unique ses_id_hash (db_sessions d)" "\<forall>r \<in> set (db_sessions d). \<exists>t. ses_expires_at r = StampZ t" "now + second \<le> later"
  shows "get_session (snd (sweep config d now)) token later = get_session d token later"
proof (cases "token = None \<or> token = Some []")
  case True
  then show ?thesis by (auto simp: get_session_def)
next
  case False
  then obtain t where t: "token = Some t" "t \<noteq> []" by auto
  let ?P = "\<lambda>r. ses_expires_at r \<le> StampZ now \<or> ses_revoked_at r \<noteq> None"
  have rows: "db_sessions (snd (sweep config d now)) = delete_where ?P (db_sessions d)"
    by (simp add: sweep_frame sweep_rows_def Let_def)
  show ?thesis
  proof (cases "find (\<lambda>r. ses_id_hash r = Sha t) (db_sessions d)")
    case None
    with t rows show ?thesis by (simp add: get_session_alt find_delete_where [OF assms(1)])
  next
    case (Some r)
    then have "\<exists>e. ses_expires_at r = StampZ e" using assms(2) by (auto dest: find_Some_in)
    then have "ses_expires_at r \<le> StampZ now \<Longrightarrow> dt_of (ses_expires_at r) \<le> later"
      using stamp_before [of "ses_expires_at r" now] assms(3) by simp
    with Some t rows show ?thesis by (auto simp: get_session_alt find_delete_where [OF assms(1)])
  qed
qed

subsection \<open>Properties\<close>

text \<open>
  C14. At any moment at most one note is shown: writing a note replaces the one before, it is what
  is shown from then until it expires, and after a deletion none is (the stored texts are compared, so
  the instants are read to the second).
\<close>

theorem note_lifecycle:
  assumes "put_note d note_id txt expires_at server_id role now = Inr (info, d')" "delete_note d' deleted_at = (ok, d'')"
  shows "count_where (\<lambda>n. nt_status n = ''active'') (db_notes d') = 1 \<and>
    note_state d' later =
      (if StampZ now \<le> StampZ later \<and> (case expires_at of None \<Rightarrow> True | Some e \<Rightarrow> StampZ later < StampZ e)
       then NoteActive info else NoteCleared) \<and>
    ok \<and> note_state d'' later = NoteCleared"
proof -
  note rows = put_note_rows [OF assms(1)]
  then have ne: "db_notes d' \<noteq> []" by auto
  have d'': "db_notes d'' = update_where (\<lambda>n. nt_status n = ''active'') (\<lambda>n. n\<lparr>nt_status := ''deleted'', nt_updated_at := StampZ deleted_at\<rparr>) (db_notes d')"
    using assms(2) by (auto simp: delete_note_def)
  then have "filter (\<lambda>n. nt_status n = ''active'') (db_notes d'') = []" by (simp add: no_active_after)
  moreover have "db_notes d'' \<noteq> []" using ne unfolding d'' by (simp add: update_where_def)
  ultimately have "note_state d'' later = NoteCleared"
    by (simp add: note_state_def current_note_def note_visible_active [of later "db_notes d''"])
  moreover have ok using assms(2) rows by (auto simp: delete_note_def count_where_def)
  ultimately show ?thesis using rows note_state_put [OF assms(1), of later] by (simp add: count_where_def)
qed

theorem note_lifecycle_witness:
  "\<exists>info d'. put_note empty_db (Uuid4 ''n'') ''maintenance'' (Some 90000000) None ''admin'' 5000000 = Inr (info, d') \<and>
     note_state d' 7000000 = NoteActive info \<and> note_state (snd (delete_note d' 8000000)) 9000000 = NoteCleared"
proof -
  obtain info d' where put: "put_note empty_db (Uuid4 ''n'') ''maintenance'' (Some 90000000) None ''admin'' 5000000 = Inr (info, d')"
    by (simp add: put_note_def Let_def insert_row_def empty_db_def)
  have "StampZ 5000000 \<le> StampZ 7000000" "StampZ 7000000 < StampZ 90000000"
    using stampz_le_complete [of 5000000 7000000] stampz_le_complete [of 7000000 90000000] by (simp_all add: second_def)
  moreover obtain ok d'' where del: "delete_note d' 8000000 = (ok, d'')" by fastforce
  ultimately have "note_state d' 7000000 = NoteActive info" "note_state d'' 9000000 = NoteCleared"
    using note_lifecycle [OF put del, of 7000000] note_lifecycle [OF put del, of 9000000] by simp_all
  with put del show ?thesis by (intro exI [of _ info] exI [of _ d']) simp
qed



text \<open>
  A batch of product events is taken as a whole: it is accepted only when every event satisfies
  the schema, the answer counts exactly the events whose ids were new, and sending the
  batch again accepts nothing and changes nothing.
\<close>

theorem analytics_batch_idempotent:
  assumes "unique pe_event_id (db_product_events d)" "accept_batch valid retention d events received_at = Inr (accepted, d')"
  shows "list_all valid events \<and>
    accepted = card (pv_event_id ` set events - pe_event_id ` set (db_product_events d)) \<and>
    accept_batch valid retention d' events later = Inr (0, d')"
proof -
  have bounds: "1 \<le> length events \<and> length events \<le> 50"
    and run: "fold_err (accept_event valid retention received_at) events (0, d) = Inr (accepted, d')"
    using assms(2) by (auto simp: accept_batch_def split: if_splits)
  note facts = accept_events_Inr [OF run]
  let ?old = "pe_event_id ` set (db_product_events d)"
  let ?new = "pv_event_id ` set events"
  have "card (?new \<union> ?old) = card (?new - ?old) + card ?old"
    using card_Un_disjoint [of ?old "?new - ?old"] by (simp add: Un_commute add.commute)
  moreover have "length (db_product_events d) = card ?old" by (rule unique_card [OF assms(1)])
  moreover have "length (db_product_events d') = card (?new \<union> ?old)"
    using facts assms(1) unique_card [of pe_event_id "db_product_events d'"] by simp
  ultimately have "accepted = card (?new - ?old)" using facts by simp
  moreover have "fold_err (accept_event valid retention later) events (0, d') = Inr (0, d')"
    using facts by (intro accept_events_known) auto
  ultimately show ?thesis using facts bounds by (simp add: accept_batch_def)
qed

definition sample_product_event :: product_event where
  "sample_product_event = \<lparr>pv_event_id = ''e1'', pv_name = ''open'', pv_occurred_at = ''now'', pv_session_id = ''s'', pv_surface = ''app'',
     pv_schema_version = 1, pv_properties = JObj []\<rparr>"

theorem analytics_batch_idempotent_witness:
  "\<exists>d'. accept_batch (\<lambda>_. True) 30 empty_db [sample_product_event] 5 = Inr (1, d') \<and>
     accept_batch (\<lambda>_. True) 30 d' [sample_product_event] 6 = Inr (0, d')"
proof -
  obtain n d' where run: "accept_batch (\<lambda>_. True) 30 empty_db [sample_product_event] 5 = Inr (n, d')"
    by (simp add: accept_batch_def accept_event_def Let_def)
  from analytics_batch_idempotent [OF _ run, of 6] run show ?thesis
    by (intro exI [of _ d']) (simp add: empty_db_def)
qed

end
