(* ===== verification/Read_Model.thy ===== *)
theory Read_Model
  imports Timeline Recommendation Retention
begin

text \<open>
  What the API shows of servers and probes (\<open>SqliteReadModel\<close> of
  src/src/vpnpulse/storage/read_model.py): evidence, presence of the check sources, cards, the
  recommendation, the status screen, the details of a server and its charts. Every answer is
  computed from the database, the configuration and the clock.
\<close>

subsection \<open>Settings\<close>

record read_settings =
  rs_config :: config
  rs_silent_after :: timedelta
  rs_collection_interval :: timedelta
  rs_mode :: string

definition nonzero_or :: "int \<Rightarrow> int option \<Rightarrow> int" where
  \<comment> \<open>\<open>if value: use value\<close>\<close>
  "nonzero_or d v = (case v of None \<Rightarrow> d | Some n \<Rightarrow> if n = 0 then d else n)"

definition read_model_init :: "config \<Rightarrow> int \<Rightarrow> int \<Rightarrow> string \<Rightarrow> read_settings" where
  "read_model_init config silent_after_seconds collection_interval_seconds mode =
     \<lparr>rs_config = config, rs_silent_after = seconds silent_after_seconds,
      rs_collection_interval = seconds (nonzero_or collection_interval_seconds (cfg_collection_interval_seconds config)),
      rs_mode = mode\<rparr>"

definition server_config_of :: "config \<Rightarrow> string \<Rightarrow> server_config option" where
  "server_config_of config server_id = find (\<lambda>s. sc_id s = server_id) (enabled_servers config)"

subsection \<open>Texts\<close>

definition json_or :: "json \<Rightarrow> json \<Rightarrow> json" where
  "json_or a b = (if truthy a then a else b)"

fun plain_text :: "json \<Rightarrow> string" where
  \<comment> \<open>\<open>str(value)\<close> of what the schemas of the configuration and of the payload admit; a float or a list they exclude\<close>
  "plain_text (JStr s) = s"
| "plain_text (JInt i) = show_int i"
| "plain_text (JBool b) = (if b then ''True'' else ''False'')"
| "plain_text _ = []"

definition text_of :: "json \<Rightarrow> string \<Rightarrow> string" where
  "text_of v lang =
     (case v of
        JObj d \<Rightarrow> plain_text (json_or (jget d lang) (json_or (jget d ''ru'') (json_or (jget d ''en'') (JStr []))))
      | _ \<Rightarrow> plain_text v)"

subsection \<open>Evidence\<close>

definition EVIDENCE_SOURCES :: "string list" where
  "EVIDENCE_SOURCES = [''collector'', ''human_activity'', ''pc'', ''android'', ''abroad'']"

definition result_state :: "string \<Rightarrow> state" where
  \<comment> \<open>\<open>RESULT_STATE.get(result, "unknown")\<close>\<close>
  "result_state r =
     (if r = ''success'' then Operational else if r = ''failure'' then Unavailable
      else if r = ''degraded'' then Degraded else Unknown)"

definition latest_of :: "db \<Rightarrow> string \<Rightarrow> string \<Rightarrow> observation_row option" where
  "latest_of d server_id source =
     newest ob_observed_at (filter (\<lambda>r. ob_server_id r = server_id \<and> ob_source_kind r = source) (db_observations d))"

definition latest_by_source :: "db \<Rightarrow> string \<Rightarrow> (string \<times> observation_row) list" where
  "latest_by_source d server_id =
     List.map_filter (\<lambda>source. map_option (\<lambda>row. (source, row)) (latest_of d server_id source)) EVIDENCE_SOURCES"

definition collector_payload :: "db \<Rightarrow> string \<Rightarrow> jdict" where
  "collector_payload d server_id =
     (case map_of (latest_by_source d server_id) ''collector'' of None \<Rightarrow> [] | Some row \<Rightarrow> loads_or_empty (ob_metrics row))"

definition protocols_of :: "db \<Rightarrow> server_config \<Rightarrow> (string \<times> string) list" where
  "protocols_of d cfg =
     (let rows = sort_key pr_id (filter (\<lambda>p. pr_server_id p = sc_id cfg \<and> pr_enabled p) (db_protocols d));
          kind = protocol_of_type (sc_type cfg)
      in if rows \<noteq> [] then map (\<lambda>p. (pr_id p, pr_kind p)) rows else [(sc_id cfg @ '':'' @ kind, kind)])"

definition first_observation_at :: "db \<Rightarrow> datetime option" where
  "first_observation_at d = dt (min_stamp (map ob_observed_at (db_observations d)))"

record freshness_view =
  fv_observed_at :: "stamp option"
  fv_fresh_until :: "stamp option"
  fv_is_stale :: bool

definition is_stale :: "datetime option \<Rightarrow> datetime \<Rightarrow> bool" where
  "is_stale fresh_until now = (case fresh_until of None \<Rightarrow> True | Some f \<Rightarrow> f < now)"

definition freshness_of :: "datetime option \<Rightarrow> datetime option \<Rightarrow> datetime \<Rightarrow> freshness_view" where
  "freshness_of observed_at fresh_until now =
     \<lparr>fv_observed_at = iso_z observed_at, fv_fresh_until = iso_z fresh_until, fv_is_stale = is_stale fresh_until now\<rparr>"

record evidence_item =
  ei_source :: string
  ei_state :: state
  ei_freshness :: freshness_view
  ei_reason_code :: "string option"
  ei_via_server_id :: json

definition SHOWN_SOURCES :: "string list" where
  \<comment> \<open>the sources shown, in the order of the sort key\<close>
  "SHOWN_SOURCES = [''pc'', ''mobile'', ''abroad'', ''human_activity'', ''collector'']"

definition source_rank :: "string \<Rightarrow> nat" where
  "source_rank source = length (takeWhile (\<lambda>s. s \<noteq> source) SHOWN_SOURCES)"

definition evidence_item_of :: "datetime \<Rightarrow> string \<times> observation_row \<Rightarrow> evidence_item" where
  "evidence_item_of now entry =
     (let (source, row) = entry; meta = loads_or_empty (ob_metrics row)
      in \<lparr>ei_source = source, ei_state = result_state (ob_result row),
          ei_freshness = freshness_of (Some (dt_of (ob_observed_at row))) (Some (dt_of (ob_fresh_until row))) now,
          ei_reason_code = ob_error_code row,
          ei_via_server_id = (if source = ''abroad'' then jget meta ''via_server_id'' else JNull)\<rparr>)"

definition evidence :: "db \<Rightarrow> string \<Rightarrow> datetime \<Rightarrow> evidence_item list" where
  "evidence d server_id now =
     sort_key (\<lambda>e. source_rank (ei_source e))
       (map (evidence_item_of now) (filter (\<lambda>(source, row). source \<in> set SHOWN_SOURCES) (latest_by_source d server_id)))"

subsection \<open>Presence of the check sources\<close>

definition KINDS :: "string list" where
  "KINDS = [''pc'', ''mobile'', ''abroad'']"

definition SOURCE_OF_KIND :: "(string \<times> string) list" where
  "SOURCE_OF_KIND = [(''pc'', ''pc''), (''android'', ''mobile''), (''abroad'', ''abroad'')]"

record source_view =
  sv_source :: string
  sv_state :: string
  sv_last_report_at :: "stamp option"

definition last_seen_of_kind :: "db \<Rightarrow> string \<Rightarrow> stamp option" where
  \<comment> \<open>MAX(last_seen_at) of the group; None when the group has no row\<close>
  "last_seen_of_kind d kind =
     (let seen = List.map_filter pb_last_seen_at (filter (\<lambda>p. pb_status p \<noteq> ''revoked'' \<and> pb_kind p = kind) (db_probes d))
      in if seen = [] then None else Some (Max (set seen)))"

definition presence :: "read_settings \<Rightarrow> db \<Rightarrow> datetime \<Rightarrow> (string \<times> source_view) list" where
  "presence rs d now =
     List.map_filter (\<lambda>(kind, source).
         map_option (\<lambda>seen. (source,
             \<lparr>sv_source = source, sv_state = (if now - dt_of seen \<le> rs_silent_after rs then ''active'' else ''silent''),
              sv_last_report_at = Some (StampZ (dt_of seen))\<rparr>)) (last_seen_of_kind d kind))
       SOURCE_OF_KIND"

subsection \<open>Cards\<close>

record card =
  cd_id :: string
  cd_name :: string
  cd_country_code :: string
  cd_state :: state
  cd_freshness :: freshness_view
  cd_recommended :: bool
  cd_state_since :: "stamp option"
  cd_last_incident_at :: "stamp option"
  cd_uptime_24h :: "rat option"
  cd_coverage_24h :: "rat option"
  cd_sources :: "evidence_item list"

definition card_of :: "db \<Rightarrow> server_config \<Rightarrow> datetime \<Rightarrow> string option \<Rightarrow> card" where
  "card_of d cfg now recommended_id =
     (let sid = sc_id cfg;
          snapshot = snapshot_row_of d (server_key sid);
          observed = (case snapshot of None \<Rightarrow> None | Some s \<Rightarrow> dt (sn_observed_at s));
          fresh_until = (case snapshot of None \<Rightarrow> None | Some s \<Rightarrow> dt (sn_fresh_until s));
          (uptime, coverage) = availability d sid (hours 24) now;
          (state_since, last_incident) = state_times d sid
      in \<lparr>cd_id = sid, cd_name = text_of (sc_name cfg) ''ru'', cd_country_code = sc_country_code cfg,
          cd_state = (if is_stale fresh_until now then Unknown else case snapshot of None \<Rightarrow> Unknown | Some s \<Rightarrow> sn_state s),
          cd_freshness = freshness_of observed fresh_until now,
          cd_recommended = (recommended_id = Some sid),
          cd_state_since = iso_z state_since, cd_last_incident_at = iso_z last_incident,
          cd_uptime_24h = uptime, cd_coverage_24h = coverage, cd_sources = evidence d sid now\<rparr>)"

subsection \<open>The recommendation\<close>

definition connections_of :: "db \<Rightarrow> string \<Rightarrow> jdict" where
  "connections_of d server_id = as_dict (jget (collector_payload d server_id) ''connections'')"

definition load_of :: "jdict \<Rightarrow> rat option" where
  "load_of conns = (let known = List.map_filter (\<lambda>(k, v). as_num v) conns in if known = [] then None else Some (sum_list known))"

definition candidate_of :: "config \<Rightarrow> db \<Rightarrow> card \<Rightarrow> server_candidate" where
  "candidate_of config d c =
     (let conns = connections_of d (cd_id c);
          load = load_of conns;
          cfg = server_config_of config (cd_id c);
          protocols = (case cfg of None \<Rightarrow> [] | Some s \<Rightarrow> protocols_of d s);
          complete = (conns \<noteq> [] \<and> list_all (\<lambda>(pid, kind). jget conns kind \<noteq> JNull) protocols);
          snapshot = snapshot_row_of d (server_key (cd_id c))
      in \<lparr>cand_server_id = cd_id c,
          cand_evaluation =
            \<lparr>ev_state = cd_state c, ev_reason_code = (case snapshot of None \<Rightarrow> ''NO_FRESH_EVIDENCE'' | Some s \<Rightarrow> sn_reason_code s),
             ev_observed_at = None, ev_fresh_until = None, ev_evidence_count = (if snapshot = None then 0 else 1),
             ev_coverage = (if fv_is_stale (cd_freshness c) then 0 else 1)\<rparr>,
          cand_load_score = load, cand_complete = (complete \<or> load = None),
          cand_priority = - or_default 100 (case cfg of None \<Rightarrow> None | Some s \<Rightarrow> sc_recommended_priority s)\<rparr>)"

definition recommendation :: "config \<Rightarrow> db \<Rightarrow> card list \<Rightarrow> string option" where
  "recommendation config d cards = recommend_server (map (candidate_of config d) cards) None"

subsection \<open>The status screen\<close>

fun state_order :: "state \<Rightarrow> nat" where
  "state_order Unavailable = 3"
| "state_order Degraded = 2"
| "state_order Unknown = 1"
| "state_order Operational = 0"

definition overall_state :: "state list \<Rightarrow> state" where
  \<comment> \<open>\<open>max(states, key=order.get, default="unknown")\<close>\<close>
  "overall_state states =
     (case states of [] \<Rightarrow> Unknown
      | s # ss \<Rightarrow> foldl (\<lambda>worst s. if state_order worst < state_order s then s else worst) s ss)"

record status_view =
  sw_state :: state
  sw_freshness :: freshness_view
  sw_coverage :: rat
  sw_mode :: string
  sw_observing_since :: "stamp option"
  sw_recommended_server_id :: "string option"
  sw_note :: "note_info option"
  sw_servers :: "card list"
  sw_sources :: "source_view list"

definition note_view :: "db \<Rightarrow> datetime \<Rightarrow> note_info option" where
  "note_view d now =
     map_option (\<lambda>row. \<lparr>ni_id = nt_id row, ni_server_id = nt_server_id row, ni_text = take 500 (nt_text row),
         ni_expires_at = iso_z (dt (nt_expires_at row)), ni_created_at = StampZ (dt_of (nt_created_at row))\<rparr>) (current_note d now)"

definition status_cards :: "read_settings \<Rightarrow> db \<Rightarrow> datetime \<Rightarrow> card list" where
  "status_cards rs d now = map (\<lambda>cfg. card_of d cfg now None) (enabled_servers (rs_config rs))"

definition localized_card :: "config \<Rightarrow> string option \<Rightarrow> string \<Rightarrow> card \<Rightarrow> card" where
  "localized_card config recommended lang c =
     c\<lparr>cd_recommended := (Some (cd_id c) = recommended),
       cd_name := text_of (case server_config_of config (cd_id c) of None \<Rightarrow> JNull | Some s \<Rightarrow> sc_name s) lang\<rparr>"

definition known_instants :: "(freshness_view \<Rightarrow> stamp option) \<Rightarrow> card list \<Rightarrow> datetime list" where
  "known_instants f cards = map dt_of (List.map_filter (\<lambda>c. f (cd_freshness c)) cards)"

definition active_kinds :: "(string \<times> source_view) list \<Rightarrow> string list" where
  "active_kinds seen = filter (\<lambda>k. case map_of seen k of None \<Rightarrow> False | Some v \<Rightarrow> sv_state v = ''active'') KINDS"

definition status :: "read_settings \<Rightarrow> db \<Rightarrow> datetime \<Rightarrow> string \<Rightarrow> status_view" where
  "status rs d now lang =
     (let cards0 = status_cards rs d now;
          recommended = (if cards0 = [] then None else recommendation (rs_config rs) d cards0);
          cards = map (localized_card (rs_config rs) recommended lang) cards0;
          observed = known_instants fv_observed_at cards;
          fresh_until = known_instants fv_fresh_until cards;
          seen = presence rs d now;
          active = active_kinds seen
      in \<lparr>sw_state = overall_state (map cd_state cards),
          sw_freshness =
            \<lparr>fv_observed_at = (if observed = [] then None else Some (StampZ (Max (set observed)))),
             fv_fresh_until = (if fresh_until = [] then None else Some (StampZ (Min (set fresh_until)))),
             fv_is_stale = (cards = [] \<or> list_all (\<lambda>c. fv_is_stale (cd_freshness c)) cards)\<rparr>,
          sw_coverage = round4 (of_nat (length active) / of_nat (length KINDS)),
          sw_mode = rs_mode rs,
          sw_observing_since = iso_z (first_observation_at d),
          sw_recommended_server_id = recommended,
          sw_note = note_view d now,
          sw_servers = cards,
          sw_sources = List.map_filter (\<lambda>k. map_of seen k) KINDS\<rparr>)"

subsection \<open>What the status screen promises\<close>

lemma state_order_inj: "state_order a = state_order b \<Longrightarrow> a = b"
  by (cases a; cases b) simp_all

lemma worst_fold:
  "(let w = foldl (\<lambda>worst s. if state_order worst < state_order s then s else worst) s ss
    in w \<in> set (s # ss) \<and> (\<forall>x \<in> set (s # ss). state_order x \<le> state_order w))"
  by (induction ss arbitrary: s) (force simp: Let_def)+

lemma overall_state_worst:
  "states \<noteq> [] \<Longrightarrow> overall_state states \<in> set states \<and> (\<forall>s \<in> set states. state_order s \<le> state_order (overall_state states))"
  using worst_fold by (cases states) (simp_all add: overall_state_def Let_def)

lemma card_of_selects [simp]:
  "cd_id (card_of d cfg now r) = sc_id cfg"
  "cd_freshness (card_of d cfg now r) =
     freshness_of (case snapshot_row_of d (server_key (sc_id cfg)) of None \<Rightarrow> None | Some s \<Rightarrow> dt (sn_observed_at s))
       (case snapshot_row_of d (server_key (sc_id cfg)) of None \<Rightarrow> None | Some s \<Rightarrow> dt (sn_fresh_until s)) now"
  "cd_state (card_of d cfg now r) =
     (if is_stale (case snapshot_row_of d (server_key (sc_id cfg)) of None \<Rightarrow> None | Some s \<Rightarrow> dt (sn_fresh_until s)) now then Unknown
      else case snapshot_row_of d (server_key (sc_id cfg)) of None \<Rightarrow> Unknown | Some s \<Rightarrow> sn_state s)"
  by (simp_all add: card_of_def Let_def split: prod.split)

lemma stale_card_unknown: "fv_is_stale (cd_freshness (card_of d cfg now r)) \<Longrightarrow> cd_state (card_of d cfg now r) = Unknown"
  by (simp add: freshness_of_def)

lemma localized_card_selects [simp]:
  "cd_id (localized_card config r lang c) = cd_id c"
  "cd_state (localized_card config r lang c) = cd_state c"
  "cd_freshness (localized_card config r lang c) = cd_freshness c"
  "cd_recommended (localized_card config r lang c) = (Some (cd_id c) = r)"
  by (simp_all add: localized_card_def)

definition shown_recommendation :: "read_settings \<Rightarrow> db \<Rightarrow> datetime \<Rightarrow> string option" where
  "shown_recommendation rs d now =
     (let cards = status_cards rs d now in if cards = [] then None else recommendation (rs_config rs) d cards)"

lemma status_selects:
  "sw_servers (status rs d now lang) =
     map (localized_card (rs_config rs) (shown_recommendation rs d now) lang) (status_cards rs d now)"
  "sw_recommended_server_id (status rs d now lang) = shown_recommendation rs d now"
  "sw_state (status rs d now lang) = overall_state (map cd_state (status_cards rs d now))"
  "sw_coverage (status rs d now lang) = round4 (of_nat (length (active_kinds (presence rs d now))) / of_nat (length KINDS))"
  by (simp_all add: status_def shown_recommendation_def Let_def o_def)

lemma candidate_of_selects [simp]:
  "cand_server_id (candidate_of config d c) = cd_id c"
  "cand_evaluation (candidate_of config d c) =
     \<lparr>ev_state = cd_state c, ev_reason_code = (case snapshot_row_of d (server_key (cd_id c)) of None \<Rightarrow> ''NO_FRESH_EVIDENCE'' | Some s \<Rightarrow> sn_reason_code s),
      ev_observed_at = None, ev_fresh_until = None,
      ev_evidence_count = (if snapshot_row_of d (server_key (cd_id c)) = None then 0 else 1),
      ev_coverage = (if fv_is_stale (cd_freshness c) then 0 else 1)\<rparr>"
  by (simp_all add: candidate_of_def Let_def)

lemma recommended_is_sound:
  assumes "recommendation config d cards = Some sid"
  shows "\<exists>c \<in> set cards. cd_id c = sid \<and> cd_state c = Operational \<and> \<not> fv_is_stale (cd_freshness c)"
proof -
  from recommend_server_cases [OF assms [unfolded recommendation_def]]
  obtain c where "c \<in> set cards" "eligible (candidate_of config d c)" "cd_id c = sid" by auto
  then show ?thesis by (auto simp: eligible_def split: if_splits)
qed

lemma recommended_exists:
  assumes "c \<in> set cards" "cd_state c = Operational" "\<not> fv_is_stale (cd_freshness c)"
    and "load_of (connections_of d (cd_id c)) = None"
  shows "recommendation config d cards \<noteq> None"
proof -
  have "eligible (candidate_of config d c)" using assms by (simp add: eligible_def candidate_of_def Let_def)
  with assms(1) show ?thesis unfolding recommendation_def recommend_server_None by auto
qed

lemma length_active_kinds: "length (active_kinds seen) \<le> 3"
  using length_filter_le [of _ KINDS] unfolding active_kinds_def by (simp add: KINDS_def)

lemma source_of_item [simp]: "ei_source (evidence_item_of now (s, row)) = s"
  by (simp add: evidence_item_of_def Let_def)

lemma evidence_eq:
  "evidence d sid now =
     List.map_filter (\<lambda>s. if s = ''mobile'' then None else map_option (\<lambda>row. evidence_item_of now (s, row)) (latest_of d sid s)) SHOWN_SOURCES"
  unfolding evidence_def latest_by_source_def EVIDENCE_SOURCES_def
  by (cases "latest_of d sid ''collector''"; cases "latest_of d sid ''human_activity''"; cases "latest_of d sid ''pc''";
        cases "latest_of d sid ''abroad''"; cases "latest_of d sid ''android''")
      (simp_all add: List.map_filter_def SHOWN_SOURCES_def source_rank_def)

subsection \<open>Properties\<close>

text \<open>
  C25. The status screen is consistent: a stale card shows unknown and any other the state of its
  snapshot; the overall state is the worst of the cards; the recommended server, when there is one, is
  the marked one and a card that is operational and fresh; the coverage is a ratio.
\<close>

theorem status_consistent:
  "let s = status rs d now lang in
  list_all (\<lambda>c. (fv_is_stale (cd_freshness c) \<longrightarrow> cd_state c = Unknown) \<and>
        (\<not> fv_is_stale (cd_freshness c) \<longrightarrow> map_option sn_state (snapshot_row_of d (server_key (cd_id c))) = Some (cd_state c)) \<and>
        state_order (cd_state c) \<le> state_order (sw_state s) \<and>
        (cd_recommended c = (sw_recommended_server_id s = Some (cd_id c)))) (sw_servers s) \<and>
     (case sw_recommended_server_id s of
        None \<Rightarrow> True
      | Some sid \<Rightarrow> (\<exists>c \<in> set (sw_servers s). cd_id c = sid \<and> cd_recommended c \<and> cd_state c = Operational \<and> \<not> fv_is_stale (cd_freshness c))) \<and>
     0 \<le> sw_coverage s \<and> sw_coverage s \<le> 1"
proof -
  let ?cards = "status_cards rs d now"
  have worst: "state_order (cd_state c) \<le> state_order (overall_state (map cd_state ?cards))" if "c \<in> set ?cards" for c
    using overall_state_worst [of "map cd_state ?cards"] that by force
  have card: "(fv_is_stale (cd_freshness c) \<longrightarrow> cd_state c = Unknown) \<and>
      (\<not> fv_is_stale (cd_freshness c) \<longrightarrow> map_option sn_state (snapshot_row_of d (server_key (cd_id c))) = Some (cd_state c))"
    if "c \<in> set ?cards" for c
    using that by (auto simp: status_cards_def freshness_of_def is_stale_def split: option.splits)
  have recommended: "\<exists>c \<in> set ?cards. cd_id c = sid \<and> cd_state c = Operational \<and> \<not> fv_is_stale (cd_freshness c)"
    if "shown_recommendation rs d now = Some sid" for sid
    using that recommended_is_sound by (auto simp: shown_recommendation_def Let_def split: if_splits)
  have coverage: "0 \<le> sw_coverage (status rs d now lang) \<and> sw_coverage (status rs d now lang) \<le> 1"
    unfolding status_selects by (rule round4_bounds) (use length_active_kinds [of "presence rs d now"] in \<open>simp_all add: KINDS_def\<close>)
  show ?thesis
    unfolding Let_def status_selects(1-3) using worst card recommended coverage
    by (auto simp: list_all_iff split: option.split)
qed

definition view_settings :: read_settings where
  "view_settings =
     \<lparr>rs_config = (st_config sample_settings)\<lparr>cfg_servers :=
        [\<lparr>sc_id = ''s1'', sc_type = ''awg-host'', sc_enabled = None, sc_name = JObj [(''ru'', JStr ''S1'')], sc_country_code = ''NL'',
          sc_collector_ref = None, sc_recommended_priority = None\<rparr>]\<rparr>,
      rs_silent_after = minutes 15, rs_collection_interval = minutes 1, rs_mode = ''live''\<rparr>"

theorem status_consistent_witness:
  "list_all (\<lambda>c. cd_id c = ''s1'' \<and> cd_state c = Operational) (sw_servers (status view_settings silent_db (minutes 1) ''en'')) \<and>
   list_all (\<lambda>c. cd_state c = Unknown) (sw_servers (status view_settings silent_db (minutes 9) ''en''))"
  using status_consistent [of view_settings silent_db "minutes 1" "''en''"] status_consistent [of view_settings silent_db "minutes 9" "''en''"]
  by (simp add: status_selects(1) status_cards_def view_settings_def enabled_servers_def is_enabled_def freshness_of_def is_stale_def Let_def
      snapshot_row_of_def silent_db_def server_key_def dt_def minutes_def)

text \<open>
  The evidence of a server lists, in the fixed order of the sources, the newest observation of each
  source that has one -- but never of the phone, whose observations are stored as \<open>mobile\<close> while the
  lookup asks for \<open>android\<close>.
\<close>

theorem evidence_lists_sources:
  "map ei_source (evidence d server_id now) =
     filter (\<lambda>s. s \<noteq> ''mobile'' \<and> latest_of d server_id s \<noteq> None) SHOWN_SOURCES \<and>
   list_all (\<lambda>e. map_option (\<lambda>row. evidence_item_of now (ei_source e, row)) (latest_of d server_id (ei_source e)) = Some e)
     (evidence d server_id now)"
  unfolding evidence_eq
  by (cases "latest_of d server_id ''collector''"; cases "latest_of d server_id ''human_activity''"; cases "latest_of d server_id ''pc''";
      cases "latest_of d server_id ''abroad''")
    (simp_all add: List.map_filter_def SHOWN_SOURCES_def source_of_item)

end
