(* ===== verification/Events.thy ===== *)
theory Events
  imports Read_Model
begin

text \<open>
  The event list with its cursor (\<open>events\<close> and \<open>_localize_params\<close> of
  src/src/vpnpulse/storage/read_model.py). The cursor is the decimal offset of the next page; ids are
  compared as text, which \<open>uid_text\<close> stands for.
\<close>

record event_item =
  evi_id :: uid
  evi_kind :: string
  evi_severity :: string
  evi_server_id :: "string option"
  evi_title_key :: string
  evi_params :: jdict
  evi_occurred_at :: stamp

record event_page =
  ep_items :: "event_item list"
  ep_next_cursor :: "string option"

definition localize_params :: "jdict \<Rightarrow> string \<Rightarrow> jdict" where
  "localize_params params lang =
     map (\<lambda>(key, v).
         case v of
           JObj d \<Rightarrow> if map_of d ''ru'' \<noteq> None \<or> map_of d ''en'' \<noteq> None
                     then (key, json_or (jget d lang) (json_or (jget d ''ru'') (jget d ''en'')))
                     else (key, v)
         | _ \<Rightarrow> (key, v)) params"

definition visible_to_role :: "string \<Rightarrow> string list" where
  "visible_to_role role = (if role \<noteq> ''admin'' then [''member''] else [''member'', ''admin''])"

definition event_selected :: "string \<Rightarrow> string \<Rightarrow> event_row \<Rightarrow> bool" where
  "event_selected filt role r \<longleftrightarrow>
     evt_visible_to r \<in> set (visible_to_role role) \<and>
     (if filt = ''problems'' then evt_severity r \<in> {''warning'', ''critical''}
      else if filt = ''notes'' then evt_kind r = ''note'' else True)"

definition event_rows :: "(uid \<Rightarrow> string) \<Rightarrow> db \<Rightarrow> string \<Rightarrow> string \<Rightarrow> event_row list" where
  \<comment> \<open>the selected rows, ORDER BY occurred_at DESC, id\<close>
  "event_rows uid_text d filt role =
     order_desc evt_occurred_at (sort_key (\<lambda>r. uid_text (evt_id r)) (filter (event_selected filt role) (db_events d)))"

definition event_item_of :: "string \<Rightarrow> event_row \<Rightarrow> event_item" where
  "event_item_of lang r =
     \<lparr>evi_id = evt_id r, evi_kind = evt_kind r, evi_severity = evt_severity r, evi_server_id = evt_server_id r,
      evi_title_key = evt_title_key r, evi_params = localize_params (evt_params r) lang,
      evi_occurred_at = StampZ (dt_of (evt_occurred_at r))\<rparr>"

definition cursor_offset :: "string option \<Rightarrow> nat" where
  \<comment> \<open>\<open>int(cursor) if cursor and cursor.isdigit() else 0\<close>\<close>
  "cursor_offset cursor = (case cursor of None \<Rightarrow> 0 | Some c \<Rightarrow> or_default 0 (parse_nat c))"

definition events :: "(uid \<Rightarrow> string) \<Rightarrow> db \<Rightarrow> string \<Rightarrow> string option \<Rightarrow> nat \<Rightarrow> string \<Rightarrow> string \<Rightarrow> event_page" where
  "events uid_text d filt cursor limit role lang =
     (let offset = cursor_offset cursor;
          rows = take (limit + 1) (drop offset (event_rows uid_text d filt role))
      in \<lparr>ep_items = map (event_item_of lang) (take limit rows),
          ep_next_cursor = (if limit < length rows then Some (show_nat (offset + limit)) else None)\<rparr>)"

subsection \<open>Following the cursor\<close>

fun pages_of :: "nat \<Rightarrow> (string option \<Rightarrow> event_page) \<Rightarrow> string option \<Rightarrow> event_page list" where
  \<comment> \<open>the pages a client reads: it asks again while there is a next cursor, at most \<open>fuel\<close> times\<close>
  "pages_of 0 page cursor = []"
| "pages_of (Suc fuel) page cursor =
     (let p = page cursor in p # (case ep_next_cursor p of None \<Rightarrow> [] | Some c \<Rightarrow> pages_of fuel page (Some c)))"

definition event_pages :: "nat \<Rightarrow> (uid \<Rightarrow> string) \<Rightarrow> db \<Rightarrow> string \<Rightarrow> string option \<Rightarrow> nat \<Rightarrow> string \<Rightarrow> string \<Rightarrow> event_page list" where
  "event_pages fuel uid_text d filt cursor limit role lang = pages_of fuel (\<lambda>c. events uid_text d filt c limit role lang) cursor"

lemma cursor_offset_simps [simp]: "cursor_offset None = 0" "cursor_offset (Some (show_nat n)) = n"
  by (simp_all add: cursor_offset_def)

lemma set_event_rows: "set (event_rows uid_text d filt role) = {r \<in> set (db_events d). event_selected filt role r}"
  by (simp add: event_rows_def order_desc_def)

lemma mset_event_rows: "mset (event_rows uid_text d filt role) = mset (filter (event_selected filt role) (db_events d))"
  by (simp add: event_rows_def order_desc_def)

text \<open>A list served in pages: what every read model with a cursor owes its client.\<close>

locale cursor_list =
  fixes page :: "string option \<Rightarrow> event_page"
    and items :: "event_item list"
    and limit :: nat
  assumes page_items: "ep_items (page c) = take limit (drop (cursor_offset c) items)"
    and page_next: "ep_next_cursor (page c) =
      (if cursor_offset c + limit < length items then Some (show_nat (cursor_offset c + limit)) else None)"
begin

lemma pages_size: "list_all (\<lambda>p. length (ep_items p) \<le> limit) (pages_of fuel page c)"
  by (induction fuel arbitrary: c) (auto simp: Let_def page_items split: option.split)

lemma pages_not_Nil: "fuel \<noteq> 0 \<Longrightarrow> pages_of fuel page c \<noteq> []"
  by (cases fuel) (simp_all add: Let_def)

lemma pages_items:
  "0 < limit \<Longrightarrow> length items < fuel + cursor_offset c \<Longrightarrow>
   concat (map ep_items (pages_of fuel page c)) = drop (cursor_offset c) items \<and>
   (fuel \<noteq> 0 \<longrightarrow> ep_next_cursor (last (pages_of fuel page c)) = None)"
proof (induction fuel arbitrary: c)
  case 0
  then show ?case by simp
next
  case (Suc fuel)
  let ?n = "cursor_offset c"
  show ?case
  proof (cases "?n + limit < length items")
    case True
    then have "fuel \<noteq> 0" using Suc.prems by (cases fuel) auto
    moreover have "length items < fuel + cursor_offset (Some (show_nat (?n + limit)))" using Suc.prems by simp
    note IH = Suc.IH [OF Suc.prems(1) this]
    ultimately show ?thesis
      using append_take_drop_id [of limit "drop ?n items"] True pages_not_Nil [of fuel]
      by (simp add: Let_def page_items page_next add.commute)
  qed (simp add: Let_def page_items page_next)
qed

end

interpretation event_list: cursor_list "\<lambda>c. events uid_text d filt c limit role lang" "map (event_item_of lang) (event_rows uid_text d filt role)" limit
  for uid_text d filt limit role lang
  by unfold_locales (auto simp: events_def Let_def take_map drop_map)

subsection \<open>Properties\<close>

text \<open>
  C28. Following the cursor reads the whole list: from the first page, with any page size, a client that
  asks until there is no cursor gets exactly the events its role and filter select, each once, newest
  first, on pages of at most that size -- and a member never gets an event for administrators.
\<close>

theorem event_pages_complete:
  assumes "0 < limit" "length (db_events d) < fuel"
  shows "(let pages = event_pages fuel uid_text d filt None limit role lang; rows = event_rows uid_text d filt role
     in concat (map ep_items pages) = map (event_item_of lang) rows \<and>
        ep_next_cursor (last pages) = None \<and>
        list_all (\<lambda>p. length (ep_items p) \<le> limit) pages \<and>
        mset rows = mset (filter (event_selected filt role) (db_events d)) \<and>
        sorted_wrt (\<lambda>a b. evt_occurred_at b \<le> evt_occurred_at a) rows \<and>
        (role \<noteq> ''admin'' \<longrightarrow> list_all (\<lambda>r. evt_visible_to r = ''member'') rows))"
proof -
  let ?rows = "event_rows uid_text d filt role"
  have "length ?rows \<le> length (db_events d)" by (simp add: event_rows_def order_desc_def)
  with assms have "length ?rows < fuel + cursor_offset None" by simp
  then have pages: "concat (map ep_items (event_pages fuel uid_text d filt None limit role lang)) = map (event_item_of lang) ?rows"
      "ep_next_cursor (last (event_pages fuel uid_text d filt None limit role lang)) = None"
    using event_list.pages_items [OF assms(1), where c = None and fuel = fuel] assms(2) by (simp_all add: event_pages_def)
  have "sorted_wrt (\<lambda>a b. evt_occurred_at b \<le> evt_occurred_at a) ?rows"
    using sorted_sort_key [of evt_occurred_at] unfolding event_rows_def order_desc_def sorted_wrt_rev
    by (simp add: sorted_map)
  with pages assms show ?thesis
    unfolding Let_def mset_event_rows list_all_iff set_event_rows
    by (auto simp: event_selected_def visible_to_role_def event_pages_def event_list.pages_size [unfolded list_all_iff, rule_format])
qed

definition plain_id :: "uid \<Rightarrow> string" where
  "plain_id u = (case u of Uuid4 s \<Rightarrow> s | Uuid5 s ps \<Rightarrow> s)"

definition sample_event :: "string \<Rightarrow> datetime \<Rightarrow> string \<Rightarrow> event_row" where
  "sample_event i t who =
     \<lparr>evt_id = Uuid4 i, evt_kind = ''state_change'', evt_severity = ''info'', evt_server_id = None, evt_transition_id = None,
      evt_title_key = ''event.sample'', evt_params = [(''name'', JObj [(''ru'', JStr ''R''), (''en'', JStr ''E'')])],
      evt_occurred_at = StampP t, evt_visible_to = who, evt_created_at = StampP t\<rparr>"

definition events_db :: db where
  "events_db = empty_db\<lparr>db_events := [sample_event ''a'' 0 ''member'', sample_event ''b'' 5 ''admin'', sample_event ''c'' 9 ''member'']\<rparr>"

theorem event_pages_complete_witness:
  "concat (map ep_items (event_pages 4 plain_id events_db ''all'' None 1 ''member'' ''en'')) =
     map (event_item_of ''en'') [sample_event ''c'' 9 ''member'', sample_event ''a'' 0 ''member'']"
proof -
  have "event_rows plain_id events_db ''all'' ''member'' = [sample_event ''c'' 9 ''member'', sample_event ''a'' 0 ''member'']"
    by (simp add: event_rows_def events_db_def sample_event_def plain_id_def event_selected_def visible_to_role_def order_desc_def)
  then show ?thesis
    using event_pages_complete [of 1 events_db 4 plain_id "''all''" "''member''" "''en''"] by (simp add: Let_def events_db_def)
qed

end
