(* ===== verification/I18n.thy ===== *)
theory I18n
  imports Text
begin

text \<open>
  Server-side texts (src/src/vpnpulse/i18n.py). The dictionaries (i18n/ru.json, i18n/en.json) are an
  argument; a key that a language lacks is taken from Russian, and shown as itself when Russian
  lacks it too.
\<close>

type_synonym dictionaries = "(string \<times> (string \<times> string) list) list"

function py_replace :: "string \<Rightarrow> string \<Rightarrow> string \<Rightarrow> string" where
  \<comment> \<open>\<open>text.replace(old, new)\<close> for a non-empty \<open>old\<close>\<close>
  "py_replace old new [] = []"
| "py_replace old new (c # cs) =
     (if old \<noteq> [] \<and> starts_with old (c # cs) then new @ py_replace old new (drop (length old) (c # cs))
      else c # py_replace old new cs)"
  by pat_completeness auto
termination by (relation "measure (\<lambda>(old, new, s). length s)") auto

definition dictionary :: "dictionaries \<Rightarrow> string \<Rightarrow> (string \<times> string) list" where
  "dictionary ds lang = (case map_of ds lang of None \<Rightarrow> [] | Some d \<Rightarrow> d)"

definition translate :: "dictionaries \<Rightarrow> string \<Rightarrow> string \<Rightarrow> (string \<times> string) list \<Rightarrow> string" where
  "translate ds lang key params =
     (let txt = (case map_of (dictionary ds lang) key of
                   Some x \<Rightarrow> x
                 | None \<Rightarrow> (case map_of (dictionary ds ''ru'') key of Some x \<Rightarrow> x | None \<Rightarrow> key))
      in foldl (\<lambda>s (name, v). py_replace (''{'' @ name @ ''}'') v s) txt params)"

definition duration :: "dictionaries \<Rightarrow> string \<Rightarrow> int option \<Rightarrow> string" where
  \<comment> \<open>the em dash of a missing duration is written as its UTF-8 bytes\<close>
  "duration ds lang mins =
     (case mins of
        None \<Rightarrow> map char_of [226 :: nat, 128, 148]
      | Some m \<Rightarrow>
          if m < 1 then translate ds lang ''duration.now'' []
          else if m < 60 then translate ds lang ''duration.min'' [(''n'', show_int m)]
          else if m < 48 * 60 then translate ds lang ''duration.hour'' [(''n'', show_int (round_half_even (of_int m / 60)))]
          else translate ds lang ''duration.day'' [(''n'', show_int (round_half_even (of_int m / 1440)))])"

lemma py_replace_absent:
  "\<forall>i. \<not> starts_with old (drop i s) \<Longrightarrow> py_replace old new s = s"
proof (induction old new s rule: py_replace.induct)
  case (2 old new c cs)
  then have "\<not> starts_with old (c # cs)" by (metis drop0)
  moreover have "\<forall>i. \<not> starts_with old (drop i cs)" using 2(3) by (metis drop_Suc_Cons)
  ultimately show ?case using 2 by simp
qed simp

lemma translate_missing: "map_of (dictionary ds lang) key = None \<Longrightarrow> map_of (dictionary ds ''ru'') key = None \<Longrightarrow> translate ds lang key [] = key"
  by (simp add: translate_def)

end
