(* ===== verification/Admin_View.thy ===== *)
theory Admin_View
  imports Events I18n
begin

text \<open>
  The detailed answers of the read model (\<open>_detail\<close>, \<open>server\<close>, \<open>metrics\<close>, \<open>help\<close>, \<open>admin_server\<close>,
  \<open>admin_probes\<close>, \<open>admin_overview\<close> and \<open>readiness\<close> of src/src/vpnpulse/storage/read_model.py). A key
  the code indexes and may not find is the branch \<open>KeyError\<close>.
\<close>

datatype read_error = KeyError

subsection \<open>Server details\<close>

record protocol_view =
  plv_kind :: string
  plv_state :: state
  plv_coverage :: rat
  plv_connections :: json

record server_detail =
  dl_card :: card
  dl_protocols :: "protocol_view list"
  dl_uptime_7d :: "rat option"
  dl_coverage_7d :: "rat option"
  dl_components :: "json list"
  dl_resources :: json
  dl_profiles :: json
  dl_service_checks :: "json list"

definition picked :: "string list \<Rightarrow> json \<Rightarrow> json" where
  \<comment> \<open>None stays None; of a dictionary the named keys, each with \<open>get\<close>\<close>
  "picked keys v = (if v = JNull then JNull else JObj (map (\<lambda>k. (k, jget (as_dict v) k)) keys))"

definition RESOURCE_KEYS :: "string list" where
  "RESOURCE_KEYS = [''traffic_mbps'', ''cpu_percent'', ''memory_percent'', ''swap_percent'', ''peak_connections_24h'']"

definition PROFILE_KEYS :: "string list" where
  "PROFILE_KEYS = [''issued'', ''ever_connected'', ''active_24h'', ''last_connection_at'']"

definition protocol_view_of :: "card \<Rightarrow> jdict \<Rightarrow> string \<Rightarrow> protocol_view" where
  "protocol_view_of c conns kind =
     (let known = (jget conns kind \<noteq> JNull)
      in \<lparr>plv_kind = kind, plv_state = (if known \<or> cd_state c \<noteq> Operational then cd_state c else Unknown),
          plv_coverage = (if known then 1 else 0), plv_connections = (if known then jget conns kind else JNull)\<rparr>)"

definition detail :: "read_settings \<Rightarrow> db \<Rightarrow> server_config \<Rightarrow> string \<Rightarrow> datetime \<Rightarrow> server_detail option" where
  \<comment> \<open>None where \<open>next\<close> finds no card, which a configured server always has\<close>
  "detail rs d cfg lang now =
     map_option (\<lambda>c.
       let payload = collector_payload d (sc_id cfg);
           conns = connections_of d (sc_id cfg);
           (uptime7, coverage7) = availability d (sc_id cfg) (days 7) now
       in \<lparr>dl_card = c, dl_protocols = map (\<lambda>(pid, kind). protocol_view_of c conns kind) (protocols_of d cfg),
           dl_uptime_7d = uptime7, dl_coverage_7d = coverage7,
           dl_components = as_list (jget payload ''components''),
           dl_resources = picked RESOURCE_KEYS (jget payload ''resources''),
           dl_profiles = picked PROFILE_KEYS (jget payload ''profiles''),
           dl_service_checks = as_list (jget payload ''service_checks'')\<rparr>)
      (find (\<lambda>c. cd_id c = sc_id cfg) (sw_servers (status rs d now lang)))"

definition server_view :: "read_settings \<Rightarrow> db \<Rightarrow> datetime \<Rightarrow> string \<Rightarrow> string \<Rightarrow> server_detail option" where
  "server_view rs d now server_id lang =
     (case server_config_of (rs_config rs) server_id of None \<Rightarrow> None | Some cfg \<Rightarrow> detail rs d cfg lang now)"

record metrics_view =
  mv_server_id :: string
  mv_period :: string
  mv_coverage :: rat
  mv_points :: "metric_point list"

definition metrics :: "read_settings \<Rightarrow> db \<Rightarrow> datetime \<Rightarrow> string \<Rightarrow> string \<Rightarrow> metrics_view option" where
  "metrics rs d now server_id period =
     (if server_config_of (rs_config rs) server_id = None then None
      else let points = chart_points d server_id period now
           in Some \<lparr>mv_server_id = server_id, mv_period = period,
                mv_coverage = round4 (sum_list (map mp_coverage points) / of_nat (length points)), mv_points = points\<rparr>)"

record help_view =
  hv_step_keys :: "string list"
  hv_contact_available :: bool
  hv_contact_url :: "string option"

definition help_info :: "read_settings \<Rightarrow> help_view" where
  "help_info rs =
     (let url = cfg_admin_contact_url (rs_config rs)
      in \<lparr>hv_step_keys = [''help.step1'', ''help.step2'', ''help.step3'', ''help.step4''],
          hv_contact_available = (url \<noteq> None), hv_contact_url = url\<rparr>)"

subsection \<open>A server for administrators\<close>

record attention_item =
  at_severity :: string
  at_code :: string
  at_message :: string
  at_server_id :: "string option"

definition severity_order :: "string \<Rightarrow> nat option" where
  "severity_order s = (if s = ''high'' then Some 0 else if s = ''medium'' then Some 1 else if s = ''low'' then Some 2 else None)"

definition sort_attention :: "attention_item list \<Rightarrow> read_error + attention_item list" where
  \<comment> \<open>\<open>items.sort(key=lambda a: SEVERITY_ORDER[a["severity"]])\<close>\<close>
  "sort_attention items =
     (if list_all (\<lambda>a. severity_order (at_severity a) \<noteq> None) items
      then Inr (sort_key (\<lambda>a. or_default 0 (severity_order (at_severity a))) items) else Inl KeyError)"

definition attention_of :: "string \<Rightarrow> string \<Rightarrow> json \<Rightarrow> read_error + attention_item" where
  "attention_of lang server_id a =
     (case (map_of (as_dict a) ''severity'', map_of (as_dict a) ''code'') of
        (Some severity, Some code) \<Rightarrow>
          Inr \<lparr>at_severity = plain_text severity, at_code = plain_text code,
               at_message = take 240 (text_of (jget (as_dict a) ''message'') lang), at_server_id = Some server_id\<rparr>
      | _ \<Rightarrow> Inl KeyError)"

definition payload_attention :: "db \<Rightarrow> string \<Rightarrow> string \<Rightarrow> attention_item list \<Rightarrow> read_error + attention_item list" where
  \<comment> \<open>appends the findings of one payload\<close>
  "payload_attention d lang server_id items =
     fold_err (\<lambda>a acc. bind_err (attention_of lang server_id a) (\<lambda>item. Inr (acc @ [item])))
       (as_list (jget (collector_payload d server_id) ''attention'')) items"

definition set_default :: "string \<Rightarrow> json \<Rightarrow> jdict \<Rightarrow> jdict" where
  "set_default k v d = (if map_of d k = None then d @ [(k, v)] else d)"

definition blocked_in_country :: "db \<Rightarrow> string \<Rightarrow> evidence_item list \<Rightarrow> bool" where
  "blocked_in_country d server_id checks \<longleftrightarrow>
     (case snapshot_row_of d (server_key server_id) of None \<Rightarrow> False | Some s \<Rightarrow> sn_reason_code s = ''FULL_TEST_FAILURE_CONFIRMED'') \<and>
     list_ex (\<lambda>e. ei_source e = ''abroad'' \<and> ei_state e = Operational) checks"

record admin_detail =
  ad_detail :: server_detail
  ad_attention :: "string list"
  ad_attention_items :: "attention_item list"
  ad_diagnostics :: jdict

definition admin_server :: "read_settings \<Rightarrow> db \<Rightarrow> datetime \<Rightarrow> string \<Rightarrow> string \<Rightarrow> read_error + admin_detail option" where
  "admin_server rs d now server_id lang =
     (case server_config_of (rs_config rs) server_id of
        None \<Rightarrow> Inr None
      | Some cfg \<Rightarrow>
          (case detail rs d cfg lang now of
             None \<Rightarrow> Inr None
           | Some full \<Rightarrow>
               bind_err (payload_attention d lang server_id []) (\<lambda>unsorted.
               bind_err (sort_attention unsorted) (\<lambda>items.
                 let diagnostics = as_dict (jget (collector_payload d server_id) ''diagnostics'');
                     explained = (if blocked_in_country d server_id (cd_sources (dl_card full))
                       then set_default ''action_key'' (JStr ''admin.diag.action'')
                              (set_default ''abroad_reachable'' (JBool True)
                                 (set_default ''code'' (JStr ''BLOCKED_IN_COUNTRY'') diagnostics))
                       else diagnostics)
                 in Inr (Some \<lparr>ad_detail = full, ad_attention = map (\<lambda>a. take 80 (at_message a)) items,
                          ad_attention_items = items, ad_diagnostics = explained\<rparr>)))))"

subsection \<open>Probes for administrators\<close>

record probe_view =
  pw_id :: string
  pw_kind :: string
  pw_status :: string
  pw_last_seen_at :: "stamp option"
  pw_capabilities :: "string list"
  pw_agent_version :: string
  pw_route_verified :: "bool option"
  pw_network_type :: "string option"

definition DEFAULT_CAPABILITIES :: "(string \<times> string list) list" where
  "DEFAULT_CAPABILITIES = [(''pc'', [''control_internet'', ''handshake'', ''https'']), (''android'', [''dns'', ''tcp'']),
     (''abroad'', [''handshake'']), (''watchdog'', [''heartbeat''])]"

definition PROBE_NETWORK :: "(string \<times> string) list" where
  "PROBE_NETWORK = [(''pc'', ''home''), (''android'', ''cellular''), (''abroad'', ''abroad''), (''watchdog'', ''unknown'')]"

definition joined_report :: "db \<Rightarrow> string \<Rightarrow> report_row option" where
  "joined_report d public_id =
     first_row (order_desc rep_received_at
       (filter (\<lambda>r. list_ex (\<lambda>p. pb_id p = rep_probe_id r \<and> pb_public_id p = public_id) (db_probes d)) (db_reports d)))"

definition probe_view_of :: "read_settings \<Rightarrow> db \<Rightarrow> datetime \<Rightarrow> probe_row \<Rightarrow> probe_view" where
  "probe_view_of rs d now row =
     (let report = joined_report d (pb_public_id row);
          last_seen = dt (pb_last_seen_at row);
          silent = (case last_seen of None \<Rightarrow> True | Some t \<Rightarrow> rs_silent_after rs < now - t)
      in \<lparr>pw_id = pb_public_id row, pw_kind = pb_kind row,
          pw_status = (if pb_status row = ''active'' \<and> silent then ''stale'' else pb_status row),
          pw_last_seen_at = iso_z last_seen,
          pw_capabilities = (if pb_capabilities row \<noteq> [] then pb_capabilities row
                             else or_default [] (map_of DEFAULT_CAPABILITIES (pb_kind row))),
          pw_agent_version = pb_agent_version row, pw_route_verified = map_option rep_route_verified report,
          pw_network_type =
            (case report of
               None \<Rightarrow> map_of PROBE_NETWORK (pb_kind row)
             | Some r \<Rightarrow> if rep_network_type r \<in> {''home'', ''cellular'', ''abroad'', ''unknown''} then Some (rep_network_type r)
                         else map_of PROBE_NETWORK (pb_kind row))\<rparr>)"

definition admin_probes :: "read_settings \<Rightarrow> db \<Rightarrow> datetime \<Rightarrow> probe_view list" where
  "admin_probes rs d now = map (probe_view_of rs d now) (sort_key pb_enrolled_at (db_probes d))"

subsection \<open>The overview\<close>

record doctor_item =
  di_check :: string
  di_state :: string
  di_next :: string
  di_command :: string

record overview =
  ov_attention_items :: "attention_item list"
  ov_doctor_result :: string
  ov_doctor_items :: "doctor_item list"
  ov_next_command :: "string option"

definition minutes_since :: "datetime option \<Rightarrow> datetime \<Rightarrow> int option" where
  "minutes_since since now = (case since of None \<Rightarrow> None | Some t \<Rightarrow> Some (max 0 ((now - t) div minutes 1)))"

definition last_finished_run :: "db \<Rightarrow> run_row option" where
  \<comment> \<open>... WHERE finished_at IS NOT NULL ORDER BY started_at DESC LIMIT 1\<close>
  "last_finished_run d = first_row (order_desc run_started_at (filter (\<lambda>r. run_finished_at r \<noteq> None) (db_runs d)))"

definition installation_item :: "string \<Rightarrow> string \<Rightarrow> string \<Rightarrow> attention_item" where
  "installation_item severity code message = \<lparr>at_severity = severity, at_code = code, at_message = message, at_server_id = None\<rparr>"

definition silent_item :: "dictionaries \<Rightarrow> string \<Rightarrow> datetime \<Rightarrow> probe_view \<Rightarrow> attention_item" where
  "silent_item ds lang now p =
     installation_item ''medium'' ''PROBE_SILENT''
       (translate ds lang ''attention.probeSilent''
          [(''name'', translate ds lang (''admin.probe.'' @ pw_kind p) []),
           (''duration'', duration ds lang (minutes_since (dt (pw_last_seen_at p)) now))])"

definition servers_findings :: "dictionaries \<Rightarrow> string \<Rightarrow> server_config list \<Rightarrow> doctor_item list" where
  "servers_findings ds lang servers =
     (if servers = [] then [\<lparr>di_check = ''servers'', di_state = ''fail'', di_next = translate ds lang ''doctor.servers.fail'' [],
        di_command = ''vpn-pulse server add''\<rparr>] else [])"

definition probe_findings :: "dictionaries \<Rightarrow> string \<Rightarrow> datetime \<Rightarrow> server_config list \<Rightarrow> probe_view list \<Rightarrow> attention_item list \<times> doctor_item list" where
  "probe_findings ds lang now servers probes =
     (if probes = [] then
        ([installation_item ''medium'' ''PROBES_NOT_ENROLLED'' (translate ds lang ''attention.probesNotEnrolled'' [])],
         [\<lparr>di_check = ''probes'', di_state = ''warn'',
           di_next = translate ds lang (if servers = [] then ''doctor.probes.afterServer'' else ''doctor.probes.enroll'') [],
           di_command = ''vpn-pulse probe enroll pc''\<rparr>])
      else
        let silent = filter (\<lambda>p. pw_status p \<in> {''stale'', ''stopped''}) probes
        in (map (silent_item ds lang now) silent,
            if silent = [] then []
            else [\<lparr>di_check = ''probes'', di_state = ''warn'', di_next = translate ds lang ''doctor.probes.silent'' [],
                   di_command = ''vpn-pulse doctor probes''\<rparr>]))"

definition collector_stale :: "read_settings \<Rightarrow> datetime \<Rightarrow> run_row \<Rightarrow> bool" where
  "collector_stale rs now run \<longleftrightarrow>
     run_result run \<noteq> Some ''ok'' \<or>
     (case dt (run_finished_at run) of None \<Rightarrow> True | Some t \<Rightarrow> 3 * rs_collection_interval rs < now - t)"

definition collector_findings :: "dictionaries \<Rightarrow> string \<Rightarrow> read_settings \<Rightarrow> db \<Rightarrow> datetime \<Rightarrow> attention_item list \<times> doctor_item list" where
  "collector_findings ds lang rs d now =
     (let item = installation_item ''high'' ''COLLECTOR_STALE'' (translate ds lang ''attention.collectorStale'' []);
          hint = (\<lambda>st key. \<lparr>di_check = ''collector'', di_state = st, di_next = translate ds lang key [],
                     di_command = ''vpn-pulse doctor collector''\<rparr>)
      in if enabled_servers (rs_config rs) = [] then ([], [])
         else case last_finished_run d of
                None \<Rightarrow> ([item], [hint ''fail'' ''doctor.collector.fail''])
              | Some run \<Rightarrow> if collector_stale rs now run then ([item], [hint ''warn'' ''doctor.collector.stale'']) else ([], []))"

definition stuck_notices :: "db \<Rightarrow> datetime \<Rightarrow> nat" where
  "stuck_notices d now = count_where (\<lambda>q. q_state q = Pending \<and> q_next_attempt_at q < StampZ (now - minutes 10)) (db_queue d)"

definition queue_findings :: "dictionaries \<Rightarrow> string \<Rightarrow> db \<Rightarrow> datetime \<Rightarrow> doctor_item list" where
  "queue_findings ds lang d now =
     (let stuck = stuck_notices d now
      in if stuck = 0 then []
         else [\<lparr>di_check = ''queue'', di_state = ''warn'', di_next = translate ds lang ''doctor.queue.stuck'' [(''n'', show_nat stuck)],
                di_command = ''vpn-pulse doctor queue''\<rparr>])"

definition overview_result :: "doctor_item list \<Rightarrow> string" where
  "overview_result items = (if list_ex (\<lambda>i. di_state i = ''fail'') items then ''fail'' else if items \<noteq> [] then ''warn'' else ''ok'')"

definition admin_overview :: "dictionaries \<Rightarrow> read_settings \<Rightarrow> db \<Rightarrow> datetime \<Rightarrow> string \<Rightarrow> read_error + overview" where
  "admin_overview ds rs d now lang =
     (let servers = enabled_servers (rs_config rs);
          probes = admin_probes rs d now;
          (probe_items, probe_hints) = probe_findings ds lang now servers probes;
          (run_items, run_hints) = collector_findings ds lang rs d now;
          hints = servers_findings ds lang servers @ probe_hints @ run_hints @ queue_findings ds lang d now
      in bind_err (fold_err (\<lambda>cfg items. payload_attention d lang (sc_id cfg) items) servers []) (\<lambda>items.
         bind_err (sort_attention (items @ probe_items @ run_items)) (\<lambda>sorted.
           Inr \<lparr>ov_attention_items = take 100 sorted, ov_doctor_result = overview_result hints, ov_doctor_items = take 20 hints,
                ov_next_command = map_option di_command (first_row hints)\<rparr>)))"

subsection \<open>Readiness\<close>

record readiness_check =
  rc_ok :: bool
  rc_age_seconds :: "int option"

record readiness_view =
  rd_ready :: bool
  rd_checks :: "(string \<times> readiness_check) list"

definition whole_seconds :: "timedelta \<Rightarrow> int" where
  \<comment> \<open>\<open>int(td.total_seconds())\<close>\<close>
  "whole_seconds t = truncate_rat (total_seconds t)"

definition collector_check :: "read_settings \<Rightarrow> db \<Rightarrow> datetime \<Rightarrow> readiness_check" where
  "collector_check rs d now =
     (case last_finished_run d of
        None \<Rightarrow> \<lparr>rc_ok = False, rc_age_seconds = None\<rparr>
      | Some run \<Rightarrow>
          (case dt (run_finished_at run) of
             None \<Rightarrow> \<lparr>rc_ok = False, rc_age_seconds = None\<rparr>
           | Some t \<Rightarrow> let age = whole_seconds (now - t)
                       in \<lparr>rc_ok = (run_result run = Some ''ok'' \<and> of_int age \<le> 3 * total_seconds (rs_collection_interval rs)),
                           rc_age_seconds = Some (max 0 age)\<rparr>))"

definition queue_check :: "db \<Rightarrow> datetime \<Rightarrow> readiness_check" where
  "queue_check d now =
     (let pending = min_stamp (map q_created_at (filter (\<lambda>q. q_state q = Pending) (db_queue d)));
          age = (case dt pending of None \<Rightarrow> 0 | Some t \<Rightarrow> whole_seconds (now - t))
      in \<lparr>rc_ok = (age \<le> 600), rc_age_seconds = Some (max 0 age)\<rparr>)"

definition readiness :: "read_settings \<Rightarrow> bool \<Rightarrow> db \<Rightarrow> datetime \<Rightarrow> readiness_view" where
  \<comment> \<open>\<open>database_ok\<close>: the probe query ran without an \<open>sqlite3.Error\<close>\<close>
  "readiness rs database_ok d now =
     (let checks = [(''database'', \<lparr>rc_ok = database_ok, rc_age_seconds = None\<rparr>), (''collector'', collector_check rs d now),
                    (''queue'', queue_check d now), (''storage'', \<lparr>rc_ok = True, rc_age_seconds = None\<rparr>)]
      in \<lparr>rd_ready = list_all (\<lambda>(k, c). rc_ok c) checks, rd_checks = checks\<rparr>)"

subsection \<open>What the overview promises\<close>

definition attention_wf :: "json \<Rightarrow> bool" where
  \<comment> \<open>a finding as contracts/collector-observation.schema.json requires it\<close>
  "attention_wf a \<longleftrightarrow> map_of (as_dict a) ''code'' \<noteq> None \<and>
     (case map_of (as_dict a) ''severity'' of None \<Rightarrow> False | Some s \<Rightarrow> severity_order (plain_text s) \<noteq> None)"

definition payload_wf :: "db \<Rightarrow> string \<Rightarrow> bool" where
  "payload_wf d server_id \<longleftrightarrow> list_all attention_wf (as_list (jget (collector_payload d server_id) ''attention''))"

definition severities_known :: "attention_item list \<Rightarrow> bool" where
  "severities_known items \<longleftrightarrow> list_all (\<lambda>a. severity_order (at_severity a) \<noteq> None) items"

lemma severities_known_simps [simp]:
  "severities_known []"
  "severities_known (xs @ ys) = (severities_known xs \<and> severities_known ys)"
  by (simp_all add: severities_known_def)

lemma payload_attention_total:
  assumes "payload_wf d server_id" "severities_known items"
  shows "\<exists>out. payload_attention d lang server_id items = Inr out \<and> severities_known out"
proof -
  have "\<exists>out. fold_err (\<lambda>a acc. bind_err (attention_of lang server_id a) (\<lambda>item. Inr (acc @ [item]))) as acc = Inr out \<and> severities_known out"
    if "list_all attention_wf as" "severities_known acc" for as acc
    using that
  proof (induction as arbitrary: acc)
    case (Cons a as)
    from Cons.prems(1) obtain item where item: "attention_of lang server_id a = Inr item" "severity_order (at_severity item) \<noteq> None"
      by (auto simp: attention_wf_def attention_of_def split: option.splits)
    then have "severities_known (acc @ [item])" using Cons.prems(2) by (simp add: severities_known_def)
    with Cons item show ?case by simp
  qed simp
  with assms show ?thesis by (simp add: payload_attention_def payload_wf_def)
qed

lemma payloads_attention_total:
  "\<forall>s \<in> set servers. payload_wf d (sc_id s) \<Longrightarrow> severities_known items \<Longrightarrow>
   \<exists>out. fold_err (\<lambda>cfg items. payload_attention d lang (sc_id cfg) items) servers items = Inr out \<and> severities_known out"
proof (induction servers arbitrary: items)
  case (Cons s servers)
  from payload_attention_total [OF _ Cons.prems(2), of d "sc_id s" lang] Cons.prems(1)
  obtain out where "payload_attention d lang (sc_id s) items = Inr out" "severities_known out" by auto
  with Cons show ?case by simp
qed simp

lemma installation_items_known:
  "severities_known (fst (probe_findings ds lang now servers probes))"
  "severities_known (fst (collector_findings ds lang rs d now))"
  by (auto simp: probe_findings_def collector_findings_def installation_item_def silent_item_def severities_known_def severity_order_def
      list_all_iff Let_def split: option.split)

lemma sort_attention_known:
  "severities_known items \<Longrightarrow> \<exists>out. sort_attention items = Inr out \<and> mset out = mset items \<and>
     sorted (map (\<lambda>a. or_default 0 (severity_order (at_severity a))) out)"
  by (simp add: sort_attention_def severities_known_def)

definition all_hints :: "dictionaries \<Rightarrow> read_settings \<Rightarrow> db \<Rightarrow> datetime \<Rightarrow> string \<Rightarrow> doctor_item list" where
  "all_hints ds rs d now lang =
     (let servers = enabled_servers (rs_config rs)
      in servers_findings ds lang servers @ snd (probe_findings ds lang now servers (admin_probes rs d now)) @
         snd (collector_findings ds lang rs d now) @ queue_findings ds lang d now)"

definition healthy :: "read_settings \<Rightarrow> db \<Rightarrow> datetime \<Rightarrow> bool" where
  \<comment> \<open>servers are configured, every enrolled probe reports, the loop ran recently and well, no notice is stuck\<close>
  "healthy rs d now \<longleftrightarrow>
     enabled_servers (rs_config rs) \<noteq> [] \<and> db_probes d \<noteq> [] \<and>
     list_all (\<lambda>p. pw_status p \<notin> {''stale'', ''stopped''}) (admin_probes rs d now) \<and>
     (case last_finished_run d of None \<Rightarrow> False | Some run \<Rightarrow> \<not> collector_stale rs now run) \<and>
     stuck_notices d now = 0"

lemma all_hints_healthy: "all_hints ds rs d now lang = [] \<longleftrightarrow> healthy rs d now"
proof -
  have probes: "admin_probes rs d now = [] \<longleftrightarrow> db_probes d = []"
    by (simp add: admin_probes_def)
  have parts:
    "servers_findings ds lang servers = [] \<longleftrightarrow> servers \<noteq> []"
    "snd (probe_findings ds lang now servers ps) = [] \<longleftrightarrow> ps \<noteq> [] \<and> list_all (\<lambda>p. pw_status p \<notin> {''stale'', ''stopped''}) ps"
    "enabled_servers (rs_config rs) \<noteq> [] \<Longrightarrow> snd (collector_findings ds lang rs d now) = [] \<longleftrightarrow>
       (case last_finished_run d of None \<Rightarrow> False | Some run \<Rightarrow> \<not> collector_stale rs now run)"
    "queue_findings ds lang d now = [] \<longleftrightarrow> stuck_notices d now = 0" for servers ps
    by (simp_all add: servers_findings_def probe_findings_def collector_findings_def queue_findings_def Let_def filter_empty_conv list_all_iff split: option.split)
  show ?thesis
    unfolding all_hints_def healthy_def Let_def append_is_Nil_conv parts(1,2,4) probes using parts(3) by blast
qed

lemma admin_overview_total:
  assumes "\<forall>s \<in> set (enabled_servers (rs_config rs)). payload_wf d (sc_id s)"
  shows "\<exists>ov items. admin_overview ds rs d now lang = Inr ov \<and> ov_attention_items ov = take 100 items \<and>
     sorted (map (\<lambda>a. or_default 0 (severity_order (at_severity a))) items) \<and>
     set (fst (collector_findings ds lang rs d now)) \<subseteq> set items \<and>
     set (fst (probe_findings ds lang now (enabled_servers (rs_config rs)) (admin_probes rs d now))) \<subseteq> set items \<and>
     ov_doctor_result ov = overview_result (all_hints ds rs d now lang) \<and>
     ov_next_command ov = map_option di_command (first_row (all_hints ds rs d now lang)) \<and>
     ov_doctor_items ov = take 20 (all_hints ds rs d now lang)"
proof -
  let ?servers = "enabled_servers (rs_config rs)"
  let ?probe = "probe_findings ds lang now ?servers (admin_probes rs d now)" and ?run = "collector_findings ds lang rs d now"
  obtain items where items: "fold_err (\<lambda>cfg items. payload_attention d lang (sc_id cfg) items) ?servers [] = Inr items" "severities_known items"
    using payloads_attention_total [OF assms, of "[]"] by auto
  then have "severities_known (items @ fst ?probe @ fst ?run)" by (simp add: installation_items_known)
  from sort_attention_known [OF this] obtain out
    where out: "sort_attention (items @ fst ?probe @ fst ?run) = Inr out" "mset out = mset (items @ fst ?probe @ fst ?run)"
      "sorted (map (\<lambda>a. or_default 0 (severity_order (at_severity a))) out)" by blast
  have "set out = set (items @ fst ?probe @ fst ?run)" using out(2) by (metis set_mset_mset)
  moreover have "admin_overview ds rs d now lang =
      Inr \<lparr>ov_attention_items = take 100 out, ov_doctor_result = overview_result (all_hints ds rs d now lang),
           ov_doctor_items = take 20 (all_hints ds rs d now lang),
           ov_next_command = map_option di_command (first_row (all_hints ds rs d now lang))\<rparr>"
    using items(1) out(1) by (simp add: admin_overview_def Let_def all_hints_def case_prod_beta del: take_append)
  ultimately show ?thesis using out(3) by (intro exI [of _ out] exI) auto
qed

lemma overview_result_cases:
  "overview_result hints = ''ok'' \<longleftrightarrow> hints = []"
  by (simp add: overview_result_def)

subsection \<open>Properties\<close>

text \<open>
  The overview tells the truth about the installation: while the payloads of the collectors keep to
  their schema it is always produced; the doctor says \<open>ok\<close>, and there is no next command, exactly when
  servers are configured, every enrolled probe reports, the last run of the loop is recent and good and no
  notification is stuck; the findings come with the most severe first.
\<close>

theorem overview_is_truthful:
  assumes "\<forall>s \<in> set (enabled_servers (rs_config rs)). payload_wf d (sc_id s)"
  shows "\<exists>ov. admin_overview ds rs d now lang = Inr ov \<and>
     (ov_doctor_result ov = ''ok'' \<longleftrightarrow> healthy rs d now) \<and> (ov_next_command ov = None \<longleftrightarrow> healthy rs d now) \<and>
     length (ov_attention_items ov) \<le> 100 \<and>
     sorted (map (\<lambda>a. or_default 0 (severity_order (at_severity a))) (ov_attention_items ov))"
proof -
  from admin_overview_total [OF assms, of ds now lang] obtain ov items
    where ov: "admin_overview ds rs d now lang = Inr ov" "ov_attention_items ov = take 100 items"
      "sorted (map (\<lambda>a. or_default 0 (severity_order (at_severity a))) items)"
      "ov_doctor_result ov = overview_result (all_hints ds rs d now lang)"
      "ov_next_command ov = map_option di_command (first_row (all_hints ds rs d now lang))" by blast
  have "sorted (map (\<lambda>a. or_default 0 (severity_order (at_severity a))) (take 100 items))"
    using ov(3) unfolding take_map [symmetric] by (rule sorted_wrt_take)
  moreover have "first_row (all_hints ds rs d now lang) = None \<longleftrightarrow> healthy rs d now"
    using all_hints_healthy [of ds rs d now lang] by (cases "all_hints ds rs d now lang") (simp_all add: first_row_def)
  ultimately show ?thesis
    using ov all_hints_healthy [of ds rs d now lang] by (simp add: overview_result_cases)
qed

theorem overview_is_truthful_witness:
  "\<exists>ov. admin_overview [] view_settings empty_db 0 ''en'' = Inr ov \<and> ov_doctor_result ov \<noteq> ''ok''"
  using overview_is_truthful [of view_settings empty_db "[]" 0 "''en''"]
  by (auto simp: payload_wf_def collector_payload_def latest_by_source_def latest_of_def empty_db_def newest_def
      List.map_filter_def EVIDENCE_SOURCES_def healthy_def)

end
