(* ===== verification/Schemas.thy ===== *)
theory Schemas
  imports Admin_View Store
begin

text \<open>
  The response models of the read routes (src/src/vpnpulse/api/schemas.py) as executable predicates on
  the answers of the read model: FastAPI refuses to send an answer that does not satisfy its model.
  What the types of the model already enforce (a state is one of the four, an instant is an instant)
  needs no condition.
\<close>

subsection \<open>Constraints of fields\<close>

definition max_length :: "nat \<Rightarrow> string option \<Rightarrow> bool" where
  "max_length n s = (case s of None \<Rightarrow> True | Some t \<Rightarrow> length t \<le> n)"

definition unit_interval :: "rat option \<Rightarrow> bool" where
  \<comment> \<open>\<open>float | None = Field(ge=0, le=1)\<close>\<close>
  "unit_interval x = (case x of None \<Rightarrow> True | Some r \<Rightarrow> 0 \<le> r \<and> r \<le> 1)"

definition upper_char :: "char \<Rightarrow> bool" where
  "upper_char c \<longleftrightarrow> 65 \<le> (of_char c :: nat) \<and> (of_char c :: nat) \<le> 90"

definition country_pattern :: "string \<Rightarrow> bool" where
  "country_pattern s \<longleftrightarrow> length s = 2 \<and> list_all upper_char s"

definition code_pattern :: "string \<Rightarrow> bool" where
  \<comment> \<open>\<open>^[A-Z][A-Z0-9_]+$\<close>\<close>
  "code_pattern s \<longleftrightarrow>
     2 \<le> length s \<and> upper_char (hd s) \<and> list_all (\<lambda>c. upper_char c \<or> is_digit c \<or> c = CHR ''_'') s"

fun number_within :: "rat option \<Rightarrow> rat option \<Rightarrow> json \<Rightarrow> bool" where
  \<comment> \<open>\<open>float | None\<close> with optional bounds\<close>
  "number_within lo hi JNull = True"
| "number_within lo hi v =
     (case as_num v of
        None \<Rightarrow> False
      | Some x \<Rightarrow> (case lo of None \<Rightarrow> True | Some l \<Rightarrow> l \<le> x) \<and> (case hi of None \<Rightarrow> True | Some h \<Rightarrow> x \<le> h))"

fun count_or_null :: "json \<Rightarrow> bool" where
  \<comment> \<open>\<open>int | None = Field(ge=0)\<close>\<close>
  "count_or_null JNull = True"
| "count_or_null (JInt i) = (0 \<le> i)"
| "count_or_null (JFloat x) = (0 \<le> x \<and> of_int \<lfloor>x\<rfloor> = x)"
| "count_or_null _ = False"

fun text_or_null :: "nat \<Rightarrow> json \<Rightarrow> bool" where
  "text_or_null n JNull = True"
| "text_or_null n (JStr s) = (length s \<le> n)"
| "text_or_null n _ = False"

fun scalar :: "json \<Rightarrow> bool" where
  \<comment> \<open>\<open>str | float | int | bool | None\<close>\<close>
  "scalar (JArr xs) = False"
| "scalar (JObj d) = False"
| "scalar _ = True"

definition literal :: "string list \<Rightarrow> json \<Rightarrow> bool" where
  "literal allowed v = list_ex (\<lambda>s. v = JStr s) allowed"

definition strict_object :: "string list \<Rightarrow> string list \<Rightarrow> json \<Rightarrow> bool" where
  \<comment> \<open>a dictionary with all required keys and no key outside the model\<close>
  "strict_object required optional v =
     (case v of
        JObj d \<Rightarrow> list_all (\<lambda>k. map_of d k \<noteq> None) required \<and> list_all (\<lambda>(k, x). k \<in> set (required @ optional)) d
      | _ \<Rightarrow> False)"

subsection \<open>Status\<close>

definition evidence_valid :: "evidence_item \<Rightarrow> bool" where
  "evidence_valid e \<longleftrightarrow>
     ei_source e \<in> {''collector'', ''pc'', ''mobile'', ''abroad'', ''human_activity''} \<and>
     max_length 80 (ei_reason_code e) \<and> (case ei_via_server_id e of JNull \<Rightarrow> True | JStr s \<Rightarrow> True | _ \<Rightarrow> False)"

definition card_valid :: "card \<Rightarrow> bool" where
  "card_valid c \<longleftrightarrow>
     1 \<le> length (cd_name c) \<and> length (cd_name c) \<le> 80 \<and> country_pattern (cd_country_code c) \<and>
     unit_interval (cd_uptime_24h c) \<and> unit_interval (cd_coverage_24h c) \<and> list_all evidence_valid (cd_sources c)"

definition note_valid :: "note_info \<Rightarrow> bool" where
  "note_valid n \<longleftrightarrow> 1 \<le> length (ni_text n) \<and> length (ni_text n) \<le> 500"

definition source_valid :: "source_view \<Rightarrow> bool" where
  "source_valid s \<longleftrightarrow> sv_source s \<in> {''pc'', ''mobile'', ''abroad''} \<and> sv_state s \<in> {''active'', ''silent''}"

definition status_valid :: "status_view \<Rightarrow> bool" where
  "status_valid s \<longleftrightarrow>
     0 \<le> sw_coverage s \<and> sw_coverage s \<le> 1 \<and> sw_mode s \<in> {''live'', ''demo''} \<and>
     (case sw_note s of None \<Rightarrow> True | Some n \<Rightarrow> note_valid n) \<and>
     list_all card_valid (sw_servers s) \<and> length (sw_sources s) \<le> 3 \<and> list_all source_valid (sw_sources s)"

subsection \<open>Details, metrics, events\<close>

definition protocol_valid :: "protocol_view \<Rightarrow> bool" where
  "protocol_valid p \<longleftrightarrow>
     plv_kind p \<in> {''amneziawg'', ''xray_reality''} \<and> unit_interval (Some (plv_coverage p)) \<and> count_or_null (plv_connections p)"

definition component_valid :: "json \<Rightarrow> bool" where
  "component_valid v \<longleftrightarrow>
     strict_object [''id'', ''name''] [''version'', ''note_key'', ''note''] v \<and>
     literal [''amneziawg'', ''xray'', ''hiddify'', ''ddns'', ''tuning'', ''other''] (jget (as_dict v) ''id'') \<and>
     (case jget (as_dict v) ''name'' of JStr s \<Rightarrow> length s \<le> 40 | _ \<Rightarrow> False) \<and>
     text_or_null 32 (jget (as_dict v) ''version'') \<and>
     (case jget (as_dict v) ''note_key'' of JNull \<Rightarrow> True | JStr s \<Rightarrow> starts_with ''server.software.'' s | _ \<Rightarrow> False) \<and>
     text_or_null 60 (jget (as_dict v) ''note'')"

definition resources_valid :: "json \<Rightarrow> bool" where
  "resources_valid v \<longleftrightarrow>
     v = JNull \<or>
     strict_object [''traffic_mbps'', ''cpu_percent'', ''memory_percent''] [''swap_percent'', ''peak_connections_24h''] v \<and>
     number_within (Some 0) None (jget (as_dict v) ''traffic_mbps'') \<and>
     list_all (\<lambda>k. number_within (Some 0) (Some 100) (jget (as_dict v) k)) [''cpu_percent'', ''memory_percent'', ''swap_percent''] \<and>
     count_or_null (jget (as_dict v) ''peak_connections_24h'')"

definition profiles_valid :: "json \<Rightarrow> bool" where
  \<comment> \<open>\<open>last_connection_at\<close>: a text that parses as an instant, for which a text stands here\<close>
  "profiles_valid v \<longleftrightarrow>
     v = JNull \<or>
     strict_object [''issued'', ''ever_connected'', ''active_24h''] [''last_connection_at''] v \<and>
     list_all (\<lambda>k. count_or_null (jget (as_dict v) k)) [''issued'', ''ever_connected'', ''active_24h''] \<and>
     (case jget (as_dict v) ''last_connection_at'' of JNull \<Rightarrow> True | JStr s \<Rightarrow> True | _ \<Rightarrow> False)"

definition service_check_valid :: "json \<Rightarrow> bool" where
  "service_check_valid v \<longleftrightarrow>
     strict_object [''check'', ''ok''] [] v \<and> literal [''ssh'', ''engine'', ''port'', ''dns'', ''ddns''] (jget (as_dict v) ''check'') \<and>
     (case jget (as_dict v) ''ok'' of JNull \<Rightarrow> True | JBool b \<Rightarrow> True | _ \<Rightarrow> False)"

definition detail_valid :: "server_detail \<Rightarrow> bool" where
  "detail_valid x \<longleftrightarrow>
     card_valid (dl_card x) \<and> list_all protocol_valid (dl_protocols x) \<and>
     unit_interval (dl_uptime_7d x) \<and> unit_interval (dl_coverage_7d x) \<and>
     length (dl_components x) \<le> 12 \<and> list_all component_valid (dl_components x) \<and>
     resources_valid (dl_resources x) \<and> profiles_valid (dl_profiles x) \<and>
     length (dl_service_checks x) \<le> 8 \<and> list_all service_check_valid (dl_service_checks x)"

definition attention_item_valid :: "attention_item \<Rightarrow> bool" where
  "attention_item_valid a \<longleftrightarrow>
     at_severity a \<in> {''high'', ''medium'', ''low''} \<and> code_pattern (at_code a) \<and> length (at_message a) \<le> 240"

definition admin_detail_valid :: "admin_detail \<Rightarrow> bool" where
  "admin_detail_valid x \<longleftrightarrow>
     detail_valid (ad_detail x) \<and> length (ad_attention_items x) \<le> 50 \<and> list_all attention_item_valid (ad_attention_items x)"

definition metric_point_valid :: "metric_point \<Rightarrow> bool" where
  "metric_point_valid p \<longleftrightarrow> unit_interval (Some (mp_coverage p)) \<and> (case mp_connections p of None \<Rightarrow> True | Some n \<Rightarrow> 0 \<le> n)"

definition metrics_valid :: "metrics_view \<Rightarrow> bool" where
  "metrics_valid m \<longleftrightarrow>
     mv_period m \<in> {''24h'', ''7d''} \<and> unit_interval (Some (mv_coverage m)) \<and>
     length (mv_points m) \<le> 672 \<and> list_all metric_point_valid (mv_points m)"

definition event_valid :: "event_item \<Rightarrow> bool" where
  "event_valid e \<longleftrightarrow>
     evi_kind e \<in> {''state_change'', ''recovery'', ''note'', ''configuration'', ''monitoring''} \<and>
     evi_severity e \<in> {''info'', ''warning'', ''critical''} \<and>
     starts_with ''events.'' (evi_title_key e) \<and> list_all (\<lambda>(k, v). scalar v) (evi_params e)"

definition event_page_valid :: "event_page \<Rightarrow> bool" where
  "event_page_valid p \<longleftrightarrow> list_all event_valid (ep_items p)"

definition help_valid :: "help_view \<Rightarrow> bool" where
  "help_valid h \<longleftrightarrow> length (hv_step_keys h) = 4"

subsection \<open>Administration, probes, sessions\<close>

definition probe_valid :: "probe_view \<Rightarrow> bool" where
  "probe_valid p \<longleftrightarrow>
     pw_kind p \<in> {''pc'', ''android'', ''abroad'', ''watchdog''} \<and>
     pw_status p \<in> {''active'', ''stale'', ''stopped'', ''revoked''} \<and> length (pw_agent_version p) \<le> 64 \<and>
     (case pw_network_type p of None \<Rightarrow> True | Some n \<Rightarrow> n \<in> {''home'', ''cellular'', ''abroad'', ''unknown''})"

definition doctor_item_valid :: "doctor_item \<Rightarrow> bool" where
  "doctor_item_valid i \<longleftrightarrow>
     di_check i \<in> {''servers'', ''probes'', ''collector'', ''storage'', ''bot'', ''https'', ''telegram'', ''queue'', ''backup''} \<and>
     di_state i \<in> {''ok'', ''warn'', ''fail''} \<and> length (di_next i) \<le> 200 \<and> length (di_command i) \<le> 120"

definition overview_valid :: "overview \<Rightarrow> bool" where
  "overview_valid ov \<longleftrightarrow>
     length (ov_attention_items ov) \<le> 100 \<and> list_all attention_item_valid (ov_attention_items ov) \<and>
     ov_doctor_result ov \<in> {''ok'', ''warn'', ''fail''} \<and> length (ov_doctor_items ov) \<le> 20 \<and>
     list_all doctor_item_valid (ov_doctor_items ov) \<and> max_length 120 (ov_next_command ov)"

definition readiness_valid :: "readiness_view \<Rightarrow> bool" where
  "readiness_valid r \<longleftrightarrow> list_all (\<lambda>(k, c). case rc_age_seconds c of None \<Rightarrow> True | Some a \<Rightarrow> 0 \<le> a) (rd_checks r)"

definition session_info_valid :: "string \<Rightarrow> bool" where
  "session_info_valid role \<longleftrightarrow> role \<in> {''member'', ''admin''}"

definition probe_target_valid :: "string \<times> string list \<Rightarrow> bool" where
  "probe_target_valid t \<longleftrightarrow> list_all (\<lambda>c. c \<in> {''control_internet'', ''handshake'', ''https'', ''dns'', ''tcp''}) (snd t)"

definition probe_task_valid :: "probe_task \<Rightarrow> bool" where
  "probe_task_valid t \<longleftrightarrow>
     pc_schema_version t = 1 \<and> 60 \<le> pc_interval_seconds t \<and> pc_interval_seconds t \<le> 3600 \<and>
     list_all probe_target_valid (pc_targets t)"

subsection \<open>The status answer always satisfies its model\<close>

definition server_valid :: "server_config \<Rightarrow> bool" where
  \<comment> \<open>what contracts/config.schema.json says of a name and a country code\<close>
  "server_valid s \<longleftrightarrow>
     country_pattern (sc_country_code s) \<and>
     (case sc_name s of
        JObj d \<Rightarrow> map_of d ''ru'' \<noteq> None \<and>
          list_all (\<lambda>(k, v). case v of JStr t \<Rightarrow> 1 \<le> length t \<and> length t \<le> 80 | _ \<Rightarrow> False) d
      | _ \<Rightarrow> False)"

definition observation_valid :: "observation_row \<Rightarrow> bool" where
  \<comment> \<open>what the report model and the collectors guarantee of a stored observation\<close>
  "observation_valid r \<longleftrightarrow>
     max_length 80 (ob_error_code r) \<and>
     (case jget (loads_or_empty (ob_metrics r)) ''via_server_id'' of JNull \<Rightarrow> True | JStr s \<Rightarrow> True | _ \<Rightarrow> False)"

definition view_wf :: "read_settings \<Rightarrow> db \<Rightarrow> bool" where
  "view_wf rs d \<longleftrightarrow>
     list_all server_valid (enabled_servers (rs_config rs)) \<and> rs_mode rs \<in> {''live'', ''demo''} \<and>
     written_in_utc d \<and> list_all observation_valid (db_observations d) \<and> list_all (\<lambda>n. nt_text n \<noteq> []) (db_notes d)"

lemma first_row_in: "first_row rows = Some r \<Longrightarrow> r \<in> set rows"
  by (auto simp: first_row_def split: list.splits)

lemma jget_in: "jget d k \<noteq> JNull \<Longrightarrow> \<exists>v. (k, v) \<in> set d \<and> jget d k = v"
  by (auto simp: jget_def split: option.splits dest: map_of_SomeD)

lemma name_valid:
  assumes "server_valid s"
  shows "1 \<le> length (text_of (sc_name s) lang) \<and> length (text_of (sc_name s) lang) \<le> 80"
proof -
  from assms obtain d ru where d: "sc_name s = JObj d" "map_of d ''ru'' = Some ru"
      "list_all (\<lambda>(k, v). case v of JStr t \<Rightarrow> 1 \<le> length t \<and> length t \<le> 80 | _ \<Rightarrow> False) d"
    by (auto simp: server_valid_def split: json.splits)
  have texts: "\<exists>t. v = JStr t \<and> t \<noteq> [] \<and> length t \<le> 80" if "(k, v) \<in> set d" for k v
    using d(3) that by (fastforce simp: list_all_iff split: json.splits)
  have one: "\<exists>t. v = JStr t \<and> t \<noteq> [] \<and> length t \<le> 80"
    if v: "v = json_or (jget d lang) (json_or (jget d ''ru'') (json_or (jget d ''en'') (JStr [])))" for v
  proof (cases "truthy (jget d lang)")
    case True
    then have "jget d lang \<noteq> JNull" by auto
    from jget_in [OF this] texts True v show ?thesis by (auto simp: json_or_def)
  next
    case False
    have "jget d ''ru'' = ru" using d(2) by (simp add: jget_def)
    moreover obtain t where "ru = JStr t" "t \<noteq> []" "length t \<le> 80" using texts d(2) by (meson map_of_SomeD)
    ultimately show ?thesis using False v by (simp add: json_or_def)
  qed
  from one [OF refl] obtain t where "json_or (jget d lang) (json_or (jget d ''ru'') (json_or (jget d ''en'') (JStr []))) = JStr t"
      "t \<noteq> []" "length t \<le> 80" by blast
  then show ?thesis using d(1) by (simp add: text_of_def Suc_le_eq)
qed

lemma evidence_all_valid:
  assumes "list_all observation_valid (db_observations d)"
  shows "list_all evidence_valid (evidence d sid now)"
proof -
  have "evidence_valid (evidence_item_of now (s, row))" if "s \<in> set SHOWN_SOURCES" "latest_of d sid s = Some row" for s row
  proof -
    from newest_in [OF that(2) [unfolded latest_of_def]] assms have "observation_valid row" by (simp add: list_all_iff)
    with that(1) show ?thesis
      by (auto simp: evidence_valid_def evidence_item_of_def observation_valid_def SHOWN_SOURCES_def Let_def)
  qed
  then show ?thesis unfolding evidence_eq by (auto simp: list_all_iff List.map_filter_def)
qed

lemma server_config_of_in:
  "s \<in> set (enabled_servers config) \<Longrightarrow> \<exists>s'. server_config_of config (sc_id s) = Some s' \<and> s' \<in> set (enabled_servers config)"
proof -
  assume "s \<in> set (enabled_servers config)"
  then have "find (\<lambda>x. sc_id x = sc_id s) (enabled_servers config) \<noteq> None" by (auto simp: find_None_iff)
  then show ?thesis unfolding server_config_of_def by (metis find_Some_in option.exhaust)
qed

lemma availability_valid:
  assumes "written_in_utc d" "0 < window"
  shows "unit_interval (fst (availability d sid window now)) \<and> unit_interval (snd (availability d sid window now))"
proof -
  obtain u c where "availability d sid window now = (u, c)" by fastforce
  with availability_bounds [OF assms this] show ?thesis by (auto simp: unit_interval_def split: option.split)
qed

lemma card_all_valid:
  assumes "view_wf rs d" "cfg \<in> set (enabled_servers (rs_config rs))"
  shows "card_valid (localized_card (rs_config rs) rec lang (card_of d cfg now r))"
proof -
  obtain s' where s': "server_config_of (rs_config rs) (sc_id cfg) = Some s'" "s' \<in> set (enabled_servers (rs_config rs))"
    using server_config_of_in [OF assms(2)] by blast
  have wf: "server_valid cfg" "server_valid s'" "written_in_utc d" "list_all observation_valid (db_observations d)"
    using assms s' by (auto simp: view_wf_def list_all_iff)
  have "0 < hours 24" by (simp add: hours_def)
  from name_valid [OF wf(2), of lang] wf availability_valid [OF wf(3) this, of "sc_id cfg" now] evidence_all_valid [OF wf(4), of "sc_id cfg" now] s'
  show ?thesis by (simp add: card_valid_def localized_card_def card_of_def Let_def case_prod_beta server_valid_def)
qed

lemma presence_valid: "list_all (\<lambda>(k, v). source_valid v) (presence rs d now)"
  by (auto simp: presence_def List.map_filter_def SOURCE_OF_KIND_def source_valid_def list_all_iff split: if_splits)

lemma status_all_valid:
  assumes "view_wf rs d"
  shows "status_valid (status rs d now lang)"
proof -
  have cards: "list_all card_valid (sw_servers (status rs d now lang))"
    unfolding status_selects list_all_iff using card_all_valid [OF assms] by (auto simp: status_cards_def)
  have coverage: "0 \<le> sw_coverage (status rs d now lang) \<and> sw_coverage (status rs d now lang) \<le> 1"
    unfolding status_selects by (rule round4_bounds) (use length_active_kinds [of "presence rs d now"] in \<open>simp_all add: KINDS_def\<close>)
  have "list_all source_valid (List.map_filter (\<lambda>k. map_of (presence rs d now) k) KINDS)"
    using presence_valid [of rs d now] by (fastforce simp: list_all_iff List.map_filter_def dest: map_of_SomeD)
  moreover have "length (List.map_filter (\<lambda>k. map_of (presence rs d now) k) KINDS) \<le> 3"
    unfolding List.map_filter_def length_map using length_filter_le [of _ KINDS] by (simp add: KINDS_def)
  ultimately have sources: "list_all source_valid (sw_sources (status rs d now lang)) \<and> length (sw_sources (status rs d now lang)) \<le> 3"
    by (simp add: status_def Let_def)
  have "nt_text row \<noteq> []" if "current_note d now = Some row" for row
    using assms first_row_in [OF that [unfolded current_note_def]] by (auto simp: view_wf_def list_all_iff order_desc_def)
  then have "case note_view d now of None \<Rightarrow> True | Some n \<Rightarrow> note_valid n"
    by (auto simp: note_view_def note_valid_def Suc_le_eq split: option.split)
  then have noted: "case sw_note (status rs d now lang) of None \<Rightarrow> True | Some n \<Rightarrow> note_valid n"
    by (simp add: status_def Let_def)
  have "sw_mode (status rs d now lang) = rs_mode rs" by (simp add: status_def Let_def)
  with cards coverage sources noted assms show ?thesis by (simp add: status_valid_def view_wf_def)
qed

subsection \<open>Properties\<close>

text \<open>
  C39. The status screen can always be sent: over a configuration that keeps to its schema and a database
  whose observations and notes keep to theirs, the answer satisfies its response model, whatever the state
  of the servers, the clock and the language.
\<close>

theorem status_satisfies_model:
  assumes "view_wf rs d"
  shows "status_valid (status rs d now lang)"
  by (rule status_all_valid [OF assms])

theorem status_satisfies_model_witness:
  "status_valid (status view_settings silent_db (minutes 1) ''en'')"
  by (rule status_satisfies_model)
    (simp add: view_wf_def view_settings_def enabled_servers_def is_enabled_def server_valid_def country_pattern_def upper_char_def
      written_in_utc_def silent_db_def sample_transition_def observation_valid_def max_length_def empty_db_def)

end
