(* ===== verification/Security.thy ===== *)
theory Security
  imports Text "HOL-Library.AList"
begin

text \<open>
  The guards of the HTTP layer that live in the process (src/src/vpnpulse/api/security.py): the
  token buckets of the rate limiter and the address a request is counted under. Times are rational
  seconds (\<open>timestamp()\<close>), tokens exact rationals; the salted digest of an address is the constructor
  \<open>AddressDigest\<close>, which keeps different addresses apart as the digest does.
\<close>

datatype address_digest = AddressDigest string string

type_synonym bucket_key = "string \<times> address_digest"

record token_bucket =
  tb_tokens :: rat
  tb_updated :: rat

record limiter =
  li_max_keys :: nat
  li_salt :: string
  li_buckets :: "(bucket_key \<times> token_bucket) list"

definition limiter_init :: "string \<Rightarrow> nat \<Rightarrow> limiter" where
  "limiter_init salt max_keys = \<lparr>li_max_keys = max_keys, li_salt = salt, li_buckets = []\<rparr>"

definition key_of :: "limiter \<Rightarrow> string \<Rightarrow> string \<Rightarrow> bucket_key" where
  "key_of li route address = (route, AddressDigest (li_salt li) address)"

definition refilled :: "token_bucket option \<Rightarrow> rat \<Rightarrow> int \<Rightarrow> token_bucket" where
  "refilled found current per_minute =
     (case found of
        None \<Rightarrow> \<lparr>tb_tokens = of_int per_minute, tb_updated = current\<rparr>
      | Some b \<Rightarrow>
          let elapsed = max 0 (current - tb_updated b)
          in \<lparr>tb_tokens = min (of_int per_minute) (tb_tokens b + elapsed * of_int per_minute / 60), tb_updated = current\<rparr>)"

definition take_token :: "token_bucket \<Rightarrow> bool \<times> token_bucket" where
  "take_token b = (if 1 \<le> tb_tokens b then (True, b\<lparr>tb_tokens := tb_tokens b - 1\<rparr>) else (False, b))"

fun evict :: "nat \<Rightarrow> 'a list \<Rightarrow> 'a list" where
  \<comment> \<open>\<open>while len(buckets) > max_keys: buckets.popitem(last=False)\<close>\<close>
  "evict n [] = []"
| "evict n (x # xs) = (if n < length (x # xs) then evict n xs else x # xs)"

definition int_of_rat :: "rat \<Rightarrow> int" where
  "int_of_rat x = (if 0 \<le> x then \<lfloor>x\<rfloor> else - \<lfloor>- x\<rfloor>)"

definition retry_after :: "token_bucket \<Rightarrow> int \<Rightarrow> int" where
  "retry_after b per_minute = max 1 (int_of_rat ((1 - tb_tokens b) * 60 / of_int per_minute + 999 / 1000))"

definition allow :: "limiter \<Rightarrow> rat \<Rightarrow> string \<Rightarrow> string \<Rightarrow> int \<Rightarrow> (bool \<times> int) \<times> limiter" where
  "allow li current route address per_minute =
     (let key = key_of li route address;
          b = refilled (map_of (li_buckets li) key) current per_minute;
          (allowed, b') = take_token b;
          buckets = AList.delete key (li_buckets li) @ [(key, b')]
      in ((allowed, retry_after b' per_minute), li\<lparr>li_buckets := evict (li_max_keys li) buckets\<rparr>))"

definition client_address :: "string option \<Rightarrow> string option \<Rightarrow> string" where
  \<comment> \<open>\<open>peer\<close> is the host of the connection, \<open>forwarded\<close> the x-forwarded-for header\<close>
  "client_address peer forwarded =
     (let host = (case peer of None \<Rightarrow> ''unknown'' | Some h \<Rightarrow> h);
          first = strip (fst (split_first (CHR '','') (case forwarded of None \<Rightarrow> [] | Some f \<Rightarrow> f)))
      in if host = ''127.0.0.1'' \<and> first \<noteq> [] then first else host)"

subsection \<open>One bucket\<close>

definition bucket_step :: "rat \<Rightarrow> int \<Rightarrow> token_bucket option \<Rightarrow> bool \<times> token_bucket" where
  "bucket_step current per_minute found = take_token (refilled found current per_minute)"

definition bucket_ok :: "int \<Rightarrow> token_bucket option \<Rightarrow> bool" where
  "bucket_ok p found = (case found of None \<Rightarrow> True | Some b \<Rightarrow> 0 \<le> tb_tokens b \<and> tb_tokens b \<le> of_int p)"

fun bucket_run :: "int \<Rightarrow> rat list \<Rightarrow> token_bucket option \<Rightarrow> nat \<times> token_bucket option" where
  \<comment> \<open>how many of the calls at these times one bucket lets through\<close>
  "bucket_run p [] found = (0, found)"
| "bucket_run p (t # ts) found =
     (let (allowed, b) = bucket_step t p found; (n, last) = bucket_run p ts (Some b)
      in ((if allowed then 1 else 0) + n, last))"

lemma bucket_step_ok:
  assumes "0 < p" "bucket_ok p found"
  shows "bucket_ok p (Some (snd (bucket_step t p found))) \<and> tb_updated (snd (bucket_step t p found)) = t"
proof -
  have p: "0 < (of_int p :: rat)" using assms(1) by simp
  have "0 \<le> max 0 x * of_int p / (60 :: rat)" for x :: rat using p by simp
  then have "0 \<le> tb_tokens (refilled found t p) \<and> tb_tokens (refilled found t p) \<le> of_int p \<and> tb_updated (refilled found t p) = t"
    using assms p by (auto simp: refilled_def bucket_ok_def Let_def min_def add_nonneg_nonneg split: option.splits)
  then show ?thesis by (auto simp: bucket_step_def take_token_def bucket_ok_def)
qed

lemma bucket_run_bound:
  "0 < p \<Longrightarrow> sorted (tb_updated b # ts) \<Longrightarrow> bucket_ok p (Some b) \<Longrightarrow>
   of_nat (fst (bucket_run p ts (Some b))) \<le> tb_tokens b + (last (tb_updated b # ts) - tb_updated b) * of_int p / 60"
proof (induction ts arbitrary: b)
  case (Cons t ts)
  let ?b = "snd (bucket_step t p (Some b))"
  have ok: "bucket_ok p (Some ?b)" and upd: "tb_updated ?b = t" using bucket_step_ok [OF Cons.prems(1,3), of t] by simp_all
  have "of_nat (fst (bucket_run p ts (Some ?b))) \<le> tb_tokens ?b + (last (t # ts) - t) * of_int p / 60"
    using Cons.IH [OF Cons.prems(1) _ ok] Cons.prems(2) upd by simp
  moreover have "(if fst (bucket_step t p (Some b)) then 1 else 0) + tb_tokens ?b \<le> tb_tokens b + (t - tb_updated b) * of_int p / 60"
    using Cons.prems(2) by (simp add: bucket_step_def take_token_def refilled_def Let_def)
  ultimately have "of_nat (fst (bucket_run p (t # ts) (Some b))) \<le>
      tb_tokens b + ((t - tb_updated b) + (last (t # ts) - t)) * of_int p / 60"
    by (simp add: case_prod_beta Let_def algebra_simps add_divide_distrib diff_divide_distrib split: if_splits)
  then show ?case by simp
qed (simp add: bucket_ok_def)

lemma bucket_run_fresh_bound:
  assumes "0 < p" "sorted ts" "ts \<noteq> []"
  shows "of_nat (fst (bucket_run p ts None)) \<le> of_int p + (last ts - hd ts) * of_int p / (60 :: rat)"
proof -
  obtain t us where ts: "ts = t # us" using assms(3) by (cases ts) auto
  let ?b = "\<lparr>tb_tokens = of_int p, tb_updated = t\<rparr> :: token_bucket"
  have "bucket_run p ts None = bucket_run p ts (Some ?b)"
    using assms(1) by (simp add: ts bucket_step_def refilled_def)
  then show ?thesis using bucket_run_bound [of p ?b ts] assms by (simp add: ts bucket_ok_def)
qed

subsection \<open>Every key has a bucket of its own\<close>

lemma evict_few: "length xs \<le> n \<Longrightarrow> evict n xs = xs"
  by (cases xs) auto

lemma length_evict: "length (evict n xs) \<le> n"
  by (induction n xs rule: evict.induct) auto

record call =
  cl_time :: rat
  cl_route :: string
  cl_address :: string
  cl_per_minute :: int

fun allow_run :: "call list \<Rightarrow> limiter \<Rightarrow> bool list \<times> limiter" where
  "allow_run [] li = ([], li)"
| "allow_run (c # cs) li =
     (let ((allowed, retry), li1) = allow li (cl_time c) (cl_route c) (cl_address c) (cl_per_minute c);
          (rest, li2) = allow_run cs li1
      in (allowed # rest, li2))"

definition keys_of_run :: "limiter \<Rightarrow> call list \<Rightarrow> bucket_key set" where
  "keys_of_run li cs = fst ` set (li_buckets li) \<union> (\<lambda>c. key_of li (cl_route c) (cl_address c)) ` set cs"

lemma allow_frame [simp]:
  "li_salt (snd (allow li t r a p)) = li_salt li" "li_max_keys (snd (allow li t r a p)) = li_max_keys li"
  by (simp_all add: allow_def Let_def case_prod_beta)

lemma key_of_allow [simp]: "key_of (snd (allow li t r a p)) route address = key_of li route address"
  by (simp add: key_of_def)

lemma keys_delete_append: "fst ` set (AList.delete k xs @ [(k, v)]) = insert k (fst ` set xs)"
  using delete_keys [of k xs] by (metis (no_types, lifting) Un_insert_right append_Nil2 fst_conv insert_Diff_single list.set(1) list.set(2) list.simps(8) list.simps(9) map_append set_append set_map set_removeAll sup_bot_right)

lemma allow_buckets:
  assumes "distinct (map fst (li_buckets li))"
    and "card (insert (key_of li r a) (fst ` set (li_buckets li))) \<le> li_max_keys li"
  shows "li_buckets (snd (allow li t r a p)) =
     AList.delete (key_of li r a) (li_buckets li) @ [(key_of li r a, snd (bucket_step t p (map_of (li_buckets li) (key_of li r a))))] \<and>
     distinct (map fst (li_buckets (snd (allow li t r a p))))"
proof -
  let ?k = "key_of li r a"
  let ?bs = "AList.delete ?k (li_buckets li) @ [(?k, snd (bucket_step t p (map_of (li_buckets li) ?k)))]"
  have d: "distinct (map fst ?bs)" using assms(1) by (simp add: delete_keys distinct_removeAll)
  then have "length ?bs = card (fst ` set ?bs)" by (metis distinct_card length_map set_map)
  then have "length ?bs \<le> li_max_keys li" using assms(2) by (simp only: keys_delete_append)
  then have "li_buckets (snd (allow li t r a p)) = ?bs"
    by (simp add: allow_def Let_def case_prod_beta bucket_step_def evict_few)
  with d show ?thesis by simp
qed

definition granted :: "limiter \<Rightarrow> call list \<Rightarrow> bucket_key \<Rightarrow> nat" where
  \<comment> \<open>how many calls under a key a run lets through\<close>
  "granted li cs k = length (filter (\<lambda>(allowed, c). allowed \<and> key_of li (cl_route c) (cl_address c) = k) (zip (fst (allow_run cs li)) cs))"

definition times_of :: "limiter \<Rightarrow> call list \<Rightarrow> bucket_key \<Rightarrow> rat list" where
  "times_of li cs k = map cl_time (filter (\<lambda>c. key_of li (cl_route c) (cl_address c) = k) cs)"

lemma granted_bucket_run:
  assumes "distinct (map fst (li_buckets li))" "card (keys_of_run li cs) \<le> li_max_keys li"
    and "\<forall>c \<in> set cs. key_of li (cl_route c) (cl_address c) = k \<longrightarrow> cl_per_minute c = p"
  shows "granted li cs k = fst (bucket_run p (times_of li cs k) (map_of (li_buckets li) k))"
  using assms
proof (induction cs arbitrary: li)
  case Nil
  then show ?case by (simp add: granted_def times_of_def)
next
  case (Cons c cs)
  let ?r = "cl_route c" and ?a = "cl_address c"
  let ?k = "key_of li ?r ?a"
  let ?li = "snd (allow li (cl_time c) ?r ?a (cl_per_minute c))"
  have fin: "finite (keys_of_run li (c # cs))" by (simp add: keys_of_run_def)
  have "insert ?k (fst ` set (li_buckets li)) \<subseteq> keys_of_run li (c # cs)" by (auto simp: keys_of_run_def)
  then have "card (insert ?k (fst ` set (li_buckets li))) \<le> li_max_keys li"
    using Cons.prems(2) card_mono [OF fin] by (meson order_trans)
  note bs = allow_buckets [OF Cons.prems(1) this, of "cl_time c" "cl_per_minute c"]
  have "keys_of_run ?li cs = keys_of_run li (c # cs)"
    unfolding keys_of_run_def conjunct1 [OF bs] keys_delete_append by auto
  then have IH: "granted ?li cs k = fst (bucket_run p (times_of ?li cs k) (map_of (li_buckets ?li) k))"
    using Cons.prems by (intro Cons.IH) (simp_all add: conjunct2 [OF bs])
  have times: "times_of ?li cs k = times_of li cs k" by (simp add: times_of_def)
  have grant: "granted li (c # cs) k =
      (if fst (fst (allow li (cl_time c) ?r ?a (cl_per_minute c))) \<and> ?k = k then 1 else 0) + granted ?li cs k"
    by (simp add: granted_def case_prod_beta Let_def)
  have allowed: "fst (fst (allow li (cl_time c) ?r ?a (cl_per_minute c))) = fst (bucket_step (cl_time c) (cl_per_minute c) (map_of (li_buckets li) ?k))"
    by (simp add: allow_def Let_def case_prod_beta bucket_step_def)
  show ?case
  proof (cases "?k = k")
    case True
    then have p: "cl_per_minute c = p" using Cons.prems(3) by simp
    have "map_of (li_buckets ?li) k = Some (snd (bucket_step (cl_time c) p (map_of (li_buckets li) k)))"
      using bs True p by (simp add: map_of_append map_add_def delete_conv')
    with IH grant allowed times True p show ?thesis
      by (simp add: times_of_def case_prod_beta Let_def)
  next
    case False
    then have "map_of (li_buckets ?li) k = map_of (li_buckets li) k"
      using bs by (simp add: map_add_def delete_conv' split: option.split)
    with IH grant times False show ?thesis by (simp add: times_of_def)
  qed
qed

subsection \<open>Properties\<close>

text \<open>
  C29. The rate limit holds: over any run of requests that the clock does not take backwards and that
  uses no more route and address pairs than the limiter keeps, the requests of one pair that pass are at
  most the limit of a minute plus what the elapsed time refills, and a pair of its own is never held back
  by the others: it passes exactly what one bucket alone would pass.
\<close>

theorem rate_limit_bound:
  assumes "sorted (map cl_time cs)" "card (keys_of_run (limiter_init salt max_keys) cs) \<le> max_keys" "0 < p"
    and "\<forall>c \<in> set cs. key_of (limiter_init salt max_keys) (cl_route c) (cl_address c) = k \<longrightarrow> cl_per_minute c = p"
    and "times_of (limiter_init salt max_keys) cs k = t # ts"
  shows "of_nat (granted (limiter_init salt max_keys) cs k) \<le> of_int p + (last (t # ts) - t) * of_int p / (60 :: rat) \<and>
    granted (limiter_init salt max_keys) cs k = fst (bucket_run p (t # ts) None)"
proof -
  let ?li = "limiter_init salt max_keys"
  have "granted ?li cs k = fst (bucket_run p (times_of ?li cs k) (map_of (li_buckets ?li) k))"
    using assms(2,4) by (intro granted_bucket_run) (simp_all add: limiter_init_def)
  then have eq: "granted ?li cs k = fst (bucket_run p (t # ts) None)" using assms(5) by (simp add: limiter_init_def)
  have "sorted (times_of ?li cs k)" using assms(1) unfolding times_of_def by (induction cs) auto
  with bucket_run_fresh_bound [OF assms(3), of "t # ts"] eq assms(5) show ?thesis by simp
qed

theorem rate_limit_bound_witness:
  "granted (limiter_init ''salt'' 2)
     [\<lparr>cl_time = 0, cl_route = ''/r'', cl_address = ''a'', cl_per_minute = 1\<rparr>, \<lparr>cl_time = 1, cl_route = ''/r'', cl_address = ''a'', cl_per_minute = 1\<rparr>]
     (''/r'', AddressDigest ''salt'' ''a'') \<le> 1"
proof -
  let ?cs = "[\<lparr>cl_time = 0, cl_route = ''/r'', cl_address = ''a'', cl_per_minute = 1\<rparr>, \<lparr>cl_time = 1, cl_route = ''/r'', cl_address = ''a'', cl_per_minute = 1\<rparr>]"
  have "of_nat (granted (limiter_init ''salt'' 2) ?cs (''/r'', AddressDigest ''salt'' ''a'')) \<le> of_int 1 + (last [0, 1] - 0) * of_int 1 / (60 :: rat)"
    using rate_limit_bound [of ?cs "''salt''" 2 1 "(''/r'', AddressDigest ''salt'' ''a'')" 0 "[1]"]
    by (simp add: keys_of_run_def limiter_init_def key_of_def times_of_def)
  then have "(of_nat (granted (limiter_init ''salt'' 2) ?cs (''/r'', AddressDigest ''salt'' ''a'')) :: rat) < of_nat 2" by simp
  then show ?thesis unfolding of_nat_less_iff by simp
qed

end
