(* ===== verification/Auth.thy ===== *)
theory Auth
  imports Config
begin

text \<open>
  Signing in with Telegram: the validation of the Mini App's init data (src/src/vpnpulse/auth.py) and
  the membership check with its cache (src/src/vpnpulse/telegram.py). The keyed hash is the argument
  \<open>hmac_hex\<close> (bot token, text), the JSON parser the argument \<open>loads\<close>, Telegram's answer the argument of
  \<open>role_for\<close>. Texts are the bytes of their UTF-8 encoding; seconds of a Unix time become microseconds.
\<close>

subsection \<open>Query strings\<close>

definition hex_value :: "char \<Rightarrow> nat option" where
  "hex_value c =
     (let n = (of_char c :: nat)
      in if 48 \<le> n \<and> n \<le> 57 then Some (n - 48) else if 65 \<le> n \<and> n \<le> 70 then Some (n - 55)
         else if 97 \<le> n \<and> n \<le> 102 then Some (n - 87) else None)"

fun unquote_plus :: "string \<Rightarrow> string" where
  "unquote_plus (c # a # b # cs) =
     (if c = CHR ''%'' then
        (case (hex_value a, hex_value b) of
           (Some x, Some y) \<Rightarrow> char_of (16 * x + y) # unquote_plus cs
         | _ \<Rightarrow> c # unquote_plus (a # b # cs))
      else (if c = CHR ''+'' then CHR '' '' else c) # unquote_plus (a # b # cs))"
| "unquote_plus (c # cs) = (if c = CHR ''+'' then CHR '' '' else c) # unquote_plus cs"
| "unquote_plus [] = []"

fun pairs_of :: "string list \<Rightarrow> (string \<times> string) list option" where
  \<comment> \<open>strict parsing: a part without an equals sign is a ValueError\<close>
  "pairs_of [] = Some []"
| "pairs_of (part # parts) =
     (case split_first (CHR ''='') part of
        (name, None) \<Rightarrow> None
      | (name, Some v) \<Rightarrow> map_option (\<lambda>rest. (unquote_plus name, unquote_plus v) # rest) (pairs_of parts))"

definition parse_qsl :: "string \<Rightarrow> (string \<times> string) list option" where
  "parse_qsl text = pairs_of (split_on (CHR ''&'') text)"

definition dict_of :: "(string \<times> 'v) list \<Rightarrow> (string \<times> 'v) list" where
  \<comment> \<open>\<open>dict(pairs)\<close>: of equal keys the last value\<close>
  "dict_of pairs = foldl (\<lambda>d (k, v). AList.update k v d) [] pairs"

subsection \<open>Validation of init data\<close>

datatype auth_error = AUTH_MALFORMED | AUTH_HASH_MISSING | AUTH_INVALID | AUTH_EXPIRED | MEMBERSHIP_REQUIRED

definition py_int :: "string \<Rightarrow> int option" where
  \<comment> \<open>\<open>int(text)\<close>: surrounding space, a sign, digits with single underscores between them; None is the ValueError\<close>
  "py_int text =
     (let body = strip text;
          number = (\<lambda>s. let parts = split_on (CHR ''_'') s
                        in if list_all isdigit parts then Some (int (nat_of_digits (concat parts))) else None)
      in case body of
           [] \<Rightarrow> None
         | c # cs \<Rightarrow> if c = CHR ''-'' then map_option uminus (number cs) else if c = CHR ''+'' then number cs else number body)"

fun json_int :: "json \<Rightarrow> int option" where
  \<comment> \<open>\<open>int(value)\<close>; None is the TypeError or ValueError\<close>
  "json_int (JInt i) = Some i"
| "json_int (JFloat x) = Some (if 0 \<le> x then \<lfloor>x\<rfloor> else - \<lfloor>- x\<rfloor>)"
| "json_int (JBool b) = Some (if b then 1 else 0)"
| "json_int (JStr s) = py_int s"
| "json_int _ = None"

definition check_string :: "(string \<times> string) list \<Rightarrow> string" where
  \<comment> \<open>\<open>"\n".join(f"{key}={values[key]}" for key in sorted(values))\<close>\<close>
  "check_string vs = join [CHR 0x0A] (map (\<lambda>(k, v). k @ ''='' @ v) (sort_key fst vs))"

definition user_id_of :: "(string \<Rightarrow> json option) \<Rightarrow> (string \<times> string) list \<Rightarrow> int option" where
  "user_id_of loads vs =
     (case map_of vs ''user'' of
        None \<Rightarrow> None
      | Some text \<Rightarrow>
          (case loads text of
             Some (JObj user) \<Rightarrow> (case map_of user ''id'' of None \<Rightarrow> None | Some v \<Rightarrow> json_int v)
           | _ \<Rightarrow> None))"

definition auth_date_of :: "(string \<times> string) list \<Rightarrow> datetime option" where
  "auth_date_of vs = (case map_of vs ''auth_date'' of None \<Rightarrow> None | Some text \<Rightarrow> map_option seconds (py_int text))"

definition signed_fields :: "string \<Rightarrow> (string \<times> (string \<times> string) list) option" where
  \<comment> \<open>the hash and the other fields\<close>
  "signed_fields init_data =
     (case parse_qsl init_data of
        None \<Rightarrow> None
      | Some pairs \<Rightarrow> Some (or_default [] (map_of (dict_of pairs) ''hash''), filter (\<lambda>(k, v). k \<noteq> ''hash'') (dict_of pairs)))"

definition max_age :: timedelta where "max_age = minutes 5"

record auth_identity =
  ai_telegram_user :: int
  ai_role :: string

definition validate_telegram_init_data ::
  "(string \<Rightarrow> string \<Rightarrow> string) \<Rightarrow> (string \<Rightarrow> json option) \<Rightarrow> string \<Rightarrow> (int \<Rightarrow> string option) \<Rightarrow> datetime \<Rightarrow> string \<Rightarrow> auth_error + auth_identity" where
  "validate_telegram_init_data hmac_hex loads bot_token role_for now init_data =
     (case signed_fields init_data of
        None \<Rightarrow> Inl AUTH_MALFORMED
      | Some (received_hash, vs) \<Rightarrow>
          if received_hash = [] then Inl AUTH_HASH_MISSING
          else if received_hash \<noteq> hmac_hex bot_token (check_string vs) then Inl AUTH_INVALID
          else
            (case (auth_date_of vs, user_id_of loads vs) of
               (Some auth_date, Some user) \<Rightarrow>
                 if now + seconds 30 < auth_date \<or> max_age < now - auth_date then Inl AUTH_EXPIRED
                 else
                   (case role_for user of
                      None \<Rightarrow> Inl MEMBERSHIP_REQUIRED
                    | Some role \<Rightarrow>
                        if role \<in> {''member'', ''admin''} then Inr \<lparr>ai_telegram_user = user, ai_role = role\<rparr>
                        else Inl MEMBERSHIP_REQUIRED)
             | _ \<Rightarrow> Inl AUTH_MALFORMED))"

subsection \<open>Membership\<close>

datatype api_reply =
    HttpError int
  | NetworkError
  | Body "json option"  \<comment> \<open>None is a body that is not JSON\<close>

datatype ask_result = Outage | Answer "string option"

definition MEMBER_STATUSES :: "string list" where
  "MEMBER_STATUSES = [''creator'', ''administrator'', ''member'']"

definition ask :: "api_reply \<Rightarrow> ask_result" where
  "ask reply =
     (case reply of
        HttpError code \<Rightarrow> if code = 400 \<or> code = 403 then Answer None else Outage
      | NetworkError \<Rightarrow> Outage
      | Body None \<Rightarrow> Outage
      | Body (Some payload) \<Rightarrow>
          if \<not> truthy (jget (as_dict payload) ''ok'') then Answer None
          else
            let result = as_dict (jget (as_dict payload) ''result''); status = jget result ''status''
            in if (\<exists>s \<in> set MEMBER_STATUSES. status = JStr s) then Answer (Some ''member'')
               else if status = JStr ''restricted'' \<and> truthy (jget result ''is_member'') then Answer (Some ''member'')
               else Answer None)"

record membership =
  mb_admin_ids :: "int list"
  mb_ttl :: timedelta
  mb_cache :: "(int \<times> (datetime \<times> string option)) list"

definition membership_init :: "int list \<Rightarrow> int \<Rightarrow> membership" where
  "membership_init admin_ids cache_seconds = \<lparr>mb_admin_ids = admin_ids, mb_ttl = seconds cache_seconds, mb_cache = []\<rparr>"

definition role_for :: "(int \<Rightarrow> api_reply) \<Rightarrow> membership \<Rightarrow> int \<Rightarrow> datetime \<Rightarrow> string option \<times> membership" where
  \<comment> \<open>\<open>telegram\<close> is what the Bot API would answer now\<close>
  "role_for telegram m user now =
     (if user \<in> set (mb_admin_ids m) then (Some ''admin'', m)
      else
        let cached = map_of (mb_cache m) user;
            fresh = (case cached of None \<Rightarrow> None | Some (t, role) \<Rightarrow> if now - t < mb_ttl m then Some role else None)
        in case fresh of
             Some role \<Rightarrow> (role, m)
           | None \<Rightarrow>
               (case ask (telegram user) of
                  Outage \<Rightarrow> ((case cached of None \<Rightarrow> None | Some (t, role) \<Rightarrow> role), m)
                | Answer role \<Rightarrow> (role, m\<lparr>mb_cache := AList.update user (now, role) (mb_cache m)\<rparr>)))"

definition no_membership :: "int \<Rightarrow> string option" where
  \<comment> \<open>\<open>NoMembership.role_for\<close>\<close>
  "no_membership user = None"

subsection \<open>The interface of a membership check\<close>

definition known_role :: "string option \<Rightarrow> bool" where
  "known_role role \<longleftrightarrow> role \<in> {None, Some ''member'', Some ''admin''}"

locale membership_checker =
  fixes check :: "'s \<Rightarrow> int \<Rightarrow> datetime \<Rightarrow> string option \<times> 's"
    and good :: "'s \<Rightarrow> bool"
  assumes check_known: "good m \<Longrightarrow> known_role (fst (check m user now))"
    and check_good: "good m \<Longrightarrow> good (snd (check m user now))"
begin

lemma signed_in:
  assumes "good m"
    and "validate_telegram_init_data hmac_hex loads bot_token (\<lambda>user. fst (check m user now)) now init_data = Inr who"
  shows "fst (check m (ai_telegram_user who) now) = Some (ai_role who)"
  using assms check_known [OF assms(1), of "ai_telegram_user who" now]
  by (auto simp: validate_telegram_init_data_def split: option.splits prod.splits if_splits)

lemma role_known:
  assumes "good m"
    and "validate_telegram_init_data hmac_hex loads bot_token (\<lambda>user. fst (check m user now)) now init_data = Inr who"
  shows "ai_role who \<in> {''member'', ''admin''}"
  using signed_in [OF assms] check_known [OF assms(1), of "ai_telegram_user who" now] by (simp add: known_role_def)

end

definition cache_known :: "membership \<Rightarrow> bool" where
  "cache_known m \<longleftrightarrow> (\<forall>user t role. map_of (mb_cache m) user = Some (t, role) \<longrightarrow> known_role role)"

lemma ask_known: "ask reply = Answer role \<Longrightarrow> known_role role"
  by (auto simp: ask_def known_role_def Let_def split: api_reply.splits option.splits if_splits)

interpretation telegram_membership: membership_checker "role_for telegram" cache_known for telegram
proof
  fix m :: membership and user :: int and now :: datetime
  assume good: "cache_known m"
  then show "known_role (fst (role_for telegram m user now))"
    using ask_known [of "telegram user"]
    by (auto simp: role_for_def Let_def cache_known_def known_role_def split: option.splits prod.splits ask_result.splits if_splits)
  from good show "cache_known (snd (role_for telegram m user now))"
    using ask_known [of "telegram user"]
    by (auto simp: role_for_def Let_def cache_known_def update_conv' split: option.splits prod.splits ask_result.splits if_splits)
qed

interpretation closed_membership: membership_checker "\<lambda>m user now. (no_membership user, m)" "\<lambda>m. True"
  by unfold_locales (simp_all add: no_membership_def known_role_def)

lemma nobody_signs_in:
  "validate_telegram_init_data hmac_hex loads bot_token no_membership now init_data \<noteq> Inr who"
proof
  assume "validate_telegram_init_data hmac_hex loads bot_token no_membership now init_data = Inr who"
  then have "fst (no_membership (ai_telegram_user who), ()) = Some (ai_role who)"
    by (intro closed_membership.signed_in) simp_all
  then show False by (simp add: no_membership_def)
qed

subsection \<open>What the cache remembers\<close>

record membership_call =
  mc_user :: int
  mc_time :: datetime
  mc_reply :: api_reply

fun membership_run :: "membership_call list \<Rightarrow> membership \<Rightarrow> membership" where
  "membership_run [] m = m"
| "membership_run (c # cs) m = membership_run cs (snd (role_for (\<lambda>_. mc_reply c) m (mc_user c) (mc_time c)))"

definition answered :: "membership_call list \<Rightarrow> int \<Rightarrow> datetime \<Rightarrow> string option \<Rightarrow> bool" where
  \<comment> \<open>Telegram gave this answer about the user at that time\<close>
  "answered cs user t role \<longleftrightarrow> (\<exists>c \<in> set cs. mc_user c = user \<and> mc_time c = t \<and> ask (mc_reply c) = Answer role)"

definition cache_answered :: "membership_call list \<Rightarrow> membership \<Rightarrow> bool" where
  "cache_answered cs m \<longleftrightarrow> (\<forall>user t role. map_of (mb_cache m) user = Some (t, role) \<longrightarrow> answered cs user t role)"

lemma role_for_frame [simp]:
  "mb_admin_ids (snd (role_for tg m user now)) = mb_admin_ids m" "mb_ttl (snd (role_for tg m user now)) = mb_ttl m"
  by (auto simp: role_for_def Let_def split: option.split prod.split ask_result.split)

lemma cache_answered_step:
  assumes "cache_answered cs m"
  shows "cache_answered (cs @ [c]) (snd (role_for (\<lambda>_. mc_reply c) m (mc_user c) (mc_time c)))"
proof -
  have "cache_answered (cs @ [c]) m" using assms by (auto simp: cache_answered_def answered_def)
  then show ?thesis
    by (auto simp: role_for_def Let_def cache_answered_def update_conv' answered_def split: option.splits prod.splits ask_result.splits if_splits)
qed

lemma membership_run_answered:
  "cache_answered cs0 m \<Longrightarrow> cache_answered (cs0 @ cs) (membership_run cs m) \<and>
     mb_admin_ids (membership_run cs m) = mb_admin_ids m \<and> mb_ttl (membership_run cs m) = mb_ttl m"
proof (induction cs arbitrary: cs0 m)
  case (Cons c cs)
  from Cons.IH [OF cache_answered_step [OF Cons.prems, of c]] show ?case by simp
qed simp

lemma role_for_answered:
  assumes "cache_answered history m" "user \<notin> set (mb_admin_ids m)"
  shows "let role = fst (role_for (\<lambda>_. reply) m user now)
    in (\<exists>t. answered (history @ [\<lparr>mc_user = user, mc_time = now, mc_reply = reply\<rparr>]) user t role \<and>
          (t = now \<or> now - t < mb_ttl m \<or> ask reply = Outage)) \<or> role = None \<and> ask reply = Outage"
proof -
  have old: "answered (history @ [c]) user t role" if "map_of (mb_cache m) user = Some (t, role)" for t role c
    using assms(1) that by (auto simp: cache_answered_def answered_def)
  have now: "answered (history @ [\<lparr>mc_user = user, mc_time = now, mc_reply = reply\<rparr>]) user now role" if "ask reply = Answer role" for role
    using that by (simp add: answered_def)
  show ?thesis
  proof (cases "map_of (mb_cache m) user")
    case None
    then show ?thesis using assms now by (cases "ask reply") (auto simp: role_for_def Let_def)
  next
    case (Some entry)
    obtain t role where "entry = (t, role)" by fastforce
    with Some have e: "map_of (mb_cache m) user = Some (t, role)" by simp
    have "fst (role_for (\<lambda>_. reply) m user now) =
        (if now - t < mb_ttl m then role else case ask reply of Outage \<Rightarrow> role | Answer fresh \<Rightarrow> fresh)"
      using e assms(2) by (simp add: role_for_def Let_def split: ask_result.split)
    with old [OF e] now show ?thesis by (cases "ask reply") (auto simp: Let_def)
  qed
qed

subsection \<open>Signed texts\<close>

definition clean_pair :: "string \<times> string \<Rightarrow> bool" where
  \<comment> \<open>no separator of the check string inside a key or a value\<close>
  "clean_pair p \<longleftrightarrow> CHR ''='' \<notin> set (fst p) \<and> CHR 0x0A \<notin> set (fst p) \<and> CHR 0x0A \<notin> set (snd p)"

lemma split_on_append: "d \<notin> set w \<Longrightarrow> split_on d (w @ d # rest) = w # split_on d rest"
  by (induction w) auto

lemma split_on_single: "d \<notin> set w \<Longrightarrow> split_on d w = [w]"
  by (induction w) auto

lemma split_on_join: "ws \<noteq> [] \<Longrightarrow> \<forall>w \<in> set ws. d \<notin> set w \<Longrightarrow> split_on d (join [d] ws) = ws"
proof (induction ws)
  case (Cons w ws)
  show ?case
  proof (cases ws)
    case Nil
    with Cons.prems show ?thesis by (simp add: join_def split_on_single)
  next
    case (Cons w' ws')
    then have "join [d] (w # ws) = w @ d # join [d] ws" by (simp add: join_def)
    with Cons.IH Cons.prems Cons show ?thesis by (simp add: split_on_append)
  qed
qed simp

lemma check_string_inj:
  assumes "check_string vs = check_string ws" "\<forall>p \<in> set vs. clean_pair p" "\<forall>p \<in> set ws. clean_pair p"
    and "vs \<noteq> []" "ws \<noteq> []"
  shows "sort_key fst vs = sort_key fst ws"
proof -
  let ?line = "\<lambda>(k, v). k @ ''='' @ v"
  have lines: "split_on (CHR 0x0A) (check_string us) = map ?line (sort_key fst us)"
    if "\<forall>p \<in> set us. clean_pair p" "us \<noteq> []" for us :: "(string \<times> string) list"
    unfolding check_string_def using that by (intro split_on_join) (auto simp: clean_pair_def)
  have "map ?line (sort_key fst vs) = map ?line (sort_key fst ws)" using lines assms by metis
  moreover have "inj_on ?line (set (sort_key fst vs) \<union> set (sort_key fst ws))"
  proof (rule inj_onI)
    fix p q :: "string \<times> string"
    assume "p \<in> set (sort_key fst vs) \<union> set (sort_key fst ws)" "q \<in> set (sort_key fst vs) \<union> set (sort_key fst ws)"
    then have "CHR ''='' \<notin> set (fst p)" "CHR ''='' \<notin> set (fst q)" using assms(2,3) by (auto simp: clean_pair_def)
    moreover assume "?line p = ?line q"
    then have "split_first (CHR ''='') (?line p) = split_first (CHR ''='') (?line q)" by simp
    ultimately show "p = q" by (cases p; cases q) (simp add: split_first_append)
  qed
  ultimately show ?thesis by (rule map_inj_on)
qed

lemma distinct_dict_of: "distinct (map fst (dict_of pairs))"
proof -
  have "distinct (map fst d) \<Longrightarrow> distinct (map fst (foldl (\<lambda>d (k, v). AList.update k v d) d pairs))" for d :: "(string \<times> 'a) list"
    by (induction pairs arbitrary: d) (auto simp: distinct_update)
  from this [of "[]"] show ?thesis by (simp add: dict_of_def)
qed

lemma signed_fields_distinct: "signed_fields init_data = Some (h, vs) \<Longrightarrow> distinct (map fst vs)"
  by (auto simp: signed_fields_def intro: distinct_map_filter distinct_dict_of split: option.splits)

lemma accepted:
  assumes "validate_telegram_init_data hmac_hex loads bot_token roles now init_data = Inr who"
  shows "\<exists>h vs auth_date. signed_fields init_data = Some (h, vs) \<and> h = hmac_hex bot_token (check_string vs) \<and>
    auth_date_of vs = Some auth_date \<and> user_id_of loads vs = Some (ai_telegram_user who) \<and>
    auth_date \<le> now + seconds 30 \<and> now \<le> auth_date + max_age \<and> roles (ai_telegram_user who) = Some (ai_role who)"
  using assms by (fastforce simp: validate_telegram_init_data_def split: option.splits prod.splits if_splits)

subsection \<open>Properties\<close>


definition sample_init :: string where
  "sample_init = ''auth_date=9&user=7&hash=auth_date%3D9%0Auser%3D7''"

lemma sample_fields: "signed_fields sample_init = Some (''auth_date=9'' @ CHR 0x0A # ''user=7'', [(''auth_date'', ''9''), (''user'', ''7'')])"
  by code_simp

definition sample_loads :: "string \<Rightarrow> json option" where
  "sample_loads text = (if text = ''7'' then Some (JObj [(''id'', JInt 7)]) else None)"

lemma sample_accepted:
  "validate_telegram_init_data (\<lambda>token m. m) sample_loads ''t'' (\<lambda>_. Some ''member'') (seconds 10) sample_init =
     Inr \<lparr>ai_telegram_user = 7, ai_role = ''member''\<rparr>"
  unfolding validate_telegram_init_data_def sample_fields
  by code_simp


text \<open>
  The membership answer is Telegram's: an administrator of the configuration is always \<open>admin\<close>; for
  anybody else the answer is one that Telegram gave about that very user, now or less than the cache time
  ago -- older only while Telegram cannot be asked -- and without such an answer nobody gets in.
\<close>

theorem membership_answers:
  "let m = membership_run history (membership_init admin_ids cache_seconds);
       role = fst (role_for (\<lambda>_. reply) m user now)
   in if user \<in> set admin_ids then role = Some ''admin''
      else (\<exists>t. answered (history @ [\<lparr>mc_user = user, mc_time = now, mc_reply = reply\<rparr>]) user t role \<and>
              (t = now \<or> now - t < seconds cache_seconds \<or> ask reply = Outage))
           \<or> role = None \<and> ask reply = Outage"
proof -
  let ?m = "membership_run history (membership_init admin_ids cache_seconds)"
  have "cache_answered [] (membership_init admin_ids cache_seconds)" by (simp add: cache_answered_def membership_init_def)
  from membership_run_answered [OF this, of history]
  have m: "cache_answered history ?m" "mb_admin_ids ?m = admin_ids" "mb_ttl ?m = seconds cache_seconds"
    by (simp_all add: membership_init_def)
  show ?thesis
    using role_for_answered [OF m(1), of user reply now] m(2,3) by (cases "user \<in> set admin_ids") (simp_all add: role_for_def Let_def)
qed

end
