(* ===== verification/Api.thy ===== *)
theory Api
  imports Schemas Security Auth
begin

text \<open>
  The HTTP layer (src/src/vpnpulse/api/app.py, \<open>pick_language\<close> of api/read_model.py): the guards every
  request passes, the session and probe checks, and one definition per route over the read model and
  the store. What FastAPI does with an exception nobody handles, or with an answer that does not satisfy
  its response model, is \<open>ServerError\<close>; a body that fails its input model is \<open>Invalid\<close>.
\<close>

subsection \<open>Answers\<close>

datatype api_body =
    NoBody
  | BAlive
  | BReadiness readiness_view
  | BSession string datetime
  | BCookie string
  | BStatus status_view
  | BServer server_detail
  | BMetrics metrics_view
  | BEvents event_page
  | BHelp help_view
  | BAdminServer admin_detail
  | BProbes "probe_view list"
  | BOverview overview
  | BCode string datetime
  | BNote note_info
  | BEnrolled string probe_info probe_task
  | BTask probe_task
  | BReport string bool
  | BAccepted nat

datatype api_response =
    Answered int api_body
  | Problem int string
  | Invalid
  | ServerError

definition validated :: "bool \<Rightarrow> api_body \<Rightarrow> api_response" where
  \<comment> \<open>\<open>response_model\<close>\<close>
  "validated ok body = (if ok then Answered 200 body else ServerError)"

subsection \<open>Guards of every request\<close>

record http_request =
  hr_method :: string
  hr_path :: string
  hr_scheme :: string
  hr_host :: string
  hr_origin :: "string option"
  hr_content_length :: "string option"
  hr_body_length :: nat
  hr_peer :: "string option"
  hr_forwarded :: "string option"

definition rstrip_slash :: "string \<Rightarrow> string" where
  \<comment> \<open>\<open>text.rstrip("/")\<close>\<close>
  "rstrip_slash s = rev (dropWhile (\<lambda>c. c = CHR ''/'') (rev s))"

definition limited :: "string \<Rightarrow> int option" where
  "limited path = map_of [(''/api/v1/sessions'', 60), (''/api/v1/probe/enroll'', 20), (''/api/v1/probe/reports'', 120),
     (''/api/v1/analytics/events:batch'', 60)] path"

definition max_body :: nat where "max_body = 65536"

definition request_guards :: "bool \<Rightarrow> http_request \<Rightarrow> rat \<Rightarrow> limiter \<Rightarrow> api_response option \<times> limiter" where
  \<comment> \<open>None lets the request through\<close>
  "request_guards limits r current li =
     (let writes = (hr_method r \<in> {''POST'', ''PUT'', ''PATCH''});
          expected = hr_scheme r @ ''://'' @ hr_host r;
          foreign = (case hr_origin r of None \<Rightarrow> False | Some origin \<Rightarrow> origin \<noteq> [] \<and> rstrip_slash origin \<noteq> rstrip_slash expected);
          declared = (case hr_content_length r of
                        None \<Rightarrow> False
                      | Some n \<Rightarrow> (case parse_nat n of None \<Rightarrow> False | Some k \<Rightarrow> max_body < k));
          limit = (if limits \<and> hr_method r = ''POST'' then limited (hr_path r) else None)
      in if writes \<and> foreign then (Some (Problem 403 ''ORIGIN_REJECTED''), li)
         else if writes \<and> (declared \<or> max_body < hr_body_length r) then (Some (Problem 413 ''BODY_TOO_LARGE''), li)
         else case limit of
                None \<Rightarrow> (None, li)
              | Some per_minute \<Rightarrow>
                  let ((allowed, retry), li') = allow li current (hr_path r) (client_address (hr_peer r) (hr_forwarded r)) per_minute
                  in (if allowed then None else Some (Problem 429 ''RATE_LIMITED''), li'))"

definition LANGUAGES :: "string list" where "LANGUAGES = [''ru'', ''en'']"

definition language_tag :: "string \<Rightarrow> string" where
  "language_tag part = take 2 (lower (strip (hd (split_on (CHR '';'') part))))"

definition pick_language :: "string option \<Rightarrow> string \<Rightarrow> string" where
  "pick_language accept_language fallback =
     (case find (\<lambda>tag. tag \<in> set LANGUAGES) (map language_tag (split_on (CHR '','') (or_default [] accept_language))) of
        Some tag \<Rightarrow> tag
      | None \<Rightarrow> if fallback \<in> set LANGUAGES then fallback else ''ru'')"

subsection \<open>The application\<close>

text \<open>
  \<open>app\<close> is what \<open>create_app\<close> closes over, \<open>request\<close> what a request brings: credentials, language, the
  clock, the random values drawn while it is served and what Telegram would answer.
\<close>

record app =
  ap_bot_token :: string
  ap_settings :: store_settings
  ap_read :: read_settings
  ap_dictionaries :: dictionaries
  ap_default_language :: string
  ap_hmac_hex :: "string \<Rightarrow> string \<Rightarrow> string"
  ap_loads :: "string \<Rightarrow> json option"
  ap_uid_text :: "uid \<Rightarrow> string"
  ap_valid_event :: "product_event \<Rightarrow> bool"
  ap_retention_days :: int

record request =
  rq_session :: "string option"
  rq_authorization :: "string option"
  rq_accept_language :: "string option"
  rq_now :: datetime
  rq_trace :: string
  rq_token :: string
  rq_suffix :: string
  rq_entry_id :: uid
  rq_note_id :: uid
  rq_telegram :: "int \<Rightarrow> api_reply"

record app_state =
  as_db :: db
  as_membership :: membership

definition lang_of :: "app \<Rightarrow> request \<Rightarrow> string" where
  "lang_of app rq = pick_language (rq_accept_language rq) (ap_default_language app)"

definition require_session :: "request \<Rightarrow> db \<Rightarrow> string option \<Rightarrow> api_response + session" where
  "require_session rq d role =
     (case get_session d (rq_session rq) (rq_now rq) of
        None \<Rightarrow> Inl (Problem 401 ''SESSION_EXPIRED'')
      | Some s \<Rightarrow>
          if (case role of None \<Rightarrow> False | Some r \<Rightarrow> id_role (se_identity s) \<noteq> r) then Inl (Problem 403 ''ROLE_REQUIRED'') else Inr s)"

definition bearer :: "string \<Rightarrow> string option" where
  "bearer authorization = (if starts_with ''Bearer '' authorization then Some (drop 7 authorization) else None)"

definition require_probe :: "request \<Rightarrow> db \<Rightarrow> api_response + probe_info" where
  "require_probe rq d =
     (case (case rq_authorization rq of None \<Rightarrow> None | Some a \<Rightarrow> bearer a) of
        None \<Rightarrow> Inl (Problem 401 ''PROBE_TOKEN_REQUIRED'')
      | Some token \<Rightarrow>
          (case probe_by_token d token of
             None \<Rightarrow> Inl (Problem 401 ''PROBE_TOKEN_INVALID'')
           | Some p \<Rightarrow> Inr p))"

definition answer_or :: "api_response + 'a \<Rightarrow> ('a \<Rightarrow> api_response) \<Rightarrow> api_response" where
  "answer_or r f = (case r of Inl problem \<Rightarrow> problem | Inr x \<Rightarrow> f x)"

definition with_session :: "request \<Rightarrow> string option \<Rightarrow> db \<Rightarrow> (session \<Rightarrow> api_response \<times> db) \<Rightarrow> api_response \<times> db" where
  "with_session rq role d f = (case require_session rq d role of Inl problem \<Rightarrow> (problem, d) | Inr s \<Rightarrow> f s)"

subsection \<open>Sessions\<close>

definition error_code :: "auth_error \<Rightarrow> string" where
  "error_code e = (case e of AUTH_MALFORMED \<Rightarrow> ''AUTH_MALFORMED'' | AUTH_HASH_MISSING \<Rightarrow> ''AUTH_HASH_MISSING''
     | AUTH_INVALID \<Rightarrow> ''AUTH_INVALID'' | AUTH_EXPIRED \<Rightarrow> ''AUTH_EXPIRED'' | MEMBERSHIP_REQUIRED \<Rightarrow> ''MEMBERSHIP_REQUIRED'')"

definition asked_user :: "app \<Rightarrow> request \<Rightarrow> string \<Rightarrow> int option" where
  \<comment> \<open>the user whose membership \<open>validate_telegram_init_data\<close> asks for, if it gets that far\<close>
  "asked_user app rq init_data =
     (case signed_fields init_data of
        None \<Rightarrow> None
      | Some (h, vs) \<Rightarrow>
          if h = [] \<or> h \<noteq> ap_hmac_hex app (ap_bot_token app) (check_string vs) then None
          else case (auth_date_of vs, user_id_of (ap_loads app) vs) of
                 (Some t, Some user) \<Rightarrow> if rq_now rq + seconds 30 < t \<or> max_age < rq_now rq - t then None else Some user
               | _ \<Rightarrow> None)"

definition create_session_route :: "app \<Rightarrow> request \<Rightarrow> string \<Rightarrow> app_state \<Rightarrow> api_response \<times> app_state" where
  "create_session_route app rq init_data st =
     (if length init_data < 1 \<or> 8192 < length init_data then (Invalid, st)
      else
        let roles = (\<lambda>user. fst (role_for (rq_telegram rq) (as_membership st) user (rq_now rq)));
            members = (case asked_user app rq init_data of
                         None \<Rightarrow> as_membership st
                       | Some user \<Rightarrow> snd (role_for (rq_telegram rq) (as_membership st) user (rq_now rq)));
            st1 = st\<lparr>as_membership := members\<rparr>
        in case validate_telegram_init_data (ap_hmac_hex app) (ap_loads app) (ap_bot_token app) roles (rq_now rq) init_data of
             Inl e \<Rightarrow> (Problem (if e = MEMBERSHIP_REQUIRED then 403 else 401) (error_code e), st1)
           | Inr who \<Rightarrow>
               (case create_session (ap_settings app) (as_db st) (rq_token rq)
                       \<lparr>id_telegram_user = ai_telegram_user who, id_role = ai_role who\<rparr> (rq_now rq) of
                  Inl _ \<Rightarrow> (ServerError, st1)
                | Inr (s, d) \<Rightarrow> (Answered 204 (BCookie (se_token s)), st1\<lparr>as_db := d\<rparr>)))"

definition current_session :: "request \<Rightarrow> db \<Rightarrow> api_response" where
  "current_session rq d =
     answer_or (require_session rq d None)
       (\<lambda>s. validated (session_info_valid (id_role (se_identity s))) (BSession (id_role (se_identity s)) (se_expires_at s)))"

definition delete_session :: "request \<Rightarrow> db \<Rightarrow> api_response \<times> db" where
  "delete_session rq d = (Answered 204 NoBody, revoke_session d (rq_session rq) (rq_now rq))"

subsection \<open>Reads of members\<close>

definition status_route :: "app \<Rightarrow> request \<Rightarrow> db \<Rightarrow> api_response" where
  "status_route app rq d =
     answer_or (require_session rq d None)
       (\<lambda>s. let v = status (ap_read app) d (rq_now rq) (lang_of app rq) in validated (status_valid v) (BStatus v))"

definition server_route :: "app \<Rightarrow> request \<Rightarrow> string \<Rightarrow> db \<Rightarrow> api_response" where
  "server_route app rq server_id d =
     answer_or (require_session rq d None)
       (\<lambda>s. case server_view (ap_read app) d (rq_now rq) server_id (lang_of app rq) of
              None \<Rightarrow> Problem 404 ''SERVER_NOT_FOUND''
            | Some v \<Rightarrow> validated (detail_valid v) (BServer v))"

definition metrics_route :: "app \<Rightarrow> request \<Rightarrow> string \<Rightarrow> string \<Rightarrow> db \<Rightarrow> api_response" where
  "metrics_route app rq server_id period d =
     answer_or (require_session rq d None)
       (\<lambda>s. if period \<notin> {''24h'', ''7d''} then Problem 400 ''PERIOD_INVALID''
            else case metrics (ap_read app) d (rq_now rq) server_id period of
                   None \<Rightarrow> Problem 404 ''SERVER_NOT_FOUND''
                 | Some v \<Rightarrow> validated (metrics_valid v) (BMetrics v))"

definition events_route :: "app \<Rightarrow> request \<Rightarrow> string \<Rightarrow> string option \<Rightarrow> int \<Rightarrow> db \<Rightarrow> api_response" where
  "events_route app rq filt cursor limit d =
     answer_or (require_session rq d None)
       (\<lambda>s. if filt \<notin> {''all'', ''problems'', ''notes''} \<or> \<not> (1 \<le> limit \<and> limit \<le> 100) then Problem 400 ''EVENT_QUERY_INVALID''
            else let v = events (ap_uid_text app) d filt cursor (nat limit) (id_role (se_identity s)) (lang_of app rq)
                 in validated (event_page_valid v) (BEvents v))"

definition help_route :: "app \<Rightarrow> request \<Rightarrow> db \<Rightarrow> api_response" where
  "help_route app rq d =
     answer_or (require_session rq d None) (\<lambda>s. let v = help_info (ap_read app) in validated (help_valid v) (BHelp v))"

definition ready_route :: "app \<Rightarrow> request \<Rightarrow> db \<Rightarrow> api_response" where
  "ready_route app rq d = (let v = readiness (ap_read app) True d (rq_now rq) in validated (readiness_valid v) (BReadiness v))"

subsection \<open>Administration\<close>

definition admin_server_route :: "app \<Rightarrow> request \<Rightarrow> string \<Rightarrow> db \<Rightarrow> api_response" where
  "admin_server_route app rq server_id d =
     answer_or (require_session rq d (Some ''admin''))
       (\<lambda>s. case admin_server (ap_read app) d (rq_now rq) server_id (lang_of app rq) of
              Inl e \<Rightarrow> ServerError
            | Inr None \<Rightarrow> Problem 404 ''SERVER_NOT_FOUND''
            | Inr (Some v) \<Rightarrow> validated (admin_detail_valid v) (BAdminServer v))"

definition stored_probe_view :: "probe_info \<Rightarrow> probe_view" where
  \<comment> \<open>an entry of \<open>list_probes\<close> under the response model\<close>
  "stored_probe_view p =
     \<lparr>pw_id = ps_id p, pw_kind = ps_kind p, pw_status = ps_status p, pw_last_seen_at = ps_last_seen_at p,
      pw_capabilities = ps_capabilities p, pw_agent_version = ps_agent_version p, pw_route_verified = ps_route_verified p,
      pw_network_type = ps_network_type p\<rparr>"

definition admin_probes_route :: "app \<Rightarrow> request \<Rightarrow> db \<Rightarrow> api_response" where
  "admin_probes_route app rq d =
     answer_or (require_session rq d (Some ''admin''))
       (\<lambda>s. let listed = admin_probes (ap_read app) d (rq_now rq);
                seen = map pw_id listed;
                more = filter (\<lambda>p. pw_id p \<notin> set seen) (map stored_probe_view (List.map_filter id (list_probes d)));
                v = listed @ more
            in validated (list_all probe_valid v) (BProbes v))"

definition admin_overview_route :: "app \<Rightarrow> request \<Rightarrow> db \<Rightarrow> api_response" where
  "admin_overview_route app rq d =
     answer_or (require_session rq d (Some ''admin''))
       (\<lambda>s. case admin_overview (ap_dictionaries app) (ap_read app) d (rq_now rq) (lang_of app rq) of
              Inl e \<Rightarrow> ServerError
            | Inr v \<Rightarrow> validated (overview_valid v) (BOverview v))"

definition audited :: "app \<Rightarrow> request \<Rightarrow> session \<Rightarrow> string \<Rightarrow> string \<Rightarrow> string \<Rightarrow> jdict \<Rightarrow> api_response \<Rightarrow> db \<Rightarrow> api_response \<times> db" where
  \<comment> \<open>the entry in the audit trail, then the answer\<close>
  "audited app rq s action target_type target_id details response d =
     (case audit (ap_settings app) d (rq_entry_id rq) (se_token s) ''admin'' action target_type target_id ''ok'' details (rq_trace rq) (rq_now rq) of
        Inl _ \<Rightarrow> (ServerError, d)
      | Inr d' \<Rightarrow> (response, d'))"

definition enrollment_input_valid :: "string \<Rightarrow> string list \<Rightarrow> bool" where
  "enrollment_input_valid kind capabilities \<longleftrightarrow>
     kind \<in> {''pc'', ''android'', ''abroad'', ''watchdog''} \<and> capabilities \<noteq> [] \<and>
     list_all (\<lambda>c. c \<in> {''report_pc'', ''report_mobile'', ''report_abroad'', ''read_watchdog''}) capabilities"

definition create_enrollment_route :: "app \<Rightarrow> request \<Rightarrow> string \<Rightarrow> string list \<Rightarrow> db \<Rightarrow> api_response \<times> db" where
  "create_enrollment_route app rq kind capabilities d =
     (if \<not> enrollment_input_valid kind capabilities then (Invalid, d)
      else with_session rq (Some ''admin'') d
        (\<lambda>s. case create_enrollment (ap_settings app) d (rq_token rq) kind capabilities (se_token s) (rq_now rq) None of
               Inl _ \<Rightarrow> (ServerError, d)
             | Inr ((code, expires), d1) \<Rightarrow> audited app rq s ''probe.enroll_code'' ''probe'' kind [] (Answered 201 (BCode code expires)) d1))"

definition revoke_probe_route :: "app \<Rightarrow> request \<Rightarrow> string \<Rightarrow> db \<Rightarrow> api_response \<times> db" where
  \<comment> \<open>the read model over the database has no \<open>revoke_probe\<close> of its own\<close>
  "revoke_probe_route app rq probe_id d =
     with_session rq (Some ''admin'') d
       (\<lambda>s. let (revoked, d1) = revoke_probe d probe_id (rq_now rq)
            in if \<not> revoked then (Problem 404 ''PROBE_NOT_FOUND'', d1)
               else audited app rq s ''probe.revoke'' ''probe'' probe_id [] (Answered 204 NoBody) d1)"

definition control_char :: "char \<Rightarrow> bool" where
  "control_char c \<longleftrightarrow> (of_char c :: nat) < 32 \<and> c \<notin> {CHR 0x0A, CHR 0x09}"

definition note_input_valid :: "string \<Rightarrow> bool" where
  "note_input_valid txt \<longleftrightarrow> 1 \<le> length txt \<and> length txt \<le> 500 \<and> \<not> list_ex control_char txt"

definition put_note_route :: "app \<Rightarrow> request \<Rightarrow> string option \<Rightarrow> string \<Rightarrow> datetime option \<Rightarrow> db \<Rightarrow> api_response \<times> db" where
  "put_note_route app rq server_id txt expires_at d =
     (if \<not> note_input_valid txt then (Invalid, d)
      else with_session rq (Some ''admin'') d
        (\<lambda>s. if (case server_id of None \<Rightarrow> False
                 | Some sid \<Rightarrow> sid \<noteq> [] \<and> sid \<notin> sc_id ` set (cfg_servers (st_config (ap_settings app))))
             then (Problem 404 ''SERVER_NOT_FOUND'', d)
             else case put_note d (rq_note_id rq) txt expires_at server_id ''admin'' (rq_now rq) of
                    Inl _ \<Rightarrow> (ServerError, d)
                  | Inr (v, d1) \<Rightarrow>
                      audited app rq s ''note.put'' ''note'' (ap_uid_text app (ni_id v)) [(''length'', JInt (int (length txt)))]
                        (validated (note_valid v) (BNote v)) d1))"

definition delete_note_route :: "app \<Rightarrow> request \<Rightarrow> db \<Rightarrow> api_response \<times> db" where
  "delete_note_route app rq d =
     with_session rq (Some ''admin'') d
       (\<lambda>s. audited app rq s ''note.delete'' ''note'' ''active'' [] (Answered 204 NoBody) (snd (delete_note d (rq_now rq))))"

subsection \<open>Probes\<close>

definition enroll_probe_route :: "app \<Rightarrow> request \<Rightarrow> string \<Rightarrow> string \<Rightarrow> db \<Rightarrow> api_response \<times> db" where
  "enroll_probe_route app rq code agent_version d =
     (if length code < 1 \<or> 128 < length code \<or> 64 < length agent_version then (Invalid, d)
      else case consume_enrollment d code (rq_now rq) of
             (None, d1) \<Rightarrow> (Problem 401 ''ENROLLMENT_INVALID'', d1)
           | (Some e, d1) \<Rightarrow>
               if el_kind e = ''abroad'' \<and> (case el_via_server_id e of None \<Rightarrow> True | Some via \<Rightarrow> via = [])
               then (Problem 400 ''ABROAD_VIA_REQUIRED'', d1)
               else (case register_probe d1 (rq_token rq) (rq_suffix rq) (el_kind e) (el_capabilities e) agent_version (rq_now rq) (el_via_server_id e) of
                       Inr ((token, Some probe), d2) \<Rightarrow>
                         (Answered 201 (BEnrolled token probe
                            (probe_config (st_config (ap_settings app)) (ps_kind probe) (ps_via_server_id probe))), d2)
                     | Inr ((token, None), d2) \<Rightarrow> (ServerError, d2)
                     | Inl _ \<Rightarrow> (ServerError, d1)))"

definition probe_config_route :: "app \<Rightarrow> request \<Rightarrow> db \<Rightarrow> api_response" where
  "probe_config_route app rq d =
     answer_or (require_probe rq d)
       (\<lambda>p. let v = probe_config (st_config (ap_settings app)) (ps_kind p) (ps_via_server_id p) in validated (probe_task_valid v) (BTask v))"

definition server_pattern :: "string \<Rightarrow> bool" where
  \<comment> \<open>\<open>^[a-z][a-z0-9-]{1,63}$\<close>\<close>
  "server_pattern s \<longleftrightarrow>
     2 \<le> length s \<and> length s \<le> 64 \<and>
     (let lower_case = (\<lambda>c. 97 \<le> (of_char c :: nat) \<and> (of_char c :: nat) \<le> 122)
      in lower_case (hd s) \<and> list_all (\<lambda>c. lower_case c \<or> is_digit c \<or> c = CHR ''-'') s)"

definition result_input_valid :: "report_item \<Rightarrow> bool" where
  "result_input_valid i \<longleftrightarrow>
     server_pattern (ri_target_id i) \<and> ri_check i \<in> {''control_internet'', ''handshake'', ''https'', ''dns'', ''tcp''} \<and>
     ri_result i \<in> {''success'', ''failure'', ''not_run''} \<and>
     (case ri_duration_ms i of None \<Rightarrow> True | Some n \<Rightarrow> 0 \<le> n \<and> n \<le> 120000) \<and>
     (case ri_not_run_reason i of None \<Rightarrow> True
      | Some s \<Rightarrow> s \<in> {''no_network'', ''no_cellular'', ''route_unverified'', ''stopped'', ''unsupported''}) \<and>
     max_length 80 (ri_error_code i)"

definition report_input_valid :: "report \<Rightarrow> bool" where
  "report_input_valid r \<longleftrightarrow>
     length (rp_report_id r) = 36 \<and> list_all (\<lambda>c. hex_value c \<noteq> None \<or> c = CHR ''-'') (rp_report_id r) \<and>
     rp_schema_version r = 1 \<and> length (rp_agent_version r) \<le> 64 \<and>
     rp_network_type r \<in> {''home'', ''cellular'', ''abroad'', ''unknown''} \<and> rp_ip_family r \<in> {''ipv4'', ''ipv6'', ''dual'', ''unknown''} \<and>
     1 \<le> length (rp_results r) \<and> length (rp_results r) \<le> 20 \<and> list_all result_input_valid (rp_results r)"

definition probe_report_route :: "app \<Rightarrow> request \<Rightarrow> report \<Rightarrow> db \<Rightarrow> api_response \<times> db" where
  "probe_report_route app rq payload d =
     (if \<not> report_input_valid payload then (Invalid, d)
      else case require_probe rq d of
             Inl problem \<Rightarrow> (problem, d)
           | Inr p \<Rightarrow>
               (case accept_report (st_config (ap_settings app)) d p payload (rq_now rq) of
                  Inl ReportConflict \<Rightarrow> (Problem 409 ''REPORT_ID_CONFLICT'', d)
                | Inl ReportIntegrity \<Rightarrow> (ServerError, d)
                | Inr ((duplicate, written), d') \<Rightarrow> (Answered 202 (BReport (rp_report_id payload) duplicate), d')))"

definition analytics_route :: "app \<Rightarrow> request \<Rightarrow> product_event list \<Rightarrow> db \<Rightarrow> api_response \<times> db" where
  "analytics_route app rq batch d =
     (if \<not> (1 \<le> length batch \<and> length batch \<le> 50) then (Invalid, d)
      else with_session rq None d
        (\<lambda>s. case accept_batch (ap_valid_event app) (ap_retention_days app) d batch (rq_now rq) of
               Inl ValidationError \<Rightarrow> (Problem 400 ''ANALYTICS_EVENT_INVALID'', d)
             | Inr (n, d') \<Rightarrow> (Answered 202 (BAccepted n), d')))"

subsection \<open>All routes\<close>

datatype endpoint =
    Live
  | Ready
  | CreateSession string
  | CurrentSession
  | DeleteSession
  | GetStatus
  | GetServer string
  | GetMetrics string string
  | GetEvents string "string option" int
  | GetHelp
  | GetAdminServer string
  | GetAdminProbes
  | GetAdminOverview
  | CreateEnrollment string "string list"
  | RevokeProbe string
  | PutNote "string option" string "datetime option"
  | DeleteNote
  | EnrollProbe string string
  | GetProbeConfig
  | SendReport report
  | SendAnalytics "product_event list"

definition reading :: "(db \<Rightarrow> api_response) \<Rightarrow> app_state \<Rightarrow> api_response \<times> app_state" where
  "reading f st = (f (as_db st), st)"

definition writing :: "(db \<Rightarrow> api_response \<times> db) \<Rightarrow> app_state \<Rightarrow> api_response \<times> app_state" where
  "writing f st = (let (response, d) = f (as_db st) in (response, st\<lparr>as_db := d\<rparr>))"

fun handle :: "app \<Rightarrow> request \<Rightarrow> endpoint \<Rightarrow> app_state \<Rightarrow> api_response \<times> app_state" where
  "handle app rq Live st = (Answered 200 BAlive, st)"
| "handle app rq Ready st = reading (ready_route app rq) st"
| "handle app rq (CreateSession init_data) st = create_session_route app rq init_data st"
| "handle app rq CurrentSession st = reading (current_session rq) st"
| "handle app rq DeleteSession st = writing (delete_session rq) st"
| "handle app rq GetStatus st = reading (status_route app rq) st"
| "handle app rq (GetServer sid) st = reading (server_route app rq sid) st"
| "handle app rq (GetMetrics sid period) st = reading (metrics_route app rq sid period) st"
| "handle app rq (GetEvents filt cursor limit) st = reading (events_route app rq filt cursor limit) st"
| "handle app rq GetHelp st = reading (help_route app rq) st"
| "handle app rq (GetAdminServer sid) st = reading (admin_server_route app rq sid) st"
| "handle app rq GetAdminProbes st = reading (admin_probes_route app rq) st"
| "handle app rq GetAdminOverview st = reading (admin_overview_route app rq) st"
| "handle app rq (CreateEnrollment kind capabilities) st = writing (create_enrollment_route app rq kind capabilities) st"
| "handle app rq (RevokeProbe probe_id) st = writing (revoke_probe_route app rq probe_id) st"
| "handle app rq (PutNote server_id txt expires_at) st = writing (put_note_route app rq server_id txt expires_at) st"
| "handle app rq DeleteNote st = writing (delete_note_route app rq) st"
| "handle app rq (EnrollProbe code agent_version) st = writing (enroll_probe_route app rq code agent_version) st"
| "handle app rq GetProbeConfig st = reading (probe_config_route app rq) st"
| "handle app rq (SendReport payload) st = writing (probe_report_route app rq payload) st"
| "handle app rq (SendAnalytics batch) st = writing (analytics_route app rq batch) st"

subsection \<open>No route but signing in and out touches the sessions\<close>

lemma audited_sessions: "db_sessions (snd (audited app rq s action tt ti details response d)) = db_sessions d"
  by (auto simp: audited_def audit_def insert_row_def split: sum.split)

lemma with_session_inv:
  "P d \<Longrightarrow> (\<And>s. require_session rq d role = Inr s \<Longrightarrow> P (snd (f s))) \<Longrightarrow> P (snd (with_session rq role d f))"
  by (simp add: with_session_def split: sum.split)

lemma create_enrollment_sessions: "create_enrollment st d code kind caps who now via = Inr (x, d') \<Longrightarrow> db_sessions d' = db_sessions d"
  by (auto simp: create_enrollment_def insert_row_def Let_def split: if_splits)

lemma consume_enrollment_sessions: "consume_enrollment d code now = (x, d') \<Longrightarrow> db_sessions d' = db_sessions d"
  by (auto simp: consume_enrollment_def split: option.splits if_splits)

lemma register_probe_sessions: "register_probe d token suffix kind caps agent now via = Inr (x, d') \<Longrightarrow> db_sessions d' = db_sessions d"
  by (auto simp: register_probe_def insert_row_def Let_def split: if_splits sum.splits)

lemma put_note_sessions: "put_note d i txt expires server who now = Inr (x, d') \<Longrightarrow> db_sessions d' = db_sessions d"
  by (auto simp: put_note_def insert_row_def Let_def bind_err_Inr split: if_splits)

lemma insert_observation_sessions: "insert_observation row d = Inr d' \<Longrightarrow> db_sessions d' = db_sessions d"
  by (auto simp: insert_observation_def split: if_splits option.splits sum.splits)

lemma store_target_sessions: "store_target config p payload now entry (d, n) = Inr (d', n') \<Longrightarrow> db_sessions d' = db_sessions d"
  by (auto simp: store_target_def bind_err_Inr dest: insert_observation_sessions split: if_splits)

lemma accept_report_sessions:
  assumes "accept_report config d p payload now = Inr (x, d')"
  shows "db_sessions d' = db_sessions d"
proof (cases "find (\<lambda>r. rep_id r = rp_report_id payload) (db_reports d)")
  case (Some existing)
  with assms show ?thesis by (auto simp: accept_report_def split: if_splits)
next
  case None
  let ?d1 = "d\<lparr>db_reports := db_reports d @ [report_row_of payload (ps_internal_id p) now]\<rparr>"
  from None assms obtain d2 n where d2: "fold_err (store_target config p payload now) (group_by ri_target_id (rp_results payload)) (?d1, 0) = Inr (d2, n)"
      "db_sessions d' = db_sessions d2"
    by (auto simp: accept_report_def bind_err_Inr Let_def split: if_splits)
  have "db_sessions (fst (d2, n)) = db_sessions d"
    by (rule fold_err_inv [where I = "\<lambda>s. db_sessions (fst s) = db_sessions d", OF _ _ d2(1)])
      (auto dest: store_target_sessions)
  with d2(2) show ?thesis by simp
qed

lemma accept_batch_sessions:
  assumes "accept_batch valid keep d evs now = Inr (n, d')"
  shows "db_sessions d' = db_sessions d"
proof -
  from assms have "fold_err (accept_event valid keep now) evs (0, d) = Inr (n, d')" by (simp add: accept_batch_def split: if_splits)
  then have "db_sessions (snd (n, d')) = db_sessions d"
    by (rule fold_err_inv [where I = "\<lambda>s. db_sessions (snd s) = db_sessions d", rotated 2])
      (auto simp: accept_event_def Let_def split: if_splits)
  then show ?thesis by simp
qed

lemmas table_sessions =
  create_enrollment_sessions consume_enrollment_sessions register_probe_sessions put_note_sessions accept_report_sessions accept_batch_sessions

definition keeps_sessions :: "(db \<Rightarrow> api_response \<times> db) \<Rightarrow> bool" where
  "keeps_sessions f \<longleftrightarrow> (\<forall>d. db_sessions (snd (f d)) = db_sessions d)"

lemma enroll_keeps_sessions: "db_sessions (snd (enroll_probe_route app rq code agent d)) = db_sessions d"
proof -
  obtain e d1 where consumed: "consume_enrollment d code (rq_now rq) = (e, d1)" by fastforce
  then have d1: "db_sessions d1 = db_sessions d" by (rule consume_enrollment_sessions)
  have d2: "db_sessions d2 = db_sessions d" if "register_probe d1 t s k c a n v = Inr (x, d2)" for t s k c a n v x d2
    using register_probe_sessions [OF that] d1 by simp
  show ?thesis
    by (auto simp: enroll_probe_route_def consumed d1 d2 split: option.split sum.split)
qed

lemma routes_keep_sessions:
  "keeps_sessions (create_enrollment_route app rq kind caps)"
  "keeps_sessions (revoke_probe_route app rq probe_id)"
  "keeps_sessions (put_note_route app rq server_id txt expires_at)"
  "keeps_sessions (delete_note_route app rq)"
  "keeps_sessions (enroll_probe_route app rq code agent)"
  "keeps_sessions (probe_report_route app rq payload)"
  "keeps_sessions (analytics_route app rq batch)"
  unfolding keeps_sessions_def
  by (auto simp: create_enrollment_route_def revoke_probe_route_def put_note_route_def delete_note_route_def enroll_keeps_sessions
      probe_report_route_def analytics_route_def audited_sessions revoke_probe_def delete_note_def Let_def
      dest: table_sessions intro!: with_session_inv [where P = "\<lambda>x. db_sessions x = db_sessions d" for d]
      split: sum.split option.split prod.split validation_error.split report_error.split)

subsection \<open>Who may do what\<close>

fun admin_endpoint :: "endpoint \<Rightarrow> bool" where
  "admin_endpoint (GetAdminServer sid) = True"
| "admin_endpoint GetAdminProbes = True"
| "admin_endpoint GetAdminOverview = True"
| "admin_endpoint (CreateEnrollment kind caps) = True"
| "admin_endpoint (RevokeProbe i) = True"
| "admin_endpoint (PutNote s t e) = True"
| "admin_endpoint DeleteNote = True"
| "admin_endpoint _ = False"

fun member_endpoint :: "endpoint \<Rightarrow> bool" where
  "member_endpoint CurrentSession = True"
| "member_endpoint GetStatus = True"
| "member_endpoint (GetServer sid) = True"
| "member_endpoint (GetMetrics sid period) = True"
| "member_endpoint (GetEvents filt cursor limit) = True"
| "member_endpoint GetHelp = True"
| "member_endpoint (SendAnalytics batch) = True"
| "member_endpoint _ = False"

fun probe_endpoint :: "endpoint \<Rightarrow> bool" where
  "probe_endpoint GetProbeConfig = True"
| "probe_endpoint (SendReport payload) = True"
| "probe_endpoint _ = False"

definition authorised :: "request \<Rightarrow> db \<Rightarrow> endpoint \<Rightarrow> bool" where
  "authorised rq d e \<longleftrightarrow>
     (admin_endpoint e \<longrightarrow> (\<exists>s. require_session rq d (Some ''admin'') = Inr s)) \<and>
     (member_endpoint e \<longrightarrow> (\<exists>s. require_session rq d None = Inr s)) \<and>
     (probe_endpoint e \<longrightarrow> (\<exists>p. require_probe rq d = Inr p))"

definition refused :: "api_response \<Rightarrow> bool" where
  "refused r \<longleftrightarrow> r = Invalid \<or> (\<exists>code. r = Problem 401 code) \<or> r = Problem 403 ''ROLE_REQUIRED''"

lemma require_session_refused: "require_session rq d role = Inl r \<Longrightarrow> refused r"
  by (auto simp: require_session_def refused_def split: option.splits if_splits)

lemma require_probe_refused: "require_probe rq d = Inl r \<Longrightarrow> refused r"
  by (auto simp: require_probe_def refused_def split: option.splits)

lemma not_Inr: "\<forall>x. r \<noteq> Inr x \<Longrightarrow> \<exists>e. r = Inl e"
  by (cases r) auto

lemma unauthorised_refused:
  assumes "\<not> authorised rq (as_db st) e"
  shows "refused (fst (handle app rq e st)) \<and> snd (handle app rq e st) = st"
proof -
  consider r where "admin_endpoint e" "require_session rq (as_db st) (Some ''admin'') = Inl r"
    | r where "member_endpoint e" "require_session rq (as_db st) None = Inl r"
    | r where "probe_endpoint e" "require_probe rq (as_db st) = Inl r"
    using assms unfolding authorised_def by (auto dest!: not_Inr)
  then show ?thesis
  proof cases
    case 1
    with require_session_refused [OF 1(2)] show ?thesis
      by (cases e) (auto simp: reading_def writing_def answer_or_def with_session_def refused_def
          admin_server_route_def admin_probes_route_def admin_overview_route_def create_enrollment_route_def revoke_probe_route_def
          put_note_route_def delete_note_route_def)
  next
    case 2
    with require_session_refused [OF 2(2)] show ?thesis
      by (cases e) (auto simp: reading_def writing_def answer_or_def with_session_def refused_def
          current_session_def status_route_def server_route_def metrics_route_def events_route_def help_route_def analytics_route_def)
  next
    case 3
    with require_probe_refused [OF 3(2)] show ?thesis
      by (cases e) (auto simp: reading_def writing_def answer_or_def refused_def probe_config_route_def probe_report_route_def)
  qed
qed

subsection \<open>Where administrators come from\<close>

definition cache_plain :: "membership \<Rightarrow> bool" where
  "cache_plain m \<longleftrightarrow> (\<forall>user t role. map_of (mb_cache m) user = Some (t, role) \<longrightarrow> role \<noteq> Some ''admin'')"

definition admins_only :: "store_settings \<Rightarrow> int list \<Rightarrow> app_state \<Rightarrow> bool" where
  \<comment> \<open>every administrator's session was opened by a configured administrator\<close>
  "admins_only settings ids st \<longleftrightarrow>
     mb_admin_ids (as_membership st) = ids \<and> cache_plain (as_membership st) \<and>
     (\<forall>row \<in> set (db_sessions (as_db st)). ses_role row = ''admin'' \<longrightarrow>
        (\<exists>user \<in> set ids. ses_telegram_user_hash row = peppered settings (show_int user)))"

fun serve :: "app \<Rightarrow> (request \<times> endpoint) list \<Rightarrow> app_state \<Rightarrow> app_state" where
  \<comment> \<open>the state after a sequence of requests\<close>
  "serve app [] st = st"
| "serve app ((rq, e) # rest) st = serve app rest (snd (handle app rq e st))"

lemma ask_not_admin: "ask reply = Answer role \<Longrightarrow> role \<noteq> Some ''admin''"
  by (auto simp: ask_def Let_def split: api_reply.splits option.splits if_splits)

lemma role_for_plain:
  assumes "cache_plain m"
  shows "cache_plain (snd (role_for tg m user now))"
    and "fst (role_for tg m user now) = Some ''admin'' \<Longrightarrow> user \<in> set (mb_admin_ids m)"
proof -
  show "cache_plain (snd (role_for tg m user now))"
    using assms ask_not_admin [of "tg user"]
    by (auto simp: role_for_def Let_def cache_plain_def update_conv' split: option.splits prod.splits ask_result.splits if_splits)
  show "fst (role_for tg m user now) = Some ''admin'' \<Longrightarrow> user \<in> set (mb_admin_ids m)"
    using assms ask_not_admin [of "tg user"]
    by (auto simp: role_for_def Let_def cache_plain_def split: option.splits prod.splits ask_result.splits if_splits)
qed

lemma session_row_created:
  assumes "create_session settings d token who now = Inr (s, d')"
  shows "\<exists>row. db_sessions d' = db_sessions d @ [row] \<and> ses_role row = id_role who \<and>
    ses_telegram_user_hash row = peppered settings (show_int (id_telegram_user who))"
  using assms by (auto simp: create_session_def Let_def insert_row_Inr split: sum.splits)

lemma sign_in_admins:
  assumes "admins_only (ap_settings app) ids st"
  shows "admins_only (ap_settings app) ids (snd (create_session_route app rq init_data st))"
proof -
  let ?m = "as_membership st"
  let ?members = "case asked_user app rq init_data of None \<Rightarrow> ?m | Some user \<Rightarrow> snd (role_for (rq_telegram rq) ?m user (rq_now rq))"
  let ?roles = "\<lambda>user. fst (role_for (rq_telegram rq) ?m user (rq_now rq))"
  have plain: "cache_plain ?m" "mb_admin_ids ?m = ids" using assms by (simp_all add: admins_only_def)
  have kept: "admins_only (ap_settings app) ids (st\<lparr>as_membership := ?members\<rparr>)"
    using assms role_for_plain(1) [OF plain(1)] by (simp add: admins_only_def split: option.split)
  show ?thesis
  proof (cases "validate_telegram_init_data (ap_hmac_hex app) (ap_loads app) (ap_bot_token app) ?roles (rq_now rq) init_data")
    case (Inl e)
    then show ?thesis using kept assms by (simp add: create_session_route_def Let_def)
  next
    case (Inr who)
    show ?thesis
    proof (cases "create_session (ap_settings app) (as_db st) (rq_token rq) \<lparr>id_telegram_user = ai_telegram_user who, id_role = ai_role who\<rparr> (rq_now rq)")
      case (Inl e)
      with Inr show ?thesis using kept assms by (simp add: create_session_route_def Let_def)
    next
      case opened: (Inr r)
      obtain s d' where r: "r = (s, d')" by fastforce
      from session_row_created [OF opened [unfolded r]] obtain row where row: "db_sessions d' = db_sessions (as_db st) @ [row]"
          "ses_role row = ai_role who" "ses_telegram_user_hash row = peppered (ap_settings app) (show_int (ai_telegram_user who))" by auto
      from accepted [OF Inr] have "?roles (ai_telegram_user who) = Some (ai_role who)" by blast
      with role_for_plain(2) [OF plain(1)] plain(2) have "ai_role who = ''admin'' \<Longrightarrow> ai_telegram_user who \<in> set ids" by simp
      with row kept have "admins_only (ap_settings app) ids (st\<lparr>as_membership := ?members, as_db := d'\<rparr>)"
        by (auto simp: admins_only_def)
      with Inr opened r assms show ?thesis by (simp add: create_session_route_def Let_def)
    qed
  qed
qed

lemma writing_admins:
  "keeps_sessions f \<Longrightarrow> admins_only settings ids st \<Longrightarrow> admins_only settings ids (snd (writing f st))"
  by (simp add: writing_def keeps_sessions_def admins_only_def case_prod_beta Let_def)

lemma reading_admins: "admins_only settings ids st \<Longrightarrow> admins_only settings ids (snd (reading f st))"
  by (simp add: reading_def)

lemma sign_out_admins: "admins_only settings ids st \<Longrightarrow> admins_only settings ids (snd (writing (delete_session rq) st))"
  by (auto simp: writing_def delete_session_def revoke_session_def admins_only_def set_update_where split: option.split)

lemma handle_admins:
  assumes "admins_only (ap_settings app) ids st"
  shows "admins_only (ap_settings app) ids (snd (handle app rq e st))"
  using assms by (cases e) (simp_all add: sign_in_admins sign_out_admins reading_admins writing_admins routes_keep_sessions)

lemma serve_admins:
  "admins_only (ap_settings app) ids st \<Longrightarrow> admins_only (ap_settings app) ids (serve app rqs st)"
  by (induction app rqs st rule: serve.induct) (simp_all add: handle_admins)

lemma admin_session_row:
  assumes "require_session rq d (Some ''admin'') = Inr s"
  shows "\<exists>row \<in> set (db_sessions d). ses_role row = ''admin'' \<and> (\<exists>t. rq_session rq = Some t \<and> ses_id_hash row = Sha t) \<and>
    ses_revoked_at row = None \<and> rq_now rq < dt_of (ses_expires_at row)"
  using assms
  by (auto simp: require_session_def get_session_def split: option.splits if_splits dest!: find_Some_in intro!: bexI)

subsection \<open>Codes for a probe abroad\<close>

text \<open>
  The route that creates a code passes no via server, so a code it made for an abroad probe is spent by
  the first attempt to use it and that attempt is refused.
\<close>

definition abroad_without_via :: "db \<Rightarrow> string \<Rightarrow> datetime \<Rightarrow> bool" where
  "abroad_without_via d code now \<longleftrightarrow>
     (\<exists>e d1. consume_enrollment d code now = (Some e, d1) \<and> el_kind e = ''abroad'' \<and> el_via_server_id e = None)"

lemma abroad_code_is_lost:
  assumes "abroad_without_via d code (rq_now rq)" "1 \<le> length code" "length code \<le> 128" "length agent \<le> 64"
  shows "enroll_probe_route app rq code agent d = (Problem 400 ''ABROAD_VIA_REQUIRED'', snd (consume_enrollment d code (rq_now rq)))"
  using assms by (auto simp: abroad_without_via_def enroll_probe_route_def)

lemma created_code_has_no_via:
  assumes "create_enrollment settings d code ''abroad'' caps who now None = Inr (x, d')" "0 < st_enrollment_minutes settings"
    and "Sha code \<notin> en_code_hash ` set (db_enrollments d)"
  shows "abroad_without_via d' code now"
proof -
  have "find (\<lambda>r. en_code_hash r = Sha code) (db_enrollments d) = None"
    unfolding find_None_iff using assms(3) by (metis imageI)
  then show ?thesis
    using assms by (auto simp: create_enrollment_def Let_def insert_row_def abroad_without_via_def consume_enrollment_def find_append
        enrollment_ttl_def minutes_def)
qed

subsection \<open>Properties\<close>

text \<open>
  C40. Authority comes from the configuration: after any sequence of requests to an installation that
  started without sessions, a request for an administrator's, a member's or a probe's route without the
  credentials it needs is refused and changes nothing, and an administrator's route is served only to an
  unexpired, unrevoked session that one of the configured administrators opened by signing in.
\<close>

theorem api_authority:
  assumes "db_sessions (as_db st0) = []" "as_membership st0 = membership_init ids cache_seconds"
  shows "let st = serve app history st0; r = handle app rq e st
     in (\<not> authorised rq (as_db st) e \<longrightarrow> refused (fst r) \<and> snd r = st) \<and>
        (admin_endpoint e \<longrightarrow> \<not> refused (fst r) \<longrightarrow>
           (\<exists>row \<in> set (db_sessions (as_db st)). \<exists>user \<in> set ids.
              ses_role row = ''admin'' \<and> (\<exists>t. rq_session rq = Some t \<and> ses_id_hash row = Sha t) \<and>
              ses_revoked_at row = None \<and> rq_now rq < dt_of (ses_expires_at row) \<and>
              ses_telegram_user_hash row = peppered (ap_settings app) (show_int user)))"
proof -
  let ?st = "serve app history st0"
  have "admins_only (ap_settings app) ids st0"
    using assms by (simp add: admins_only_def membership_init_def cache_plain_def)
  then have ok: "admins_only (ap_settings app) ids ?st" by (rule serve_admins)
  have "\<exists>row \<in> set (db_sessions (as_db ?st)). \<exists>user \<in> set ids.
      ses_role row = ''admin'' \<and> (\<exists>t. rq_session rq = Some t \<and> ses_id_hash row = Sha t) \<and>
      ses_revoked_at row = None \<and> rq_now rq < dt_of (ses_expires_at row) \<and>
      ses_telegram_user_hash row = peppered (ap_settings app) (show_int user)"
    if "admin_endpoint e" "\<not> refused (fst (handle app rq e ?st))"
  proof -
    from that unauthorised_refused have "authorised rq (as_db ?st) e" by blast
    with that(1) obtain s where "require_session rq (as_db ?st) (Some ''admin'') = Inr s" by (auto simp: authorised_def)
    from admin_session_row [OF this] ok show ?thesis by (fastforce simp: admins_only_def)
  qed
  with unauthorised_refused [of rq ?st e app] show ?thesis by (simp add: Let_def)
qed

definition sample_app :: app where
  "sample_app =
     \<lparr>ap_bot_token = ''t'', ap_settings = sample_settings, ap_read = view_settings, ap_dictionaries = [], ap_default_language = ''ru'',
      ap_hmac_hex = (\<lambda>token m. m), ap_loads = sample_loads, ap_uid_text = plain_id, ap_valid_event = (\<lambda>_. True), ap_retention_days = 30\<rparr>"

definition sample_request :: "string option \<Rightarrow> request" where
  "sample_request token =
     \<lparr>rq_session = token, rq_authorization = None, rq_accept_language = None, rq_now = seconds 10, rq_trace = ''x'', rq_token = ''k'',
      rq_suffix = ''z'', rq_entry_id = Uuid4 ''e'', rq_note_id = Uuid4 ''n'', rq_telegram = (\<lambda>_. NetworkError)\<rparr>"

definition sample_state :: app_state where
  "sample_state = \<lparr>as_db = empty_db, as_membership = membership_init [7] 300\<rparr>"

lemma sample_validated:
  "validate_telegram_init_data (\<lambda>token m. m) sample_loads ''t'' (\<lambda>user. fst (role_for tg (membership_init [7] 300) user (seconds 10))) (seconds 10) sample_init =
     Inr \<lparr>ai_telegram_user = 7, ai_role = ''admin''\<rparr>"
proof -
  have "fst (role_for tg (membership_init [7] 300) 7 (seconds 10)) = Some ''admin''" by (simp add: role_for_def membership_init_def)
  moreover have "auth_date_of [(''auth_date'', ''9''), (''user'', ''7'')] = Some (seconds 9)" by code_simp
  moreover have "user_id_of sample_loads [(''auth_date'', ''9''), (''user'', ''7'')] = Some 7" by code_simp
  moreover have "check_string [(''auth_date'', ''9''), (''user'', ''7'')] = ''auth_date=9'' @ CHR 0x0A # ''user=7''" by code_simp
  ultimately show ?thesis by (simp add: validate_telegram_init_data_def sample_fields seconds_def max_age_def minutes_def)
qed

lemma sample_signed_in:
  "\<exists>row. db_sessions (as_db (serve sample_app [(sample_request None, CreateSession sample_init)] sample_state)) = [row] \<and>
     ses_id_hash row = Sha ''k'' \<and> ses_role row = ''admin'' \<and> ses_revoked_at row = None \<and> ses_expires_at row = StampZ (seconds 10 + minutes 30)"
proof -
  have "sample_init \<noteq> []" "length sample_init \<le> 8192" by (simp_all add: sample_init_def)
  then show ?thesis
    by (simp add: create_session_route_def sample_app_def sample_request_def sample_state_def sample_validated create_session_def insert_row_def
        empty_db_def sample_settings_def session_ttl_def Let_def)
qed

theorem api_authority_witness:
  "refused (fst (handle sample_app (sample_request (Some ''other'')) DeleteNote sample_state)) \<and>
   (\<exists>row \<in> set (db_sessions (as_db (serve sample_app [(sample_request None, CreateSession sample_init)] sample_state))).
      ses_role row = ''admin'' \<and> ses_telegram_user_hash row = peppered sample_settings (show_int 7))"
proof -
  let ?st = "serve sample_app [(sample_request None, CreateSession sample_init)] sample_state"
  obtain row where row: "db_sessions (as_db ?st) = [row]" "ses_id_hash row = Sha ''k''" "ses_role row = ''admin''"
      "ses_revoked_at row = None" "ses_expires_at row = StampZ (seconds 10 + minutes 30)" using sample_signed_in by blast
  have start: "db_sessions (as_db sample_state) = []" "as_membership sample_state = membership_init [7] 300"
    by (simp_all add: sample_state_def empty_db_def)
  have "require_session (sample_request (Some ''k'')) (as_db ?st) (Some ''admin'') =
      Inr \<lparr>se_token = ''k'', se_identity = \<lparr>id_telegram_user = 0, id_role = ''admin''\<rparr>, se_expires_at = seconds 10 + minutes 30\<rparr>"
    unfolding require_session_def get_session_def row(1) by (simp add: sample_request_def row(2-5) minutes_def)
  then have "\<not> refused (fst (handle sample_app (sample_request (Some ''k'')) (RevokeProbe ''p'') ?st))"
    by (auto simp: writing_def revoke_probe_route_def with_session_def audited_def Let_def refused_def simp del: serve.simps
        split: prod.split sum.split)
  with api_authority [OF start, of sample_app "[(sample_request None, CreateSession sample_init)]" "sample_request (Some ''k'')" "RevokeProbe ''p''"]
  have "\<exists>row \<in> set (db_sessions (as_db ?st)). ses_role row = ''admin'' \<and> ses_telegram_user_hash row = peppered sample_settings (show_int 7)"
    by (auto simp: Let_def sample_app_def simp del: serve.simps handle.simps)
  moreover have "\<not> authorised (sample_request (Some ''other'')) (as_db sample_state) DeleteNote"
    by (auto simp: sample_state_def empty_db_def authorised_def require_session_def get_session_def sample_request_def)
  then have "refused (fst (handle sample_app (sample_request (Some ''other'')) DeleteNote sample_state))"
    using api_authority [OF start, of sample_app "[]" "sample_request (Some ''other'')" DeleteNote] by (simp add: Let_def del: handle.simps)
  ultimately show ?thesis by blast
qed

end
