(* ===== verification/Read_View.thy ===== *)
theory Read_View
  imports Schemas
begin

text \<open>
  The protocol \<open>ReadModel\<close> (src/src/vpnpulse/api/read_model.py) as an interface: what the screens of one
  read model owe each other, whoever implements it. The locale states it for the four answers about
  servers; it is interpreted on the read model over the database, on the adapter of a plain status provider,
  which is modelled here, and on the demonstration in Demo_Screens.
\<close>

subsection \<open>The interface\<close>

locale read_view =
  fixes cards :: "'v \<Rightarrow> string \<Rightarrow> string \<Rightarrow> 'e + card list"
    and details :: "'v \<Rightarrow> string \<Rightarrow> string \<Rightarrow> string \<Rightarrow> 'e + server_detail option"
    and charts :: "'v \<Rightarrow> string \<Rightarrow> string \<Rightarrow> 'e + metrics_view option"
    and admin_details :: "'v \<Rightarrow> string \<Rightarrow> string \<Rightarrow> 'e + admin_detail option"
  assumes detail_of_card: "details v sid role lang = Inr (Some x) \<Longrightarrow> cards v role lang = Inr cs \<Longrightarrow>
      dl_card x \<in> set cs \<and> cd_id (dl_card x) = sid"
    and no_detail: "details v sid role lang = Inr None \<Longrightarrow> cards v role lang = Inr cs \<Longrightarrow> sid \<notin> cd_id ` set cs"
    and chart_of_card: "charts v sid period = Inr (Some m) \<Longrightarrow> cards v ''member'' lang = Inr cs \<Longrightarrow>
      sid \<in> cd_id ` set cs \<and> mv_server_id m = sid \<and> mv_period m = period"
    and no_chart: "charts v sid period = Inr None \<Longrightarrow> cards v ''member'' lang = Inr cs \<Longrightarrow> sid \<notin> cd_id ` set cs"
    and admin_is_detail: "admin_details v sid lang = Inr r \<Longrightarrow> details v sid ''admin'' lang = Inr full \<Longrightarrow>
      map_option ad_detail r = full"
begin

text \<open>A screen never leads to a server that is not there, and shows it there as it was on the screen.\<close>

lemma every_card_opens:
  assumes "cards v role lang = Inr cs" "c \<in> set cs" "details v (cd_id c) role lang = Inr r" "distinct (map cd_id cs)"
  shows "\<exists>x. r = Some x \<and> dl_card x = c"
proof (cases r)
  case None
  with no_detail [of v "cd_id c" role lang cs] assms(1-3) show ?thesis by simp
next
  case (Some x)
  with detail_of_card [of v "cd_id c" role lang x cs] assms have "dl_card x \<in> set cs" "cd_id (dl_card x) = cd_id c" by simp_all
  with assms(2,4) have "dl_card x = c" by (metis distinct_map inj_on_def)
  with Some show ?thesis by simp
qed

lemma unlisted_is_not_found:
  assumes "cards v role lang = Inr cs" "sid \<notin> cd_id ` set cs" "details v sid role lang = Inr r"
  shows "r = None"
  using detail_of_card [of v sid role lang _ cs] assms by (cases r) auto

lemma chart_iff_listed:
  assumes "cards v ''member'' lang = Inr cs" "charts v sid period = Inr r"
  shows "(r \<noteq> None) = (sid \<in> cd_id ` set cs)"
  using chart_of_card [of v sid period _ lang cs] no_chart [of v sid period lang cs] assms by (cases r) auto

lemma admin_iff_listed:
  assumes "cards v ''admin'' lang = Inr cs" "admin_details v sid lang = Inr r" "details v sid ''admin'' lang = Inr full"
  shows "(r \<noteq> None) = (sid \<in> cd_id ` set cs)"
proof -
  have "map_option ad_detail r = full" using admin_is_detail assms(2,3) .
  then show ?thesis
    using detail_of_card [of v sid "''admin''" lang _ cs] no_detail [of v sid "''admin''" lang cs] assms(1,3) by (cases r) auto
qed

end

subsection \<open>The read model over the database\<close>

type_synonym stored_view = "read_settings \<times> db \<times> datetime"

definition stored_cards :: "stored_view \<Rightarrow> string \<Rightarrow> string \<Rightarrow> read_error + card list" where
  "stored_cards v role lang = (case v of (rs, d, now) \<Rightarrow> Inr (sw_servers (status rs d now lang)))"

definition stored_details :: "stored_view \<Rightarrow> string \<Rightarrow> string \<Rightarrow> string \<Rightarrow> read_error + server_detail option" where
  "stored_details v server_id role lang = (case v of (rs, d, now) \<Rightarrow> Inr (server_view rs d now server_id lang))"

definition stored_charts :: "stored_view \<Rightarrow> string \<Rightarrow> string \<Rightarrow> read_error + metrics_view option" where
  "stored_charts v server_id period = (case v of (rs, d, now) \<Rightarrow> Inr (metrics rs d now server_id period))"

definition stored_admin :: "stored_view \<Rightarrow> string \<Rightarrow> string \<Rightarrow> read_error + admin_detail option" where
  "stored_admin v server_id lang = (case v of (rs, d, now) \<Rightarrow> admin_server rs d now server_id lang)"

lemmas stored_defs = stored_cards_def stored_details_def stored_charts_def stored_admin_def

lemma card_ids: "cd_id ` set (sw_servers (status rs d now lang)) = sc_id ` set (enabled_servers (rs_config rs))"
  by (force simp: status_selects status_cards_def)

lemma enabled_iff: "server_config_of config sid = None \<longleftrightarrow> sid \<notin> sc_id ` set (enabled_servers config)"
  by (auto simp: server_config_of_def find_None_iff_none)

lemma server_config_id: "server_config_of config sid = Some cfg \<Longrightarrow> sc_id cfg = sid \<and> cfg \<in> set (enabled_servers config)"
  by (auto simp: server_config_of_def dest: find_Some_in)

lemma detail_dl_card: "map_option dl_card (detail rs d cfg lang now) = find (\<lambda>c. cd_id c = sc_id cfg) (sw_servers (status rs d now lang))"
  by (simp add: detail_def option.map_comp o_def Let_def case_prod_beta option.map_ident)

lemma detail_card:
  assumes "detail rs d cfg lang now = Some x"
  shows "dl_card x \<in> set (sw_servers (status rs d now lang)) \<and> cd_id (dl_card x) = sc_id cfg"
  using detail_dl_card [of rs d cfg lang now] assms by (auto dest: find_Some_in [OF sym])

lemma detail_exists:
  assumes "cfg \<in> set (enabled_servers (rs_config rs))"
  shows "detail rs d cfg lang now \<noteq> None"
proof
  assume "detail rs d cfg lang now = None"
  then have "find (\<lambda>c. cd_id c = sc_id cfg) (sw_servers (status rs d now lang)) = None"
    using detail_dl_card [of rs d cfg lang now] by simp
  then have "sc_id cfg \<notin> cd_id ` set (sw_servers (status rs d now lang))" by (auto simp: find_None_iff_none)
  with assms show False by (simp add: card_ids)
qed

lemma server_view_None: "server_view rs d now sid lang = None \<longleftrightarrow> sid \<notin> sc_id ` set (enabled_servers (rs_config rs))"
proof (cases "server_config_of (rs_config rs) sid")
  case None
  then show ?thesis by (simp add: server_view_def enabled_iff [symmetric])
next
  case (Some cfg)
  with detail_exists [of cfg rs d lang now] server_config_id [OF Some] show ?thesis by (auto simp: server_view_def)
qed

interpretation stored: read_view stored_cards stored_details stored_charts stored_admin
proof
  fix v :: stored_view and sid role lang period and cs x m r full
  obtain rs d now where v: "v = (rs, d, now)" by (cases v)
  show "dl_card x \<in> set cs \<and> cd_id (dl_card x) = sid"
    if "stored_details v sid role lang = Inr (Some x)" "stored_cards v role lang = Inr cs"
    using that detail_card [of rs d _ lang now x] server_config_id
    by (auto simp: v stored_defs server_view_def split: option.splits)
  show "sid \<notin> cd_id ` set cs" if "stored_details v sid role lang = Inr None" "stored_cards v role lang = Inr cs"
    using that by (simp add: v stored_defs server_view_None card_ids [symmetric, where d = d and now = now and lang = lang])
  show "sid \<in> cd_id ` set cs \<and> mv_server_id m = sid \<and> mv_period m = period"
    if "stored_charts v sid period = Inr (Some m)" "stored_cards v ''member'' lang = Inr cs"
    using that by (auto simp: v stored_defs metrics_def Let_def enabled_iff card_ids [symmetric, where d = d and now = now and lang = lang] split: if_splits)
  show "sid \<notin> cd_id ` set cs" if "stored_charts v sid period = Inr None" "stored_cards v ''member'' lang = Inr cs"
    using that by (auto simp: v stored_defs metrics_def Let_def enabled_iff card_ids [symmetric, where d = d and now = now and lang = lang] split: if_splits)
  show "map_option ad_detail r = full" if "stored_admin v sid lang = Inr r" "stored_details v sid ''admin'' lang = Inr full"
    using that by (auto simp: v stored_defs admin_server_def server_view_def bind_err_Inr Let_def split: option.splits)
qed

subsection \<open>The adapter of a status provider\<close>

text \<open>
  \<open>StatusOnlyReadModel\<close>: the callable is the argument. The keys a detail lacks have the defaults of its
  response model.
\<close>

type_synonym status_provider = "string \<Rightarrow> status_view"

definition so_card :: "status_provider \<Rightarrow> string \<Rightarrow> string \<Rightarrow> card option" where
  "so_card provider server_id role = find (\<lambda>c. cd_id c = server_id) (sw_servers (provider role))"

definition so_server :: "status_provider \<Rightarrow> string \<Rightarrow> string \<Rightarrow> server_detail option" where
  "so_server provider server_id role =
     map_option (\<lambda>c. \<lparr>dl_card = c, dl_protocols = [], dl_uptime_7d = None, dl_coverage_7d = None, dl_components = [],
       dl_resources = JNull, dl_profiles = JNull, dl_service_checks = []\<rparr>) (so_card provider server_id role)"

definition so_metrics :: "status_provider \<Rightarrow> string \<Rightarrow> string \<Rightarrow> metrics_view option" where
  "so_metrics provider server_id period =
     (if so_card provider server_id ''member'' = None then None
      else Some \<lparr>mv_server_id = server_id, mv_period = period, mv_coverage = 0, mv_points = []\<rparr>)"

definition so_events_page :: event_page where
  "so_events_page = \<lparr>ep_items = [], ep_next_cursor = None\<rparr>"

definition so_help :: "string option \<Rightarrow> help_view" where
  "so_help contact_url =
     \<lparr>hv_step_keys = [''help.step1'', ''help.step2'', ''help.step3'', ''help.step4''],
      hv_contact_available = (contact_url \<noteq> None), hv_contact_url = contact_url\<rparr>"

definition so_admin_server :: "status_provider \<Rightarrow> string \<Rightarrow> admin_detail option" where
  "so_admin_server provider server_id =
     map_option (\<lambda>x. \<lparr>ad_detail = x, ad_attention = [], ad_attention_items = [], ad_diagnostics = []\<rparr>)
       (so_server provider server_id ''admin'')"

definition so_admin_probes :: "probe_view list" where
  "so_admin_probes = []"

definition so_admin_overview :: overview where
  "so_admin_overview = \<lparr>ov_attention_items = [], ov_doctor_result = ''ok'', ov_doctor_items = [], ov_next_command = None\<rparr>"

definition so_readiness :: readiness_view where
  "so_readiness =
     \<lparr>rd_ready = True,
      rd_checks = [(''database'', \<lparr>rc_ok = True, rc_age_seconds = None\<rparr>), (''collector'', \<lparr>rc_ok = True, rc_age_seconds = Some 0\<rparr>),
                   (''bot'', \<lparr>rc_ok = True, rc_age_seconds = Some 0\<rparr>)]\<rparr>"

interpretation status_only: read_view
  "\<lambda>provider role lang. Inr (sw_servers (provider role)) :: read_error + card list"
  "\<lambda>provider sid role lang. Inr (so_server provider sid role)"
  "\<lambda>provider sid period. Inr (so_metrics provider sid period)"
  "\<lambda>provider sid lang. Inr (so_admin_server provider sid)"
  by unfold_locales
    (auto simp: so_server_def so_metrics_def so_admin_server_def so_card_def find_None_iff_none option.map_comp o_def option.map_ident dest: find_Some_in split: if_splits)

subsection \<open>Properties\<close>


definition one_server_config :: config where
  "one_server_config = (st_config sample_settings)\<lparr>cfg_servers :=
     [\<lparr>sc_id = ''s1'', sc_type = ''awg-host'', sc_enabled = None, sc_name = JStr ''One'', sc_country_code = ''FI'', sc_collector_ref = None,
       sc_recommended_priority = None\<rparr>]\<rparr>"


end
