(* ===== verification/Evaluator.thy ===== *)
theory Evaluator
  imports Domain
begin

text \<open>
  The state evaluator (\<open>evaluate_scope\<close> in src/src/vpnpulse/domain/evaluator.py): fresh evidence
  of one scope to one of the four states. \<open>evaluate_scope\<close> follows the source statement by
  statement; \<open>scope_verdict\<close> is the declarative contract it is proved to implement.
\<close>

subsection \<open>The code\<close>

definition valid_full_failure :: "observation \<Rightarrow> bool" where
  "valid_full_failure item \<longleftrightarrow>
     obs_result item = Failure \<and> obs_full_vpn_test item \<and> obs_control_internet_ok item = Some True"

definition SUCCESS_SOURCES :: "string list" where
  "SUCCESS_SOURCES = [''human_activity'', ''abroad'']"

definition py_tail :: "int \<Rightarrow> 'a list \<Rightarrow> 'a list" where
  \<comment> \<open>\<open>xs[-n:]\<close>, for every integer \<open>n\<close>\<close>
  "py_tail n xs = (if 0 < n then drop (length xs - nat n) xs else drop (nat (- n)) xs)"

definition source_confirms_failure :: "int \<Rightarrow> observation list \<Rightarrow> bool" where
  "source_confirms_failure confirmations source_items =
     (let tail = py_tail confirmations source_items
      in int (length tail) = confirmations \<and> list_all valid_full_failure tail)"

definition is_valid_success :: "observation \<Rightarrow> bool" where
  "is_valid_success item \<longleftrightarrow>
     obs_result item = Success \<and> (obs_source item \<in> set SUCCESS_SOURCES \<or> obs_full_vpn_test item)"

definition evaluate_scope :: "observation list \<Rightarrow> datetime \<Rightarrow> int \<Rightarrow> int \<Rightarrow> evaluation" where
  "evaluate_scope observations now expected_sources failure_confirmations =
    (let items = sort_key obs_observed_at (filter (\<lambda>item. obs_route_verified item \<noteq> Some False) observations);
         fresh = filter (\<lambda>item. now \<le> obs_fresh_until item) items;
         coverage = min 1 (of_nat (card (obs_source ` set fresh)) / of_int (max expected_sources 1))
     in if fresh = [] then
          \<lparr>ev_state = Unknown, ev_reason_code = ''NO_FRESH_EVIDENCE'', ev_observed_at = None,
           ev_fresh_until = None, ev_evidence_count = 0, ev_coverage = coverage\<rparr>
        else
          let latest_at = Max (set (map obs_observed_at fresh));
              fresh_until = Max (set (map obs_fresh_until fresh));
              valid_successes = filter is_valid_success fresh;
              partial_failures = filter (\<lambda>item. obs_result item = Failure) fresh;
              full_by_source = group_by obs_source (filter obs_full_vpn_test fresh);
              confirmed_failure = list_ex (\<lambda>(_, source_items). source_confirms_failure failure_confirmations source_items) full_by_source;
              strong_successes = filter (\<lambda>item. obs_source item \<noteq> ''abroad'') valid_successes;
              (state, reason) =
                (if confirmed_failure \<and> strong_successes = [] then (Unavailable, ''FULL_TEST_FAILURE_CONFIRMED'')
                 else if valid_successes \<noteq> [] \<and> partial_failures \<noteq> [] then (Degraded, ''CONFLICTING_FRESH_EVIDENCE'')
                 else if confirmed_failure then (Unavailable, ''FULL_TEST_FAILURE_CONFIRMED'')
                 else if valid_successes \<noteq> [] then (Operational, ''FULL_SUCCESS_CONFIRMED'')
                 else if partial_failures \<noteq> [] then (Degraded, ''PARTIAL_OR_UNCONFIRMED_FAILURE'')
                 else (Unknown, ''NO_CONCLUSIVE_EVIDENCE''))
          in \<lparr>ev_state = state, ev_reason_code = reason, ev_observed_at = Some latest_at,
              ev_fresh_until = Some fresh_until, ev_evidence_count = length fresh, ev_coverage = coverage\<rparr>)"

subsection \<open>Grouping and tails\<close>

lemma source_confirms_failure_iff:
  "1 \<le> n \<Longrightarrow> source_confirms_failure n xs \<longleftrightarrow>
     n \<le> int (length xs) \<and> (\<forall>x \<in> set (drop (length xs - nat n) xs). valid_full_failure x)"
  by (auto simp: source_confirms_failure_def py_tail_def list_all_iff Let_def)

lemma source_confirms_failure_Nil: "1 \<le> n \<Longrightarrow> \<not> source_confirms_failure n []"
  by (simp add: source_confirms_failure_def py_tail_def Let_def)

subsection \<open>The contract\<close>

definition usable :: "datetime \<Rightarrow> observation \<Rightarrow> bool" where
  \<comment> \<open>evidence that may move the state: fresh, and not from a probe that left its path\<close>
  "usable now item \<longleftrightarrow> obs_route_verified item \<noteq> Some False \<and> now \<le> obs_fresh_until item"

definition full_runs :: "datetime \<Rightarrow> observation list \<Rightarrow> string \<Rightarrow> observation list" where
  \<comment> \<open>the usable full tests of one source in time order\<close>
  "full_runs now observations src =
     sort_key obs_observed_at (filter (\<lambda>item. usable now item \<and> obs_full_vpn_test item \<and> obs_source item = src) observations)"

definition outage_confirmed :: "int \<Rightarrow> datetime \<Rightarrow> observation list \<Rightarrow> bool" where
  \<comment> \<open>some source's last full tests, as many as the confirmations ask for, all failed while its
      control internet worked\<close>
  "outage_confirmed n now observations \<longleftrightarrow>
     (\<exists>src. let runs = full_runs now observations src
            in n \<le> int (length runs) \<and> (\<forall>item \<in> set (drop (length runs - nat n) runs). valid_full_failure item))"

definition proof_of_life :: "observation \<Rightarrow> bool" where
  "proof_of_life item \<longleftrightarrow> is_valid_success item"

definition proof_from_members :: "observation \<Rightarrow> bool" where
  "proof_from_members item \<longleftrightarrow> is_valid_success item \<and> obs_source item \<noteq> ''abroad''"

definition scope_verdict :: "int \<Rightarrow> datetime \<Rightarrow> observation list \<Rightarrow> state" where
  "scope_verdict n now observations =
     (let evidence = {item \<in> set observations. usable now item};
          alive = (\<exists>item \<in> evidence. proof_of_life item);
          failing = (\<exists>item \<in> evidence. obs_result item = Failure)
      in if outage_confirmed n now observations \<and> \<not> (\<exists>item \<in> evidence. proof_from_members item) then Unavailable
         else if alive \<and> failing then Degraded
         else if alive then Operational
         else if failing then Degraded
         else Unknown)"

subsection \<open>The code implements the contract\<close>

definition fresh_items :: "datetime \<Rightarrow> observation list \<Rightarrow> observation list" where
  "fresh_items now observations = sort_key obs_observed_at (filter (usable now) observations)"

lemma fresh_items_eq:
  "filter (\<lambda>item. now \<le> obs_fresh_until item)
     (sort_key obs_observed_at (filter (\<lambda>item. obs_route_verified item \<noteq> Some False) observations)) =
   fresh_items now observations"
proof -
  have "filter (\<lambda>item. now \<le> obs_fresh_until item) (filter (\<lambda>item. obs_route_verified item \<noteq> Some False) observations) =
      filter (usable now) observations"
    unfolding filter_filter by (rule filter_cong) (auto simp: usable_def)
  then show ?thesis by (simp add: fresh_items_def sort_key_filter)
qed

lemma set_fresh_items: "set (fresh_items now observations) = {item \<in> set observations. usable now item}"
  by (auto simp: fresh_items_def)

lemma full_runs_fresh:
  "filter (\<lambda>x. obs_source x = src) (filter obs_full_vpn_test (fresh_items now observations)) = full_runs now observations src"
proof -
  have "filter (\<lambda>x. obs_source x = src) (filter obs_full_vpn_test (filter (usable now) observations)) =
      filter (\<lambda>item. usable now item \<and> obs_full_vpn_test item \<and> obs_source item = src) observations"
    unfolding filter_filter by (rule filter_cong) auto
  then show ?thesis
    unfolding fresh_items_def full_runs_def sort_key_filter by simp
qed

lemma confirmed_failure_iff:
  assumes "1 \<le> n"
  shows "list_ex (\<lambda>(_, source_items). source_confirms_failure n source_items)
      (group_by obs_source (filter obs_full_vpn_test (fresh_items now observations))) \<longleftrightarrow>
    outage_confirmed n now observations"
    (is "?code \<longleftrightarrow> ?spec")
proof -
  let ?full = "filter obs_full_vpn_test (fresh_items now observations)"
  have runs: "filter (\<lambda>x. obs_source x = src) ?full = full_runs now observations src" for src
    by (rule full_runs_fresh)
  have none: "full_runs now observations src = []" if "src \<notin> obs_source ` set ?full" for src
    using that by (auto simp flip: runs simp: filter_empty_conv)
  have in_full: "src \<in> obs_source ` set ?full" if "source_confirms_failure n (full_runs now observations src)" for src
    using that none [of src] source_confirms_failure_Nil [OF assms] by (cases "src \<in> obs_source ` set ?full") simp_all
  have "?code \<longleftrightarrow> (\<exists>src. src \<in> obs_source ` set ?full \<and> source_confirms_failure n (full_runs now observations src))"
  proof -
    have "?code \<longleftrightarrow> (\<exists>src items. (src, items) \<in> set (group_by obs_source ?full) \<and> source_confirms_failure n items)"
      unfolding list_ex_iff by (blast intro: prod.exhaust)
    then show ?thesis unfolding set_group_by runs by blast
  qed
  also have "\<dots> \<longleftrightarrow> (\<exists>src. source_confirms_failure n (full_runs now observations src))"
    using in_full by blast
  also have "\<dots> \<longleftrightarrow> ?spec"
    by (simp add: outage_confirmed_def source_confirms_failure_iff [OF assms] Let_def)
  finally show ?thesis .
qed

lemma outage_confirmed_failing:
  assumes "1 \<le> n" "outage_confirmed n now observations"
  shows "\<exists>item \<in> set observations. usable now item \<and> obs_result item = Failure"
proof -
  from assms(2) obtain src where len: "n \<le> int (length (full_runs now observations src))"
    and all: "\<forall>item \<in> set (drop (length (full_runs now observations src) - nat n) (full_runs now observations src)). valid_full_failure item"
    by (auto simp: outage_confirmed_def Let_def)
  let ?tail = "drop (length (full_runs now observations src) - nat n) (full_runs now observations src)"
  from assms(1) len have "?tail \<noteq> []" by auto
  then have "hd ?tail \<in> set ?tail" by simp
  moreover from this all have "valid_full_failure (hd ?tail)" by blast
  moreover have "set ?tail \<subseteq> set (full_runs now observations src)" by (rule set_drop_subset)
  ultimately show ?thesis
    by (auto simp: full_runs_def valid_full_failure_def)
qed

lemma evaluate_scope_empty:
  "fresh_items now observations = [] \<Longrightarrow> evaluate_scope observations now expected n =
     \<lparr>ev_state = Unknown, ev_reason_code = ''NO_FRESH_EVIDENCE'', ev_observed_at = None,
      ev_fresh_until = None, ev_evidence_count = 0, ev_coverage = 0\<rparr>"
  unfolding evaluate_scope_def Let_def fresh_items_eq by simp

lemma scope_verdict_empty:
  "1 \<le> n \<Longrightarrow> fresh_items now observations = [] \<Longrightarrow> scope_verdict n now observations = Unknown"
  using outage_confirmed_failing [of n now observations] set_fresh_items [of now observations]
  by (auto simp: scope_verdict_def Let_def)

lemma evaluate_scope_state:
  assumes "1 \<le> n"
  shows "ev_state (evaluate_scope observations now expected n) = scope_verdict n now observations"
proof (cases "fresh_items now observations = []")
  case True
  then show ?thesis
    by (simp add: evaluate_scope_empty scope_verdict_empty assms)
next
  case False
  let ?evidence = "{item \<in> set observations. usable now item}"
  let ?fresh = "fresh_items now observations"
  define c where "c = outage_confirmed n now observations"
  define v where "v = (\<exists>item \<in> ?evidence. proof_of_life item)"
  define m where "m = (\<exists>item \<in> ?evidence. proof_from_members item)"
  define f where "f = (\<exists>item \<in> ?evidence. obs_result item = Failure)"
  have v: "filter is_valid_success ?fresh \<noteq> [] \<longleftrightarrow> v"
    by (auto simp: filter_empty_conv set_fresh_items proof_of_life_def v_def)
  have f: "filter (\<lambda>item. obs_result item = Failure) ?fresh \<noteq> [] \<longleftrightarrow> f"
    by (auto simp: filter_empty_conv set_fresh_items f_def)
  have m: "filter (\<lambda>item. obs_source item \<noteq> ''abroad'') (filter is_valid_success ?fresh) = [] \<longleftrightarrow> \<not> m"
    by (auto simp: filter_empty_conv set_fresh_items proof_from_members_def m_def)
  have cf: "c \<Longrightarrow> f"
    using outage_confirmed_failing [OF assms, of now observations] by (auto simp: c_def f_def)
  have mv: "m \<Longrightarrow> v"
    by (auto simp: m_def v_def proof_from_members_def proof_of_life_def)
  have code: "ev_state (evaluate_scope observations now expected n) =
    (if c \<and> \<not> m then Unavailable else if v \<and> f then Degraded else if c then Unavailable
     else if v then Operational else if f then Degraded else Unknown)"
    unfolding evaluate_scope_def Let_def fresh_items_eq confirmed_failure_iff [OF assms] v f m
    using False by (simp add: c_def [symmetric])
  have spec: "scope_verdict n now observations =
    (if c \<and> \<not> m then Unavailable else if v \<and> f then Degraded else if v then Operational
     else if f then Degraded else Unknown)"
    by (simp only: scope_verdict_def Let_def c_def v_def m_def f_def)
  show ?thesis
    unfolding code spec using cf mv by auto
qed

subsection \<open>Facts about the verdict\<close>

lemma evaluate_scope_fresh_cong:
  "fresh_items now xs = fresh_items now ys \<Longrightarrow> evaluate_scope xs now expected n = evaluate_scope ys now expected n"
  unfolding evaluate_scope_def Let_def fresh_items_eq by (simp only:)

lemma evaluate_scope_nonempty:
  assumes "fresh_items now observations \<noteq> []"
  shows "\<exists>st reason. evaluate_scope observations now expected n =
    \<lparr>ev_state = st, ev_reason_code = reason,
     ev_observed_at = Some (Max (set (map obs_observed_at (fresh_items now observations)))),
     ev_fresh_until = Some (Max (set (map obs_fresh_until (fresh_items now observations)))),
     ev_evidence_count = length (fresh_items now observations),
     ev_coverage = min 1 (of_nat (card (obs_source ` set (fresh_items now observations))) / of_int (max expected 1))\<rparr>"
  unfolding evaluate_scope_def Let_def fresh_items_eq if_not_P [OF assms] case_prod_beta by blast

lemma evaluate_scope_evidence:
  "ev_evidence_count (evaluate_scope observations now expected n) = length (filter (usable now) observations) \<and>
   ev_coverage (evaluate_scope observations now expected n) =
     min 1 (of_nat (card (obs_source ` {item \<in> set observations. usable now item})) / of_int (max expected 1)) \<and>
   ev_observed_at (evaluate_scope observations now expected n) =
     (if filter (usable now) observations = [] then None
      else Some (Max (obs_observed_at ` {item \<in> set observations. usable now item})))"
proof (cases "fresh_items now observations = []")
  case True
  then have "filter (usable now) observations = []" by (simp add: fresh_items_def)
  then have none: "{item \<in> set observations. usable now item} = {}" by (simp add: filter_empty_conv)
  from True show ?thesis
    unfolding none by (simp add: evaluate_scope_empty \<open>filter (usable now) observations = []\<close>)
next
  case False
  then have "filter (usable now) observations \<noteq> []" by (simp add: fresh_items_def)
  moreover have "length (fresh_items now observations) = length (filter (usable now) observations)"
    by (simp add: fresh_items_def)
  ultimately show ?thesis
    using evaluate_scope_nonempty [OF False, of expected n] by (auto simp: set_fresh_items)
qed

lemma fresh_items_mset:
  assumes "mset xs = mset ys" "distinct (map obs_observed_at xs)"
  shows "fresh_items now xs = fresh_items now ys"
proof -
  from assms(2) have "inj_on obs_observed_at (set (filter (usable now) xs))"
    by (auto simp: distinct_map intro: inj_on_subset)
  moreover from assms(1) have "mset (filter (usable now) xs) = mset (filter (usable now) ys)" by simp
  ultimately show ?thesis unfolding fresh_items_def by (intro sort_key_perm)
qed

lemma full_runs_skip:
  "\<not> obs_full_vpn_test item \<Longrightarrow> full_runs now (xs @ item # ys) src = full_runs now (xs @ ys) src"
  by (simp add: full_runs_def)

lemma unavailable_iff:
  "scope_verdict n now observations = Unavailable \<longleftrightarrow>
     outage_confirmed n now observations \<and> \<not> (\<exists>item \<in> set observations. usable now item \<and> proof_from_members item)"
  by (auto simp: scope_verdict_def Let_def)

lemma outage_confirmed_count:
  assumes "1 \<le> n" "outage_confirmed n now observations"
  shows "\<exists>src. n \<le> int (length (filter (\<lambda>item. usable now item \<and> valid_full_failure item \<and> obs_source item = src) observations))"
proof -
  from assms(2) obtain src where len: "n \<le> int (length (full_runs now observations src))"
    and all: "\<forall>item \<in> set (drop (length (full_runs now observations src) - nat n) (full_runs now observations src)). valid_full_failure item"
    by (auto simp: outage_confirmed_def Let_def)
  let ?runs = "full_runs now observations src"
  let ?k = "length ?runs - nat n"
  have "nat n = length (drop ?k ?runs)" using len assms(1) by simp
  also have "drop ?k ?runs = filter valid_full_failure (drop ?k ?runs)"
    using all by (simp add: filter_id_conv)
  also have "length (filter valid_full_failure (drop ?k ?runs)) \<le> length (filter valid_full_failure ?runs)"
    by (metis append_take_drop_id filter_append length_append le_add2)
  also have "filter valid_full_failure ?runs = sort_key obs_observed_at
      (filter valid_full_failure (filter (\<lambda>item. usable now item \<and> obs_full_vpn_test item \<and> obs_source item = src) observations))"
    by (simp only: full_runs_def sort_key_filter)
  also have "filter valid_full_failure (filter (\<lambda>item. usable now item \<and> obs_full_vpn_test item \<and> obs_source item = src) observations) =
      filter (\<lambda>item. usable now item \<and> valid_full_failure item \<and> obs_source item = src) observations"
    unfolding filter_filter by (rule filter_cong) (auto simp: valid_full_failure_def)
  finally have "nat n \<le> length (filter (\<lambda>item. usable now item \<and> valid_full_failure item \<and> obs_source item = src) observations)"
    by simp
  then show ?thesis by (metis nat_le_iff)
qed

subsection \<open>Properties\<close>

definition sample_test :: "string \<Rightarrow> observation_result \<Rightarrow> datetime \<Rightarrow> observation" where
  \<comment> \<open>a full test with working control internet, fresh for three minutes\<close>
  "sample_test src result t =
     \<lparr>obs_source = src, obs_result = result, obs_observed_at = t, obs_fresh_until = t + minutes 3,
      obs_full_vpn_test = True, obs_control_internet_ok = Some True, obs_reason_code = None,
      obs_route_verified = Some True\<rparr>"

definition sample_handshake :: "observation_result \<Rightarrow> datetime \<Rightarrow> observation" where
  \<comment> \<open>a cross-server handshake: no full test\<close>
  "sample_handshake result t =
     (sample_test ''abroad'' result t)\<lparr>obs_full_vpn_test := False, obs_control_internet_ok := None\<rparr>"

lemmas sample_defs = sample_test_def sample_handshake_def duration_defs

text \<open>
  C1. The evaluator implements its contract: the state it returns is the declared verdict on the
  usable evidence (fresh, and not from a probe that left its path), the count, the coverage and the
  time it reports are those of that evidence. In particular the source's second branch for a
  confirmed outage can never decide.
\<close>

theorem evaluate_scope_correct:
  assumes "1 \<le> n"
  shows "ev_state (evaluate_scope observations now expected n) = scope_verdict n now observations \<and>
    ev_evidence_count (evaluate_scope observations now expected n) = length (filter (usable now) observations) \<and>
    ev_coverage (evaluate_scope observations now expected n) =
      min 1 (of_nat (card (obs_source ` {item \<in> set observations. usable now item})) / of_int (max expected 1)) \<and>
    ev_observed_at (evaluate_scope observations now expected n) =
      (if filter (usable now) observations = [] then None
       else Some (Max (obs_observed_at ` {item \<in> set observations. usable now item})))"
  using evaluate_scope_state [OF assms] evaluate_scope_evidence by simp

theorem evaluate_scope_correct_witness:
  "ev_state (evaluate_scope [sample_test ''pc'' Failure 0, sample_test ''pc'' Failure 60] 100 1 2) = Unavailable"
proof -
  have "scope_verdict 2 100 [sample_test ''pc'' Failure 0, sample_test ''pc'' Failure 60] = Unavailable"
    by (auto simp: unavailable_iff outage_confirmed_def full_runs_def usable_def proof_from_members_def
        is_valid_success_def valid_full_failure_def Let_def sample_defs intro!: exI [of _ "''pc''"])
  then show ?thesis
    using evaluate_scope_correct [of 2 "[sample_test ''pc'' Failure 0, sample_test ''pc'' Failure 60]" 100 1] by simp
qed

text \<open>
  The order in which observations arrive does not matter: two lists of the same observations,
  all observed at different instants, evaluate to the same result.
\<close>

theorem evaluate_scope_order:
  assumes "mset xs = mset ys" "distinct (map obs_observed_at xs)"
  shows "evaluate_scope xs now expected n = evaluate_scope ys now expected n"
  by (rule evaluate_scope_fresh_cong) (rule fresh_items_mset [OF assms])

theorem evaluate_scope_order_witness:
  "evaluate_scope [sample_test ''pc'' Failure 0, sample_test ''pc'' Success 60] 100 1 2 =
   evaluate_scope [sample_test ''pc'' Success 60, sample_test ''pc'' Failure 0] 100 1 2"
  by (rule evaluate_scope_order) (simp_all add: sample_defs)

text \<open>
  Stale evidence and reports from a probe that could not verify its route change nothing:
  the evaluation is the same without them.
\<close>

theorem evaluate_scope_ignores_unusable:
  "evaluate_scope (filter (usable now) observations) now expected n = evaluate_scope observations now expected n"
  by (rule evaluate_scope_fresh_cong) (simp add: fresh_items_def)

text \<open>
  A cross-server handshake never talks a confirmed outage down: adding one, successful or not,
  at any place of the list, leaves an unavailable scope unavailable.
\<close>

theorem evaluate_scope_abroad_cannot_mask:
  assumes "1 \<le> n" "obs_source item = ''abroad''" "\<not> obs_full_vpn_test item"
    and "ev_state (evaluate_scope (xs @ ys) now expected n) = Unavailable"
  shows "ev_state (evaluate_scope (xs @ item # ys) now expected' n) = Unavailable"
proof -
  have "outage_confirmed n now (xs @ item # ys) = outage_confirmed n now (xs @ ys)"
    by (simp add: outage_confirmed_def full_runs_skip assms(3))
  moreover have "\<not> proof_from_members item" by (simp add: proof_from_members_def assms(2))
  ultimately show ?thesis
    using assms(4) by (simp add: evaluate_scope_state assms(1) unavailable_iff)
qed

theorem evaluate_scope_abroad_cannot_mask_witness:
  "ev_state (evaluate_scope [sample_test ''pc'' Failure 0, sample_handshake Success 30, sample_test ''pc'' Failure 60] 100 2 2) = Unavailable"
proof -
  have "ev_state (evaluate_scope ([sample_test ''pc'' Failure 0] @ [sample_test ''pc'' Failure 60]) 100 1 2) = Unavailable"
    by (auto simp: evaluate_scope_state unavailable_iff outage_confirmed_def full_runs_def usable_def proof_from_members_def
        is_valid_success_def valid_full_failure_def Let_def sample_defs intro!: exI [of _ "''pc''"])
  then show ?thesis
    using evaluate_scope_abroad_cannot_mask [of 2 "sample_handshake Success 30" "[sample_test ''pc'' Failure 0]"
        "[sample_test ''pc'' Failure 60]" 100 1 2]
    by (simp add: sample_defs)
qed

text \<open>
  An outage needs its confirmations: if no source has as many fresh, route-verified full-test
  failures with working control internet as the confirmations ask for, the scope is not unavailable.
\<close>

theorem evaluate_scope_needs_confirmations:
  assumes "1 \<le> n"
    and "\<And>src. int (length (filter (\<lambda>item. usable now item \<and> valid_full_failure item \<and> obs_source item = src) observations)) < n"
  shows "ev_state (evaluate_scope observations now expected n) \<noteq> Unavailable"
proof
  assume "ev_state (evaluate_scope observations now expected n) = Unavailable"
  then have "outage_confirmed n now observations"
    by (simp add: evaluate_scope_state assms(1) unavailable_iff)
  then obtain src where
    "n \<le> int (length (filter (\<lambda>item. usable now item \<and> valid_full_failure item \<and> obs_source item = src) observations))"
    using outage_confirmed_count [OF assms(1)] by blast
  with assms(2) [of src] show False by simp
qed

theorem evaluate_scope_needs_confirmations_witness:
  "ev_state (evaluate_scope [sample_test ''pc'' Failure 0, sample_test ''tablet'' Failure 60] 100 1 2) \<noteq> Unavailable"
  by (rule evaluate_scope_needs_confirmations) (auto simp add: sample_defs)

text \<open>
  Absence of evidence is never trouble: a degraded or unavailable scope has a fresh,
  route-verified observation that failed.
\<close>

theorem evaluate_scope_trouble_has_failure:
  assumes "1 \<le> n" "ev_state (evaluate_scope observations now expected n) \<in> {Degraded, Unavailable}"
  shows "\<exists>item \<in> set observations. usable now item \<and> obs_result item = Failure"
proof -
  from assms have "scope_verdict n now observations \<in> {Degraded, Unavailable}"
    by (simp add: evaluate_scope_state)
  then show ?thesis
    using outage_confirmed_failing [OF assms(1), of now observations]
    by (auto simp: scope_verdict_def Let_def split: if_splits)
qed

theorem evaluate_scope_trouble_has_failure_witness:
  "\<exists>item \<in> set [sample_test ''pc'' Failure 0]. usable 100 item \<and> obs_result item = Failure"
proof -
  have "\<not> outage_confirmed 2 100 [sample_test ''pc'' Failure 0]"
    by (simp add: outage_confirmed_def full_runs_def Let_def)
  then have "ev_state (evaluate_scope [sample_test ''pc'' Failure 0] 100 1 2) \<in> {Degraded, Unavailable}"
    by (simp add: evaluate_scope_state scope_verdict_def usable_def sample_defs)
  with evaluate_scope_trouble_has_failure [of 2 "[sample_test ''pc'' Failure 0]" 100 1] show ?thesis by simp
qed

end
