(* ===== verification/Notifications.thy ===== *)
theory Notifications
  imports Repository
begin

text \<open>
  Delivery of the notification queue (\<open>NotificationWorker\<close> in
  src/src/vpnpulse/storage/repository.py): what is due, how several waiting messages about one scope
  collapse into the newest, and what a delivery writes back. The messenger is a parameter: a
  function from the message to what the call did. Within one run no message is handed to the
  messenger twice, so a function of the message loses nothing.
\<close>

subsection \<open>Operations\<close>

datatype send_result = Raised | Returned "bool option"

type_synonym messenger = "queue_row \<Rightarrow> send_result"

definition send_ok :: "send_result \<Rightarrow> bool" where
  \<comment> \<open>\<open>result is not False\<close>, and False when the call raised\<close>
  "send_ok r = (case r of Raised \<Rightarrow> False | Returned result \<Rightarrow> result \<noteq> Some False)"

definition deliver :: "messenger \<Rightarrow> int \<Rightarrow> queue_row \<Rightarrow> datetime \<Rightarrow> queue_row list \<Rightarrow> bool \<times> queue_row list" where
  \<comment> \<open>\<open>_deliver\<close>: the row is the one read at the start of the run\<close>
  "deliver send backoff row now queue =
     (if send_ok (send row) then
        (True, update_where (\<lambda>q. q_id q = q_id row)
           (\<lambda>q. q\<lparr>q_state := Sent, q_attempts := q_attempts q + 1, q_sent_at := Some (StampP now), q_last_error_code := None\<rparr>) queue)
      else
        let attempts = q_attempts row + 1;
            st = (if MAX_ATTEMPTS \<le> attempts then Failed else Pending)
        in (False, update_where (\<lambda>q. q_id q = q_id row)
             (\<lambda>q. q\<lparr>q_state := st, q_attempts := attempts, q_next_attempt_at := StampP (now + seconds (backoff * attempts)),
                   q_last_error_code := Some ''SEND_FAILED''\<rparr>) queue))"

definition is_due :: "datetime \<Rightarrow> queue_row \<Rightarrow> bool" where
  "is_due now q \<longleftrightarrow> q_state q = Pending \<and> q_next_attempt_at q \<le> StampP now"

definition due_rows :: "datetime \<Rightarrow> queue_row list \<Rightarrow> queue_row list" where
  "due_rows now queue = sort_key q_created_at (filter (is_due now) queue)"

definition deliver_one :: "messenger \<Rightarrow> int \<Rightarrow> datetime \<Rightarrow> queue_row list \<Rightarrow> bool \<times> queue_row list" where
  "deliver_one send backoff now queue =
     (case due_rows now queue of
        [] \<Rightarrow> (False, queue)
      | row # _ \<Rightarrow> (True, snd (deliver send backoff row now queue)))"

type_synonym collapse_key = "(string + uid) \<times> string"

definition collapse_key :: "queue_row \<Rightarrow> collapse_key" where
  \<comment> \<open>\<open>params.get("scope_key") or params.get("server_id") or row[0]\<close>, with the destination\<close>
  "collapse_key row =
     (if qp_scope_key (q_params row) \<noteq> [] then Inl (qp_scope_key (q_params row))
      else if qp_server_id (q_params row) \<noteq> [] then Inl (qp_server_id (q_params row))
      else Inr (q_id row), q_destination row)"

definition mark_superseded :: "uid \<Rightarrow> queue_row list \<Rightarrow> queue_row list" where
  "mark_superseded i queue = update_where (\<lambda>q. q_id q = i) (\<lambda>q. q\<lparr>q_state := Superseded\<rparr>) queue"

definition cancels :: "queue_row \<Rightarrow> queue_row \<Rightarrow> bool" where
  \<comment> \<open>the group never heard about the outage, so it does not hear about the recovery\<close>
  "cancels previous row \<longleftrightarrow> q_destination row = ''group'' \<and> q_template_key previous = ''bot.unavailable'' \<and>
     q_template_key row = ''bot.recovered''"

record collapse_state =
  newest_rows :: "(collapse_key \<times> queue_row) list"
  collapse_queue :: "queue_row list"
  superseded_count :: nat

definition collapse_step :: "collapse_state \<Rightarrow> queue_row \<Rightarrow> collapse_state" where
  "collapse_step st row =
     (let key = collapse_key row;
          kept = filter (\<lambda>e. fst e \<noteq> key) (newest_rows st)
      in case map_of (newest_rows st) key of
           None \<Rightarrow> st\<lparr>newest_rows := kept @ [(key, row)]\<rparr>
         | Some previous \<Rightarrow>
             let st' = st\<lparr>newest_rows := kept, collapse_queue := mark_superseded (q_id previous) (collapse_queue st),
                          superseded_count := superseded_count st + 1\<rparr>
             in if cancels previous row then
                  st'\<lparr>collapse_queue := mark_superseded (q_id row) (collapse_queue st'),
                      superseded_count := superseded_count st' + 1\<rparr>
                else st'\<lparr>newest_rows := kept @ [(key, row)]\<rparr>)"

definition collapse :: "queue_row list \<Rightarrow> queue_row list \<Rightarrow> collapse_state" where
  "collapse rows queue = foldl collapse_step \<lparr>newest_rows = [], collapse_queue = queue, superseded_count = 0\<rparr> rows"

fun deliver_rows :: "messenger \<Rightarrow> int \<Rightarrow> datetime \<Rightarrow> queue_row list \<Rightarrow> queue_row list \<Rightarrow> nat \<times> nat \<times> queue_row list" where
  "deliver_rows send backoff now [] queue = (0, 0, queue)"
| "deliver_rows send backoff now (row # rows) queue =
     (let (ok, queue') = deliver send backoff row now queue;
          (sent, failed, result) = deliver_rows send backoff now rows queue'
      in if ok then (sent + 1, failed, result) else (sent, failed + 1, result))"

record delivery_report =
  rep_sent :: nat
  rep_failed :: nat
  rep_superseded :: nat

definition deliver_pending :: "messenger \<Rightarrow> int \<Rightarrow> datetime \<Rightarrow> queue_row list \<Rightarrow> delivery_report \<times> queue_row list" where
  "deliver_pending send backoff now queue =
     (let st = collapse (due_rows now queue) queue;
          (sent, failed, result) = deliver_rows send backoff now (map snd (newest_rows st)) (collapse_queue st)
      in (\<lparr>rep_sent = sent, rep_failed = failed, rep_superseded = superseded_count st\<rparr>, result))"

subsection \<open>The specification: what becomes of each row\<close>

definition survivor_step :: "queue_row option \<Rightarrow> queue_row \<Rightarrow> queue_row option" where
  "survivor_step waiting row =
     (case waiting of None \<Rightarrow> Some row | Some previous \<Rightarrow> if cancels previous row then None else Some row)"

definition survivor :: "queue_row list \<Rightarrow> collapse_key \<Rightarrow> queue_row option" where
  \<comment> \<open>the one message of a scope and destination that is left to send\<close>
  "survivor rows key = foldl survivor_step None (filter (\<lambda>r. collapse_key r = key) rows)"

definition delivered :: "messenger \<Rightarrow> int \<Rightarrow> datetime \<Rightarrow> queue_row \<Rightarrow> queue_row \<Rightarrow> queue_row" where
  "delivered send backoff now row q =
     (if send_ok (send row) then
        q\<lparr>q_state := Sent, q_attempts := q_attempts q + 1, q_sent_at := Some (StampP now), q_last_error_code := None\<rparr>
      else
        q\<lparr>q_state := (if MAX_ATTEMPTS \<le> q_attempts row + 1 then Failed else Pending), q_attempts := q_attempts row + 1,
          q_next_attempt_at := StampP (now + seconds (backoff * (q_attempts row + 1))), q_last_error_code := Some ''SEND_FAILED''\<rparr>)"

definition outcome :: "messenger \<Rightarrow> int \<Rightarrow> datetime \<Rightarrow> queue_row list \<Rightarrow> queue_row \<Rightarrow> queue_row" where
  "outcome send backoff now queue q =
     (if \<not> is_due now q then q
      else if survivor (due_rows now queue) (collapse_key q) = Some q then delivered send backoff now q q
      else q\<lparr>q_state := Superseded\<rparr>)"

subsection \<open>Collapsing\<close>

lemma collapse_snoc: "collapse (rows @ [row]) queue = collapse_step (collapse rows queue) row"
  by (simp add: collapse_def)

lemma survivor_snoc: "survivor (rows @ [row]) key =
    (if collapse_key row = key then survivor_step (survivor rows key) row else survivor rows key)"
  by (simp add: survivor_def)

lemma map_of_filter_other: "map_of (filter (\<lambda>e. fst e \<noteq> key) xs) k = (if k = key then None else map_of xs k)"
  by (induction xs) auto

lemma collapse_step_newest:
  "map_of (newest_rows (collapse_step st row)) =
     (map_of (newest_rows st))(collapse_key row := survivor_step (map_of (newest_rows st) (collapse_key row)) row)"
  by (rule ext) (simp add: collapse_step_def Let_def survivor_step_def map_of_filter_other map_add_def split: option.split)

lemma collapse_newest: "map_of (newest_rows (collapse rows queue)) key = survivor rows key"
proof (induction rows arbitrary: key rule: rev_induct)
  case Nil
  then show ?case by (simp add: collapse_def survivor_def)
next
  case (snoc row rows)
  then show ?case by (simp add: collapse_snoc survivor_snoc collapse_step_newest)
qed

lemma collapse_keys_distinct: "distinct (map fst (newest_rows (collapse rows queue)))"
proof (induction rows rule: rev_induct)
  case Nil
  then show ?case by (simp add: collapse_def)
next
  case (snoc row rows)
  then show ?case
    by (auto simp: collapse_snoc collapse_step_def Let_def distinct_map_filter split: option.split)
qed

lemma survivor_in: "survivor rows key = Some r \<Longrightarrow> r \<in> set rows \<and> collapse_key r = key"
proof (induction rows rule: rev_induct)
  case Nil
  then show ?case by (simp add: survivor_def)
next
  case (snoc row rows)
  then show ?case by (auto simp: survivor_snoc survivor_step_def split: if_splits option.splits)
qed

lemma newest_rows_iff: "(k, r) \<in> set (newest_rows (collapse rows queue)) \<longleftrightarrow> survivor rows k = Some r"
  using collapse_newest [of rows queue k] collapse_keys_distinct [of rows queue] by (metis map_of_eq_Some_iff)

lemma newest_row_survivor:
  "r \<in> snd ` set (newest_rows (collapse rows queue)) \<longleftrightarrow> survivor rows (collapse_key r) = Some r"
proof -
  have "r \<in> snd ` set (newest_rows (collapse rows queue)) \<longleftrightarrow> (\<exists>k. (k, r) \<in> set (newest_rows (collapse rows queue)))"
    by force
  then show ?thesis unfolding newest_rows_iff by (metis survivor_in)
qed

lemma length_filter_key:
  "distinct (map fst xs) \<Longrightarrow>
   length xs = length (filter (\<lambda>e. fst e \<noteq> k) xs) + (case map_of xs k of None \<Rightarrow> 0 | Some _ \<Rightarrow> 1)"
proof (induction xs)
  case (Cons e xs)
  show ?case
  proof (cases "fst e = k")
    case True
    with Cons.prems have "map_of xs k = None" by (auto simp: map_of_eq_None_iff)
    with Cons True show ?thesis by simp
  next
    case False
    with Cons show ?thesis by simp
  qed
qed simp

lemma collapse_count: "superseded_count (collapse rows queue) + length (newest_rows (collapse rows queue)) = length rows"
proof (induction rows rule: rev_induct)
  case Nil
  then show ?case by (simp add: collapse_def)
next
  case (snoc row rows)
  with length_filter_key [OF collapse_keys_distinct, of rows queue "collapse_key row"] show ?case
    by (simp add: collapse_snoc collapse_step_def Let_def split: option.splits)
qed

subsection \<open>The queue after collapsing and delivering\<close>

lemma mark_superseded_map:
  "mark_superseded i (map (\<lambda>q. if P q then q\<lparr>q_state := Superseded\<rparr> else q) queue) =
     map (\<lambda>q. if P q \<or> q_id q = i then q\<lparr>q_state := Superseded\<rparr> else q) queue"
  by (simp add: mark_superseded_def update_where_def)

lemma snd_filter_keys:
  "(\<And>e. e \<in> set xs \<Longrightarrow> fst e = c (snd e)) \<Longrightarrow>
   snd ` set (filter (\<lambda>e. fst e \<noteq> k) xs) = {r \<in> snd ` set xs. c r \<noteq> k}"
  by (induction xs) auto

lemma ids_cancelled:
  "p \<in> R \<Longrightarrow> r \<notin> N \<Longrightarrow> ((i \<in> R \<and> i \<notin> N \<or> i = p) \<or> i = r) = (i \<in> insert r R \<and> i \<notin> N - {p})"
  by blast

lemma ids_replaced:
  "p \<in> R \<Longrightarrow> r \<notin> R \<Longrightarrow> (i \<in> R \<and> i \<notin> N \<or> i = p) = (i \<in> insert r R \<and> i \<notin> insert r (N - {p}))"
  by blast

lemma collapse_queue_eq:
  assumes "unique q_id rows"
  shows "collapse_queue (collapse rows queue) =
    map (\<lambda>q. if q_id q \<in> q_id ` set rows \<and> q_id q \<notin> q_id ` snd ` set (newest_rows (collapse rows queue))
             then q\<lparr>q_state := Superseded\<rparr> else q) queue"
  using assms
proof (induction rows rule: rev_induct)
  case Nil
  then show ?case by (simp add: collapse_def)
next
  case (snoc row rows)
  let ?st = "collapse rows queue"
  let ?key = "collapse_key row"
  let ?news = "snd ` set (newest_rows ?st)"
  let ?news' = "snd ` set (newest_rows (collapse_step ?st row))"
  from snoc.prems have uniq: "unique q_id rows" and new: "q_id row \<notin> q_id ` set rows" by (simp_all add: unique_append)
  note IH = snoc.IH [OF uniq]
  have sub: "?news \<subseteq> set rows" using newest_row_survivor survivor_in by blast
  show ?case
  proof (cases "map_of (newest_rows ?st) ?key")
    case None
    then have "filter (\<lambda>e. fst e \<noteq> ?key) (newest_rows ?st) = newest_rows ?st"
      unfolding filter_id_conv map_of_eq_None_iff by (metis imageI)
    with None have news: "?news' = insert row ?news" and "collapse_queue (collapse_step ?st row) = collapse_queue ?st"
      by (auto simp: collapse_step_def Let_def)
    with new sub show ?thesis
      unfolding collapse_snoc IH by (auto intro!: map_cong)
  next
    case (Some previous)
    then have prev: "(?key, previous) \<in> set (newest_rows ?st)" by (rule map_of_SomeD)
    with newest_rows_iff survivor_in have prev_in: "previous \<in> set rows" "collapse_key previous = ?key" by blast+
    have key: "fst e = collapse_key (snd e)" if "e \<in> set (newest_rows ?st)" for e
      using that newest_rows_iff [of "fst e" "snd e" rows queue] survivor_in by simp
    have "r = previous" if "r \<in> ?news" "collapse_key r = ?key" for r
      using that prev newest_row_survivor [of r rows queue] newest_rows_iff [of ?key previous rows queue] by simp
    then have "?news - {previous} = {r \<in> ?news. collapse_key r \<noteq> ?key}"
      using prev_in(2) by blast
    moreover have "snd ` set (filter (\<lambda>e. fst e \<noteq> ?key) (newest_rows ?st)) = {r \<in> ?news. collapse_key r \<noteq> ?key}"
      by (rule snd_filter_keys [OF key])
    ultimately have kept: "snd ` set (filter (\<lambda>e. fst e \<noteq> ?key) (newest_rows ?st)) = ?news - {previous}" by simp
    have ids: "q_id ` (?news - {previous}) = q_id ` ?news - {q_id previous}"
      using unique_same [OF uniq] sub prev_in by blast
    have news: "?news' = (if cancels previous row then ?news - {previous} else insert row (?news - {previous}))"
      using Some kept by (auto simp: collapse_step_def Let_def)
    have queue: "collapse_queue (collapse_step ?st row) =
        (if cancels previous row then mark_superseded (q_id row) (mark_superseded (q_id previous) (collapse_queue ?st))
         else mark_superseded (q_id previous) (collapse_queue ?st))"
      using Some by (simp add: collapse_step_def Let_def)
    have "q_id previous \<in> q_id ` set rows" "q_id row \<notin> q_id ` ?news" using prev_in new sub by blast+
    note facts = this new
    have ids': "q_id ` ?news' = (if cancels previous row then q_id ` ?news - {q_id previous} else insert (q_id row) (q_id ` ?news - {q_id previous}))"
      unfolding news using ids by simp
    have rows': "q_id ` set (rows @ [row]) = insert (q_id row) (q_id ` set rows)" by simp
    show ?thesis
    proof (cases "cancels previous row")
      case True
      show ?thesis
        unfolding collapse_snoc queue IH mark_superseded_map ids' rows' if_P [OF True]
        by (intro map_cong if_cong refl ids_cancelled facts)
    next
      case False
      show ?thesis
        unfolding collapse_snoc queue IH mark_superseded_map ids' rows' if_not_P [OF False]
        by (intro map_cong if_cong refl ids_replaced facts)
    qed
  qed
qed

lemma deliver_eq:
  "deliver send backoff row now queue =
     (send_ok (send row), update_where (\<lambda>q. q_id q = q_id row) (delivered send backoff now row) queue)"
  by (simp add: deliver_def delivered_def [abs_def] Let_def)

lemma delivered_id [simp]: "q_id (delivered send backoff now row q) = q_id q"
  by (simp add: delivered_def)

interpretation delivering: key_update q_id "delivered send backoff now row" for send backoff now row
  by unfold_locales simp

lemma deliver_rows_eq:
  "unique q_id rows \<Longrightarrow>
   deliver_rows send backoff now rows queue =
     (length (filter (\<lambda>r. send_ok (send r)) rows), length (filter (\<lambda>r. \<not> send_ok (send r)) rows),
      map (\<lambda>q. case find (\<lambda>r. q_id r = q_id q) rows of None \<Rightarrow> q | Some r \<Rightarrow> delivered send backoff now r q) queue)"
proof (induction rows arbitrary: queue)
  case (Cons row rows)
  then have uniq: "unique q_id rows" and new: "find (\<lambda>r. q_id r = q_id row) rows = None"
    by (auto simp: unique_def find_None_iff_none image_iff)
  have "(\<lambda>q. case find (\<lambda>r. q_id r = q_id q) rows of None \<Rightarrow> q | Some r \<Rightarrow> delivered send backoff now r q)
        (if q_id q = q_id row then delivered send backoff now row q else q) =
      (case find (\<lambda>r. q_id r = q_id q) (row # rows) of None \<Rightarrow> q | Some r \<Rightarrow> delivered send backoff now r q)" for q
    using new by (auto split: option.split)
  then show ?case
    by (simp add: deliver_eq Cons.IH [OF uniq] update_where_def o_def Let_def)
qed simp

lemma due_rows_set: "set (due_rows now queue) = {q \<in> set queue. is_due now q}"
  by (auto simp: due_rows_def)

lemma due_rows_unique: "unique q_id queue \<Longrightarrow> unique q_id (due_rows now queue)"
  unfolding unique_def due_rows_def
  by (metis distinct_map distinct_sort set_sort unique_def unique_filter)

lemma newest_rows_in_due: "r \<in> snd ` set (newest_rows (collapse rows queue)) \<Longrightarrow> r \<in> set rows"
  using newest_row_survivor survivor_in by blast

lemma newest_rows_unique:
  assumes "unique q_id rows"
  shows "unique q_id (map snd (newest_rows (collapse rows queue)))"
proof -
  let ?news = "newest_rows (collapse rows queue)"
  have "inj_on (\<lambda>e. q_id (snd e)) (set ?news)"
  proof (rule inj_onI)
    fix e e'
    assume e: "e \<in> set ?news" "e' \<in> set ?news" "q_id (snd e) = q_id (snd e')"
    then have "survivor rows (fst e) = Some (snd e)" "survivor rows (fst e') = Some (snd e')"
      using newest_rows_iff [of "fst e" "snd e" rows queue] newest_rows_iff [of "fst e'" "snd e'" rows queue] by simp_all
    with survivor_in e(3) unique_same [OF assms] show "e = e'"
      by (metis prod_eqI)
  qed
  moreover have "distinct ?news" using collapse_keys_distinct by (simp add: distinct_map)
  ultimately show ?thesis by (simp add: unique_def distinct_map o_def)
qed

lemma deliver_pending_queue:
  assumes uniq: "unique q_id queue"
  shows "snd (deliver_pending send backoff now queue) = map (outcome send backoff now queue) queue"
proof -
  let ?rows = "due_rows now queue"
  let ?st = "collapse ?rows queue"
  let ?news = "map snd (newest_rows ?st)"
  let ?sup = "\<lambda>q. if q_id q \<in> q_id ` set ?rows \<and> q_id q \<notin> q_id ` set ?news then q\<lparr>q_state := Superseded\<rparr> else q"
  let ?del = "\<lambda>q. case find (\<lambda>r. q_id r = q_id q) ?news of None \<Rightarrow> q | Some r \<Rightarrow> delivered send backoff now r q"
  note uniq_rows = due_rows_unique [OF uniq, of now]
  note uniq_news = newest_rows_unique [OF uniq_rows, of queue]
  have queue: "snd (deliver_pending send backoff now queue) = map (?del \<circ> ?sup) queue"
    by (simp add: deliver_pending_def Let_def deliver_rows_eq [OF uniq_news] collapse_queue_eq [OF uniq_rows] split_def image_image)
  have "(?del \<circ> ?sup) q = outcome send backoff now queue q" if q: "q \<in> set queue" for q
  proof -
    have due: "q_id q \<in> q_id ` set ?rows \<longleftrightarrow> is_due now q"
      unfolding due_rows_set using q unique_same [OF uniq] by blast
    have in_news: "q_id q \<in> q_id ` set ?news \<longleftrightarrow> q \<in> set ?news"
      using q unique_same [OF uniq] newest_rows_in_due [of _ ?rows queue] unfolding due_rows_set set_map by blast
    have news: "q \<in> set ?news \<longleftrightarrow> survivor ?rows (collapse_key q) = Some q"
      unfolding set_map by (rule newest_row_survivor)
    show ?thesis
    proof (cases "q \<in> set ?news")
      case True
      then have "is_due now q" using newest_rows_in_due [of q ?rows queue] unfolding due_rows_set set_map by blast
      moreover have "find (\<lambda>r. q_id r = q_id q) ?news = Some q" by (rule find_unique [OF uniq_news True])
      ultimately show ?thesis using True in_news news by (simp add: outcome_def)
    next
      case False
      then have "find (\<lambda>r. q_id r = q_id q) ?news = None"
        unfolding find_None_iff_none using in_news by (metis imageI)
      with False show ?thesis using in_news news due by (simp add: outcome_def)
    qed
  qed
  then show ?thesis unfolding queue by (intro map_cong) simp_all
qed

lemma deliver_pending_report:
  assumes "unique q_id queue" and "report = fst (deliver_pending send backoff now queue)"
  shows "rep_sent report + rep_failed report + rep_superseded report = length (filter (is_due now) queue)"
proof -
  let ?rows = "due_rows now queue"
  let ?st = "collapse ?rows queue"
  let ?news = "map snd (newest_rows ?st)"
  have "rep_sent report + rep_failed report + rep_superseded report = length ?news + superseded_count ?st"
    using assms(2) sum_length_filter_compl [of "\<lambda>r. send_ok (send r)" ?news]
    by (simp add: deliver_pending_def Let_def deliver_rows_eq [OF newest_rows_unique [OF due_rows_unique [OF assms(1)]]] split_def)
  also have "\<dots> = length ?rows" using collapse_count [of ?rows queue] by simp
  finally show ?thesis by (simp add: due_rows_def)
qed

subsection \<open>Saving and delivering, in any order\<close>

definition attempts_ok :: "queue_row \<Rightarrow> bool" where
  "attempts_ok q \<longleftrightarrow> 0 \<le> q_attempts q \<and> q_attempts q \<le> MAX_ATTEMPTS \<and> (q_state q = Pending \<longrightarrow> q_attempts q < MAX_ATTEMPTS)"

definition storage_inv :: "db \<Rightarrow> bool" where
  "storage_inv d \<longleftrightarrow> repository_inv d \<and> list_all attempts_ok (db_queue d)"

inductive repo_step :: "db \<Rightarrow> db \<Rightarrow> bool" where
  save: "repo_step d (snd (save_evaluation quiet d scope_key server_id network_scope evaluation evaluated_at))"
| deliver_all: "repo_step d (d\<lparr>db_queue := snd (deliver_pending send backoff now (db_queue d))\<rparr>)"
| deliver_first: "repo_step d (d\<lparr>db_queue := snd (deliver_one send backoff now (db_queue d))\<rparr>)"

inductive_cases repo_stepE: "repo_step d d'"

definition rewrites_queue :: "(queue_row \<Rightarrow> queue_row) \<Rightarrow> bool" where
  \<comment> \<open>what a delivery run may do to a row: the identity stays, nothing becomes pending again\<close>
  "rewrites_queue f \<longleftrightarrow> (\<forall>q. q_id (f q) = q_id q \<and> q_transition_id (f q) = q_transition_id q \<and>
     q_dedupe_key (f q) = q_dedupe_key q \<and> q_destination (f q) = q_destination q \<and> (q_state (f q) = Pending \<longrightarrow> q_state q = Pending))"

lemma repository_inv_queue_map:
  assumes "repository_inv d" "rewrites_queue f"
  shows "repository_inv (d\<lparr>db_queue := map f (db_queue d)\<rparr>)"
proof -
  from assms(2) have f: "q_id (f q) = q_id q" "q_transition_id (f q) = q_transition_id q" "q_dedupe_key (f q) = q_dedupe_key q"
      "q_destination (f q) = q_destination q" "q_state (f q) = Pending \<Longrightarrow> q_state q = Pending" for q
    by (simp_all add: rewrites_queue_def)
  have ok: "queue_row_ok d (f q) = queue_row_ok d q" for q by (simp add: queue_row_ok_def f)
  have scope: "in_scope d s (f q) = in_scope d s q" for s q by (rule in_scope_params) (rule f)
  have "length (pending_admin_notices (d\<lparr>db_queue := map f (db_queue d)\<rparr>) s) \<le> length (pending_admin_notices d s)" for s
  proof -
    have "length (filter (\<lambda>q. in_scope d s q \<and> q_destination q = ''admin'' \<and> q_state q = Pending) (map f (db_queue d)))
      \<le> length (filter (\<lambda>q. in_scope d s q \<and> q_destination q = ''admin'' \<and> q_state q = Pending) (db_queue d))"
      by (rule length_filter_map_le) (simp add: scope f)
    then show ?thesis by (simp add: pending_admin_notices_def)
  qed
  then have "one_notice (d\<lparr>db_queue := map f (db_queue d)\<rparr>)"
    using assms(1) unfolding repository_inv_def one_notice_def by (meson order_trans)
  moreover have "unique q_id (map f (db_queue d)) = unique q_id (db_queue d)"
    by (simp add: unique_def o_def f(1))
  ultimately show ?thesis
    using assms(1) by (auto simp: repository_inv_def transitions_wf_def queue_wf_def one_open_def ok)
qed

lemma rewrites_delivered: "q_state q = Pending \<Longrightarrow> row = q \<Longrightarrow> attempts_ok q \<Longrightarrow> attempts_ok (delivered send backoff now row q)"
  by (auto simp: attempts_ok_def delivered_def MAX_ATTEMPTS_def)

lemma rewrites_outcome: "rewrites_queue (outcome send backoff now queue)"
  by (simp add: rewrites_queue_def outcome_def delivered_def is_due_def)

lemma attempts_outcome: "attempts_ok q \<Longrightarrow> attempts_ok (outcome send backoff now queue q)"
  by (auto simp: attempts_ok_def outcome_def delivered_def is_due_def MAX_ATTEMPTS_def)

lemma storage_inv_unique: "storage_inv d \<Longrightarrow> unique q_id (db_queue d)"
  by (simp add: storage_inv_def repository_inv_def queue_wf_def)

lemma storage_inv_map:
  "storage_inv d \<Longrightarrow> rewrites_queue f \<Longrightarrow> (\<And>q. q \<in> set (db_queue d) \<Longrightarrow> attempts_ok q \<Longrightarrow> attempts_ok (f q)) \<Longrightarrow>
   storage_inv (d\<lparr>db_queue := map f (db_queue d)\<rparr>)"
  by (auto simp: storage_inv_def repository_inv_queue_map list_all_iff)

lemma storage_inv_deliver_pending:
  assumes "storage_inv d"
  shows "storage_inv (d\<lparr>db_queue := snd (deliver_pending send backoff now (db_queue d))\<rparr>)"
  unfolding deliver_pending_queue [OF storage_inv_unique [OF assms]]
  by (intro storage_inv_map assms rewrites_outcome attempts_outcome)

lemma deliver_one_queue:
  assumes "unique q_id queue"
  shows "snd (deliver_one send backoff now queue) =
    map (\<lambda>q. if is_due now q \<and> first_row (due_rows now queue) = Some q then delivered send backoff now q q else q) queue"
proof (cases "due_rows now queue")
  case Nil
  then show ?thesis by (simp add: deliver_one_def first_row_def)
next
  case (Cons row rows)
  then have "row \<in> set (due_rows now queue)" by simp
  then have row: "row \<in> set queue" "is_due now row" by (simp_all add: due_rows_set)
  have "q_id q = q_id row \<longleftrightarrow> is_due now q \<and> row = q" if "q \<in> set queue" for q
    using unique_same [OF assms that row(1)] row(2) by blast
  with Cons show ?thesis by (auto simp: deliver_one_def first_row_def deliver_eq update_where_def)
qed

lemma storage_inv_deliver_one:
  assumes "storage_inv d"
  shows "storage_inv (d\<lparr>db_queue := snd (deliver_one send backoff now (db_queue d))\<rparr>)"
  unfolding deliver_one_queue [OF storage_inv_unique [OF assms]]
  by (intro storage_inv_map assms) (auto simp: rewrites_queue_def delivered_def is_due_def attempts_ok_def MAX_ATTEMPTS_def)

lemma save_evaluation_attempts:
  assumes "list_all attempts_ok (db_queue d)"
  shows "list_all attempts_ok (db_queue (snd (save_evaluation quiet d scope_key server_id network_scope evaluation evaluated_at)))"
proof (cases "ev_state evaluation = previous_state d scope_key")
  case True
  with assms show ?thesis by (simp add: save_evaluation_unchanged)
next
  case False
  have quiet: "list_all attempts_ok (db_queue (quiet_step d scope_key server_id network_scope evaluation evaluated_at))"
    using assms by (auto simp: quiet_step_def Let_def supersede_eq list_all_iff attempts_ok_def)
  from False show ?thesis
  proof (cases rule: save_evaluation_cases [where quiet = quiet and server_id = server_id
        and network_scope = network_scope and evaluated_at = evaluated_at])
    case silent
    with quiet show ?thesis by simp
  next
    case (queued plan)
    with quiet show ?thesis
      by (auto simp: enqueue_def insert_or_ignore_def attempts_ok_def MAX_ATTEMPTS_def)
  qed
qed

lemma storage_inv_step: "repo_step d d' \<Longrightarrow> storage_inv d \<Longrightarrow> storage_inv d'"
proof (induction rule: repo_step.induct)
  case (save d quiet scope_key server_id network_scope evaluation evaluated_at)
  then show ?case unfolding storage_inv_def by (intro conjI save_evaluation_inv save_evaluation_attempts) simp_all
qed (intro storage_inv_deliver_pending storage_inv_deliver_one; assumption)+

lemma storage_inv_reachable: "repo_step\<^sup>*\<^sup>* empty_db d \<Longrightarrow> storage_inv d"
proof (induction rule: rtranclp_induct)
  case base
  have "storage_inv empty_db" by (simp add: storage_inv_def repository_inv_empty) (simp add: empty_db_def)
  then show ?case .
next
  case (step d d')
  then show ?case by (metis storage_inv_step)
qed

subsection \<open>Delivery comes to an end\<close>

definition work_of :: "queue_row \<Rightarrow> nat" where
  \<comment> \<open>how many attempts a row has left\<close>
  "work_of q = (if q_state q = Pending then nat (MAX_ATTEMPTS - q_attempts q) else 0)"

definition work :: "queue_row list \<Rightarrow> nat" where
  "work queue = sum_list (map work_of queue)"

fun deliver_runs :: "int \<Rightarrow> (messenger \<times> datetime) list \<Rightarrow> queue_row list \<Rightarrow> queue_row list option" where
  \<comment> \<open>runs of the worker that all found something due\<close>
  "deliver_runs backoff [] queue = Some queue"
| "deliver_runs backoff ((send, now) # runs) queue =
     (if list_ex (is_due now) queue then deliver_runs backoff runs (snd (deliver_pending send backoff now queue)) else None)"

lemma work_of_outcome: "attempts_ok q \<Longrightarrow> work_of (outcome send backoff now queue q) \<le> work_of q"
  by (auto simp: work_of_def outcome_def delivered_def is_due_def attempts_ok_def MAX_ATTEMPTS_def)

lemma work_of_outcome_due: "attempts_ok q \<Longrightarrow> is_due now q \<Longrightarrow> work_of (outcome send backoff now queue q) < work_of q"
  by (auto simp: work_of_def outcome_def delivered_def is_due_def attempts_ok_def MAX_ATTEMPTS_def)

lemma sum_list_less:
  fixes f g :: "'a \<Rightarrow> nat"
  assumes "\<And>x. x \<in> set xs \<Longrightarrow> f x \<le> g x" "y \<in> set xs" "f y < g y"
  shows "sum_list (map f xs) < sum_list (map g xs)"
  using assms
proof (induction xs)
  case (Cons x xs)
  have le: "sum_list (map f xs) \<le> sum_list (map g xs)"
    by (rule sum_list_mono) (use Cons.prems in simp)
  show ?case
  proof (cases "x = y")
    case True
    with le Cons.prems show ?thesis by simp
  next
    case False
    with Cons have "sum_list (map f xs) < sum_list (map g xs)" by simp
    moreover have "f x \<le> g x" using Cons.prems by simp
    ultimately show ?thesis by simp
  qed
qed simp

lemma deliver_runs_work:
  "unique q_id queue \<Longrightarrow> list_all attempts_ok queue \<Longrightarrow> deliver_runs backoff runs queue = Some result \<Longrightarrow>
   length runs + work result \<le> work queue"
proof (induction backoff runs queue rule: deliver_runs.induct)
  case (2 backoff send now runs queue)
  let ?f = "outcome send backoff now queue"
  have due: "list_ex (is_due now) queue" and runs: "deliver_runs backoff runs (map ?f queue) = Some result"
    using "2.prems" by (auto simp: deliver_pending_queue split: if_splits)
  then obtain q where q: "q \<in> set queue" "is_due now q" by (auto simp: list_ex_iff)
  have "work (map ?f queue) < work queue"
    unfolding work_def map_map
    by (rule sum_list_less [where y = q]) (use "2.prems"(2) q in \<open>simp_all add: list_all_iff work_of_outcome work_of_outcome_due\<close>)
  moreover have "unique q_id (map ?f queue)"
    using "2.prems"(1) rewrites_outcome [of send backoff now queue] by (simp add: unique_def o_def rewrites_queue_def)
  then have "length runs + work result \<le> work (map ?f queue)"
    using "2.IH" [OF due] "2.prems"(1,2) runs by (simp add: deliver_pending_queue list_all_iff attempts_outcome)
  ultimately show ?case by simp
qed simp

subsection \<open>Properties\<close>

definition sample_row :: "string \<Rightarrow> string \<Rightarrow> string \<Rightarrow> datetime \<Rightarrow> queue_row" where
  "sample_row i scope_key template t =
     \<lparr>q_id = Uuid4 i, q_transition_id = Uuid4 i, q_destination = ''group'', q_template_key = template,
      q_params = \<lparr>qp_server_id = ''s1'', qp_scope_key = scope_key, qp_state = Unavailable, qp_from_state = Operational\<rparr>,
      q_state = Pending, q_attempts = 0, q_next_attempt_at = StampP t, q_sent_at = None, q_last_error_code = None,
      q_dedupe_key = Uuid4 i, q_created_at = StampP t\<rparr>"

text \<open>
  C5. A delivery run does to every row what the specification says: rows that are not due are left
  alone; of the due rows of one scope and destination one survivor is handed to the
  messenger, none when it would announce the end of an outage never announced, the others are
  superseded; and sent, failed and superseded add up to the due rows.
\<close>

theorem deliver_pending_correct:
  assumes "unique q_id queue" "deliver_pending send backoff now queue = (report, queue')"
  shows "queue' = map (outcome send backoff now queue) queue \<and>
    rep_sent report + rep_failed report + rep_superseded report = length (filter (is_due now) queue)"
  using deliver_pending_queue [OF assms(1), of send backoff now] deliver_pending_report [OF assms(1), of report send backoff now] assms(2)
  by simp

theorem deliver_pending_correct_witness:
  "snd (deliver_pending (\<lambda>_. Returned None) 30 20 [sample_row ''a'' ''s1'' ''bot.unavailable'' 5, sample_row ''b'' ''s1'' ''bot.recovered'' 7]) =
     map (\<lambda>q. q\<lparr>q_state := Superseded\<rparr>) [sample_row ''a'' ''s1'' ''bot.unavailable'' 5, sample_row ''b'' ''s1'' ''bot.recovered'' 7]"
  using deliver_pending_correct [of "[sample_row ''a'' ''s1'' ''bot.unavailable'' 5, sample_row ''b'' ''s1'' ''bot.recovered'' 7]"
      "\<lambda>_. Returned None" 30 20, OF _ prod.collapse [symmetric]]
  by (simp add: unique_def sample_row_def outcome_def due_rows_def is_due_def survivor_def survivor_step_def cancels_def
      collapse_key_def)

text \<open>
  C6. A messenger that never answers cannot keep the queue busy for ever: every run that finds
  something due spends an attempt, so the number of such runs is at most the number of attempts the waiting
  messages have left, twenty each.
\<close>

theorem delivery_terminates:
  assumes "unique q_id queue" "list_all attempts_ok queue" "deliver_runs backoff runs queue = Some result"
  shows "length runs \<le> work queue \<and> work queue \<le> 20 * length (filter (\<lambda>q. q_state q = Pending) queue)"
proof
  show "length runs \<le> work queue" using deliver_runs_work [OF assms] by simp
  show "work queue \<le> 20 * length (filter (\<lambda>q. q_state q = Pending) queue)"
    using assms(2) by (induction queue) (auto simp: work_def work_of_def attempts_ok_def MAX_ATTEMPTS_def)
qed

theorem delivery_terminates_witness:
  "length ([(\<lambda>_. Raised, 20), (\<lambda>_. Raised, 40000000)] :: (messenger \<times> datetime) list) \<le> work [sample_row ''a'' ''s1'' ''bot.unavailable'' 5]"
proof (rule delivery_terminates [THEN conjunct1])
  show "deliver_runs 30 [(\<lambda>_. Raised, 20), (\<lambda>_. Raised, 40000000)] [sample_row ''a'' ''s1'' ''bot.unavailable'' 5] =
      Some (snd (deliver_pending (\<lambda>_. Raised) 30 40000000
        (snd (deliver_pending (\<lambda>_. Raised) 30 20 [sample_row ''a'' ''s1'' ''bot.unavailable'' 5]))))"
    by (simp add: deliver_pending_queue unique_def sample_row_def outcome_def due_rows_def is_due_def survivor_def survivor_step_def
        collapse_key_def delivered_def send_ok_def MAX_ATTEMPTS_def seconds_def)
qed (simp_all add: unique_def sample_row_def attempts_ok_def MAX_ATTEMPTS_def)

text \<open>
  C7. In every state reached from the empty database by saving evaluations and delivering
  messages in any order, the storage invariant holds: no scope has two waiting messages to the administrator
  or two open transitions, and no message is waiting after its twentieth attempt.
\<close>

theorem storage_invariant_reachable:
  assumes "repo_step\<^sup>*\<^sup>* empty_db d"
  shows "repository_inv d \<and> list_all attempts_ok (db_queue d)"
  using storage_inv_reachable [OF assms] by (simp add: storage_inv_def)

theorem storage_invariant_reachable_witness:
  "repository_inv (snd (save_evaluation 600 empty_db ''s1:domestic'' ''s1'' ''domestic'' (sample_evaluation Unavailable (Some 5)) 7))"
  using storage_invariant_reachable [OF r_into_rtranclp, OF repo_step.save] by blast

end
