(* ===== verification/Pipeline.thy ===== *)
theory Pipeline
  imports Evaluator Notifications Retention
begin

text \<open>
  The monitoring loop (src/src/vpnpulse/pipeline.py): collect, evaluate, notify, maintain. A
  collector is a function of the clock that returns observations or raises; run identifiers, trace identifiers
  and measured durations are arguments. An operation returns the database it leaves behind
  together with its result, because what earlier transactions of the run committed stays when a later
  one raises.
\<close>

subsection \<open>Collect\<close>

record collected =
  co_server_id :: string
  co_source :: string
  co_result :: string
  co_observed_at :: datetime
  co_metrics :: jdict
  co_error_code :: "string option"
  co_network_scope :: string
  co_full_vpn_test :: bool
  co_control_internet_ok :: "bool option"
  co_probe_id :: "string option"

record collector =
  col_name :: string
  col_collect :: "datetime \<Rightarrow> collected list option"  \<comment> \<open>None: the call raised\<close>

definition PROBE_KIND_OF_SOURCE :: "(string \<times> string) list" where
  "PROBE_KIND_OF_SOURCE = [(''pc'', ''pc''), (''mobile'', ''android''), (''abroad'', ''abroad'')]"

definition PROBE_CAPABILITIES :: "(string \<times> string list) list" where
  "PROBE_CAPABILITIES = [(''pc'', [''control_internet'', ''handshake'', ''https'']), (''android'', [''dns'', ''tcp'']), (''abroad'', [''handshake''])]"

definition dict_set :: "string \<Rightarrow> json \<Rightarrow> jdict \<Rightarrow> jdict" where
  "dict_set k v d = AList.update k v d"

definition observation_of :: "config \<Rightarrow> collected \<Rightarrow> uid \<Rightarrow> nat \<Rightarrow> datetime \<Rightarrow> observation_row" where
  "observation_of config item run index now =
     (let metrics = (if co_source item \<noteq> ''collector'' then
                       dict_set ''control_internet_ok'' (jopt JBool (co_control_internet_ok item))
                         (dict_set ''full_vpn_test'' (JBool (co_full_vpn_test item)) (co_metrics item))
                     else co_metrics item)
      in \<lparr>ob_id = Uuid5 ''pipeline'' [KUid run, KNat index], ob_server_id = co_server_id item, ob_source_kind = co_source item,
          ob_network_scope = co_network_scope item, ob_observed_at = StampZ (co_observed_at item), ob_received_at = StampZ now,
          ob_result = co_result item, ob_fresh_until = StampZ (co_observed_at item + freshness config), ob_confidence = ''sufficient'',
          ob_metrics = Some (JObj metrics), ob_error_code = co_error_code item, ob_run_id = Some run, ob_report_id = None\<rparr>)"

definition merge_probe :: "probe_row \<Rightarrow> probe_row \<Rightarrow> probe_row" where
  \<comment> \<open>\<open>last_seen_at = MAX(COALESCE(probes.last_seen_at, ''), excluded.last_seen_at)\<close>\<close>
  "merge_probe old excluded =
     old\<lparr>pb_last_seen_at := (case (pb_last_seen_at old, pb_last_seen_at excluded) of
            (Some a, Some b) \<Rightarrow> Some (max a b) | (None, b) \<Rightarrow> b | (a, None) \<Rightarrow> a)\<rparr>"

definition scripted_probe :: "collected \<Rightarrow> string \<Rightarrow> string \<Rightarrow> datetime \<Rightarrow> probe_row" where
  "scripted_probe item probe_id kind now =
     \<lparr>pb_id = probe_id, pb_public_id = probe_id, pb_kind = kind, pb_status = ''active'',
      pb_capabilities = or_default [] (map_of PROBE_CAPABILITIES kind), pb_token_hash = ScriptToken, pb_token_prefix = ''script'',
      pb_schema_major = 1, pb_agent_version = ''scripted'', pb_enrolled_at = StampZ now,
      pb_last_seen_at = Some (StampZ (co_observed_at item)), pb_revoked_at = None, pb_via_server_id = None\<rparr>"

definition touch_probe :: "collected \<Rightarrow> datetime \<Rightarrow> db \<Rightarrow> db" where
  "touch_probe item now d =
     (case co_probe_id item of
        None \<Rightarrow> d
      | Some probe_id \<Rightarrow>
          if probe_id = [] then d
          else case map_of PROBE_KIND_OF_SOURCE (co_source item) of
                 None \<Rightarrow> d
               | Some kind \<Rightarrow> d\<lparr>db_probes := upsert pb_id merge_probe (scripted_probe item probe_id kind now) (db_probes d)\<rparr>)"

definition write_observation :: "config \<Rightarrow> collected \<Rightarrow> uid \<Rightarrow> nat \<Rightarrow> datetime \<Rightarrow> db \<Rightarrow> report_error + db" where
  "write_observation config item run index now d =
     bind_err (insert_observation (observation_of config item run index now) d) (\<lambda>d'. Inr (touch_probe item now d'))"

definition store_item :: "config \<Rightarrow> string set \<Rightarrow> uid \<Rightarrow> datetime \<Rightarrow> collected \<Rightarrow> db \<times> nat \<Rightarrow> report_error + db \<times> nat" where
  \<comment> \<open>never invent a server the configuration does not know\<close>
  "store_item config known run now item s =
     (let (d, written) = s
      in if co_server_id item \<notin> known then Inr (d, written)
         else bind_err (write_observation config item run written now d) (\<lambda>d'. Inr (d', written + 1)))"

fun collect_from ::
  "config \<Rightarrow> string set \<Rightarrow> uid \<Rightarrow> datetime \<Rightarrow> collector list \<Rightarrow> db \<Rightarrow> nat \<Rightarrow> string list \<Rightarrow> db \<times> (report_error + nat \<times> string list)" where
  "collect_from config known run now [] d written failed = (d, Inr (written, failed))"
| "collect_from config known run now (c # cs) d written failed =
     (case col_collect c now of
        None \<Rightarrow> collect_from config known run now cs d written (failed @ [col_name c])
      | Some items \<Rightarrow>
          (case fold_err (store_item config known run now) items (d, written) of
             Inl e \<Rightarrow> (d, Inl e)
           | Inr (d', written') \<Rightarrow> collect_from config known run now cs d' written' failed))"

record collect_summary =
  cs_observations :: nat
  cs_failed_collectors :: "string list"
  cs_result :: string

definition collect :: "config \<Rightarrow> collector list \<Rightarrow> db \<Rightarrow> datetime \<Rightarrow> uid \<Rightarrow> string \<Rightarrow> int \<Rightarrow> db \<times> (report_error + collect_summary)" where
  "collect config collectors d now run trace_id duration_ms =
     (case insert_row run_id \<lparr>run_id = run, run_started_at = StampZ now, run_finished_at = None, run_result = None,
             run_trace_id = trace_id, run_duration_ms = None, run_error_code = None\<rparr> (db_runs d) of
        Inl _ \<Rightarrow> (d, Inl ReportIntegrity)
      | Inr runs \<Rightarrow>
          (case collect_from config (known_servers d) run now collectors (d\<lparr>db_runs := runs\<rparr>) 0 [] of
             (d', Inl e) \<Rightarrow> (d', Inl e)
           | (d', Inr (written, failed)) \<Rightarrow>
               let result = (if failed = [] then ''ok'' else if written \<noteq> 0 then ''partial'' else ''error'')
               in (d'\<lparr>db_runs := update_where (\<lambda>r. run_id r = run)
                       (\<lambda>r. r\<lparr>run_finished_at := Some (StampZ now), run_result := Some result, run_duration_ms := Some duration_ms,
                             run_error_code := (if failed \<noteq> [] then Some ''COLLECTOR_FAILED'' else None)\<rparr>) (db_runs d')\<rparr>,
                   Inr \<lparr>cs_observations = written, cs_failed_collectors = failed, cs_result = result\<rparr>)))"

subsection \<open>Evaluate\<close>

definition parse_observation :: "observation_row \<Rightarrow> observation option" where
  "parse_observation r =
     (let metrics = loads_or_empty (ob_metrics r)
      in map_option (\<lambda>parsed. \<lparr>obs_source = ob_source_kind r, obs_result = parsed, obs_observed_at = dt_of (ob_observed_at r),
            obs_fresh_until = dt_of (ob_fresh_until r), obs_full_vpn_test = truthy (jget metrics ''full_vpn_test''),
            obs_control_internet_ok = as_bool (jget metrics ''control_internet_ok''), obs_reason_code = ob_error_code r,
            obs_route_verified = as_bool (jget metrics ''route_verified'')\<rparr>) (parse_result (ob_result r)))"

definition observations_of :: "db \<Rightarrow> string \<Rightarrow> datetime \<Rightarrow> observation list" where
  "observations_of d server_id now =
     List.map_filter parse_observation
       (sort_key ob_observed_at (filter (\<lambda>r. ob_server_id r = server_id \<and> StampZ now \<le> ob_fresh_until r) (db_observations d)))"

definition expected_sources :: "db \<Rightarrow> string \<Rightarrow> datetime \<Rightarrow> int" where
  "expected_sources d server_id now =
     max 1 (int (card (ob_source_kind ` set (filter (\<lambda>r. ob_server_id r = server_id \<and> StampZ (now - hours 24) \<le> ob_observed_at r)
        (db_observations d)))))"

definition confirmations :: "config \<Rightarrow> int" where
  "confirmations config = or_default 2 (cfg_confirmations config)"

definition quiet_seconds :: "config \<Rightarrow> int" where
  "quiet_seconds config = or_default 600 (cfg_quiet_notice_seconds config)"

definition server_scope :: "string \<Rightarrow> string" where
  "server_scope server_id = ''server:'' @ server_id"

definition evaluation_of :: "config \<Rightarrow> db \<Rightarrow> string \<Rightarrow> datetime \<Rightarrow> evaluation" where
  "evaluation_of config d server_id now =
     evaluate_scope (observations_of d server_id now) now (expected_sources d server_id now) (confirmations config)"

definition event_severity :: "state \<Rightarrow> string" where
  "event_severity s = (case s of Unavailable \<Rightarrow> ''critical'' | Degraded \<Rightarrow> ''warning'' | Operational \<Rightarrow> ''info'' | Unknown \<Rightarrow> ''info'')"

definition write_event :: "uid \<Rightarrow> string \<Rightarrow> state \<Rightarrow> state \<Rightarrow> datetime \<Rightarrow> db \<Rightarrow> db" where
  "write_event transition_id server_id previous current now d =
     (let recovery = (current = Operational \<and> (previous = Degraded \<or> previous = Unavailable))
      in d\<lparr>db_events := insert_or_ignore evt_id
            \<lparr>evt_id = Uuid5 ''pipeline'' [KStr ''event'', KUid transition_id],
             evt_kind = (if recovery then ''recovery'' else ''state_change''), evt_severity = event_severity current,
             evt_server_id = Some server_id, evt_transition_id = Some transition_id,
             evt_title_key = (if recovery then ''events.recovered'' else ''events.stateChanged''),
             evt_params = [(''state'', JStr (state_value current))], evt_occurred_at = StampZ now, evt_visible_to = ''member'',
             evt_created_at = StampZ now\<rparr> (db_events d)\<rparr>)"

record transition_summary =
  ts_server_id :: string
  ts_from :: state
  ts_to :: state
  ts_reason :: string

definition evaluate_server :: "config \<Rightarrow> datetime \<Rightarrow> db \<times> transition_summary list \<Rightarrow> server_config \<Rightarrow> db \<times> transition_summary list" where
  "evaluate_server config now s server =
     (let (d, transitions) = s;
          sid = sc_id server;
          previous = previous_state d (server_scope sid);
          evaluation = evaluation_of config d sid now
      in case save_evaluation (quiet_seconds config) d (server_scope sid) sid ''all'' evaluation now of
           (None, d') \<Rightarrow> (d', transitions)
         | (Some tid, d') \<Rightarrow>
             (write_event tid sid previous (ev_state evaluation) now d',
              transitions @ [\<lparr>ts_server_id = sid, ts_from = previous, ts_to = ev_state evaluation, ts_reason = ev_reason_code evaluation\<rparr>]))"

definition evaluate :: "config \<Rightarrow> db \<Rightarrow> datetime \<Rightarrow> db \<times> transition_summary list" where
  "evaluate config d now = foldl (evaluate_server config now) (d, []) (enabled_servers config)"

subsection \<open>Maintain\<close>

definition hour :: timedelta where "hour = hours 1"

definition hour_start :: "datetime \<Rightarrow> datetime" where
  \<comment> \<open>\<open>now.replace(minute=0, second=0, microsecond=0)\<close> in UTC\<close>
  "hour_start t = t - t mod hour"

definition connections_value :: "jtext \<Rightarrow> string \<Rightarrow> json" where
  \<comment> \<open>\<open>(json.loads(text).get("connections") or {}).get(kind)\<close>; text that is not JSON gives None\<close>
  "connections_value t kind = jget (as_dict (jget (loads_or_empty t) ''connections'')) kind"

definition collector_rows :: "db \<Rightarrow> string \<Rightarrow> datetime \<Rightarrow> datetime \<Rightarrow> observation_row list" where
  "collector_rows d server_id lo hi =
     filter (\<lambda>r. ob_server_id r = server_id \<and> ob_source_kind r = ''collector'' \<and> StampZ lo \<le> ob_observed_at r \<and> ob_observed_at r < StampZ hi)
       (db_observations d)"

definition hourly_values :: "observation_row list \<Rightarrow> string \<Rightarrow> (datetime \<times> (datetime \<times> rat) list) list" where
  \<comment> \<open>the numbers a protocol's rows report, by hour; a missing value is skipped\<close>
  "hourly_values rows kind =
     group_by fst (List.map_filter (\<lambda>r. map_option (\<lambda>v. (hour_start (dt_of (ob_observed_at r)), v)) (as_num (connections_value (ob_metrics r) kind))) rows)"

definition metric_of :: "int \<Rightarrow> protocol_row \<Rightarrow> datetime \<times> (datetime \<times> rat) list \<Rightarrow> metric_row" where
  "metric_of interval_seconds p bucket =
     (let values = map snd (snd bucket)
      in \<lparr>mt_bucket_at = StampZ (fst bucket), mt_server_id = pr_server_id p, mt_protocol_id = pr_id p, mt_metric = ''connections'',
          mt_min = Min (set values), mt_max = Max (set values), mt_avg = sum_list values / of_nat (length values),
          mt_samples = length values, mt_unknown_seconds = max 0 (3600 - int (length values) * interval_seconds)\<rparr>)"

definition metric_key :: "metric_row \<Rightarrow> stamp \<times> string \<times> string \<times> string" where
  "metric_key m = (mt_bucket_at m, mt_server_id m, mt_protocol_id m, mt_metric m)"

definition insert_metric :: "metric_row \<Rightarrow> metric_row list \<times> nat \<Rightarrow> sql_error + metric_row list \<times> nat" where
  "insert_metric m s = bind_err (insert_row metric_key m (fst s)) (\<lambda>rows. Inr (rows, snd s + 1))"

definition aggregate_protocol :: "int \<Rightarrow> db \<Rightarrow> datetime \<Rightarrow> datetime \<Rightarrow> protocol_row \<Rightarrow> metric_row list \<times> nat \<Rightarrow> sql_error + metric_row list \<times> nat" where
  "aggregate_protocol interval_seconds d lo hi p s =
     (let buckets = hourly_values (collector_rows d (pr_server_id p) lo hi) (pr_kind p);
          kept = delete_where (\<lambda>m. mt_server_id m = pr_server_id p \<and> mt_protocol_id m = pr_id p \<and> mt_metric m = ''connections'' \<and>
                    StampZ lo \<le> mt_bucket_at m \<and> mt_bucket_at m < StampZ hi) (fst s)
      in fold_err (\<lambda>b. insert_metric (metric_of interval_seconds p b)) buckets (kept, snd s))"

definition collection_interval :: "config \<Rightarrow> int" where
  "collection_interval config = or_default 60 (cfg_collection_interval_seconds config)"

definition aggregate_hourly :: "config \<Rightarrow> db \<Rightarrow> datetime \<Rightarrow> int \<Rightarrow> sql_error + nat \<times> db" where
  "aggregate_hourly config d now hrs =
     (let hi = hour_start now;
          lo = hi - hours hrs
      in bind_err (fold_err (aggregate_protocol (collection_interval config) d lo hi) (filter pr_enabled (db_protocols d)) (db_metrics d, 0))
           (\<lambda>(metrics, rows). Inr (rows, d\<lparr>db_metrics := metrics\<rparr>)))"

record maintenance_summary =
  ms_swept :: sweep_counts
  ms_swept_aggregates :: nat
  ms_aggregated :: nat

definition aggregates_kept :: "config \<Rightarrow> timedelta" where
  "aggregates_kept config = days (or_default 90 (cfg_aggregates_days config))"

definition maintain :: "config \<Rightarrow> db \<Rightarrow> datetime \<Rightarrow> db \<times> (sql_error + maintenance_summary)" where
  "maintain config d now =
     (let (counts, d1) = sweep config d now;
          old = (\<lambda>m. mt_bucket_at m < StampZ (now - aggregates_kept config));
          d2 = d1\<lparr>db_metrics := delete_where old (db_metrics d1)\<rparr>
      in case aggregate_hourly config d2 now 25 of
           Inl e \<Rightarrow> (d2, Inl e)
         | Inr (rows, d3) \<Rightarrow> (d3, Inr \<lparr>ms_swept = counts, ms_swept_aggregates = count_where old (db_metrics d1), ms_aggregated = rows\<rparr>))"

subsection \<open>The loop\<close>

record pipeline_state =
  pl_db :: db
  pl_runs :: nat
  pl_last_maintenance :: "datetime option"

record run_inputs =
  in_run_id :: uid
  in_trace_id :: string
  in_duration_ms :: int
  in_messenger :: messenger

definition maintenance_due :: "timedelta \<Rightarrow> pipeline_state \<Rightarrow> datetime \<Rightarrow> bool" where
  "maintenance_due interval p now = (case pl_last_maintenance p of None \<Rightarrow> True | Some t \<Rightarrow> interval \<le> now - t)"

record run_summary =
  rs_at :: datetime
  rs_collected :: collect_summary
  rs_transitions :: "transition_summary list"
  rs_notifications :: delivery_report
  rs_maintenance :: "maintenance_summary option"

datatype run_error = CollectFailed report_error | MaintainFailed sql_error

definition notify :: "messenger \<Rightarrow> int \<Rightarrow> datetime \<Rightarrow> db \<Rightarrow> delivery_report \<times> db" where
  "notify send backoff now d =
     (let (report, queue) = deliver_pending send backoff now (db_queue d) in (report, d\<lparr>db_queue := queue\<rparr>))"

definition run_once ::
  "config \<Rightarrow> collector list \<Rightarrow> int \<Rightarrow> timedelta \<Rightarrow> run_inputs \<Rightarrow> datetime \<Rightarrow> pipeline_state \<Rightarrow> pipeline_state \<times> (run_error + run_summary)" where
  "run_once config collectors backoff interval inp now p =
     (let d0 = (if pl_runs p = 0 then sync_servers (pl_db p) config now else pl_db p)
      in case collect config collectors d0 now (in_run_id inp) (in_trace_id inp) (in_duration_ms inp) of
           (d1, Inl e) \<Rightarrow> (p\<lparr>pl_db := d1\<rparr>, Inl (CollectFailed e))
         | (d1, Inr collected) \<Rightarrow>
             let (d2, transitions) = evaluate config d1 now;
                 (report, d3) = notify (in_messenger inp) backoff now d2
             in if maintenance_due interval p now then
                  (case maintain config d3 now of
                     (d4, Inl e) \<Rightarrow> (p\<lparr>pl_db := d4\<rparr>, Inl (MaintainFailed e))
                   | (d4, Inr maintained) \<Rightarrow>
                       (p\<lparr>pl_db := d4, pl_last_maintenance := Some now, pl_runs := pl_runs p + 1\<rparr>,
                        Inr \<lparr>rs_at = now, rs_collected = collected, rs_transitions = transitions, rs_notifications = report,
                             rs_maintenance = Some maintained\<rparr>))
                else
                  (p\<lparr>pl_db := d3, pl_runs := pl_runs p + 1\<rparr>,
                   Inr \<lparr>rs_at = now, rs_collected = collected, rs_transitions = transitions, rs_notifications = report,
                        rs_maintenance = None\<rparr>))"

subsection \<open>What the steps leave alone\<close>

lemma touch_probe_frame [simp]:
  "db_observations (touch_probe item now d) = db_observations d" "db_servers (touch_probe item now d) = db_servers d"
  "db_runs (touch_probe item now d) = db_runs d" "db_reports (touch_probe item now d) = db_reports d"
  "db_snapshots (touch_probe item now d) = db_snapshots d" "db_transitions (touch_probe item now d) = db_transitions d"
  "db_queue (touch_probe item now d) = db_queue d"
  by (simp_all add: touch_probe_def split: option.split)

lemma save_evaluation_frame:
  "db_observations (snd (save_evaluation quiet d s i n e t)) = db_observations d"
  "db_servers (snd (save_evaluation quiet d s i n e t)) = db_servers d"
  "db_reports (snd (save_evaluation quiet d s i n e t)) = db_reports d"
  "db_runs (snd (save_evaluation quiet d s i n e t)) = db_runs d"
  by (simp_all add: save_evaluation_def Let_def write_snapshot_def write_transition_def split: option.split)

lemma write_event_frame [simp]:
  "db_observations (write_event i s a b t d) = db_observations d" "db_servers (write_event i s a b t d) = db_servers d"
  "db_reports (write_event i s a b t d) = db_reports d" "db_runs (write_event i s a b t d) = db_runs d"
  "db_snapshots (write_event i s a b t d) = db_snapshots d" "db_transitions (write_event i s a b t d) = db_transitions d"
  "db_queue (write_event i s a b t d) = db_queue d"
  by (simp_all add: write_event_def Let_def)

lemma storage_inv_cong:
  "db_snapshots d = db_snapshots d' \<Longrightarrow> db_transitions d = db_transitions d' \<Longrightarrow> db_queue d = db_queue d' \<Longrightarrow> storage_inv d = storage_inv d'"
  by (simp add: storage_inv_def repository_inv_def transitions_wf_def queue_wf_def queue_row_ok_def one_notice_def one_open_def
      pending_admin_notices_def in_scope_def)

lemma evaluate_server_db:
  "fst (evaluate_server config now (d, ts) server) =
     (case save_evaluation (quiet_seconds config) d (server_scope (sc_id server)) (sc_id server) ''all''
             (evaluation_of config d (sc_id server) now) now of
        (None, d') \<Rightarrow> d'
      | (Some tid, d') \<Rightarrow> write_event tid (sc_id server) (previous_state d (server_scope (sc_id server)))
          (ev_state (evaluation_of config d (sc_id server) now)) now d')"
  by (simp add: evaluate_server_def Let_def split: prod.split option.split)

lemma evaluate_server_tables:
  fixes f :: "db \<Rightarrow> 'x"
  assumes "\<And>e. f (snd (save_evaluation (quiet_seconds config) d (server_scope (sc_id server)) (sc_id server) ''all'' e now)) = x"
    and "\<And>i s a b t d. f (write_event i s a b t d) = f d"
  shows "f (fst (evaluate_server config now (d, ts) server)) = x"
proof (cases "save_evaluation (quiet_seconds config) d (server_scope (sc_id server)) (sc_id server) ''all'' (evaluation_of config d (sc_id server) now) now")
  case (Pair tid d')
  with assms(1) [of "evaluation_of config d (sc_id server) now"] have "f d' = x" by simp
  with Pair assms(2) show ?thesis unfolding evaluate_server_db by (cases tid) simp_all
qed

lemma evaluate_server_frame [simp]:
  "db_observations (fst (evaluate_server config now (d, ts) server)) = db_observations d"
  "db_servers (fst (evaluate_server config now (d, ts) server)) = db_servers d"
  "db_reports (fst (evaluate_server config now (d, ts) server)) = db_reports d"
  "db_runs (fst (evaluate_server config now (d, ts) server)) = db_runs d"
  by (rule evaluate_server_tables; simp add: save_evaluation_frame)+

lemma previous_state_write_event [simp]: "previous_state (write_event i s a b t d) = previous_state d"
  by (rule ext) (simp add: previous_state_def snapshot_row_of_def)

lemma evaluate_server_state:
  "previous_state (fst (evaluate_server config now (d, ts) server)) =
     (previous_state d)(server_scope (sc_id server) := ev_state (evaluation_of config d (sc_id server) now))"
  by (cases "save_evaluation (quiet_seconds config) d (server_scope (sc_id server)) (sc_id server) ''all'' (evaluation_of config d (sc_id server) now) now")
    (use previous_state_save [of "quiet_seconds config" d "server_scope (sc_id server)" "sc_id server" "''all''"
      "evaluation_of config d (sc_id server) now" now] in \<open>auto simp: evaluate_server_db split: option.split\<close>)

lemma evaluation_of_cong: "db_observations d = db_observations d' \<Longrightarrow> evaluation_of config d sid now = evaluation_of config d' sid now"
  by (simp add: evaluation_of_def observations_of_def expected_sources_def)

lemma server_scope_inj [simp]: "server_scope a = server_scope b \<longleftrightarrow> a = b"
  by (simp add: server_scope_def)

lemma evaluate_servers:
  "db_observations (fst (foldl (evaluate_server config now) (d, ts) servers)) = db_observations d \<and>
   (\<forall>scope. previous_state (fst (foldl (evaluate_server config now) (d, ts) servers)) scope =
     (case find (\<lambda>s. server_scope (sc_id s) = scope) servers of
        None \<Rightarrow> previous_state d scope | Some s \<Rightarrow> ev_state (evaluation_of config d (sc_id s) now)))"
proof (induction servers arbitrary: d ts)
  case (Cons server servers)
  let ?d = "fst (evaluate_server config now (d, ts) server)"
  let ?ts = "snd (evaluate_server config now (d, ts) server)"
  have fold: "foldl (evaluate_server config now) (d, ts) (server # servers) = foldl (evaluate_server config now) (?d, ?ts) servers"
    by simp
  have same: "evaluation_of config ?d sid now = evaluation_of config d sid now" for sid
    by (rule evaluation_of_cong) simp
  show ?case
    unfolding fold using Cons.IH [of ?d ?ts]
    by (auto simp: evaluate_server_state same split: option.split dest: find_Some_in)
qed simp

lemma evaluate_states:
  "previous_state (fst (evaluate config d now)) scope =
     (case find (\<lambda>s. server_scope (sc_id s) = scope) (enabled_servers config) of
        None \<Rightarrow> previous_state d scope | Some s \<Rightarrow> ev_state (evaluation_of config d (sc_id s) now))"
  using evaluate_servers [of config now d "[]" "enabled_servers config"] by (simp add: evaluate_def)

subsection \<open>Collecting\<close>

definition collected_items :: "collector list \<Rightarrow> datetime \<Rightarrow> string set \<Rightarrow> collected list" where
  \<comment> \<open>what the collectors that answered say about configured servers\<close>
  "collected_items collectors now known =
     filter (\<lambda>i. co_server_id i \<in> known) (concat (map (\<lambda>c. or_default [] (col_collect c now)) collectors))"

definition run_observations :: "config \<Rightarrow> uid \<Rightarrow> datetime \<Rightarrow> nat \<Rightarrow> collected list \<Rightarrow> observation_row list" where
  "run_observations config run now n items = map (\<lambda>(i, item). observation_of config item run i now) (enumerate n items)"

definition run_slots_free :: "uid \<Rightarrow> nat \<Rightarrow> db \<Rightarrow> bool" where
  \<comment> \<open>the run is in the table and has used the observation ids below \<open>n\<close> only\<close>
  "run_slots_free run n d \<longleftrightarrow> run \<in> run_id ` set (db_runs d) \<and>
     (\<forall>o' \<in> set (db_observations d). \<forall>i. ob_id o' = Uuid5 ''pipeline'' [KUid run, KNat i] \<longrightarrow> i < n)"

lemma observation_of_fields [simp]:
  "ob_id (observation_of config item run n now) = Uuid5 ''pipeline'' [KUid run, KNat n]"
  "ob_server_id (observation_of config item run n now) = co_server_id item"
  "ob_report_id (observation_of config item run n now) = None"
  "ob_run_id (observation_of config item run n now) = Some run"
  by (simp_all add: observation_of_def Let_def)

lemma store_item_new:
  assumes "run_slots_free run n d" "co_server_id item \<in> known_servers d"
  shows "\<exists>d'. store_item config (known_servers d) run now item (d, n) = Inr (d', n + 1) \<and>
    db_observations d' = db_observations d @ [observation_of config item run n now] \<and> known_servers d' = known_servers d \<and>
    run_slots_free run (n + 1) d'"
proof -
  let ?obs = "observation_of config item run n now"
  have "ob_id ?obs \<notin> ob_id ` set (db_observations d)"
  proof
    assume "ob_id ?obs \<in> ob_id ` set (db_observations d)"
    then obtain o' where "o' \<in> set (db_observations d)" "ob_id o' = ob_id ?obs" by (metis imageE)
    with assms(1) show False by (auto simp: run_slots_free_def)
  qed
  then have "insert_observation ?obs d = Inr (d\<lparr>db_observations := db_observations d @ [?obs]\<rparr>)"
    using assms by (simp add: insert_observation_def insert_row_def run_slots_free_def)
  with assms show ?thesis
    by (auto simp: store_item_def write_observation_def known_servers_def run_slots_free_def intro: less_SucI)
qed

lemma store_items:
  "run_slots_free run n d \<Longrightarrow>
   \<exists>d'. fold_err (store_item config (known_servers d) run now) items (d, n) =
       Inr (d', n + length (filter (\<lambda>i. co_server_id i \<in> known_servers d) items)) \<and>
     db_observations d' = db_observations d @ run_observations config run now n (filter (\<lambda>i. co_server_id i \<in> known_servers d) items) \<and>
     known_servers d' = known_servers d \<and>
     run_slots_free run (n + length (filter (\<lambda>i. co_server_id i \<in> known_servers d) items)) d'"
proof (induction items arbitrary: d n)
  case Nil
  then show ?case by (simp add: run_observations_def)
next
  case (Cons item items)
  show ?case
  proof (cases "co_server_id item \<in> known_servers d")
    case False
    with Cons show ?thesis by (simp add: store_item_def)
  next
    case True
    from store_item_new [OF Cons.prems True] obtain e where
      e: "store_item config (known_servers d) run now item (d, n) = Inr (e, n + 1)"
        "db_observations e = db_observations d @ [observation_of config item run n now]" "known_servers e = known_servers d"
        "run_slots_free run (n + 1) e"
      by blast
    from Cons.IH [OF e(4)] e True show ?thesis
      by (simp add: run_observations_def)
  qed
qed

lemma run_observations_append:
  "run_observations config run now n (xs @ ys) = run_observations config run now n xs @ run_observations config run now (n + length xs) ys"
  by (simp add: run_observations_def enumerate_append_eq)

definition failed_names :: "collector list \<Rightarrow> datetime \<Rightarrow> string list" where
  "failed_names collectors now = map col_name (filter (\<lambda>c. col_collect c now = None) collectors)"

lemma collect_from_all:
  "run_slots_free run n d \<Longrightarrow>
   \<exists>d'. collect_from config (known_servers d) run now cs d n failed =
       (d', Inr (n + length (collected_items cs now (known_servers d)), failed @ failed_names cs now)) \<and>
     db_observations d' = db_observations d @ run_observations config run now n (collected_items cs now (known_servers d)) \<and>
     known_servers d' = known_servers d"
proof (induction cs arbitrary: d n failed)
  case Nil
  then show ?case by (simp add: collected_items_def failed_names_def run_observations_def)
next
  case (Cons c cs)
  show ?case
  proof (cases "col_collect c now")
    case None
    with Cons.IH [OF Cons.prems, of "failed @ [col_name c]"] show ?thesis
      by (simp add: collected_items_def failed_names_def)
  next
    case (Some items)
    let ?known = "filter (\<lambda>i. co_server_id i \<in> known_servers d) items"
    from store_items [OF Cons.prems, of config now items] obtain e where
      e: "fold_err (store_item config (known_servers d) run now) items (d, n) = Inr (e, n + length ?known)"
        "db_observations e = db_observations d @ run_observations config run now n ?known" "known_servers e = known_servers d"
        "run_slots_free run (n + length ?known) e"
      by blast
    have items: "collected_items (c # cs) now (known_servers d) = ?known @ collected_items cs now (known_servers d)"
      using Some by (simp add: collected_items_def)
    have names: "failed_names (c # cs) now = failed_names cs now" using Some by (simp add: failed_names_def)
    from Cons.IH [OF e(4), of failed] e(1-3) Some show ?thesis
      unfolding items names by (simp add: run_observations_append add.assoc)
  qed
qed

definition fresh_run :: "uid \<Rightarrow> db \<Rightarrow> bool" where
  "fresh_run run d \<longleftrightarrow> run \<notin> run_id ` set (db_runs d) \<and>
     (\<forall>o' \<in> set (db_observations d). \<forall>i. ob_id o' \<noteq> Uuid5 ''pipeline'' [KUid run, KNat i])"

lemma known_servers_runs [simp]: "known_servers (d\<lparr>db_runs := r\<rparr>) = known_servers d"
  by (simp add: known_servers_def)

lemma collect_all:
  assumes "fresh_run run d"
  shows "\<exists>d'. collect config collectors d now run trace duration =
      (d', Inr \<lparr>cs_observations = length (collected_items collectors now (known_servers d)),
                cs_failed_collectors = failed_names collectors now,
                cs_result = (if failed_names collectors now = [] then ''ok''
                             else if collected_items collectors now (known_servers d) \<noteq> [] then ''partial'' else ''error'')\<rparr>) \<and>
    db_observations d' = db_observations d @ run_observations config run now 0 (collected_items collectors now (known_servers d))"
proof -
  let ?row = "\<lparr>run_id = run, run_started_at = StampZ now, run_finished_at = None, run_result = None,
      run_trace_id = trace, run_duration_ms = None, run_error_code = None\<rparr>"
  let ?d = "d\<lparr>db_runs := db_runs d @ [?row]\<rparr>"
  have "run_slots_free run 0 ?d" using assms by (simp add: run_slots_free_def fresh_run_def)
  from collect_from_all [OF this, of config now collectors "[]"] obtain d' where
    "collect_from config (known_servers d) run now collectors ?d 0 [] =
       (d', Inr (length (collected_items collectors now (known_servers d)), failed_names collectors now))"
    "db_observations d' = db_observations d @ run_observations config run now 0 (collected_items collectors now (known_servers d))"
    by auto
  moreover have "insert_row run_id ?row (db_runs d) = Inr (db_runs d @ [?row])"
    using assms by (simp add: insert_row_def fresh_run_def)
  ultimately show ?thesis by (simp add: collect_def Let_def)
qed

subsection \<open>The invariant of a run\<close>

definition pipeline_inv :: "db \<Rightarrow> bool" where
  "pipeline_inv d \<longleftrightarrow> storage_inv d \<and> report_refs d \<and> unique run_id (db_runs d) \<and> unique metric_key (db_metrics d)"

lemma observation_refs_pipeline:
  "ob_report_id o' = None \<Longrightarrow> ob_server_id o' \<in> known_servers d \<Longrightarrow> ob_id o' = Uuid5 ''pipeline'' [KUid run, KNat n] \<Longrightarrow>
   observation_refs d o'"
  by (simp add: observation_refs_def)

lemma insert_observation_refs:
  assumes "report_refs d" "insert_observation row d = Inr d'" "ob_report_id row = None" "ob_id row = Uuid5 ''pipeline'' [KUid run, KNat n]"
  shows "report_refs d'"
proof -
  from assms(2) have d': "d' = d\<lparr>db_observations := db_observations d @ [row]\<rparr>" "ob_id row \<notin> ob_id ` set (db_observations d)"
      "ob_server_id row \<in> known_servers d"
    by (auto simp: insert_observation_def insert_row_def split: if_splits)
  have "observation_refs d' o'" if "observation_refs d o'" for o'
    using that by (rule observation_refs_mono) (simp_all add: d'(1) has_report_def)
  moreover have "observation_refs d' row"
    using d' assms(3,4) by (intro observation_refs_pipeline) simp_all
  ultimately show ?thesis
    using assms(1) d'(2) by (auto simp: report_refs_def list_all_iff d'(1) unique_append)
qed

lemma report_refs_touch [simp]: "report_refs (touch_probe item now d) = report_refs d"
  by (rule report_refs_cong) simp_all

lemma storage_inv_frame:
  "storage_inv (d\<lparr>db_observations := x1\<rparr>) = storage_inv d" "storage_inv (d\<lparr>db_runs := x2\<rparr>) = storage_inv d"
  "storage_inv (d\<lparr>db_metrics := x3\<rparr>) = storage_inv d" "storage_inv (touch_probe item now d) = storage_inv d"
  "storage_inv (write_event i s a b t d) = storage_inv d"
  by (rule storage_inv_cong; simp)+

lemma report_refs_frame:
  "report_refs (d\<lparr>db_runs := x2\<rparr>) = report_refs d" "report_refs (d\<lparr>db_metrics := x3\<rparr>) = report_refs d"
  "report_refs (d\<lparr>db_queue := x4\<rparr>) = report_refs d"
  by (rule report_refs_cong; simp)+

lemma touch_probe_metrics [simp]: "db_metrics (touch_probe item now d) = db_metrics d"
  by (simp add: touch_probe_def split: option.split)

lemma pipeline_inv_store_item:
  assumes "pipeline_inv d" "store_item config known run now item (d, n) = Inr (d', n')"
  shows "pipeline_inv d'"
proof (cases "co_server_id item \<in> known")
  case False
  with assms show ?thesis by (simp add: store_item_def)
next
  case True
  with assms(2) obtain e where e: "insert_observation (observation_of config item run n now) d = Inr e" "d' = touch_probe item now e"
    by (auto simp: store_item_def write_observation_def bind_err_Inr)
  then have "e = d\<lparr>db_observations := db_observations d @ [observation_of config item run n now]\<rparr>"
    by (auto simp: insert_observation_def insert_row_def split: if_splits)
  moreover have "report_refs e" using assms(1) by (intro insert_observation_refs [OF _ e(1)]) (simp_all add: pipeline_inv_def)
  ultimately show ?thesis using assms(1) e(2) by (simp add: pipeline_inv_def storage_inv_frame)
qed

lemma pipeline_inv_collect_from:
  "pipeline_inv d \<Longrightarrow> pipeline_inv (fst (collect_from config known run now cs d n failed))"
proof (induction config known run now cs d n failed rule: collect_from.induct)
  case (2 config known run now c cs d n failed)
  show ?case
  proof (cases "col_collect c now")
    case None
    with 2 show ?thesis by simp
  next
    case (Some items)
    show ?thesis
    proof (cases "fold_err (store_item config known run now) items (d, n)")
      case (Inl e)
      with Some 2 show ?thesis by simp
    next
      case (Inr s)
      have "pipeline_inv (fst s)"
        by (rule fold_err_inv [where I = "\<lambda>s. pipeline_inv (fst s)", OF _ _ Inr]) (use "2.prems" pipeline_inv_store_item in auto)
      with Some Inr 2 show ?thesis by (cases s) simp
    qed
  qed
qed simp

interpretation finishing: key_update run_id
  "\<lambda>r. r\<lparr>run_finished_at := a, run_result := b, run_duration_ms := c, run_error_code := e\<rparr>" for a b c e
  by unfold_locales simp

lemma pipeline_inv_runs: "pipeline_inv d \<Longrightarrow> unique run_id rows \<Longrightarrow> pipeline_inv (d\<lparr>db_runs := rows\<rparr>)"
  by (simp add: pipeline_inv_def storage_inv_frame report_refs_frame)

lemma pipeline_inv_collect:
  assumes "pipeline_inv d"
  shows "pipeline_inv (fst (collect config collectors d now run trace duration))"
proof -
  let ?row = "\<lparr>run_id = run, run_started_at = StampZ now, run_finished_at = None, run_result = None,
      run_trace_id = trace, run_duration_ms = None, run_error_code = None\<rparr>"
  show ?thesis
  proof (cases "insert_row run_id ?row (db_runs d)")
    case (Inl e)
    with assms show ?thesis by (simp add: collect_def)
  next
    case (Inr rows)
    have "unique run_id rows"
      using unique_insert_row [OF _ Inr] assms by (simp add: pipeline_inv_def)
    then have inv: "pipeline_inv (fst (collect_from config (known_servers d) run now collectors (d\<lparr>db_runs := rows\<rparr>) 0 []))"
      using assms by (intro pipeline_inv_collect_from pipeline_inv_runs)
    obtain e r where result: "collect_from config (known_servers d) run now collectors (d\<lparr>db_runs := rows\<rparr>) 0 [] = (e, r)"
      by fastforce
    show ?thesis
    proof (cases r)
      case (Inl err)
      with Inr inv result show ?thesis by (simp add: collect_def)
    next
      case (Inr summary)
      with \<open>insert_row run_id ?row (db_runs d) = Inr rows\<close> inv result show ?thesis
        by (cases summary) (simp add: collect_def Let_def pipeline_inv_runs finishing.unique_update pipeline_inv_def storage_inv_frame report_refs_frame)
    qed
  qed
qed

lemma pipeline_inv_evaluate_server:
  assumes "pipeline_inv d"
  shows "pipeline_inv (fst (evaluate_server config now (d, ts) server))"
proof -
  let ?save = "save_evaluation (quiet_seconds config) d (server_scope (sc_id server)) (sc_id server) ''all'' (evaluation_of config d (sc_id server) now) now"
  have "storage_inv (snd ?save)"
    using storage_inv_step [OF repo_step.save] assms by (auto simp: pipeline_inv_def)
  then have "storage_inv (fst (evaluate_server config now (d, ts) server))"
    by (cases ?save) (auto simp: evaluate_server_db storage_inv_frame split: option.split)
  moreover have "report_refs (fst (evaluate_server config now (d, ts) server)) = report_refs d"
    by (rule report_refs_cong) simp_all
  moreover have "db_metrics (fst (evaluate_server config now (d, ts) server)) = db_metrics d"
    by (rule evaluate_server_tables)
      (simp_all add: save_evaluation_def Let_def write_snapshot_def write_transition_def write_event_def split: option.split)
  ultimately show ?thesis using assms by (simp add: pipeline_inv_def)
qed

lemma pipeline_inv_evaluate:
  "pipeline_inv d \<Longrightarrow> pipeline_inv (fst (evaluate config d now))"
proof -
  have "pipeline_inv d \<Longrightarrow> pipeline_inv (fst (foldl (evaluate_server config now) (d, ts) servers))" for servers d ts
  proof (induction servers arbitrary: d ts)
    case (Cons server servers)
    have "pipeline_inv (fst (evaluate_server config now (d, ts) server))"
      by (rule pipeline_inv_evaluate_server [OF Cons.prems])
    from Cons.IH [OF this, of "snd (evaluate_server config now (d, ts) server)"] show ?case by simp
  qed simp
  then show "pipeline_inv d \<Longrightarrow> pipeline_inv (fst (evaluate config d now))" by (simp add: evaluate_def)
qed

lemma pipeline_inv_notify: "pipeline_inv d \<Longrightarrow> pipeline_inv (snd (notify send backoff now d))"
  using storage_inv_deliver_pending [of d send backoff now]
  by (simp add: pipeline_inv_def notify_def split_def Let_def report_refs_frame)

lemma sync_server_frame:
  "db_observations (sync_server now d e) = db_observations d" "db_reports (sync_server now d e) = db_reports d"
  "db_snapshots (sync_server now d e) = db_snapshots d" "db_transitions (sync_server now d e) = db_transitions d"
  "db_queue (sync_server now d e) = db_queue d" "db_runs (sync_server now d e) = db_runs d"
  "db_metrics (sync_server now d e) = db_metrics d"
  by (simp_all add: sync_server_def Let_def split: prod.split)

lemma merge_server_key: "srv_id a = srv_id b \<Longrightarrow> srv_id (merge_server a b) = srv_id a"
  by (simp add: merge_server_def)

lemma sync_server_known: "known_servers (sync_server now d e) = insert (sc_id (snd e)) (known_servers d)"
  by (simp add: sync_server_def Let_def known_servers_def upsert_keys [where key = srv_id, OF merge_server_key] split: prod.split)

lemma sync_fold:
  "db_observations (foldl (sync_server now) d es) = db_observations d \<and> db_reports (foldl (sync_server now) d es) = db_reports d \<and>
   db_snapshots (foldl (sync_server now) d es) = db_snapshots d \<and> db_transitions (foldl (sync_server now) d es) = db_transitions d \<and>
   db_queue (foldl (sync_server now) d es) = db_queue d \<and> db_runs (foldl (sync_server now) d es) = db_runs d \<and>
   db_metrics (foldl (sync_server now) d es) = db_metrics d \<and>
   known_servers (foldl (sync_server now) d es) = sc_id ` snd ` set es \<union> known_servers d"
  by (induction es arbitrary: d) (simp_all add: sync_server_frame sync_server_known)

interpretation disabling: key_update srv_id "\<lambda>r. r\<lparr>srv_enabled := a, srv_updated_at := b\<rparr>" for a b
  by unfold_locales simp

lemma sync_servers_known: "known_servers (sync_servers d config now) = sc_id ` set (cfg_servers config) \<union> known_servers d"
proof -
  have "snd ` set (enumerate 0 xs) = set xs" for xs :: "server_config list"
    by (metis map_snd_enumerate set_map)
  then show ?thesis
    using sync_fold [of now d "enumerate 0 (cfg_servers config)"]
    by (simp add: sync_servers_def Let_def known_servers_def disabling.keys_update)
qed

lemma pipeline_inv_sync:
  assumes "pipeline_inv d"
  shows "pipeline_inv (sync_servers d config now)"
proof -
  let ?d = "sync_servers d config now"
  have same: "db_observations ?d = db_observations d" "db_reports ?d = db_reports d" "db_snapshots ?d = db_snapshots d"
      "db_transitions ?d = db_transitions d" "db_queue ?d = db_queue d" "db_runs ?d = db_runs d" "db_metrics ?d = db_metrics d"
    using sync_fold [of now d "enumerate 0 (cfg_servers config)"] by (simp_all add: sync_servers_def Let_def)
  have "observation_refs ?d o'" if "observation_refs d o'" for o'
    using that by (rule observation_refs_mono) (simp_all add: sync_servers_known same has_report_def)
  then have "report_refs ?d" using assms by (auto simp: pipeline_inv_def report_refs_def same list_all_iff)
  moreover have "storage_inv ?d = storage_inv d" by (rule storage_inv_cong) (simp_all add: same)
  ultimately show ?thesis using assms by (simp add: pipeline_inv_def same)
qed

lemma insert_metric_unique:
  "unique metric_key (fst s) \<Longrightarrow> insert_metric m s = Inr s' \<Longrightarrow> unique metric_key (fst s')"
  by (auto simp: insert_metric_def bind_err_Inr intro: unique_insert_row)

lemma aggregate_protocol_unique:
  assumes "unique metric_key (fst s)" "aggregate_protocol interval d lo hi p s = Inr s'"
  shows "unique metric_key (fst s')"
proof (rule fold_err_inv [where I = "\<lambda>s. unique metric_key (fst s)"])
  from assms(2) show "fold_err (\<lambda>b. insert_metric (metric_of interval p b)) (hourly_values (collector_rows d (pr_server_id p) lo hi) (pr_kind p))
     (delete_where (\<lambda>m. mt_server_id m = pr_server_id p \<and> mt_protocol_id m = pr_id p \<and> mt_metric m = ''connections'' \<and>
        StampZ lo \<le> mt_bucket_at m \<and> mt_bucket_at m < StampZ hi) (fst s), snd s) = Inr s'"
    by (simp add: aggregate_protocol_def Let_def)
qed (use assms(1) insert_metric_unique in \<open>auto simp: delete_where_def unique_filter\<close>)

lemma aggregate_hourly_unique:
  assumes "unique metric_key (db_metrics d)" "aggregate_hourly config d now hrs = Inr (n, d')"
  shows "unique metric_key (db_metrics d') \<and> (\<exists>rows. d' = d\<lparr>db_metrics := rows\<rparr>)"
proof -
  from assms(2) obtain s where s: "fold_err (aggregate_protocol (collection_interval config) d (hour_start now - hours hrs) (hour_start now))
      (filter pr_enabled (db_protocols d)) (db_metrics d, 0) = Inr s" "d' = d\<lparr>db_metrics := fst s\<rparr>"
    by (auto simp: aggregate_hourly_def Let_def bind_err_Inr)
  have "unique metric_key (fst s)"
    by (rule fold_err_inv [where I = "\<lambda>s. unique metric_key (fst s)", OF _ _ s(1)])
      (use assms(1) aggregate_protocol_unique in auto)
  with s(2) show ?thesis by auto
qed

lemma pipeline_inv_metrics: "pipeline_inv d \<Longrightarrow> unique metric_key rows \<Longrightarrow> pipeline_inv (d\<lparr>db_metrics := rows\<rparr>)"
  by (simp add: pipeline_inv_def storage_inv_frame report_refs_frame)

lemma pipeline_inv_sweep:
  assumes "pipeline_inv d"
  shows "pipeline_inv (snd (sweep config d now))"
proof -
  have same: "db_snapshots (snd (sweep config d now)) = db_snapshots d" "db_transitions (snd (sweep config d now)) = db_transitions d"
      "db_queue (snd (sweep config d now)) = db_queue d" "db_runs (snd (sweep config d now)) = db_runs d"
      "db_metrics (snd (sweep config d now)) = db_metrics d"
    by (simp_all add: sweep_def Let_def delete_expired_def sweep_rows_def)
  then have "storage_inv (snd (sweep config d now)) = storage_inv d" by (intro storage_inv_cong) simp_all
  with assms same sweep_refs [of d config now] show ?thesis by (simp add: pipeline_inv_def)
qed

lemma pipeline_inv_maintain:
  assumes "pipeline_inv d"
  shows "pipeline_inv (fst (maintain config d now))"
proof -
  let ?d1 = "snd (sweep config d now)"
  let ?d2 = "?d1\<lparr>db_metrics := delete_where (\<lambda>m. mt_bucket_at m < StampZ (now - aggregates_kept config)) (db_metrics ?d1)\<rparr>"
  have inv1: "pipeline_inv ?d1" by (rule pipeline_inv_sweep [OF assms])
  then have inv2: "pipeline_inv ?d2"
    by (intro pipeline_inv_metrics) (simp_all add: pipeline_inv_def delete_where_def unique_filter)
  show ?thesis
  proof (cases "aggregate_hourly config ?d2 now 25")
    case (Inl e)
    with inv2 show ?thesis by (simp add: maintain_def Let_def split_def)
  next
    case (Inr r)
    obtain n e where r: "r = (n, e)" by fastforce
    from inv2 have "unique metric_key (db_metrics ?d2)" by (simp add: pipeline_inv_def)
    from aggregate_hourly_unique [OF this Inr [unfolded r]] inv2 have "pipeline_inv e"
      by (metis (no_types, lifting) pipeline_inv_metrics db.select_convs(7) db.surjective db.update_convs(7))
    with Inr r show ?thesis by (simp add: maintain_def Let_def split_def)
  qed
qed

lemma pipeline_inv_run_once:
  assumes "pipeline_inv (pl_db p)"
  shows "pipeline_inv (pl_db (fst (run_once config collectors backoff interval inp now p)))"
proof -
  let ?d0 = "if pl_runs p = 0 then sync_servers (pl_db p) config now else pl_db p"
  have inv0: "pipeline_inv ?d0" using assms pipeline_inv_sync by simp
  obtain d1 r where c: "collect config collectors ?d0 now (in_run_id inp) (in_trace_id inp) (in_duration_ms inp) = (d1, r)" by fastforce
  with pipeline_inv_collect [OF inv0] have inv1: "pipeline_inv d1" by (metis fst_conv)
  obtain d2 ts where e: "evaluate config d1 now = (d2, ts)" by fastforce
  with pipeline_inv_evaluate [OF inv1] have inv2: "pipeline_inv d2" by (metis fst_conv)
  obtain report d3 where n: "notify (in_messenger inp) backoff now d2 = (report, d3)" by fastforce
  with pipeline_inv_notify [OF inv2] have inv3: "pipeline_inv d3" by (metis snd_conv)
  obtain d4 m where m: "maintain config d3 now = (d4, m)" by fastforce
  with pipeline_inv_maintain [OF inv3] have inv4: "pipeline_inv d4" by (metis fst_conv)
  show ?thesis
    unfolding run_once_def Let_def c
    by (cases r; cases m) (simp_all add: e n m inv1 inv3 inv4)
qed

subsection \<open>The hourly aggregates in closed form\<close>

definition in_range :: "datetime \<Rightarrow> datetime \<Rightarrow> protocol_row \<Rightarrow> metric_row \<Rightarrow> bool" where
  "in_range lo hi p m \<longleftrightarrow> mt_server_id m = pr_server_id p \<and> mt_protocol_id m = pr_id p \<and> mt_metric m = ''connections'' \<and>
     StampZ lo \<le> mt_bucket_at m \<and> mt_bucket_at m < StampZ hi"

definition protocol_metrics :: "int \<Rightarrow> db \<Rightarrow> datetime \<Rightarrow> datetime \<Rightarrow> protocol_row \<Rightarrow> metric_row list" where
  "protocol_metrics interval d lo hi p =
     map (metric_of interval p) (hourly_values (collector_rows d (pr_server_id p) lo hi) (pr_kind p))"

definition hours_closed :: "db \<Rightarrow> datetime \<Rightarrow> bool" where
  \<comment> \<open>no collector row of the first second of the current hour (their texts sort before the hour itself)\<close>
  "hours_closed d hi \<longleftrightarrow> list_all (\<lambda>r. ob_source_kind r = ''collector'' \<longrightarrow> (\<exists>t. ob_observed_at r = StampZ t \<and> (t < hi \<or> hi + second \<le> t))) (db_observations d)"

lemma hour_start_le: "hour_start t \<le> t" "t < hour_start t + hour"
  using pos_mod_bound [of hour t] pos_mod_sign [of hour t] by (auto simp: hour_start_def hour_def hours_def)

lemma hour_start_whole [simp]: "hour_start t mod second = 0" "hour_start t mod hour = 0"
proof -
  have eq: "hour_start t = hour * (t div hour)" by (simp add: hour_start_def minus_mod_eq_mult_div)
  then show "hour_start t mod hour = 0" by simp
  have "hour = second * 3600" by (simp add: hour_def hours_def second_def)
  with eq show "hour_start t mod second = 0" by (metis mod_mult_self1_is_0 mult.assoc)
qed

lemma hour_second: "t mod hour = 0 \<Longrightarrow> t mod second = 0"
proof -
  have "hour = second * 3600" by (simp add: hour_def hours_def second_def)
  then have "second dvd hour" by (metis dvd_triv_left)
  then show "t mod hour = 0 \<Longrightarrow> t mod second = 0" by (metis dvd_eq_mod_eq_0 dvd_trans)
qed

lemma hour_start_mono:
  assumes "lo mod hour = 0" "lo \<le> t"
  shows "lo \<le> hour_start t"
proof -
  have "lo = hour * (lo div hour)" using assms(1) by auto
  moreover have "lo div hour \<le> t div hour" by (rule zdiv_mono1 [OF assms(2)]) (simp add: hour_def hours_def)
  ultimately show ?thesis by (simp add: hour_start_def minus_mod_eq_mult_div hour_def hours_def)
qed

lemma stampz_ge_whole:
  assumes "lo mod second = 0" "StampZ lo \<le> StampZ t"
  shows "lo \<le> t"
proof -
  from assms(2) consider "lo div second < t div second" | "lo div second = t div second" "z_rank lo \<le> z_rank t"
    by (auto simp: stampz_le_iff)
  then have le: "lo div second \<le> t div second" by cases simp_all
  have "lo = second * (lo div second)" using assms(1) by auto
  moreover have "second * (lo div second) \<le> second * (t div second)" using le by (intro mult_left_mono) (simp_all add: second_def)
  moreover have "second * (t div second) \<le> t" by (simp add: second_def)
  ultimately show ?thesis by linarith
qed

lemma bucket_fields [simp]:
  "mt_bucket_at (metric_of i p b) = StampZ (fst b)" "mt_server_id (metric_of i p b) = pr_server_id p"
  "mt_protocol_id (metric_of i p b) = pr_id p" "mt_metric (metric_of i p b) = ''connections''"
  by (simp_all add: metric_of_def Let_def)

lemma hourly_values_keys:
  "fst ` set (hourly_values rows kind) \<subseteq> (\<lambda>r. hour_start (dt_of (ob_observed_at r))) ` set rows"
  by (auto simp: hourly_values_def fst_set_group_by List.map_filter_def image_iff split: if_splits)

lemma bucket_in_range:
  assumes "hours_closed d hi" "lo mod hour = 0" "hi mod hour = 0"
    and m: "m \<in> set (protocol_metrics interval d lo hi p)"
  shows "in_range lo hi p m"
proof -
  from m obtain b where b: "b \<in> set (hourly_values (collector_rows d (pr_server_id p) lo hi) (pr_kind p))" "m = metric_of interval p b"
    by (auto simp: protocol_metrics_def)
  have "fst b \<in> (\<lambda>r. hour_start (dt_of (ob_observed_at r))) ` set (collector_rows d (pr_server_id p) lo hi)"
    by (rule subsetD [OF hourly_values_keys imageI [OF b(1)]])
  then obtain r where r: "r \<in> set (collector_rows d (pr_server_id p) lo hi)" "fst b = hour_start (dt_of (ob_observed_at r))"
    by auto
  then have row: "r \<in> set (db_observations d)" "ob_source_kind r = ''collector''" "StampZ lo \<le> ob_observed_at r" "ob_observed_at r < StampZ hi"
    by (simp_all add: collector_rows_def)
  with assms(1) obtain t where t: "ob_observed_at r = StampZ t" "t < hi \<or> hi + second \<le> t"
    by (auto simp: hours_closed_def list_all_iff)
  have whole: "lo mod second = 0" "hi mod second = 0"
    using assms(2,3) by (simp_all add: hour_second)
  have "t < hi + second" using stampz_less_sound row(4) t(1) by simp
  with t(2) have "t < hi" by linarith
  have "lo \<le> t" using stampz_ge_whole [OF whole(1)] row(3) t(1) by simp
  with assms(2) have "lo \<le> hour_start t" by (rule hour_start_mono)
  moreover have "hour_start t < hi" using hour_start_le(1) [of t] \<open>t < hi\<close> by linarith
  ultimately have "StampZ lo \<le> StampZ (hour_start t)" "\<not> StampZ hi \<le> StampZ (hour_start t)"
    using stampz_whole_le whole hour_start_whole(1) by auto
  then show ?thesis using b(2) r(2) t(1) by (simp add: in_range_def)
qed

lemma insert_metrics:
  assumes "\<And>b. b \<in> set bs \<Longrightarrow> metric_key (metric_of i p b) \<notin> metric_key ` set rows" "distinct (map fst bs)"
  shows "fold_err (\<lambda>b. insert_metric (metric_of i p b)) bs (rows, n) = Inr (rows @ map (metric_of i p) bs, n + length bs)"
  using assms
proof (induction bs arbitrary: rows n)
  case (Cons b bs)
  have first: "insert_metric (metric_of i p b) (rows, n) = Inr (rows @ [metric_of i p b], n + 1)"
    using Cons.prems(1) [of b] by (simp add: insert_metric_def insert_row_def)
  have "metric_key (metric_of i p c) \<notin> metric_key ` set (rows @ [metric_of i p b])" if "c \<in> set bs" for c
  proof -
    have "fst c \<in> fst ` set bs" using that by (rule imageI)
    with Cons.prems(2) have "fst c \<noteq> fst b" by (metis distinct.simps(2) list.simps(9) set_map)
    then have "metric_key (metric_of i p c) \<noteq> metric_key (metric_of i p b)" by (simp add: metric_key_def)
    with Cons.prems(1) [of c] that show ?thesis by auto
  qed
  with Cons.IH [of "rows @ [metric_of i p b]" "n + 1"] Cons.prems(2) first show ?case by simp
qed simp

lemma aggregate_protocol_eq:
  assumes "hours_closed d hi" "lo mod hour = 0" "hi mod hour = 0"
  shows "aggregate_protocol i d lo hi p (rows, n) =
    Inr (filter (\<lambda>m. \<not> in_range lo hi p m) rows @ protocol_metrics i d lo hi p, n + length (protocol_metrics i d lo hi p))"
proof -
  let ?bs = "hourly_values (collector_rows d (pr_server_id p) lo hi) (pr_kind p)"
  let ?kept = "filter (\<lambda>m. \<not> in_range lo hi p m) rows"
  have "metric_key (metric_of i p b) \<notin> metric_key ` set ?kept" if "b \<in> set ?bs" for b
  proof
    assume "metric_key (metric_of i p b) \<in> metric_key ` set ?kept"
    then obtain m where m: "m \<in> set ?kept" "metric_key m = metric_key (metric_of i p b)" by (metis imageE)
    have "in_range lo hi p (metric_of i p b)"
      by (rule bucket_in_range [OF assms, where interval = i]) (use that in \<open>simp add: protocol_metrics_def\<close>)
    with m(2) have "in_range lo hi p m" by (simp add: in_range_def metric_key_def)
    with m(1) show False by simp
  qed
  moreover have "distinct (map fst ?bs)" unfolding hourly_values_def by (rule distinct_group_by)
  ultimately have "fold_err (\<lambda>b. insert_metric (metric_of i p b)) ?bs (?kept, n) = Inr (?kept @ map (metric_of i p) ?bs, n + length ?bs)"
    by (rule insert_metrics)
  then show ?thesis
    by (simp add: aggregate_protocol_def Let_def protocol_metrics_def delete_where_def in_range_def [abs_def])
qed

lemma protocol_metrics_other:
  "pr_id p \<noteq> pr_id q \<Longrightarrow> m \<in> set (protocol_metrics i d lo hi p) \<Longrightarrow> \<not> in_range lo hi q m"
  by (auto simp: protocol_metrics_def in_range_def)

definition outside :: "datetime \<Rightarrow> datetime \<Rightarrow> protocol_row list \<Rightarrow> metric_row list \<Rightarrow> metric_row list" where
  "outside lo hi ps rows = filter (\<lambda>m. \<not> list_ex (\<lambda>p. in_range lo hi p m) ps) rows"

lemma aggregate_protocols_eq:
  assumes "hours_closed d hi" "lo mod hour = 0" "hi mod hour = 0" "unique pr_id ps"
  shows "fold_err (aggregate_protocol i d lo hi) ps (rows, n) =
    Inr (outside lo hi ps rows @ concat (map (protocol_metrics i d lo hi) ps),
         n + length (concat (map (protocol_metrics i d lo hi) ps)))"
  using assms(4)
proof (induction ps arbitrary: rows n)
  case Nil
  then show ?case by (simp add: outside_def)
next
  case (Cons p ps)
  have uniq: "unique pr_id ps" and new: "\<And>q. q \<in> set ps \<Longrightarrow> pr_id p \<noteq> pr_id q"
    using Cons.prems by (auto simp: unique_def image_iff)
  have keep: "outside lo hi ps (protocol_metrics i d lo hi p) = protocol_metrics i d lo hi p"
    unfolding outside_def filter_id_conv using protocol_metrics_other new by (fastforce simp: list_ex_iff)
  have "outside lo hi ps (filter (\<lambda>m. \<not> in_range lo hi p m) rows) = outside lo hi (p # ps) rows"
    by (auto simp: outside_def intro: filter_cong)
  moreover have "outside lo hi ps (xs @ ys) = outside lo hi ps xs @ outside lo hi ps ys" for xs ys
    by (simp add: outside_def)
  ultimately show ?case
    using Cons.IH [OF uniq] keep by (simp add: aggregate_protocol_eq [OF assms(1-3)])
qed

lemma outside_metrics:
  assumes "hours_closed d hi" "lo mod hour = 0" "hi mod hour = 0"
  shows "outside lo hi ps (concat (map (protocol_metrics i d lo hi) ps)) = []"
proof -
  have "list_ex (\<lambda>q. in_range lo hi q m) ps" if "m \<in> set (concat (map (protocol_metrics i d lo hi) ps))" for m
    using that bucket_in_range [OF assms] by (fastforce simp: list_ex_iff)
  then show ?thesis unfolding outside_def filter_empty_conv by blast
qed

lemma outside_outside: "outside lo hi ps (outside lo hi ps rows) = outside lo hi ps rows"
  by (simp add: outside_def)

lemma hours_mod: "hours n mod hour = 0"
  by (simp add: hours_def hour_def)

definition new_metrics :: "config \<Rightarrow> db \<Rightarrow> datetime \<Rightarrow> int \<Rightarrow> metric_row list" where
  \<comment> \<open>one row per enabled protocol and hour with a number, for the last \<open>hrs\<close> complete hours\<close>
  "new_metrics config d now hrs =
     concat (map (protocol_metrics (collection_interval config) d (hour_start now - hours hrs) (hour_start now)) (filter pr_enabled (db_protocols d)))"

definition old_metrics :: "db \<Rightarrow> datetime \<Rightarrow> int \<Rightarrow> metric_row list" where
  "old_metrics d now hrs = outside (hour_start now - hours hrs) (hour_start now) (filter pr_enabled (db_protocols d)) (db_metrics d)"

lemma window_start: "(hour_start now - hours hrs) mod hour = 0"
  by (metis hour_start_whole(2) hours_mod mod_diff_eq diff_0_right mod_0)

lemma aggregate_hourly_eq:
  assumes "hours_closed d (hour_start now)" "unique pr_id (db_protocols d)"
  shows "aggregate_hourly config d now hrs =
    Inr (length (new_metrics config d now hrs), d\<lparr>db_metrics := old_metrics d now hrs @ new_metrics config d now hrs\<rparr>)"
  unfolding new_metrics_def old_metrics_def
  by (simp add: aggregate_hourly_def Let_def aggregate_protocols_eq [OF assms(1) window_start hour_start_whole(2) unique_filter [OF assms(2)]])

lemma aggregate_hourly_again:
  assumes "hours_closed d (hour_start now)" "unique pr_id (db_protocols d)" "aggregate_hourly config d now hrs = Inr (n, d')"
  shows "aggregate_hourly config d' now hrs = Inr (n, d')"
proof -
  from assms(3) have d': "n = length (new_metrics config d now hrs)"
      "d' = d\<lparr>db_metrics := old_metrics d now hrs @ new_metrics config d now hrs\<rparr>"
    by (simp_all add: aggregate_hourly_eq [OF assms(1,2)])
  then have same: "db_observations d' = db_observations d" "db_protocols d' = db_protocols d" by simp_all
  have "protocol_metrics i d' lo hi = protocol_metrics i d lo hi" for i lo hi
    by (rule ext) (simp add: protocol_metrics_def collector_rows_def same)
  then have new: "new_metrics config d' now hrs = new_metrics config d now hrs"
    by (simp add: new_metrics_def same)
  have "old_metrics d' now hrs = old_metrics d now hrs"
    using outside_metrics [OF assms(1) window_start hour_start_whole(2)] outside_outside
    unfolding old_metrics_def new_metrics_def same by (simp add: d'(2) old_metrics_def new_metrics_def) (simp add: outside_def)
  with new have "aggregate_hourly config d' now hrs =
      Inr (length (new_metrics config d now hrs), d'\<lparr>db_metrics := old_metrics d now hrs @ new_metrics config d now hrs\<rparr>)"
    using aggregate_hourly_eq [of d' now config hrs] assms(1,2) by (simp add: same hours_closed_def)
  then show ?thesis by (simp add: d')
qed

lemma mean_bounds:
  fixes vs :: "rat list"
  assumes "vs \<noteq> []"
  shows "Min (set vs) \<le> sum_list vs / of_nat (length vs) \<and> sum_list vs / of_nat (length vs) \<le> Max (set vs)"
proof -
  have n: "(0::rat) < of_nat (length vs)" using assms by simp
  have "sum_list vs \<le> of_nat (length vs) * Max (set vs)"
    using sum_list_mono [of vs "\<lambda>x. x" "\<lambda>x. Max (set vs)"] by (simp add: sum_list_triv)
  moreover have "of_nat (length vs) * Min (set vs) \<le> sum_list vs"
    using sum_list_mono [of vs "\<lambda>x. Min (set vs)" "\<lambda>x. x"] by (simp add: sum_list_triv)
  ultimately show ?thesis using n by (simp add: pos_le_divide_eq pos_divide_le_eq mult.commute)
qed

lemma metric_of_bounds:
  assumes "b \<in> set (hourly_values rows kind)"
  shows "mt_min (metric_of i p b) \<le> mt_avg (metric_of i p b) \<and> mt_avg (metric_of i p b) \<le> mt_max (metric_of i p b) \<and>
    0 < mt_samples (metric_of i p b) \<and> 0 \<le> mt_unknown_seconds (metric_of i p b)"
proof -
  have "snd b \<noteq> []"
    using group_by_nonempty [of "fst b" "snd b"] assms unfolding hourly_values_def prod.collapse by blast
  with mean_bounds [of "map snd (snd b)"] show ?thesis
    by (simp add: metric_of_def Let_def)
qed

subsection \<open>Properties\<close>

definition sample_server :: server_config where
  "sample_server = \<lparr>sc_id = ''s1'', sc_type = ''awg-host'', sc_enabled = None, sc_name = JNull, sc_country_code = ''FI'',
     sc_collector_ref = None, sc_recommended_priority = None\<rparr>"

definition sample_config :: config where
  "sample_config = (st_config sample_settings)\<lparr>cfg_servers := [sample_server]\<rparr>"

text \<open>
  After the evaluation step every enabled server has the state the evaluator gives for its own
  observations, read before the step, and the state of every other scope is what it was.
\<close>

theorem evaluate_sets_states:
  "previous_state (fst (evaluate config d now)) scope =
     (case find (\<lambda>s. server_scope (sc_id s) = scope) (enabled_servers config) of
        None \<Rightarrow> previous_state d scope
      | Some s \<Rightarrow> ev_state (evaluate_scope (observations_of d (sc_id s) now) now (expected_sources d (sc_id s) now) (confirmations config)))"
  by (simp only: evaluate_states evaluation_of_def)

text \<open>
  C16. A collector that raises costs only its own observations: a run with an identifier not used
  before always comes to its end, stores one observation for everything the other collectors say about
  configured servers, in their order, and names the ones that failed.
\<close>

theorem collect_isolates_failures:
  assumes "fresh_run run d"
  shows "\<exists>d'. collect config collectors d now run trace duration =
      (d', Inr \<lparr>cs_observations = length (collected_items collectors now (known_servers d)),
                cs_failed_collectors = map col_name (filter (\<lambda>c. col_collect c now = None) collectors),
                cs_result = (if list_all (\<lambda>c. col_collect c now \<noteq> None) collectors then ''ok''
                             else if collected_items collectors now (known_servers d) \<noteq> [] then ''partial'' else ''error'')\<rparr>) \<and>
    db_observations d' = db_observations d @ run_observations config run now 0 (collected_items collectors now (known_servers d))"
proof -
  have "failed_names collectors now = [] \<longleftrightarrow> list_all (\<lambda>c. col_collect c now \<noteq> None) collectors"
    by (auto simp: failed_names_def filter_empty_conv list_all_iff)
  with collect_all [OF assms, of config collectors now trace duration] show ?thesis by (simp add: failed_names_def)
qed

theorem collect_isolates_failures_witness:
  "\<exists>d'. collect sample_config [\<lparr>col_name = ''broken'', col_collect = (\<lambda>_. None)\<rparr>] sample_report_db 5 (Uuid4 ''run'') ''t'' 1 =
     (d', Inr \<lparr>cs_observations = 0, cs_failed_collectors = [''broken''], cs_result = ''error''\<rparr>)"
  using collect_isolates_failures [of "Uuid4 ''run''" sample_report_db sample_config "[\<lparr>col_name = ''broken'', col_collect = (\<lambda>_. None)\<rparr>]" 5 "''t''" 1]
  by (auto simp: fresh_run_def sample_report_db_def empty_db_def collected_items_def)

text \<open>
  Whatever the collectors return or raise, whatever the messenger does and whether the run
  succeeds or stops in the middle, a run of the loop leaves a database in which keys are unique, references
  between reports and observations resolve, no scope has two open transitions or two waiting messages to
  the administrator, and no message is tried more than twenty times.
\<close>

theorem run_once_keeps_invariant:
  assumes "pipeline_inv (pl_db p)"
  shows "pipeline_inv (pl_db (fst (run_once config collectors backoff interval inp now p)))"
  by (rule pipeline_inv_run_once [OF assms])

lemma pipeline_inv_empty: "pipeline_inv empty_db"
  using storage_inv_reachable [of empty_db] by (simp add: pipeline_inv_def report_refs_def) (simp add: empty_db_def)

theorem run_once_keeps_invariant_witness:
  "pipeline_inv (pl_db (fst (run_once sample_config [] 30 hour \<lparr>in_run_id = Uuid4 ''r'', in_trace_id = ''t'', in_duration_ms = 1,
     in_messenger = (\<lambda>_. Raised)\<rparr> 5 \<lparr>pl_db = empty_db, pl_runs = 0, pl_last_maintenance = None\<rparr>)))"
  by (rule run_once_keeps_invariant) (simp add: pipeline_inv_empty)

text \<open>
  The hourly aggregation is idempotent and its rows make sense: provided no collector row lies
  in the first second of the current hour, it replaces exactly the rows of its window, running it again changes
  nothing, and in every row it writes the minimum, the average and the maximum are in order.
\<close>

theorem aggregate_hourly_idempotent:
  assumes "hours_closed d (hour_start now)" "unique pr_id (db_protocols d)"
  shows "\<exists>n d'. aggregate_hourly config d now hrs = Inr (n, d') \<and> aggregate_hourly config d' now hrs = Inr (n, d') \<and>
    db_metrics d' = old_metrics d now hrs @ new_metrics config d now hrs \<and>
    list_all (\<lambda>m. mt_min m \<le> mt_avg m \<and> mt_avg m \<le> mt_max m \<and> 0 < mt_samples m \<and> 0 \<le> mt_unknown_seconds m) (new_metrics config d now hrs)"
proof -
  let ?d' = "d\<lparr>db_metrics := old_metrics d now hrs @ new_metrics config d now hrs\<rparr>"
  have run: "aggregate_hourly config d now hrs = Inr (length (new_metrics config d now hrs), ?d')"
    by (rule aggregate_hourly_eq [OF assms])
  have "list_all (\<lambda>m. mt_min m \<le> mt_avg m \<and> mt_avg m \<le> mt_max m \<and> 0 < mt_samples m \<and> 0 \<le> mt_unknown_seconds m) (new_metrics config d now hrs)"
    unfolding list_all_iff new_metrics_def protocol_metrics_def using metric_of_bounds by fastforce
  with run aggregate_hourly_again [OF assms run] show ?thesis by auto
qed

definition boundary_db :: "datetime \<Rightarrow> db" where
  \<comment> \<open>one protocol and one collector row observed at the given instant\<close>
  "boundary_db t = sample_report_db
     \<lparr>db_protocols := [\<lparr>pr_id = ''s1:amneziawg'', pr_server_id = ''s1'', pr_kind = ''amneziawg'', pr_label_key = ''k'', pr_enabled = True,
        pr_coverage_state = ''complete'', pr_created_at = StampZ 0, pr_updated_at = StampZ 0\<rparr>],
      db_observations := [\<lparr>ob_id = Uuid4 ''o'', ob_server_id = ''s1'', ob_source_kind = ''collector'', ob_network_scope = ''all'',
        ob_observed_at = StampZ t, ob_received_at = StampZ t, ob_result = ''success'', ob_fresh_until = StampZ t, ob_confidence = ''sufficient'',
        ob_metrics = Some (JObj [(''connections'', JObj [(''amneziawg'', JInt 3)])]), ob_error_code = None, ob_run_id = None, ob_report_id = None\<rparr>]\<rparr>"

theorem aggregate_hourly_idempotent_witness:
  "\<exists>n d'. aggregate_hourly sample_config (boundary_db 3599000000) 7300000000 25 = Inr (n, d') \<and>
     aggregate_hourly sample_config d' 7300000000 25 = Inr (n, d')"
  using aggregate_hourly_idempotent [of "boundary_db 3599000000" 7300000000 sample_config 25]
  by (auto simp: boundary_db_def hours_closed_def hour_start_def hour_def hours_def unique_def)

text \<open>
  Without that proviso the aggregation is not idempotent: a collector row observed half a second
  into the current hour is selected by the comparison of texts, gets a row in the bucket of the unfinished
  hour, which the deletion does not reach, and the next aggregation in the same hour (after a restart) stops
  with an integrity error.
\<close>

theorem aggregate_hourly_boundary_fails:
  "\<exists>d'. aggregate_hourly sample_config (boundary_db 7200500000) 7300000000 25 = Inr (1, d') \<and>
     aggregate_hourly sample_config d' 7300000000 25 = Inl IntegrityError"
proof -
  have hi: "hour_start 7300000000 = 7200000000" "hour_start 7200500000 = 7200000000"
    by (simp_all add: hour_start_def hour_def hours_def)
  have sel: "StampZ (7200000000 - hours 25) \<le> StampZ 7200500000" "StampZ 7200500000 < StampZ 7200000000"
    "\<not> StampZ 7200000000 < StampZ 7200000000"
    by (simp_all add: stampz_less_iff stampz_le_iff hours_def second_def z_rank_def)
  let ?p = "\<lparr>pr_id = ''s1:amneziawg'', pr_server_id = ''s1'', pr_kind = ''amneziawg'', pr_label_key = ''k'', pr_enabled = True,
        pr_coverage_state = ''complete'', pr_created_at = StampZ 0, pr_updated_at = StampZ 0\<rparr>"
  let ?m = "metric_of 60 ?p (7200000000, [(7200000000, 3)])"
  have vals: "hourly_values (collector_rows ((boundary_db 7200500000)\<lparr>db_metrics := rows\<rparr>) ''s1'' (7200000000 - hours 25) 7200000000) ''amneziawg'' =
      [(7200000000, [(7200000000, 3)])]" for rows
    by (simp add: collector_rows_def boundary_db_def sel hourly_values_def List.map_filter_def group_by_def connections_value_def hi)
  have protocols: "db_protocols (boundary_db 7200500000) = [?p]" by (simp add: boundary_db_def)
  have step: "aggregate_hourly sample_config ((boundary_db 7200500000)\<lparr>db_metrics := rows\<rparr>) 7300000000 25 =
      (if rows = [] then Inr (1, (boundary_db 7200500000)\<lparr>db_metrics := [?m]\<rparr>) else Inl IntegrityError)" if "rows = [] \<or> rows = [?m]" for rows
    using that
    by (auto simp: aggregate_hourly_def Let_def hi aggregate_protocol_def vals protocols insert_metric_def insert_row_def
        delete_where_def sel collection_interval_def sample_config_def sample_settings_def)
  have start: "(boundary_db 7200500000)\<lparr>db_metrics := []\<rparr> = boundary_db 7200500000"
    by (simp add: boundary_db_def sample_report_db_def empty_db_def)
  from step [of "[]"] step [of "[?m]"] show ?thesis unfolding start by auto
qed

end
