(* ===== verification/App_Start.thy ===== *)
theory App_Start
  imports Api Read_View Pipeline
begin

text \<open>
  Building the API (\<open>create_app\<close> of src/src/vpnpulse/api/app.py): the read model and the store it
  closes over, the servers it registers, and the document every refused request is answered with. FastAPI's
  routing table is Api.
\<close>

subsection \<open>create_app\<close>

datatype 'r wired_reader = GivenReader 'r | StatusOnlyReader status_provider "string option"

record 'r wired_app =
  wa_reader :: "'r wired_reader"
  wa_settings :: store_settings
  wa_db :: db

definition no_config :: config where
  \<comment> \<open>the empty dictionary\<close>
  "no_config =
     \<lparr>cfg_servers = [], cfg_freshness_seconds = None, cfg_collection_interval_seconds = None, cfg_confirmations = None,
      cfg_quiet_notice_seconds = None, cfg_pc_target_interval_seconds = None, cfg_observations_days = None, cfg_events_days = None,
      cfg_analytics_raw_days = None, cfg_audit_days = None, cfg_aggregates_days = None, cfg_default_language = None,
      cfg_admin_contact_url = None\<rparr>"

definition create_app ::
  "string \<Rightarrow> status_provider option \<Rightarrow> 'r option \<Rightarrow> (store_settings \<times> db) option \<Rightarrow> config option \<Rightarrow> string option \<Rightarrow> datetime \<Rightarrow> string + 'r wired_app" where
  \<comment> \<open>the message of the ValueError, or the application; without a store the database is empty and in memory\<close>
  "create_app bot_token provider reader store config contact_url now =
     bind_err (case reader of
                 Some r \<Rightarrow> Inr (GivenReader r)
               | None \<Rightarrow> (case provider of
                            None \<Rightarrow> Inl ''create_app needs read_model or status_provider''
                          | Some p \<Rightarrow> Inr (StatusOnlyReader p contact_url))) (\<lambda>read_model.
       let (settings, d) = (case store of
             Some s \<Rightarrow> s
           | None \<Rightarrow> (\<lparr>st_config = or_default no_config config, st_pepper = bot_token, st_session_minutes = 30, st_enrollment_minutes = 10\<rparr>, empty_db));
           d' = (case config of None \<Rightarrow> d | Some c \<Rightarrow> if cfg_servers c = [] then d else sync_servers d c now)
       in Inr \<lparr>wa_reader = read_model, wa_settings = settings, wa_db = d'\<rparr>)"

subsection \<open>Problem documents\<close>

fun title_from :: "bool \<Rightarrow> string \<Rightarrow> string" where
  \<comment> \<open>\<open>str.title\<close>; the flag says that the character before was a letter\<close>
  "title_from inside [] = []"
| "title_from inside (c # s) =
     (if upper_of c \<noteq> c \<or> lower_char c \<noteq> c then (if inside then lower_char c else upper_of c) # title_from True s
      else c # title_from False s)"

record problem_document =
  pd_type :: string
  pd_title :: string
  pd_status :: int
  pd_code :: string
  pd_trace_id :: string

definition trace_of :: "string option \<Rightarrow> string \<Rightarrow> string" where
  \<comment> \<open>the header of the request, or a new identifier\<close>
  "trace_of request_id fresh = (case request_id of None \<Rightarrow> fresh | Some i \<Rightarrow> if i = [] then fresh else i)"

definition problem_details :: "int \<Rightarrow> string option \<Rightarrow> string option \<Rightarrow> string \<Rightarrow> problem_document" where
  \<comment> \<open>\<open>code\<close>: of the detail when that is a dictionary with one\<close>
  "problem_details status_code code request_id fresh =
     (let shown = or_default ''HTTP_ERROR'' code
      in \<lparr>pd_type = ''/problems/'' @ lower shown, pd_title = title_from False (map (\<lambda>c. if c = CHR ''_'' then CHR '' '' else c) shown),
          pd_status = status_code, pd_code = shown, pd_trace_id = trace_of request_id fresh\<rparr>)"

definition document_of :: "string option \<Rightarrow> string \<Rightarrow> api_response \<Rightarrow> problem_document option" where
  \<comment> \<open>what a refusal of the routes or the guards is answered with (\<open>problem_details\<close>, \<open>raw_problem\<close>)\<close>
  "document_of request_id fresh r = (case r of Problem st code \<Rightarrow> Some (problem_details st (Some code) request_id fresh) | _ \<Rightarrow> None)"

subsection \<open>Properties\<close>

text \<open>Whatever database it is given, the application knows every server of its configuration: no report, note or
  enrollment about a configured server is refused for want of its row.\<close>

lemma create_app_knows_servers:
  assumes "create_app bot_token provider reader store (Some config) contact_url now = Inr a"
  shows "sc_id ` set (cfg_servers config) \<subseteq> known_servers (wa_db a)"
proof -
  obtain d where "wa_db a = (if cfg_servers config = [] then d else sync_servers d config now)"
    using assms unfolding create_app_def bind_err_Inr Let_def case_prod_beta by auto
  then show ?thesis by (auto simp: sync_servers_known)
qed

lemma create_app_needs_a_reader:
  "(\<exists>e. create_app bot_token provider reader store config contact_url now = Inl e) \<longleftrightarrow> provider = None \<and> reader = None"
  by (auto simp: create_app_def Let_def case_prod_beta split: option.split)

text \<open>The title of a problem is its code in words.\<close>

lemma problem_titles:
  "title_from False ''SESSION EXPIRED'' = ''Session Expired''" "title_from False ''a1b cd'' = ''A1B Cd''"
  by code_simp+

end
