(* ===== verification/Cli_Common.thy ===== *)
theory Cli_Common
  imports Config I18n
begin

text \<open>
  The plumbing the commands share (src/src/vpnpulse/cli/common.py, and the settings of config.yaml the
  commands read beside the monitoring ones): paths, secret files, the redacting output, choosing the
  database, asking for confirmation. A command returns the lines it prints and its exit code, or the
  error the user sees; characters outside ASCII in those lines are written in ASCII.
\<close>

subsection \<open>Paths\<close>

text \<open>A pure POSIX path: absolute or not, and its components.\<close>

datatype path = Path (is_absolute: bool) (path_parts: "string list")

definition path_of :: "string \<Rightarrow> path" where
  \<comment> \<open>\<open>Path(text)\<close>: empty components and single dots are dropped\<close>
  "path_of s = Path (starts_with ''/'' s) (filter (\<lambda>w. w \<noteq> [] \<and> w \<noteq> ''.'') (split_on (CHR ''/'') s))"

definition as_posix :: "path \<Rightarrow> string" where
  "as_posix p = (if is_absolute p then ''/'' @ join ''/'' (path_parts p)
                 else if path_parts p = [] then ''.'' else join ''/'' (path_parts p))"

definition path_join :: "path \<Rightarrow> path \<Rightarrow> path" where
  \<comment> \<open>\<open>base / p\<close>: an absolute right side wins\<close>
  "path_join base p = (if is_absolute p then p else Path (is_absolute base) (path_parts base @ path_parts p))"

definition parent :: "path \<Rightarrow> path" where
  "parent p = Path (is_absolute p) (butlast (path_parts p))"

definition is_relative_to :: "path \<Rightarrow> path \<Rightarrow> bool" where
  "is_relative_to p base \<longleftrightarrow>
     is_absolute p = is_absolute base \<and> take (length (path_parts base)) (path_parts p) = path_parts base"

definition relative_to :: "path \<Rightarrow> path \<Rightarrow> path" where
  "relative_to p base = Path False (drop (length (path_parts base)) (path_parts p))"

definition clean_path :: "path \<Rightarrow> bool" where
  "clean_path p \<longleftrightarrow> list_all (\<lambda>w. w \<noteq> [] \<and> w \<noteq> ''.'' \<and> CHR ''/'' \<notin> set w) (path_parts p)"

lemma clean_path_of: "clean_path (path_of s)"
  by (auto simp: clean_path_def path_of_def list_all_iff dest: split_on_no_sep)

lemma split_on_word: "d \<notin> set w \<Longrightarrow> split_on d w = [w]"
  by (induction w) auto

lemma split_on_sep: "d \<notin> set w \<Longrightarrow> split_on d (w @ d # rest) = w # split_on d rest"
  by (induction w) auto

lemma split_on_path:
  "ws \<noteq> [] \<Longrightarrow> \<forall>w\<in>set ws. CHR ''/'' \<notin> set w \<Longrightarrow> split_on (CHR ''/'') (join ''/'' ws) = ws"
proof (induction ws)
  case (Cons w ws)
  show ?case
  proof (cases ws)
    case Nil
    with Cons.prems show ?thesis by (simp add: join_def split_on_word)
  next
    case (Cons v vs)
    have "join ''/'' (w # ws) = w @ CHR ''/'' # join ''/'' ws" by (simp add: join_def Cons)
    with Cons Cons.IH Cons.prems show ?thesis by (simp add: split_on_sep)
  qed
qed simp

lemma starts_with_slash: "starts_with ''/'' s \<longleftrightarrow> s \<noteq> [] \<and> hd s = CHR ''/''"
  by (cases s) (auto simp: starts_with_def)

lemma path_of_as_posix: "clean_path p \<Longrightarrow> path_of (as_posix p) = p"
proof -
  assume clean: "clean_path p"
  obtain a ws where p: "p = Path a ws" by (cases p)
  from clean have ok: "\<forall>w\<in>set ws. w \<noteq> [] \<and> w \<noteq> ''.'' \<and> CHR ''/'' \<notin> set w" by (simp add: p clean_path_def list_all_iff)
  then have keep: "filter (\<lambda>w. w \<noteq> [] \<and> w \<noteq> ''.'') ws = ws" by (auto simp: filter_id_conv)
  show ?thesis
  proof (cases "ws = []")
    case True
    then show ?thesis by (simp add: p as_posix_def path_of_def join_def starts_with_def)
  next
    case False
    with ok have "join ''/'' ws \<noteq> [] \<and> hd (join ''/'' ws) \<noteq> CHR ''/''" by (cases ws) (auto simp: join_def neq_Nil_conv)
    moreover have "split_on (CHR ''/'') (join ''/'' ws) = ws" using False ok by (simp add: split_on_path)
    ultimately show ?thesis using False keep by (simp add: p as_posix_def path_of_def starts_with_slash)
  qed
qed

lemma path_join_relative: "is_relative_to p base \<Longrightarrow> path_join base (relative_to p base) = p"
  by (cases p; cases base) (auto simp: is_relative_to_def relative_to_def path_join_def, metis append_take_drop_id)

lemma clean_relative: "clean_path p \<Longrightarrow> clean_path (relative_to p base)"
  by (auto simp: clean_path_def relative_to_def list_all_iff dest: in_set_dropD)

subsection \<open>Settings\<close>

record telegram_config =
  tc_bot_token_file :: string
  tc_group_chat_id :: string
  tc_admin_chat_id :: "string option"
  tc_open_url :: "string option"

text \<open>\<open>fc_public\<close> is the part of config.yaml the monitoring code reads.\<close>

record full_config =
  fc_public :: config
  fc_database :: "string option"
  fc_collectors_file :: "string option"
  fc_telegram :: "telegram_config option"
  fc_public_url :: "string option"
  fc_timezone :: string

definition text_set :: "string option \<Rightarrow> bool" where
  \<comment> \<open>the truth value of an optional string\<close>
  "text_set v \<longleftrightarrow> v \<noteq> None \<and> v \<noteq> Some []"

definition DEFAULT_DB :: path where
  "DEFAULT_DB = path_of ''vpnpulse.sqlite3''"

definition resolve_db :: "string option \<Rightarrow> full_config option \<Rightarrow> path" where
  "resolve_db args_db config =
     (if text_set args_db then path_of (or_default [] args_db)
      else case config of
             None \<Rightarrow> DEFAULT_DB
           | Some c \<Rightarrow> if text_set (fc_database c) then path_of (or_default [] (fc_database c)) else DEFAULT_DB)"

definition cli_lang_of :: "string option \<Rightarrow> full_config option \<Rightarrow> string" where
  "cli_lang_of args_lang config =
     (if text_set args_lang then or_default [] args_lang
      else case config of None \<Rightarrow> ''ru'' | Some c \<Rightarrow> or_default ''ru'' (cfg_default_language (fc_public c)))"

subsection \<open>Errors and answers\<close>

datatype cli_error = CliError string (exit_code: nat)

abbreviation cli_fail :: "string \<Rightarrow> cli_error" where
  "cli_fail message \<equiv> CliError message 2"

text \<open>The lines a command printed and its exit code, or the error \<open>main\<close> prints.\<close>

type_synonym answer = "cli_error + string list \<times> nat"

datatype terminal = NotATerminal | Typed string

definition confirm :: "bool \<Rightarrow> terminal \<Rightarrow> string \<Rightarrow> cli_error + string list \<times> bool" where
  "confirm yes tty question =
     (if yes then Inr ([], True)
      else case tty of
             NotATerminal \<Rightarrow> Inl (cli_fail (question @ '' - pass --yes to confirm without a terminal''))
           | Typed line \<Rightarrow> Inr ([question @ '' [y/N]''], lower (strip line) \<in> {''y'', ''yes''}))"

definition main_exit :: "answer \<Rightarrow> string list \<times> nat" where
  \<comment> \<open>\<open>main\<close>: what reaches the terminal and the exit code of the process\<close>
  "main_exit a = (case a of Inr (lines, code) \<Rightarrow> (lines, code) | Inl e \<Rightarrow> (case e of CliError message code \<Rightarrow> ([''vpn-pulse: '' @ message], code)))"

subsection \<open>Files\<close>

text \<open>
  A file as the commands see it: its text, unless reading it fails, and its permission bits. Secret
  files are taken to be text in UTF-8.
\<close>

record stored_file =
  file_text :: "string option"
  file_size :: nat
  file_mode :: nat

type_synonym files = "path \<rightharpoonup> stored_file"

unbundle bit_operations_syntax

definition secret_file_status :: "files \<Rightarrow> path \<Rightarrow> string" where
  \<comment> \<open>63 is \<open>0o077\<close>, the permissions of everybody but the owner\<close>
  "secret_file_status fs p =
     (case fs p of
        None \<Rightarrow> ''missing''
      | Some f \<Rightarrow>
          if file_size f = 0 then ''empty''
          else case file_text f of
                 None \<Rightarrow> ''missing''
               | Some content \<Rightarrow>
                   if strip content = [] then ''empty''
                   else if file_mode f AND 63 \<noteq> 0 then ''permissions'' else ''ok'')"

definition owner_only :: "string \<Rightarrow> stored_file" where
  \<comment> \<open>384 is \<open>0o600\<close>\<close>
  "owner_only content = \<lparr>file_text = Some content, file_size = length content, file_mode = 384\<rparr>"

definition write_secret_file :: "path \<Rightarrow> string \<Rightarrow> files \<Rightarrow> files" where
  "write_secret_file p content fs = fs(p \<mapsto> owner_only (strip content @ [CHR 0x0A]))"

lemma strip_strip_newline: "strip (strip s @ [CHR 0x0A]) = strip s"
proof -
  have edge: "dropWhile is_space (strip s) = strip s" and tail: "dropWhile is_space (rev (strip s)) = rev (strip s)"
  proof -
    let ?d = "dropWhile is_space s"
    show "dropWhile is_space (rev (strip s)) = rev (strip s)" by (simp add: strip_def)
    show "dropWhile is_space (strip s) = strip s"
    proof (cases "strip s")
      case (Cons c rest)
      have "\<exists>r. ?d = strip s @ r"
        unfolding strip_def by (metis rev_append rev_rev_ident takeWhile_dropWhile_id)
      then obtain r where r: "?d = c # rest @ r" using Cons by auto
      have "\<not> is_space (hd ?d)" by (rule hd_dropWhile) (simp add: r)
      then show ?thesis using Cons by (simp add: r)
    qed simp
  qed
  have space: "is_space (CHR 0x0A)" by (simp add: is_space_def)
  show ?thesis
  proof (cases "strip s")
    case Nil
    have "strip [CHR 0x0A] = []" using space by (simp add: strip_def)
    then show ?thesis by (simp add: Nil)
  next
    case (Cons c rest)
    from edge have "strip s = [] \<or> \<not> is_space (hd (strip s))" by (simp only: dropWhile_eq_self_iff)
    with Cons have "dropWhile is_space (strip s @ [CHR 0x0A]) = strip s @ [CHR 0x0A]" by simp
    then have "strip (strip s @ [CHR 0x0A]) = rev (dropWhile is_space (CHR 0x0A # rev (strip s)))"
      by (simp only: strip_def [of "strip s @ [CHR 0x0A]"]) simp
    then show ?thesis using space tail by simp
  qed
qed

lemma written_secret_is_ok:
  "strip content \<noteq> [] \<Longrightarrow> secret_file_status (write_secret_file p content fs) p = ''ok''"
  by (simp add: secret_file_status_def write_secret_file_def owner_only_def strip_strip_newline)

lemma written_secret_status: "q \<noteq> p \<Longrightarrow> secret_file_status (write_secret_file p content fs) q = secret_file_status fs q"
  by (simp add: secret_file_status_def write_secret_file_def)

lemma secret_status_values: "secret_file_status fs p \<in> {''ok'', ''missing'', ''empty'', ''permissions''}"
  by (auto simp: secret_file_status_def Let_def split: option.split)

subsection \<open>The redacting output\<close>

text \<open>\<open>Output\<close>: the secrets registered so far, in order; what is printed has each of them replaced.\<close>

type_synonym output_secrets = "string list"

definition REDACTED :: string where
  "REDACTED = ''[REDACTED]''"

definition register_secret :: "string option \<Rightarrow> output_secrets \<Rightarrow> output_secrets" where
  "register_secret value secrets =
     (case value of
        None \<Rightarrow> secrets
      | Some v \<Rightarrow> if v \<noteq> [] \<and> 6 \<le> length v \<and> v \<notin> set secrets then secrets @ [v] else secrets)"

definition redact :: "output_secrets \<Rightarrow> string \<Rightarrow> string" where
  "redact secrets text = foldl (\<lambda>t value. py_replace value REDACTED t) text secrets"

definition plain_secret :: "string \<Rightarrow> bool" where
  \<comment> \<open>the replacement cannot create an occurrence of it: no square brackets, not a part of the word itself\<close>
  "plain_secret v \<longleftrightarrow> CHR ''['' \<notin> set v \<and> CHR '']'' \<notin> set v \<and> \<not> contains v ''REDACTED''"

lemma starts_with_Cons: "starts_with v (c # s) \<longleftrightarrow> v = [] \<or> (\<exists>v'. v = c # v' \<and> starts_with v' s)"
  by (cases v) (auto simp: starts_with_def)

lemma plain_not_Nil: "plain_secret v \<Longrightarrow> v \<noteq> []"
  by (cases v) (auto simp: plain_secret_def)

lemma py_replace_hit:
  "w \<noteq> [] \<and> starts_with w (c # cs) \<Longrightarrow> py_replace w t (c # cs) = t @ py_replace w t (drop (length w) (c # cs))"
  by (simp only: py_replace.simps if_True simp_thms)

lemma py_replace_miss:
  "\<not> (w \<noteq> [] \<and> starts_with w (c # cs)) \<Longrightarrow> py_replace w t (c # cs) = c # py_replace w t cs"
  by (simp only: py_replace.simps if_False simp_thms)

lemma starts_with_replaced:
  "CHR ''['' \<notin> set v \<Longrightarrow> starts_with v (py_replace w REDACTED s) \<Longrightarrow> starts_with v s"
proof (induction w REDACTED s arbitrary: v rule: py_replace.induct)
  case (2 w c cs)
  show ?case
  proof (cases "w \<noteq> [] \<and> starts_with w (c # cs)")
    case True
    from 2(4) have "starts_with v (REDACTED @ py_replace w REDACTED (drop (length w) (c # cs)))" by (simp only: py_replace_hit [OF True])
    with 2(3) have "v = []" by (auto simp: REDACTED_def starts_with_Cons)
    then show ?thesis by simp
  next
    case False
    from 2(4) have "starts_with v (c # py_replace w REDACTED cs)" by (simp only: py_replace_miss [OF False])
    with 2(2) [OF False] 2(3) show ?thesis by (auto simp: starts_with_Cons)
  qed
qed simp

lemma prefix_of_closed:
  "CHR '']'' \<notin> set v \<Longrightarrow> starts_with v (u @ CHR '']'' # rest) \<Longrightarrow> starts_with v u"
  by (induction u arbitrary: v) (auto simp: starts_with_Cons)

lemma contains_in_redacted:
  assumes "plain_secret v" "contains v (REDACTED @ rest)"
  shows "contains v rest"
proof -
  have v: "CHR ''['' \<notin> set v" "CHR '']'' \<notin> set v" "\<not> contains v ''REDACTED''" "v \<noteq> []"
    using assms(1) plain_not_Nil by (auto simp: plain_secret_def)
  have out: "contains v (u @ CHR '']'' # rest) \<Longrightarrow> \<not> contains v u \<Longrightarrow> contains v rest" for u
  proof (induction u)
    case Nil
    with v show ?case by (auto simp: starts_with_Cons)
  next
    case (Cons c u)
    with prefix_of_closed [OF v(2), of "c # u" rest] show ?case by auto
  qed
  have "contains v (''REDACTED'' @ CHR '']'' # rest)"
    using assms(2) v by (simp add: REDACTED_def) (auto simp: starts_with_Cons)
  from out [OF this v(3)] show ?thesis .
qed

lemma contains_drop: "contains v (drop n s) \<Longrightarrow> contains v s"
proof -
  assume "contains v (drop n s)"
  then obtain b a where "drop n s = b @ v @ a" by (auto simp: contains_iff)
  then have "s = (take n s @ b) @ v @ a" by (metis append.assoc append_take_drop_id)
  then show ?thesis unfolding contains_iff by blast
qed

lemma replacing_adds_no_secret:
  "plain_secret v \<Longrightarrow> contains v (py_replace w REDACTED s) \<Longrightarrow> contains v s"
proof (induction w REDACTED s rule: py_replace.induct)
  case (2 w c cs)
  show ?case
  proof (cases "w \<noteq> [] \<and> starts_with w (c # cs)")
    case True
    from 2(4) have "contains v (REDACTED @ py_replace w REDACTED (drop (length w) (c # cs)))" by (simp only: py_replace_hit [OF True])
    then have "contains v (py_replace w REDACTED (drop (length w) (c # cs)))" by (rule contains_in_redacted [OF 2(3)])
    from 2(1) [OF True 2(3) this] show ?thesis by (rule contains_drop)
  next
    case False
    from 2(4) consider "starts_with v (py_replace w REDACTED (c # cs))" | "contains v (py_replace w REDACTED cs)"
      by (simp only: py_replace_miss [OF False] contains.simps) blast
    then show ?thesis
    proof cases
      case 1
      with 2(3) starts_with_replaced [of v w "c # cs"] show ?thesis by (simp add: plain_secret_def)
    next
      case 2
      with "2.hyps"(2) [OF False "2.prems"(1)] show ?thesis by simp
    qed
  qed
qed simp

lemma replacing_removes_secret:
  "plain_secret v \<Longrightarrow> \<not> contains v (py_replace v REDACTED s)"
proof (induction v REDACTED s rule: py_replace.induct)
  case (1 v)
  then show ?case using plain_not_Nil by simp
next
  case (2 v c cs)
  show ?case
  proof (cases "v \<noteq> [] \<and> starts_with v (c # cs)")
    case True
    with 2(1) [OF True 2(3)] contains_in_redacted [OF 2(3)] show ?thesis by (simp only: py_replace_hit [OF True]) blast
  next
    case False
    have "\<not> starts_with v (c # py_replace v REDACTED cs)"
    proof
      assume "starts_with v (c # py_replace v REDACTED cs)"
      then have "starts_with v (c # cs)"
        using starts_with_replaced [of v v "c # cs"] 2(3) by (simp add: plain_secret_def py_replace_miss [OF False] del: py_replace.simps)
      with False plain_not_Nil [OF 2(3)] show False by simp
    qed
    moreover have "py_replace v REDACTED (c # cs) = c # py_replace v REDACTED cs" by (rule py_replace_miss [OF False])
    ultimately show ?thesis using 2(2) [OF False 2(3)] by simp
  qed
qed

lemma redacted_hides:
  assumes "plain_secret value" "6 \<le> length value"
  shows "\<not> contains value (redact (later @ register_secret (Some value) secrets @ others) text)"
proof -
  have fold: "\<not> contains value t \<Longrightarrow> \<not> contains value (redact ss t)" for ss t
  proof (induction ss arbitrary: t)
    case (Cons w ss)
    have "\<not> contains value (py_replace w REDACTED t)" using Cons.prems replacing_adds_no_secret [OF assms(1)] by blast
    from Cons.IH [OF this] show ?case by (simp add: redact_def)
  qed (simp add: redact_def)
  have "value \<in> set (later @ register_secret (Some value) secrets @ others)"
    using assms(2) by (auto simp: register_secret_def)
  then obtain xs ys where split: "later @ register_secret (Some value) secrets @ others = xs @ value # ys" by (meson split_list)
  have "redact (xs @ value # ys) text = redact ys (py_replace value REDACTED (redact xs text))" by (simp add: redact_def)
  then show ?thesis using fold replacing_removes_secret [OF assms(1)] by (simp add: split)
qed

text \<open>
  Whatever a command prints, no secret the process has registered is in it, whatever was registered
  before or after and however the secrets overlap; a value of six characters or more is registered, once.
\<close>

theorem printed_lines_hide_secrets:
  assumes "plain_secret value" "6 \<le> length value"
  shows "\<not> contains value (redact (later @ register_secret (Some value) secrets @ others) text)"
  by (rule redacted_hides [OF assms])

theorem printed_lines_hide_secrets_witness:
  "\<not> contains ''123456:ABC'' (redact ([''456:AB''] @ register_secret (Some ''123456:ABC'') [] @ []) ''token 123456:ABC read'')"
  by (rule printed_lines_hide_secrets) (simp_all add: plain_secret_def starts_with_def)

end
