(* ===== verification/Ssh.thy ===== *)
theory Ssh
  imports Pipeline Schemas
begin

text \<open>
  The collector of a real server (src/src/vpnpulse/collectors/ssh.py): one call of the read-only helper
  over SSH, the classification of its failures and the translation of its answer into observations. The
  call itself is the argument \<open>runner\<close>; the JSON of the answer is the parsed document. \<open>None\<close> is an
  exception that leaves \<open>collect\<close>: the loop isolates it.
\<close>

subsection \<open>The command\<close>

record ssh_target =
  tg_host :: string
  tg_key_file :: string
  tg_known_hosts_file :: string
  tg_user :: string
  tg_port :: int
  tg_timeout_seconds :: int

definition ssh_command :: "ssh_target \<Rightarrow> string list" where
  "ssh_command t =
     [''ssh'', ''-o'', ''BatchMode=yes'', ''-o'', ''StrictHostKeyChecking=yes'',
      ''-o'', ''UserKnownHostsFile='' @ tg_known_hosts_file t, ''-o'', ''IdentitiesOnly=yes'',
      ''-o'', ''ConnectTimeout='' @ show_int (max 3 (min (tg_timeout_seconds t - 5) 15)), ''-o'', ''LogLevel=ERROR'',
      ''-i'', tg_key_file t, ''-p'', show_int (tg_port t), tg_user t @ ''@'' @ tg_host t, ''vpn-pulse-helper'']"

subsection \<open>Calling the helper\<close>

datatype run_result =
    TimeoutExpired
  | RunOSError
  | Completed int jtext string  \<comment> \<open>exit code, standard output as JSON (None when it is not), standard error\<close>

definition classify_failure :: "int \<Rightarrow> string \<Rightarrow> string" where
  "classify_failure returncode stderr =
     (let txt = lower stderr
      in if contains ''host key'' txt \<or> contains ''remote host identification has changed'' txt \<or> contains ''no hostkey'' txt
         then ''SSH_HOST_KEY_MISMATCH''
         else if contains ''permission denied'' txt \<or> contains ''no supported authentication'' txt \<or> contains ''publickey'' txt
         then ''SSH_AUTH_FAILED''
         else if returncode = 255 \<or> contains ''connection timed out'' txt \<or> contains ''could not resolve'' txt \<or>
                 contains ''connection refused'' txt \<or> contains ''network is unreachable'' txt
         then ''SSH_UNREACHABLE''
         else ''HELPER_FAILED'')"

definition equals_int :: "int \<Rightarrow> json \<Rightarrow> bool" where
  \<comment> \<open>\<open>value == n\<close>: Python compares booleans and floats by their number\<close>
  "equals_int n v = (case v of JInt i \<Rightarrow> i = n | JFloat x \<Rightarrow> x = of_int n | JBool b \<Rightarrow> (if b then 1 else 0) = n | _ \<Rightarrow> False)"

definition call_helper :: "run_result \<Rightarrow> string + jdict" where
  \<comment> \<open>\<open>HelperAnswer\<close>: \<open>Inl\<close> the error code, \<open>Inr\<close> the payload\<close>
  "call_helper result =
     (case result of
        TimeoutExpired \<Rightarrow> Inl ''SSH_TIMEOUT''
      | RunOSError \<Rightarrow> Inl ''HELPER_FAILED''
      | Completed returncode stdout stderr \<Rightarrow>
          if returncode \<noteq> 0 then Inl (classify_failure returncode stderr)
          else case stdout of
                 Some (JObj payload) \<Rightarrow>
                   if equals_int 1 (jget payload ''schema'') \<and> is_dict (jget payload ''peers'') \<and> is_dict (jget payload ''system'')
                   then Inr payload else Inl ''HELPER_INVALID_ANSWER''
               | _ \<Rightarrow> Inl ''HELPER_INVALID_ANSWER'')"

subsection \<open>Values of the answer\<close>

definition num_in :: "rat option \<Rightarrow> rat option \<Rightarrow> json \<Rightarrow> json" where
  \<comment> \<open>\<open>_num\<close>: the number itself when it is one inside the bounds, else None\<close>
  "num_in lo hi v =
     (case as_num v of
        None \<Rightarrow> JNull
      | Some x \<Rightarrow>
          if (case lo of None \<Rightarrow> False | Some l \<Rightarrow> x < l) then JNull
          else if (case hi of None \<Rightarrow> False | Some h \<Rightarrow> h < x) then JNull else v)"

fun iter_of :: "json \<Rightarrow> json list option" where
  \<comment> \<open>iterating over \<open>value or []\<close>; None is the TypeError of a value that cannot be iterated\<close>
  "iter_of (JArr xs) = Some xs"
| "iter_of (JObj d) = Some (map (\<lambda>(k, v). JStr k) d)"
| "iter_of (JStr s) = Some (map (\<lambda>c. JStr [c]) s)"
| "iter_of v = (if truthy v then None else Some [])"

fun dict_or_none :: "json \<Rightarrow> jdict option" where
  \<comment> \<open>\<open>value or {}\<close> used as a dictionary; None is the AttributeError of another value\<close>
  "dict_or_none (JObj d) = Some d"
| "dict_or_none v = (if truthy v then None else Some [])"

definition strings_of :: "json list \<Rightarrow> string list" where
  "strings_of xs = List.map_filter as_str xs"

definition ints_of :: "json list \<Rightarrow> int list" where
  "ints_of xs = List.map_filter (\<lambda>v. case v of JInt i \<Rightarrow> Some i | _ \<Rightarrow> None) xs"

definition str_or_null :: "json \<Rightarrow> json" where
  "str_or_null v = (case v of JStr s \<Rightarrow> JStr s | _ \<Rightarrow> JNull)"

definition bool_or_null :: "json \<Rightarrow> json" where
  "bool_or_null v = (case v of JBool b \<Rightarrow> JBool b | _ \<Rightarrow> JNull)"

definition in_datetime_range :: "datetime \<Rightarrow> bool" where
  \<comment> \<open>years 1 to 9999\<close>
  "in_datetime_range t \<longleftrightarrow> seconds (-62135596800) \<le> t \<and> t < seconds 253402300800"

definition observed_at_of :: "jdict \<Rightarrow> datetime \<Rightarrow> datetime option" where
  \<comment> \<open>\<open>_observed_at\<close>: the helper's clock while it is within a minute of ours; None is the OverflowError of \<open>fromtimestamp\<close>\<close>
  "observed_at_of payload now =
     (case as_num (num_in (Some 0) None (jget payload ''observed_at'')) of
        None \<Rightarrow> Some now
      | Some at_seconds \<Rightarrow>
          let observed = round_half_even (at_seconds * 1000000)
          in if \<not> in_datetime_range observed then None
             else if seconds 60 < abs (observed - now) then Some now else Some observed)"

definition kernel_key :: "string \<Rightarrow> nat list" where
  "kernel_key name =
     map (\<lambda>chunk. if isdigit chunk then nat_of_digits chunk else 0)
       (split_on (CHR ''.'') (map (\<lambda>c. if c = CHR ''-'' then CHR ''.'' else c) (before ''-generic'' name)))"

definition max_by :: "('a \<Rightarrow> 'k::linorder) \<Rightarrow> 'a list \<Rightarrow> 'a option" where
  \<comment> \<open>\<open>max(xs, key=k)\<close>, the first of the greatest\<close>
  "max_by k xs = (case xs of [] \<Rightarrow> None | x # rest \<Rightarrow> Some (foldl (\<lambda>best y. if k best < k y then y else best) x rest))"

definition newest_kernel :: "jdict \<Rightarrow> string option option" where
  \<comment> \<open>outer None: the list cannot be iterated\<close>
  "newest_kernel system =
     map_option (\<lambda>xs. max_by kernel_key (filter (\<lambda>k. k \<noteq> []) (strings_of xs))) (iter_of (jget system ''kernels_installed''))"

subsection \<open>The traffic rate\<close>

type_synonym counters = "(datetime \<times> int) option"

definition round2 :: "rat \<Rightarrow> rat" where
  "round2 x = of_int (round_half_even (x * 100)) / 100"

definition traffic_mbps :: "datetime \<Rightarrow> jdict \<Rightarrow> counters \<Rightarrow> json \<times> counters" where
  "traffic_mbps observed peers previous =
     (case (as_num (num_in (Some 0) None (jget peers ''rx_bytes'')), as_num (num_in (Some 0) None (jget peers ''tx_bytes''))) of
        (Some rx, Some tx) \<Rightarrow>
          let total = \<lfloor>rx\<rfloor> + \<lfloor>tx\<rfloor>
          in (case previous of
                None \<Rightarrow> JNull
              | Some (before_at, before_total) \<Rightarrow>
                  let secs = of_int (observed - before_at) / (1000000 :: rat)
                  in if secs \<le> 0 \<or> total < before_total then JNull
                     else JFloat (round2 (of_int ((total - before_total) * 8) / secs / 1000000)),
              Some (observed, total))
      | _ \<Rightarrow> (JNull, previous))"

subsection \<open>Components, attention, document\<close>

definition dns_configured :: "json \<Rightarrow> bool" where
  "dns_configured dns \<longleftrightarrow> is_dict dns \<and> truthy (jget (as_dict dns) ''configured'')"

definition component :: "string \<Rightarrow> string \<Rightarrow> json \<Rightarrow> string \<Rightarrow> json" where
  "component cid name version note_key =
     JObj [(''id'', JStr cid), (''name'', JStr name), (''version'', version), (''note_key'', JStr note_key), (''note'', JNull)]"

definition components :: "jdict \<Rightarrow> jdict \<Rightarrow> json list" where
  "components payload system =
     (let kind = jget payload ''kind'';
          version = (case jget system ''awg_version'' of JStr s \<Rightarrow> (if s = [] then JNull else JStr (take 32 s)) | _ \<Rightarrow> JNull);
          engine = (if kind = JStr ''awg-host'' then [component ''amneziawg'' ''AmneziaWG'' version ''server.software.kernel'']
                    else if kind = JStr ''awg-docker'' then [component ''amneziawg'' ''AmneziaWG'' version ''server.software.docker''] else []);
          tuning = (case jget system ''congestion_control'' of
                      JStr cc \<Rightarrow> if cc = [] then [] else [component ''tuning'' (take 40 (upper cc)) JNull ''server.software.tuning'']
                    | _ \<Rightarrow> []);
          ddns = (if dns_configured (jget payload ''dns'') then [component ''ddns'' ''DDNS'' JNull ''server.software.ddns''] else [])
      in take 12 (engine @ tuning @ ddns))"

definition finding :: "dictionaries \<Rightarrow> string \<Rightarrow> string \<Rightarrow> (string \<times> string) list \<Rightarrow> json" where
  "finding ds severity code params =
     JObj [(''severity'', JStr severity), (''code'', JStr code),
       (''message'', JObj (map (\<lambda>lang. (lang, JStr (take 240 (translate ds lang (''attention.'' @ code) params)))) [''ru'', ''en'']))]"

definition DISK_PRESSURE_PERCENT :: rat where "DISK_PRESSURE_PERCENT = 85"
definition SWAP_PRESSURE_PERCENT :: rat where "SWAP_PRESSURE_PERCENT = 50"

definition percent_text :: "rat option \<Rightarrow> string" where
  "percent_text x = (case x of None \<Rightarrow> ''?'' | Some r \<Rightarrow> show_int \<lfloor>r\<rfloor>)"

definition module_mismatch :: "jdict \<Rightarrow> string option \<Rightarrow> string list \<Rightarrow> bool" where
  "module_mismatch system newest_name built \<longleftrightarrow>
     (case (jget system ''dkms_module'', newest_name, jget system ''kernel'') of
        (JStr m, Some n, JStr running) \<Rightarrow> m \<noteq> [] \<and> running \<noteq> [] \<and> n \<noteq> running \<and> n \<notin> set built
      | _ \<Rightarrow> False)"

definition attention :: "dictionaries \<Rightarrow> jdict \<Rightarrow> json \<Rightarrow> bool \<Rightarrow> json \<Rightarrow> string option \<Rightarrow> string list \<Rightarrow> json list" where
  "attention ds system swap engine_ok dns newest_name built =
     (let disk = as_num (num_in (Some 0) (Some 100) (jget system ''disk_percent''));
          pressed = (\<lambda>x limit. case x of None \<Rightarrow> False | Some r \<Rightarrow> limit \<le> (r :: rat));
          cc = jget system ''congestion_control''
      in take 20
          ((if module_mismatch system newest_name built then [finding ds ''high'' ''KERNEL_MODULE_MISMATCH'' []] else []) @
           (if \<not> engine_ok then [finding ds ''high'' ''ENGINE_UNREADABLE'' []] else []) @
           (if pressed disk DISK_PRESSURE_PERCENT \<or> pressed (as_num swap) SWAP_PRESSURE_PERCENT
            then [finding ds ''medium'' ''DISK_PRESSURE'' [(''disk'', percent_text disk), (''swap'', percent_text (as_num swap))]] else []) @
           (if dns_configured dns \<and> jget (as_dict dns) ''matches_public_ip'' = JBool False then [finding ds ''medium'' ''DDNS_MISMATCH'' []] else []) @
           (case cc of JStr s \<Rightarrow> if s \<noteq> [] \<and> s \<noteq> ''bbr'' then [finding ds ''low'' ''TUNING_LOST'' [(''cc'', s)]] else [] | _ \<Rightarrow> [])))"

definition service_check :: "string \<Rightarrow> json \<Rightarrow> json" where
  "service_check name ok = JObj [(''check'', JStr name), (''ok'', ok)]"

definition json_nat :: "nat \<Rightarrow> json" where "json_nat n = JInt (int n)"

definition known_if :: "bool \<Rightarrow> json \<Rightarrow> json" where "known_if ok v = (if ok then v else JNull)"

record helper_facts =
  hf_engine_ok :: bool
  hf_active_now :: nat
  hf_active_24h :: nat
  hf_ever :: nat
  hf_last_connection :: json

definition last_connection_text :: "(datetime \<Rightarrow> string) \<Rightarrow> datetime \<Rightarrow> int list \<Rightarrow> json option" where
  \<comment> \<open>None: the time of the last handshake is outside the years of a datetime\<close>
  "last_connection_text iso_text observed ever =
     (case ever of
        [] \<Rightarrow> Some JNull
      | a # rest \<Rightarrow>
          let t = observed - seconds (foldl min a rest) in if in_datetime_range t then Some (JStr (iso_text t)) else None)"

definition metrics_of ::
  "dictionaries \<Rightarrow> jdict \<Rightarrow> jdict \<Rightarrow> jdict \<Rightarrow> json \<Rightarrow> string list \<Rightarrow> string option \<Rightarrow> string list \<Rightarrow> helper_facts \<Rightarrow> json \<Rightarrow> jdict" where
  \<comment> \<open>the dictionary \<open>metrics_from\<close> returns, from the parts of the answer and the facts counted in it\<close>
  "metrics_of ds payload system peers dns errors newest_name built f traffic =
     (let engine = as_dict (jget payload ''engine'');
          ok = hf_engine_ok f;
          percent = (\<lambda>k. num_in (Some 0) (Some 100) (jget system k));
          issued = as_num (num_in (Some 0) None (jget peers ''count''));
          checks = [service_check ''ssh'' (JBool True), service_check ''engine'' (JBool ok),
                    service_check ''port'' (bool_or_null (jget engine ''listening''))] @
            (if dns_configured dns then
               [service_check ''dns'' (bool_or_null (jget (as_dict dns) ''resolves'')),
                service_check ''ddns'' (bool_or_null (jget (as_dict dns) ''matches_public_ip''))] else [])
      in [(''connections'', JObj [(''amneziawg'', known_if ok (json_nat (hf_active_now f)))]),
          (''resources'', JObj [(''traffic_mbps'', known_if ok traffic), (''cpu_percent'', percent ''cpu_percent''),
             (''memory_percent'', percent ''memory_percent''), (''swap_percent'', percent ''swap_percent''), (''peak_connections_24h'', JNull)]),
          (''profiles'', JObj [(''issued'', (case issued of None \<Rightarrow> JNull | Some x \<Rightarrow> known_if ok (JInt \<lfloor>x\<rfloor>))),
             (''ever_connected'', known_if ok (json_nat (hf_ever f))), (''active_24h'', known_if ok (json_nat (hf_active_24h f))),
             (''last_connection_at'', hf_last_connection f)]),
          (''components'', JArr (components payload system)),
          (''service_checks'', JArr checks),
          (''attention'', JArr (attention ds system (percent ''swap_percent'') ok dns newest_name built)),
          (''diagnostics'', JObj [(''ssh_ok'', JBool True), (''engine_ok'', JBool ok), (''helper_errors'', JArr (map JStr errors)),
             (''disk_percent'', percent ''disk_percent''), (''uptime_s'', num_in (Some 0) None (jget system ''uptime_s'')),
             (''kernel_running'', str_or_null (jget system ''kernel'')), (''kernel_newest_installed'', jopt JStr newest_name),
             (''congestion_control'', str_or_null (jget system ''congestion_control''))])])"

record ssh_collector =
  sh_server_id :: string
  sh_freshness :: int

definition facts_of :: "int \<Rightarrow> bool \<Rightarrow> int list \<Rightarrow> json \<Rightarrow> helper_facts" where
  "facts_of freshness_seconds engine_ok ever last_at =
     \<lparr>hf_engine_ok = engine_ok, hf_active_now = length (filter (\<lambda>a. a \<le> freshness_seconds) ever),
      hf_active_24h = length (filter (\<lambda>a. a \<le> 24 * 3600) ever), hf_ever = length ever, hf_last_connection = last_at\<rparr>"

definition metrics_from ::
  "dictionaries \<Rightarrow> (datetime \<Rightarrow> string) \<Rightarrow> ssh_collector \<Rightarrow> jdict \<Rightarrow> datetime \<Rightarrow> counters \<Rightarrow> (jdict \<times> counters) option" where
  "metrics_from ds iso_text c payload observed previous =
     (let peers = as_dict (jget payload ''peers''); system = as_dict (jget payload ''system''); dns = jget payload ''dns''
      in case (dict_or_none (jget payload ''engine''), iter_of (jget payload ''errors''), iter_of (jget peers ''handshake_ages''),
               newest_kernel system, iter_of (jget system ''dkms_built_for'')) of
           (Some engine, Some raw_errors, Some ages, Some newest_name, Some built) \<Rightarrow>
             let errors = strings_of raw_errors;
                 ever = filter (\<lambda>a. 0 \<le> a) (ints_of ages);
                 engine_ok = (jget engine ''ok'' = JBool True \<and> ''DUMP_FAILED'' \<notin> set errors)
             in (case last_connection_text iso_text observed ever of
                   None \<Rightarrow> None
                 | Some last_at \<Rightarrow>
                     let (traffic, counters) = (if engine_ok then traffic_mbps observed peers previous else (JNull, previous))
                     in Some (metrics_of ds payload system peers dns errors newest_name (strings_of built)
                                (facts_of (sh_freshness c) engine_ok ever last_at) traffic, counters))
         | _ \<Rightarrow> None)"

subsection \<open>One collection\<close>

definition plain_collected :: "string \<Rightarrow> string \<Rightarrow> string \<Rightarrow> datetime \<Rightarrow> jdict \<Rightarrow> string option \<Rightarrow> collected" where
  "plain_collected server_id source result observed document error_code =
     \<lparr>co_server_id = server_id, co_source = source, co_result = result, co_observed_at = observed, co_metrics = document,
      co_error_code = error_code, co_network_scope = ''all'', co_full_vpn_test = False, co_control_internet_ok = None, co_probe_id = None\<rparr>"

definition ssh_collect ::
  "dictionaries \<Rightarrow> (datetime \<Rightarrow> string) \<Rightarrow> ssh_collector \<Rightarrow> run_result \<Rightarrow> datetime \<Rightarrow> counters \<Rightarrow> (collected list \<times> counters) option" where
  "ssh_collect ds iso_text c result now previous =
     (case call_helper result of
        Inl code \<Rightarrow>
          Some ([plain_collected (sh_server_id c) ''collector'' ''failure'' now
                   [(''service_checks'', JArr [service_check ''ssh'' (JBool False)]),
                    (''diagnostics'', JObj [(''code'', JStr code), (''ssh_ok'', JBool False)])] (Some code)], previous)
      | Inr payload \<Rightarrow>
          (case observed_at_of payload now of
             None \<Rightarrow> None
           | Some observed \<Rightarrow>
               (case metrics_from ds iso_text c payload observed previous of
                  None \<Rightarrow> None
                | Some (document, counters) \<Rightarrow>
                    let active = jget (as_dict (jget document ''connections'')) ''amneziawg''
                    in Some (plain_collected (sh_server_id c) ''collector'' ''success'' observed document None #
                              (if truthy active then [plain_collected (sh_server_id c) ''human_activity'' ''success'' observed
                                 [(''connections'', JObj [(''amneziawg'', active)])] None] else []),
                            counters))))"

subsection \<open>Facts about the parts\<close>

lemma as_num_num_in: "as_num (num_in lo hi v) = Some x \<Longrightarrow>
   (case lo of None \<Rightarrow> True | Some l \<Rightarrow> l \<le> x) \<and> (case hi of None \<Rightarrow> True | Some h \<Rightarrow> x \<le> h)"
  by (auto simp: num_in_def not_less split: option.splits if_splits)

lemma number_within_num_in: "number_within lo hi (num_in lo hi v)"
  by (cases v) (auto simp: num_in_def not_less split: option.split)

lemma number_within_Float: "number_within (Some 0) None (JFloat x) = (0 \<le> x)"
  by simp

lemma round2_nonneg: "0 \<le> x \<Longrightarrow> 0 \<le> round2 x"
proof -
  assume "0 \<le> x"
  then have "0 \<le> round_half_even (x * 100)"
    using round_half_even_mono_bounds [of 0 "x * 100" "\<lceil>x * 100\<rceil>"] by (simp add: le_of_int_ceiling)
  then show ?thesis by (simp add: round2_def)
qed

lemma traffic_valid: "number_within (Some 0) None (fst (traffic_mbps observed peers previous))"
  by (auto simp: traffic_mbps_def Let_def intro!: round2_nonneg divide_nonneg_nonneg split: option.split prod.split)

lemma count_known_if: "0 \<le> i \<Longrightarrow> count_or_null (known_if ok (JInt i))"
  by (simp add: known_if_def)

lemma component_is_valid:
  "cid \<in> {''amneziawg'', ''tuning'', ''ddns''} \<Longrightarrow> length name \<le> 40 \<Longrightarrow>
   text_or_null 32 version \<Longrightarrow> starts_with ''server.software.'' key \<Longrightarrow> component_valid (component cid name version key)"
  by (auto simp: component_def component_valid_def strict_object_def literal_def)

lemma list_all_take: "list_all P xs \<Longrightarrow> list_all P (take n xs)"
  by (auto simp: list_all_iff dest: in_set_takeD)

lemma components_valid: "length (components payload system) \<le> 12 \<and> list_all component_valid (components payload system)"
proof -
  have engine: "text_or_null 32 (case jget system ''awg_version'' of JStr s \<Rightarrow> (if s = [] then JNull else JStr (take 32 s)) | _ \<Rightarrow> JNull)"
    by (simp split: json.split)
  have parts: "list_all component_valid
      ((if jget payload ''kind'' = JStr ''awg-host'' then [component ''amneziawg'' ''AmneziaWG'' v ''server.software.kernel'']
        else if jget payload ''kind'' = JStr ''awg-docker'' then [component ''amneziawg'' ''AmneziaWG'' v ''server.software.docker''] else []) @
       (case jget system ''congestion_control'' of
          JStr cc \<Rightarrow> if cc = [] then [] else [component ''tuning'' (take 40 (upper cc)) JNull ''server.software.tuning''] | _ \<Rightarrow> []) @
       (if dns_configured (jget payload ''dns'') then [component ''ddns'' ''DDNS'' JNull ''server.software.ddns''] else []))"
    if "text_or_null 32 v" for v
    using that by (auto simp: component_is_valid starts_with_def split: json.split)
  show ?thesis
    unfolding components_def Let_def by (intro conjI list_all_take parts engine) (simp del: take_append)
qed

definition finding_valid :: "json \<Rightarrow> bool" where
  \<comment> \<open>a finding as the contract requires it: severity, code, a message of at most 240 characters per language\<close>
  "finding_valid a \<longleftrightarrow>
     attention_wf a \<and> (case jget (as_dict a) ''code'' of JStr c \<Rightarrow> code_pattern c | _ \<Rightarrow> False) \<and>
     list_all (\<lambda>(lang, v). case v of JStr t \<Rightarrow> length t \<le> 240 | _ \<Rightarrow> False) (as_dict (jget (as_dict a) ''message''))"

lemma finding_is_valid:
  "severity \<in> {''high'', ''medium'', ''low''} \<Longrightarrow> code_pattern code \<Longrightarrow> finding_valid (finding ds severity code params)"
  by (auto simp: finding_def finding_valid_def attention_wf_def severity_order_def)

lemma codes_valid:
  "code_pattern ''KERNEL_MODULE_MISMATCH''" "code_pattern ''ENGINE_UNREADABLE''" "code_pattern ''DISK_PRESSURE''"
  "code_pattern ''DDNS_MISMATCH''" "code_pattern ''TUNING_LOST''"
  by (simp_all add: code_pattern_def upper_char_def)

lemma attention_valid: "length (attention ds system swap ok dns n built) \<le> 20 \<and> list_all finding_valid (attention ds system swap ok dns n built)"
  unfolding attention_def Let_def
  by (intro conjI list_all_take) (simp del: take_append, auto simp: finding_is_valid codes_valid split: json.split)

subsection \<open>What a collection promises\<close>

definition payload_contract :: "jdict \<Rightarrow> bool" where
  \<comment> \<open>contracts/collector-observation.schema.json, by the response models that will carry the blocks\<close>
  "payload_contract m \<longleftrightarrow>
     count_or_null (jget (as_dict (jget m ''connections'')) ''amneziawg'') \<and>
     resources_valid (jget m ''resources'') \<and> profiles_valid (jget m ''profiles'') \<and>
     length (as_list (jget m ''components'')) \<le> 12 \<and> list_all component_valid (as_list (jget m ''components'')) \<and>
     length (as_list (jget m ''service_checks'')) \<le> 8 \<and> list_all service_check_valid (as_list (jget m ''service_checks'')) \<and>
     length (as_list (jget m ''attention'')) \<le> 20 \<and> list_all finding_valid (as_list (jget m ''attention''))"

definition ERROR_CODES :: "string list" where
  "ERROR_CODES = [''SSH_TIMEOUT'', ''SSH_UNREACHABLE'', ''SSH_AUTH_FAILED'', ''SSH_HOST_KEY_MISMATCH'', ''HELPER_FAILED'', ''HELPER_INVALID_ANSWER'']"

definition engine_readable :: "jdict \<Rightarrow> bool" where
  "engine_readable payload \<longleftrightarrow>
     jget (or_default [] (dict_or_none (jget payload ''engine''))) ''ok'' = JBool True \<and>
     ''DUMP_FAILED'' \<notin> set (strings_of (or_default [] (iter_of (jget payload ''errors''))))"

definition fresh_handshakes :: "int \<Rightarrow> jdict \<Rightarrow> nat" where
  \<comment> \<open>the peers whose last handshake is at most the freshness old\<close>
  "fresh_handshakes freshness_seconds payload =
     length (filter (\<lambda>a. 0 \<le> a \<and> a \<le> freshness_seconds)
       (ints_of (or_default [] (iter_of (jget (as_dict (jget payload ''peers'')) ''handshake_ages'')))))"

lemma service_checks_valid: "ok \<in> {JNull, JBool True, JBool False} \<Longrightarrow> name \<in> {''ssh'', ''engine'', ''port'', ''dns'', ''ddns''} \<Longrightarrow>
   service_check_valid (service_check name ok)"
  by (auto simp: service_check_def service_check_valid_def strict_object_def literal_def)

lemma bool_or_null_cases: "bool_or_null v \<in> {JNull, JBool True, JBool False}"
  by (cases v) (auto simp: bool_or_null_def)

lemma metrics_of_contract:
  assumes "number_within (Some 0) None traffic" "hf_last_connection f = JNull \<or> (\<exists>s. hf_last_connection f = JStr s)"
  shows "payload_contract (metrics_of ds payload system peers dns errors n built f traffic)"
proof -
  have known: "number_within lo hi (known_if ok v)" if "number_within lo hi v" for lo hi ok v
    using that by (simp add: known_if_def)
  have issued: "0 \<le> \<lfloor>x\<rfloor>" if "as_num (num_in (Some 0) None v) = Some x" for v x
    using as_num_num_in [OF that] by simp
  have checks: "service_check_valid (service_check name (JBool b))" if "name \<in> {''ssh'', ''engine''}" for name b
    using that by (intro service_checks_valid) (cases b, auto)
  have "resources_valid (jget (metrics_of ds payload system peers dns errors n built f traffic) ''resources'')"
    using assms(1) by (simp add: metrics_of_def Let_def resources_valid_def strict_object_def number_within_num_in known)
  moreover have "profiles_valid (jget (metrics_of ds payload system peers dns errors n built f traffic) ''profiles'')"
    using assms(2) issued
    by (auto simp: metrics_of_def Let_def profiles_valid_def strict_object_def count_known_if json_nat_def split: option.split)
  moreover have "list_all service_check_valid (as_list (jget (metrics_of ds payload system peers dns errors n built f traffic) ''service_checks''))"
    using bool_or_null_cases by (simp add: metrics_of_def Let_def checks service_checks_valid)
  ultimately show ?thesis
    using components_valid [of payload system] attention_valid
    by (simp add: payload_contract_def) (simp add: metrics_of_def Let_def count_known_if json_nat_def)
qed

lemma metrics_of_connections [simp]:
  "jget (as_dict (jget (metrics_of ds payload system peers dns errors n built f traffic) ''connections'')) ''amneziawg'' =
     known_if (hf_engine_ok f) (json_nat (hf_active_now f))"
  by (simp add: metrics_of_def Let_def)

lemma metrics_from_contract:
  assumes "metrics_from ds iso_text c payload observed previous = Some (m, counters)"
  shows "payload_contract m \<and> jget (as_dict (jget m ''connections'')) ''amneziawg'' =
     known_if (engine_readable payload) (json_nat (fresh_handshakes (sh_freshness c) payload))"
proof -
  let ?peers = "as_dict (jget payload ''peers'')" and ?system = "as_dict (jget payload ''system'')"
  from assms obtain engine errors ages n built last_at traffic where parts:
      "dict_or_none (jget payload ''engine'') = Some engine" "iter_of (jget payload ''errors'') = Some errors"
      "iter_of (jget ?peers ''handshake_ages'') = Some ages"
      "last_connection_text iso_text observed (filter (\<lambda>a. 0 \<le> a) (ints_of ages)) = Some last_at"
      "(traffic, counters) = (if engine_readable payload then traffic_mbps observed ?peers previous else (JNull, previous))"
      "m = metrics_of ds payload ?system ?peers (jget payload ''dns'') (strings_of errors) n (strings_of built)
         (facts_of (sh_freshness c) (engine_readable payload) (filter (\<lambda>a. 0 \<le> a) (ints_of ages)) last_at) traffic"
    by (auto simp: metrics_from_def Let_def engine_readable_def split: option.splits prod.splits if_splits)
  have "number_within (Some 0) None traffic"
    using traffic_valid [of observed ?peers previous] parts(5) by (auto split: if_splits) (metis fst_conv)
  moreover have "last_at = JNull \<or> (\<exists>s. last_at = JStr s)"
    using parts(4) by (auto simp: last_connection_text_def Let_def split: list.splits if_splits)
  ultimately have "payload_contract m" unfolding parts(6) by (intro metrics_of_contract) (simp_all add: facts_of_def)
  moreover have "fresh_handshakes (sh_freshness c) payload = length (filter (\<lambda>a. a \<le> sh_freshness c) (filter (\<lambda>a. 0 \<le> a) (ints_of ages)))"
    using parts(3) by (simp add: fresh_handshakes_def conj_commute)
  ultimately show ?thesis unfolding parts(6) by (simp add: facts_of_def)
qed

lemma classify_failure_codes: "classify_failure returncode stderr \<in> set ERROR_CODES"
  by (simp add: classify_failure_def ERROR_CODES_def Let_def)

lemma call_helper_codes: "call_helper result = Inl code \<Longrightarrow> code \<in> set ERROR_CODES"
  using classify_failure_codes by (auto simp: call_helper_def ERROR_CODES_def split: run_result.splits if_splits option.splits json.splits)

lemma observed_at_near:
  "observed_at_of payload now = Some observed \<Longrightarrow> abs (observed - now) \<le> seconds 60"
  by (auto simp: observed_at_of_def Let_def seconds_def split: option.splits if_splits)


definition sample_answer :: jdict where
  "sample_answer =
     [(''schema'', JInt 1), (''kind'', JStr ''awg-host''), (''engine'', JObj [(''ok'', JBool True)]),
      (''peers'', JObj [(''count'', JInt 3), (''handshake_ages'', JArr [JInt 20, JInt (-1)])]), (''system'', JObj [(''cpu_percent'', JInt 7)])]"

lemma sample_collected:
  "call_helper (Completed 0 (Some (JObj sample_answer)) []) = Inr sample_answer"
  "engine_readable sample_answer" "fresh_handshakes 180 sample_answer = 1"
  "\<exists>obs counters. ssh_collect [] (\<lambda>t. []) \<lparr>sh_server_id = ''s1'', sh_freshness = 180\<rparr> (Completed 0 (Some (JObj sample_answer)) [])
     (seconds 60) None = Some (obs, counters)"
proof -
  show call: "call_helper (Completed 0 (Some (JObj sample_answer)) []) = Inr sample_answer"
    by (simp add: call_helper_def sample_answer_def equals_int_def)
  show "engine_readable sample_answer" by (simp add: engine_readable_def sample_answer_def strings_of_def)
  show "fresh_handshakes 180 sample_answer = 1" by (simp add: fresh_handshakes_def sample_answer_def ints_of_def List.map_filter_def)
  have "observed_at_of sample_answer (seconds 60) = Some (seconds 60)"
    by (simp add: observed_at_of_def sample_answer_def num_in_def)
  moreover have "\<exists>r. metrics_from [] (\<lambda>t. []) \<lparr>sh_server_id = ''s1'', sh_freshness = 180\<rparr> sample_answer (seconds 60) None = Some r"
    by (simp add: metrics_from_def sample_answer_def Let_def newest_kernel_def last_connection_text_def ints_of_def List.map_filter_def
        in_datetime_range_def seconds_def strings_of_def traffic_mbps_def num_in_def)
  ultimately show "\<exists>obs counters. ssh_collect [] (\<lambda>t. []) \<lparr>sh_server_id = ''s1'', sh_freshness = 180\<rparr> (Completed 0 (Some (JObj sample_answer)) [])
     (seconds 60) None = Some (obs, counters)"
    by (auto simp: ssh_collect_def call Let_def)
qed


end
