(* ===== verification/Registry.thy ===== *)
theory Registry
  imports Cli_Common Ssh
begin

text \<open>
  The collectors map (src/src/vpnpulse/collectors/registry.py, contracts/collectors.schema.json) and the
  collectors \<open>vpn-pulse run\<close> builds from it (src/src/vpnpulse/cli/run.py). The parsed YAML is the argument;
  the contract is the predicate \<open>collectors_map_valid\<close>.
\<close>

subsection \<open>The map and its contract\<close>

record collector_entry =
  ce_kind :: string
  ce_host :: string
  ce_port :: "int option"
  ce_user :: "string option"
  ce_key_file :: string
  ce_known_hosts_file :: string
  ce_timeout_seconds :: "int option"
  ce_enabled :: "bool option"

type_synonym collectors_map = "(string \<times> collector_entry) list"

text \<open>What the file at a path holds: its version and entries, or why it cannot be used.\<close>

datatype map_doc =
    MapOSError string
  | MapNotYaml string
  | MapDocument int collectors_map

definition at_end :: "(string \<Rightarrow> bool) \<Rightarrow> string \<Rightarrow> bool" where
  \<comment> \<open>an expression closed by \<open>$\<close>, which also matches before a final newline\<close>
  "at_end P s \<longleftrightarrow> P s \<or> (s \<noteq> [] \<and> last s = CHR 0x0A \<and> P (butlast s))"

definition lower_or_digit :: "char \<Rightarrow> bool" where
  "lower_or_digit c \<longleftrightarrow> is_digit c \<or> (97 \<le> (of_char c :: nat) \<and> (of_char c :: nat) \<le> 122)"

definition lower_letter :: "char \<Rightarrow> bool" where
  "lower_letter c \<longleftrightarrow> 97 \<le> (of_char c :: nat) \<and> (of_char c :: nat) \<le> 122"

definition entry_name_pattern :: "string \<Rightarrow> bool" where
  "entry_name_pattern = at_end (\<lambda>s. 2 \<le> length s \<and> length s \<le> 80 \<and> list_all (\<lambda>c. lower_or_digit c \<or> c = CHR ''-'') s \<and>
     lower_or_digit (hd s) \<and> lower_or_digit (last s))"

definition user_pattern :: "string \<Rightarrow> bool" where
  "user_pattern = at_end (\<lambda>s. s \<noteq> [] \<and> length s \<le> 32 \<and> (lower_letter (hd s) \<or> hd s = CHR ''_'') \<and>
     list_all (\<lambda>c. lower_or_digit c \<or> c = CHR ''_'' \<or> c = CHR ''-'') s)"

definition entry_valid :: "collector_entry \<Rightarrow> bool" where
  "entry_valid e \<longleftrightarrow>
     ce_kind e \<in> {''awg-host'', ''awg-docker''} \<and> 1 \<le> length (ce_host e) \<and> length (ce_host e) \<le> 253 \<and>
     (case ce_port e of None \<Rightarrow> True | Some p \<Rightarrow> 1 \<le> p \<and> p \<le> 65535) \<and>
     (case ce_user e of None \<Rightarrow> True | Some u \<Rightarrow> user_pattern u) \<and> ce_key_file e \<noteq> [] \<and> ce_known_hosts_file e \<noteq> [] \<and>
     (case ce_timeout_seconds e of None \<Rightarrow> True | Some t \<Rightarrow> 5 \<le> t \<and> t \<le> 60)"

definition collectors_map_valid :: "int \<Rightarrow> collectors_map \<Rightarrow> bool" where
  "collectors_map_valid version entries \<longleftrightarrow>
     version = 1 \<and> entries \<noteq> [] \<and> list_all (\<lambda>(name, e). entry_name_pattern name \<and> entry_valid e) entries"

definition load_collectors_map :: "string \<Rightarrow> map_doc \<Rightarrow> string + collectors_map" where
  \<comment> \<open>\<open>Inl\<close> is the ConfigurationError; the name of the violated keyword is left out of its text\<close>
  "load_collectors_map name doc =
     (case doc of
        MapOSError e \<Rightarrow> Inl (''collectors map '' @ name @ '': '' @ e)
      | MapNotYaml e \<Rightarrow> Inl (''collectors map '' @ name @ '': not valid YAML/JSON ('' @ e @ '')'')
      | MapDocument version entries \<Rightarrow>
          if collectors_map_valid version entries then Inr entries
          else Inl (''collectors map '' @ name @ '': schema validation failed''))"

subsection \<open>From the map to collectors\<close>

definition entry_enabled :: "collector_entry \<Rightarrow> bool" where
  "entry_enabled e = or_default True (ce_enabled e)"

definition target_for :: "collector_entry \<Rightarrow> path \<Rightarrow> ssh_target" where
  "target_for e base_dir =
     \<lparr>tg_host = ce_host e, tg_key_file = as_posix (path_join base_dir (path_of (ce_key_file e))),
      tg_known_hosts_file = as_posix (path_join base_dir (path_of (ce_known_hosts_file e))),
      tg_user = or_default ''vpnpulse'' (ce_user e), tg_port = or_default 22 (ce_port e),
      tg_timeout_seconds = or_default 20 (ce_timeout_seconds e)\<rparr>"

record built_collector =
  bc_collector :: ssh_collector
  bc_target :: ssh_target
  bc_name :: string

definition usable_entry :: "collectors_map \<Rightarrow> server_config \<Rightarrow> (string \<times> collector_entry) option" where
  "usable_entry entries s =
     (case sc_collector_ref s of
        None \<Rightarrow> None
      | Some ref \<Rightarrow>
          if ref = [] then None
          else case map_of entries ref of
                 None \<Rightarrow> None
               | Some e \<Rightarrow> if entry_enabled e then Some (ref, e) else None)"

definition build_collectors :: "config \<Rightarrow> collectors_map \<Rightarrow> path \<Rightarrow> built_collector list" where
  "build_collectors config entries base_dir =
     (let freshness_seconds = or_default 180 (cfg_freshness_seconds config)
      in List.map_filter (\<lambda>s.
           if \<not> is_enabled s then None
           else case usable_entry entries s of
                  None \<Rightarrow> None
                | Some (ref, e) \<Rightarrow>
                    Some \<lparr>bc_collector = \<lparr>sh_server_id = sc_id s, sh_freshness = freshness_seconds\<rparr>,
                          bc_target = target_for e base_dir, bc_name = ref\<rparr>)
         (cfg_servers config))"

definition unreferenced :: "config \<Rightarrow> collectors_map \<Rightarrow> string list \<times> string list" where
  "unreferenced config entries =
     (let refs = map sc_collector_ref (filter is_enabled (cfg_servers config));
          servers_without = map sc_id (filter (\<lambda>s. is_enabled s \<and>
            \<not> (case sc_collector_ref s of
                 None \<Rightarrow> False
               | Some ref \<Rightarrow> (case map_of entries ref of None \<Rightarrow> False | Some e \<Rightarrow> entry_enabled e))) (cfg_servers config));
          entries_without = filter (\<lambda>name. Some name \<notin> set refs) (map fst entries)
      in (servers_without, entries_without))"

subsection \<open>What \<open>vpn-pulse run\<close> builds\<close>

definition collectors_map_path :: "full_config \<Rightarrow> path option \<Rightarrow> path option" where
  "collectors_map_path config config_path =
     (if \<not> text_set (fc_collectors_file config) then None
      else let p = path_of (or_default [] (fc_collectors_file config))
           in Some (case config_path of
                      None \<Rightarrow> p
                    | Some c \<Rightarrow> if is_absolute p then p else path_join (parent c) p))"

text \<open>The files a command sees: the secret files and, at their paths, the collectors maps.\<close>

type_synonym maps = "path \<rightharpoonup> map_doc"

definition path_name :: "path \<Rightarrow> string" where
  "path_name p = (if path_parts p = [] then [] else last (path_parts p))"

definition unreadable_secret :: "files \<Rightarrow> built_collector \<Rightarrow> string option" where
  \<comment> \<open>the first of the two secrets of a collector that is not in place\<close>
  "unreadable_secret fs c =
     map_option (\<lambda>p. path_name p @ '': '' @ secret_file_status fs p)
       (find (\<lambda>p. secret_file_status fs p \<noteq> ''ok'') [path_of (tg_key_file (bc_target c)), path_of (tg_known_hosts_file (bc_target c))])"

fun first_failure :: "('a \<Rightarrow> 'b option) \<Rightarrow> 'a list \<Rightarrow> ('a \<times> 'b) option" where
  "first_failure f [] = None"
| "first_failure f (x # xs) = (case f x of Some e \<Rightarrow> Some (x, e) | None \<Rightarrow> first_failure f xs)"

definition real_collectors :: "full_config \<Rightarrow> path option \<Rightarrow> maps \<Rightarrow> files \<Rightarrow> cli_error + built_collector list" where
  "real_collectors config config_path docs fs =
     (case collectors_map_path config config_path of
        None \<Rightarrow> Inr []
      | Some p \<Rightarrow>
          (case docs p of
             None \<Rightarrow> Inl (cli_fail (''collectors map not found: '' @ as_posix p @
                       '' (storage.collectors_file; vpn-pulse collector keygen creates entries)''))
           | Some doc \<Rightarrow>
               (case load_collectors_map (path_name p) doc of
                  Inl message \<Rightarrow> Inl (cli_fail message)
                | Inr entries \<Rightarrow>
                    let built = build_collectors (fc_public config) entries (parent p)
                    in case first_failure (unreadable_secret fs) built of
                         Some (c, problem) \<Rightarrow> Inl (cli_fail (''collector '' @ bc_name c @ '': '' @ problem @ '' (vpn-pulse collector keygen / pin)''))
                       | None \<Rightarrow> Inr built)))"

text \<open>The messenger of the loop: Telegram when the token file and the group are set, the console otherwise.\<close>

datatype notifier_choice =
    ConsoleMessenger
  | TelegramMessenger path string "string option" "string option"  \<comment> \<open>token file, group, administrator, link\<close>

definition flag_or :: "string option \<Rightarrow> string option \<Rightarrow> string option" where
  \<comment> \<open>a flag that is set overrides the configured value\<close>
  "flag_or flag configured = (if text_set flag then flag else configured)"

definition make_notifier :: "full_config \<Rightarrow> files \<Rightarrow> string option \<Rightarrow> string option \<Rightarrow> string option \<Rightarrow> cli_error + notifier_choice" where
  "make_notifier config fs flag_token flag_group flag_admin =
     (let configured = fc_telegram config;
          token = flag_or flag_token (map_option tc_bot_token_file configured);
          group = flag_or flag_group (map_option tc_group_chat_id configured);
          admin = flag_or flag_admin (Option.bind configured tc_admin_chat_id)
      in if text_set token \<and> text_set group then
           (let token_file = path_of (or_default [] token);
                status = secret_file_status fs token_file
            in if status \<noteq> ''ok''
               then Inl (cli_fail (''telegram token file '' @ as_posix token_file @ '': '' @ status @ '' (vpn-pulse doctor telegram)''))
               else Inr (TelegramMessenger token_file (or_default [] group) admin (Option.bind configured tc_open_url)))
         else Inr ConsoleMessenger)"

subsection \<open>Facts\<close>

lemma map_filter_eq: "List.map_filter f xs = map (the \<circ> f) (filter (\<lambda>x. f x \<noteq> None) xs)"
  by (simp add: List.map_filter_def)

lemma entry_name_not_Nil: "entry_name_pattern name \<Longrightarrow> name \<noteq> []"
  by (auto simp: entry_name_pattern_def at_end_def)

lemma map_names_not_Nil: "collectors_map_valid v entries \<Longrightarrow> map_of entries name = Some e \<Longrightarrow> name \<noteq> []"
  by (auto simp: collectors_map_valid_def list_all_iff dest!: map_of_SomeD dest: entry_name_not_Nil)

lemma first_failure_None: "first_failure f xs = None \<longleftrightarrow> (\<forall>x\<in>set xs. f x = None)"
  by (induction xs) (auto split: option.split)

definition collected_server :: "collectors_map \<Rightarrow> server_config \<Rightarrow> bool" where
  "collected_server entries s \<longleftrightarrow> is_enabled s \<and> usable_entry entries s \<noteq> None"

lemma usable_entry_Some:
  "usable_entry entries s = Some (ref, e) \<longleftrightarrow> sc_collector_ref s = Some ref \<and> ref \<noteq> [] \<and> map_of entries ref = Some e \<and> entry_enabled e"
  by (auto simp: usable_entry_def split: option.splits if_splits)

lemma built_collectors_eq:
  "build_collectors config entries base =
     map (\<lambda>s. let (ref, e) = the (usable_entry entries s)
              in \<lparr>bc_collector = \<lparr>sh_server_id = sc_id s, sh_freshness = or_default 180 (cfg_freshness_seconds config)\<rparr>,
                  bc_target = target_for e base, bc_name = ref\<rparr>)
       (filter (collected_server entries) (cfg_servers config))"
proof -
  have step: "List.map_filter (\<lambda>s. if \<not> is_enabled s then None else case usable_entry entries s of None \<Rightarrow> None | Some (ref, e) \<Rightarrow> Some (f s ref e)) xs =
      map (\<lambda>s. let (ref, e) = the (usable_entry entries s) in f s ref e) (filter (collected_server entries) xs)" for f xs
    by (induction xs) (auto simp: List.map_filter_simps collected_server_def split: option.split)
  show ?thesis by (simp add: build_collectors_def Let_def step [unfolded Let_def])
qed

lemma servers_without_eq:
  assumes "collectors_map_valid v entries"
  shows "fst (unreferenced config entries) = map sc_id (filter (\<lambda>s. \<not> collected_server entries s) (enabled_servers config))"
proof -
  have "(case sc_collector_ref s of None \<Rightarrow> False | Some ref \<Rightarrow> (case map_of entries ref of None \<Rightarrow> False | Some e \<Rightarrow> entry_enabled e)) \<longleftrightarrow>
      usable_entry entries s \<noteq> None" for s
    using map_names_not_Nil [OF assms] by (auto simp: usable_entry_def split: option.split)
  then have "(is_enabled s \<and> \<not> (case sc_collector_ref s of None \<Rightarrow> False | Some ref \<Rightarrow> (case map_of entries ref of None \<Rightarrow> False | Some e \<Rightarrow> entry_enabled e))) =
      (is_enabled s \<and> \<not> collected_server entries s)" for s by (auto simp: collected_server_def)
  then show ?thesis by (simp add: unreferenced_def enabled_servers_def)
qed

lemma shuffle_filter: "xs \<in> shuffles (filter P xs) (filter (\<lambda>x. \<not> P x) xs)"
  by (induction xs) (auto simp: Cons_in_shuffles_leftI Cons_in_shuffles_rightI)

lemma map_shuffles: "xs \<in> shuffles ys zs \<Longrightarrow> map f xs \<in> shuffles (map f ys) (map f zs)"
  by (induction ys zs arbitrary: xs rule: shuffles.induct) (auto simp: Cons_in_shuffles_leftI Cons_in_shuffles_rightI)

text \<open>
  The loop and the diagnosis agree on who is collected: every enabled server, in the order of the
  configuration, either has exactly one collector, under the reference it names and with that entry's host,
  or is listed as one without a helper; and an entry of the map is listed as unused exactly when no enabled
  server refers to it.
\<close>

theorem collected_or_listed:
  assumes "collectors_map_valid version entries"
  shows "map sc_id (enabled_servers config) \<in>
       shuffles (map (sh_server_id \<circ> bc_collector) (build_collectors config entries base)) (fst (unreferenced config entries)) \<and>
     (\<forall>c\<in>set (build_collectors config entries base). \<exists>s\<in>set (enabled_servers config). \<exists>e.
        sc_id s = sh_server_id (bc_collector c) \<and> sc_collector_ref s = Some (bc_name c) \<and>
        map_of entries (bc_name c) = Some e \<and> tg_host (bc_target c) = ce_host e) \<and>
     set (snd (unreferenced config entries)) =
       {name. name \<in> fst ` set entries \<and> (\<forall>s\<in>set (enabled_servers config). sc_collector_ref s \<noteq> Some name)}"
proof (intro conjI ballI)
  have ids: "map (sh_server_id \<circ> bc_collector) (build_collectors config entries base) =
      map sc_id (filter (collected_server entries) (enabled_servers config))"
  proof -
    have "filter (collected_server entries) (enabled_servers config) = filter (collected_server entries) (cfg_servers config)"
      by (auto simp: enabled_servers_def collected_server_def intro: filter_cong)
    then show ?thesis by (simp add: built_collectors_eq case_prod_beta Let_def)
  qed
  show "map sc_id (enabled_servers config) \<in>
      shuffles (map (sh_server_id \<circ> bc_collector) (build_collectors config entries base)) (fst (unreferenced config entries))"
    unfolding ids servers_without_eq [OF assms] by (intro map_shuffles shuffle_filter)
next
  fix c assume "c \<in> set (build_collectors config entries base)"
  then obtain s ref e where s: "s \<in> set (cfg_servers config)" "is_enabled s" "usable_entry entries s = Some (ref, e)"
      "c = \<lparr>bc_collector = \<lparr>sh_server_id = sc_id s, sh_freshness = or_default 180 (cfg_freshness_seconds config)\<rparr>,
            bc_target = target_for e base, bc_name = ref\<rparr>"
    by (auto simp: built_collectors_eq collected_server_def)
  then show "\<exists>s\<in>set (enabled_servers config). \<exists>e. sc_id s = sh_server_id (bc_collector c) \<and> sc_collector_ref s = Some (bc_name c) \<and>
      map_of entries (bc_name c) = Some e \<and> tg_host (bc_target c) = ce_host e"
    by (intro bexI [of _ s] exI [of _ e]) (auto simp: enabled_servers_def usable_entry_Some target_for_def)
next
  show "set (snd (unreferenced config entries)) =
      {name. name \<in> fst ` set entries \<and> (\<forall>s\<in>set (enabled_servers config). sc_collector_ref s \<noteq> Some name)}"
  proof -
    have "Some n \<in> sc_collector_ref ` S \<longleftrightarrow> (\<exists>s\<in>S. sc_collector_ref s = Some n)" for n :: string and S
      unfolding image_iff by (simp add: eq_commute)
    then show ?thesis by (auto simp: unreferenced_def enabled_servers_def)
  qed
qed

definition sample_entry :: collector_entry where
  "sample_entry = \<lparr>ce_kind = ''awg-host'', ce_host = ''vpn.example'', ce_port = None, ce_user = None, ce_key_file = ''c1.key'',
     ce_known_hosts_file = ''c1.known_hosts'', ce_timeout_seconds = None, ce_enabled = None\<rparr>"

theorem collected_or_listed_witness:
  "map sc_id (enabled_servers sample_config) \<in>
     shuffles (map (sh_server_id \<circ> bc_collector) (build_collectors sample_config [(''c1'', sample_entry)] (path_of ''/etc'')))
       (fst (unreferenced sample_config [(''c1'', sample_entry)]))"
  by (rule collected_or_listed [of 1, THEN conjunct1])
     (simp add: collectors_map_valid_def entry_name_pattern_def at_end_def lower_or_digit_def is_digit_def entry_valid_def sample_entry_def)

end
