(* ===== verification/Collector_Cli.thy ===== *)
theory Collector_Cli
  imports Registry
begin

text \<open>
  \<open>vpn-pulse collector keygen | pin | test | list\<close> (src/src/vpnpulse/cli/collector.py). The installation is
  the configuration at its path, the collectors maps and the secret files; ssh-keygen, ssh-keyscan and the
  call of the helper are arguments. A command gives the installation it leaves and its answer.
\<close>

subsection \<open>The installation\<close>

record installation =
  in_configs :: "path \<rightharpoonup> string + full_config"  \<comment> \<open>\<open>Inl\<close>: why the file is not a valid configuration\<close>
  in_maps :: maps
  in_files :: files

definition first_line :: "string \<Rightarrow> string" where
  \<comment> \<open>\<open>_first_line\<close>, on lines that end in a line feed\<close>
  "first_line t = (if strip t = [] then t else hd (split_on (CHR 0x0A) (strip t)))"

definition load_public_config :: "path option \<Rightarrow> installation \<Rightarrow> cli_error + path \<times> full_config" where
  "load_public_config config_path w =
     (case config_path of
        None \<Rightarrow> Inl (cli_fail ''config.yaml is required: pass --config PATH or set VPN_PULSE_CONFIG (vpn-pulse init creates one)'')
      | Some p \<Rightarrow>
          (case in_configs w p of
             None \<Rightarrow> Inl (cli_fail (''config not found: '' @ as_posix p @ '' (vpn-pulse init creates one)''))
           | Some (Inl e) \<Rightarrow> Inl (cli_fail (''config invalid: '' @ as_posix p @ [CHR 0x0A] @ first_line e))
           | Some (Inr c) \<Rightarrow> Inr (p, c)))"

subsection \<open>The contract of the configuration\<close>

definition public_id_pattern :: "string \<Rightarrow> bool" where
  "public_id_pattern = at_end (\<lambda>s. 2 \<le> length s \<and> length s \<le> 64 \<and> lower_letter (hd s) \<and> list_all (\<lambda>c. lower_or_digit c \<or> c = CHR ''-'') s)"

definition upper_letter :: "char \<Rightarrow> bool" where
  "upper_letter c \<longleftrightarrow> 65 \<le> (of_char c :: nat) \<and> (of_char c :: nat) \<le> 90"

definition country_pattern :: "string \<Rightarrow> bool" where
  "country_pattern = at_end (\<lambda>s. length s = 2 \<and> list_all upper_letter s)"

definition name_text_valid :: "json \<Rightarrow> bool" where
  "name_text_valid v = (case v of JStr t \<Rightarrow> 1 \<le> length t \<and> length t \<le> 80 | _ \<Rightarrow> False)"

definition server_config_valid :: "server_config \<Rightarrow> bool" where
  "server_config_valid s \<longleftrightarrow>
     public_id_pattern (sc_id s) \<and> sc_type s \<in> {''awg-host'', ''awg-docker'', ''hiddify''} \<and> sc_enabled s \<noteq> None \<and>
     is_dict (sc_name s) \<and> set (map fst (as_dict (sc_name s))) = {''ru'', ''en''} \<and>
     name_text_valid (jget (as_dict (sc_name s)) ''ru'') \<and> name_text_valid (jget (as_dict (sc_name s)) ''en'') \<and>
     country_pattern (sc_country_code s) \<and>
     (case sc_recommended_priority s of None \<Rightarrow> True | Some n \<Rightarrow> 0 \<le> n) \<and>
     (case sc_collector_ref s of None \<Rightarrow> True | Some r \<Rightarrow> 1 \<le> length r \<and> length r \<le> 80)"

definition full_config_valid :: "full_config \<Rightarrow> bool" where
  \<comment> \<open>the blocks the commands change: servers and storage (which needs a database when it is there)\<close>
  "full_config_valid c \<longleftrightarrow>
     list_all server_config_valid (cfg_servers (fc_public c)) \<and> fc_database c \<noteq> Some [] \<and> fc_collectors_file c \<noteq> Some [] \<and>
     (fc_collectors_file c \<noteq> None \<longrightarrow> fc_database c \<noteq> None)"

definition write_config_atomic :: "path \<Rightarrow> full_config \<Rightarrow> installation \<Rightarrow> cli_error + installation" where
  "write_config_atomic p c w =
     (if full_config_valid c then Inr (w\<lparr>in_configs := (in_configs w)(p \<mapsto> Inr c)\<rparr>)
      else Inl (cli_fail ''config would be invalid''))"

subsection \<open>The map file\<close>

definition map_path_of :: "path \<Rightarrow> full_config \<Rightarrow> path" where
  \<comment> \<open>\<open>_paths\<close>\<close>
  "map_path_of config_path c =
     (case collectors_map_path c (Some config_path) of
        Some p \<Rightarrow> p
      | None \<Rightarrow> path_join (parent config_path) (path_of ''secrets/collectors.yaml''))"

definition read_map :: "path \<Rightarrow> installation \<Rightarrow> cli_error + collectors_map" where
  "read_map p w =
     (case in_maps w p of
        None \<Rightarrow> Inr []
      | Some doc \<Rightarrow> (case load_collectors_map (path_name p) doc of Inl e \<Rightarrow> Inl (cli_fail e) | Inr entries \<Rightarrow> Inr entries))"

definition write_map :: "(collectors_map \<Rightarrow> string) \<Rightarrow> path \<Rightarrow> collectors_map \<Rightarrow> installation \<Rightarrow> installation" where
  \<comment> \<open>\<open>dump\<close> is the text \<open>yaml.safe_dump\<close> gives; it reads back as the same entries\<close>
  "write_map dump p entries w =
     w\<lparr>in_files := write_secret_file p (''# VPN Pulse collectors map'' @ [CHR 0x0A] @ dump entries) (in_files w),
       in_maps := (in_maps w)(p \<mapsto> MapDocument 1 entries)\<rparr>"

definition quoted :: "string \<Rightarrow> string" where
  "quoted s = CHR 0x27 # s @ [CHR 0x27]"

definition find_server :: "full_config \<Rightarrow> string \<Rightarrow> cli_error + server_config" where
  \<comment> \<open>\<open>_server\<close>\<close>
  "find_server c server_id =
     (case find (\<lambda>s. sc_id s = server_id) (cfg_servers (fc_public c)) of
        Some s \<Rightarrow> Inr s
      | None \<Rightarrow> Inl (cli_fail (''server '' @ quoted server_id @ '' is not in config.yaml (vpn-pulse server add first)'')))"

definition entry_of :: "full_config \<Rightarrow> collectors_map \<Rightarrow> string \<Rightarrow> cli_error + string \<times> collector_entry" where
  \<comment> \<open>\<open>_entry\<close>\<close>
  "entry_of c entries server_id =
     bind_err (find_server c server_id)
       (\<lambda>s. case (case sc_collector_ref s of
                    None \<Rightarrow> None
                  | Some ref \<Rightarrow> if ref = [] then None else map_option (\<lambda>e. (ref, e)) (map_of entries ref)) of
              Some found \<Rightarrow> Inr found
            | None \<Rightarrow> Inl (cli_fail (''server '' @ quoted server_id @ '' has no collector entry yet (vpn-pulse collector keygen '' @
                        server_id @ '' --host ...)'')))"

subsection \<open>keygen\<close>

definition host_char :: "char \<Rightarrow> bool" where
  "host_char c \<longleftrightarrow> lower_or_digit c \<or> upper_letter c"

definition HOST_RE :: "string \<Rightarrow> bool" where
  "HOST_RE = at_end (\<lambda>s. s \<noteq> [] \<and> length s \<le> 253 \<and> host_char (hd s) \<and>
     list_all (\<lambda>c. host_char c \<or> c = CHR ''.'' \<or> c = CHR ''_'' \<or> c = CHR ''-'') s)"

definition USER_RE :: "string \<Rightarrow> bool" where
  "USER_RE = user_pattern"

record keygen_args =
  ka_server_id :: string
  ka_host :: string
  ka_kind :: "string option"
  ka_user :: string
  ka_port :: int
  ka_force :: bool
  ka_db :: "string option"

text \<open>What ssh-keygen does: it is not installed, fails with a last line of its message, or leaves the two texts.\<close>

datatype keygen_run =
    KeygenMissing
  | KeygenFailed string
  | KeygenMade string string  \<comment> \<open>private and public key\<close>

fun update_first :: "('a \<Rightarrow> bool) \<Rightarrow> ('a \<Rightarrow> 'a) \<Rightarrow> 'a list \<Rightarrow> 'a list" where
  "update_first P f [] = []"
| "update_first P f (x # xs) = (if P x then f x # xs else x # update_first P f xs)"

definition helper_kind :: "string option \<Rightarrow> server_config \<Rightarrow> string option" where
  "helper_kind kind s =
     (if text_set kind then kind
      else if sc_type s \<in> {''awg-docker'', ''awg-host''} then Some (sc_type s) else None)"

definition collector_ref_for :: "string \<Rightarrow> string" where
  "collector_ref_for server_id = ''collector-'' @ server_id"

definition new_entry :: "keygen_args \<Rightarrow> string \<Rightarrow> collector_entry" where
  "new_entry a kind =
     (let ref = collector_ref_for (ka_server_id a)
      in \<lparr>ce_kind = kind, ce_host = ka_host a, ce_port = Some (ka_port a), ce_user = Some (ka_user a),
          ce_key_file = ref @ ''.key'', ce_known_hosts_file = ref @ ''.known_hosts'', ce_timeout_seconds = Some 20, ce_enabled = Some True\<rparr>)"

definition collectors_file_for :: "path \<Rightarrow> path \<Rightarrow> string" where
  "collectors_file_for config_path map_path =
     (if is_relative_to map_path (parent config_path) then as_posix (relative_to map_path (parent config_path)) else as_posix map_path)"

definition referring_config :: "keygen_args \<Rightarrow> path \<Rightarrow> path \<Rightarrow> full_config \<Rightarrow> full_config" where
  \<comment> \<open>the configuration with the reference and, where they are missing, the storage paths\<close>
  "referring_config a config_path map_path c =
     (let ref = collector_ref_for (ka_server_id a);
          servers = update_first (\<lambda>s. sc_id s = ka_server_id a) (\<lambda>s. s\<lparr>sc_collector_ref := Some ref\<rparr>) (cfg_servers (fc_public c))
      in c\<lparr>fc_public := (fc_public c)\<lparr>cfg_servers := servers\<rparr>,
           fc_database := (if text_set (fc_database c) then fc_database c else Some (as_posix (resolve_db (ka_db a) (Some c)))),
           fc_collectors_file := (if text_set (fc_collectors_file c) then fc_collectors_file c
                                  else Some (collectors_file_for config_path map_path))\<rparr>)"

definition keygen_lines :: "keygen_args \<Rightarrow> string \<Rightarrow> path \<Rightarrow> path \<Rightarrow> string \<Rightarrow> string list" where
  "keygen_lines a kind key_file map_path public_key =
     (let extra = (if kind = ''awg-host'' then [] else '' --container amnezia-awg'')
      in [''Collector key for '' @ ka_server_id a @ '': '' @ as_posix key_file @ '' (0600). Map entry '' @ collector_ref_for (ka_server_id a) @
            '' in '' @ as_posix map_path @ ''.'',
          [],
          ''On the server, as root (install-helper.sh is in deploy/helper/ of this repository):'',
          ''    sudo ./install-helper.sh --kind '' @ kind @ '' --iface awg0'' @ extra @ '' --pubkey '' @ quoted public_key,
          ''    (add --domain vpn.example.org when the server is reached by a name, for the DNS/DDNS checks)'',
          [],
          ''Then here: vpn-pulse collector pin '' @ ka_server_id a @ ''   and   vpn-pulse collector test '' @ ka_server_id a])"

definition key_path :: "path \<Rightarrow> string \<Rightarrow> path" where
  "key_path map_path name = path_join (parent map_path) (path_of name)"

definition keygen_checks :: "keygen_args \<Rightarrow> path option \<Rightarrow> installation \<Rightarrow> cli_error + (path \<times> full_config \<times> server_config \<times> string \<times> collectors_map)" where
  \<comment> \<open>everything \<open>command_keygen\<close> asks before it touches a file\<close>
  "keygen_checks a config_path w =
     (if \<not> HOST_RE (ka_host a) then Inl (cli_fail ''--host must be a hostname, an address or an ssh alias'')
      else if \<not> USER_RE (ka_user a) then Inl (cli_fail ''--user must be a plain unix user name'')
      else if \<not> (1 \<le> ka_port a \<and> ka_port a \<le> 65535) then Inl (cli_fail ''--port out of range'')
      else bind_err (load_public_config config_path w) (\<lambda>(p, c).
           bind_err (find_server c (ka_server_id a)) (\<lambda>s.
           case helper_kind (ka_kind a) s of
             None \<Rightarrow> Inl (cli_fail (''server type '' @ quoted (sc_type s) @ '' has no helper yet; pass --kind awg-host|awg-docker''))
           | Some kind \<Rightarrow>
               let map_path = map_path_of p c; ref = collector_ref_for (ka_server_id a)
               in bind_err (read_map map_path w) (\<lambda>entries.
                    if (in_files w (key_path map_path (ref @ ''.key'')) \<noteq> None \<or> ref \<in> fst ` set entries) \<and> \<not> ka_force a
                    then Inl (cli_fail (ref @ '' already exists; pass --force to replace the key and the entry''))
                    else Inr (p, c, s, kind, entries)))))"

definition command_keygen :: "(collectors_map \<Rightarrow> string) \<Rightarrow> keygen_args \<Rightarrow> path option \<Rightarrow> keygen_run \<Rightarrow> installation \<Rightarrow> installation \<times> answer" where
  "command_keygen dump a config_path run w =
     (case keygen_checks a config_path w of
        Inl e \<Rightarrow> (w, Inl e)
      | Inr (p, c, s, kind, entries) \<Rightarrow>
          let map_path = map_path_of p c; ref = collector_ref_for (ka_server_id a);
              key_file = key_path map_path (ref @ ''.key''); public_file = key_path map_path (ref @ ''.key.pub'');
              cleared = w\<lparr>in_files := (in_files w)(key_file := None, public_file := None)\<rparr>
          in case run of
               KeygenMissing \<Rightarrow> (w, Inl (cli_fail ''ssh-keygen is not installed (openssh-client)''))
             | KeygenFailed message \<Rightarrow> (cleared, Inl (cli_fail (''ssh-keygen failed: '' @ take 120 message)))
             | KeygenMade private_key public_key \<Rightarrow>
                 let keyed = cleared\<lparr>in_files := (in_files cleared)(key_file \<mapsto> owner_only private_key, public_file \<mapsto> owner_only public_key)\<rparr>;
                     mapped = write_map dump map_path (AList.update ref (new_entry a kind) entries) keyed;
                     answer = Inr (keygen_lines a kind key_file map_path (strip public_key), 0)
                 in if sc_collector_ref s \<noteq> Some ref \<or> \<not> text_set (fc_collectors_file c) then
                      (case write_config_atomic p (referring_config a p map_path c) mapped of
                         Inl e \<Rightarrow> (mapped, Inl e)
                       | Inr done_ \<Rightarrow> (done_, answer))
                    else (mapped, answer))"

subsection \<open>pin\<close>

definition base64_char :: "char \<Rightarrow> bool" where
  "base64_char c \<longleftrightarrow> host_char c \<or> c = CHR ''+'' \<or> c = CHR ''/'' \<or> c = CHR ''=''"

definition FINGERPRINT_RE :: "string \<Rightarrow> bool" where
  "FINGERPRINT_RE = at_end (\<lambda>s. starts_with ''SHA256:'' s \<and> length s \<in> {50, 51} \<and> list_all base64_char (drop 7 s))"

text \<open>
  The OpenSSH tools: whether they are there, the lines ssh-keyscan prints for a host and a port, and the
  words \<open>ssh-keygen -lf -\<close> prints for a key line.
\<close>

record ssh_tools =
  to_installed :: bool
  to_keyscan :: "string \<Rightarrow> int \<Rightarrow> string list"
  to_fingerprint_words :: "string \<Rightarrow> string list"

definition key_lines :: "string list \<Rightarrow> string list" where
  "key_lines scanned = filter (\<lambda>line. line \<noteq> [] \<and> \<not> starts_with ''#'' line) scanned"

definition preferred_key :: "string list \<Rightarrow> string" where
  "preferred_key keys = (case find (contains '' ssh-ed25519 '') keys of Some line \<Rightarrow> line | None \<Rightarrow> hd keys)"

definition fingerprint_of :: "ssh_tools \<Rightarrow> string \<Rightarrow> string option" where
  "fingerprint_of tools line = find (starts_with ''SHA256:'') (to_fingerprint_words tools line)"

definition command_pin :: "string \<Rightarrow> string option \<Rightarrow> path option \<Rightarrow> ssh_tools \<Rightarrow> installation \<Rightarrow> installation \<times> answer" where
  "command_pin server_id expected config_path tools w =
     (if text_set expected \<and> \<not> FINGERPRINT_RE (or_default [] expected)
      then (w, Inl (cli_fail ''--fingerprint must look like SHA256:... (ssh-keygen -lf /etc/ssh/ssh_host_ed25519_key.pub on the server)''))
      else case bind_err (load_public_config config_path w) (\<lambda>(p, c).
                  bind_err (read_map (map_path_of p c) w) (\<lambda>entries.
                  bind_err (entry_of c entries server_id) (\<lambda>(ref, e). Inr (map_path_of p c, ref, e)))) of
             Inl e \<Rightarrow> (w, Inl e)
           | Inr (map_path, ref, e) \<Rightarrow>
               if \<not> to_installed tools then (w, Inl (cli_fail ''ssh-keyscan / ssh-keygen are not installed (openssh-client)''))
               else let port = or_default 22 (ce_port e); keys = key_lines (to_keyscan tools (ce_host e) port)
                    in if keys = []
                       then (w, Inl (cli_fail (''no host key received from the server for '' @ ref @ '' (is it reachable on port '' @ show_int port @ ''?)'')))
                       else case fingerprint_of tools (preferred_key keys) of
                              None \<Rightarrow> (w, Inl (cli_fail ''could not compute the host key fingerprint''))
                            | Some fingerprint \<Rightarrow>
                                if text_set expected \<and> expected \<noteq> Some fingerprint
                                then (w, Inl (cli_fail (''host key fingerprint '' @ fingerprint @ '' does not match --fingerprint; nothing pinned'')))
                                else let known_hosts = key_path map_path (ce_known_hosts_file e)
                                     in (w\<lparr>in_files := write_secret_file known_hosts (preferred_key keys) (in_files w)\<rparr>,
                                         Inr ((''Pinned the host key of '' @ ref @ '': '' @ fingerprint @ '' -> '' @ as_posix known_hosts) #
                                           (if text_set expected then []
                                            else [''Compare it with `ssh-keygen -lf /etc/ssh/ssh_host_ed25519_key.pub` on the server; re-run with --fingerprint to be strict.'']),
                                           0)))"

subsection \<open>test\<close>

definition pad :: "nat \<Rightarrow> string \<Rightarrow> string" where
  "pad n s = s @ replicate (n - length s) (CHR '' '')"

definition coverage_of :: "json \<Rightarrow> string" where
  "coverage_of v =
     (case v of
        JObj d \<Rightarrow>
          if d = [] then ''empty''
          else let known = map fst (filter (\<lambda>(k, x). x \<noteq> JNull) d)
               in show_nat (length known) @ ''/'' @ show_nat (length d) @ '': '' @ join '', '' known
      | JArr xs \<Rightarrow> show_nat (length xs) @ '' items''
      | _ \<Rightarrow> ''?'')"

definition failure_hint :: "string \<Rightarrow> string" where
  "failure_hint code =
     (if code = ''SSH_TIMEOUT'' then ''the server did not answer within the deadline''
      else if code = ''SSH_UNREACHABLE'' then ''no SSH connection - host, port, firewall''
      else if code = ''SSH_AUTH_FAILED'' then ''the key is not accepted - was install-helper.sh run with this public key?''
      else if code = ''SSH_HOST_KEY_MISMATCH'' then ''the pinned host key does not match - re-pin only if the server was legitimately reinstalled''
      else if code = ''HELPER_INVALID_ANSWER'' then ''the helper answered with something other than its JSON - an old helper or a shell instead of the forced command''
      else ''see journalctl on the server'')"

definition coverage_report :: "string \<Rightarrow> collected list \<Rightarrow> jdict" where
  "coverage_report ref observations =
     (let main = hd observations;
          blocks = filter (\<lambda>(block, v). block \<noteq> ''diagnostics'') (co_metrics main)
      in [(''collector'', JStr ref), (''result'', JStr ''success''),
          (''coverage'', JObj (map (\<lambda>(block, v). (block, JStr (coverage_of v))) blocks)),
          (''attention'', JArr (map (\<lambda>a. jget (as_dict a) ''code'') (as_list (jget (co_metrics main) ''attention'')))),
          (''human_activity'', JBool (list_ex (\<lambda>ob. co_source ob = ''human_activity'') observations))])"

definition plain_str :: "json \<Rightarrow> string" where
  "plain_str v = or_default [] (as_str v)"

definition coverage_lines :: "string \<Rightarrow> jdict \<Rightarrow> string list" where
  "coverage_lines ref report =
     (let codes = map plain_str (as_list (jget report ''attention''))
      in [ref @ '': OK''] @
         map (\<lambda>(block, fields). ''  '' @ pad 15 block @ '' '' @ plain_str fields) (as_dict (jget report ''coverage'')) @
         [''  attention       '' @ (if codes = [] then ''none'' else join '', '' codes),
          ''  human activity  '' @ (if jget report ''human_activity'' = JBool True then ''yes'' else ''no fresh handshakes'')])"

datatype test_outcome =
    Answered answer
  | StopIteration  \<comment> \<open>no collector was built for the server: \<open>next\<close> without a default\<close>
  | CollectRaised

definition test_answer :: "(json \<Rightarrow> string) \<Rightarrow> bool \<Rightarrow> string \<Rightarrow> collected list \<Rightarrow> string list \<times> nat" where
  "test_answer dumps as_json ref observations =
     (let main = hd observations
      in if co_result main \<noteq> ''success''
         then ([ref @ '': FAILED '' @ or_default ''None'' (co_error_code main), failure_hint (or_default [] (co_error_code main))], 1)
         else if as_json then ([dumps (JObj (coverage_report ref observations))], 0)
         else (coverage_lines ref (coverage_report ref observations), 0))"

definition command_test ::
  "(json \<Rightarrow> string) \<Rightarrow> string \<Rightarrow> bool \<Rightarrow> path option \<Rightarrow> (built_collector \<Rightarrow> collected list option) \<Rightarrow> installation \<Rightarrow> test_outcome" where
  "command_test dumps server_id as_json config_path collect_now w =
     (case bind_err (load_public_config config_path w) (\<lambda>(p, c).
             bind_err (read_map (map_path_of p c) w) (\<lambda>entries.
             bind_err (entry_of c entries server_id) (\<lambda>(ref, e). Inr (map_path_of p c, c, entries, ref, e)))) of
        Inl e \<Rightarrow> Answered (Inl e)
      | Inr (map_path, c, entries, ref, e) \<Rightarrow>
          (case find (\<lambda>name. secret_file_status (in_files w) (key_path map_path name) \<noteq> ''ok'') [ce_key_file e, ce_known_hosts_file e] of
             Some name \<Rightarrow> Answered (Inl (cli_fail (ref @ '': '' @ name @ '': '' @ secret_file_status (in_files w) (key_path map_path name) @
                            '' (vpn-pulse collector keygen / pin)'')))
           | None \<Rightarrow>
               (case find (\<lambda>b. sh_server_id (bc_collector b) = server_id) (build_collectors (fc_public c) entries (parent map_path)) of
                  None \<Rightarrow> StopIteration
                | Some b \<Rightarrow>
                    (case collect_now b of
                       None \<Rightarrow> CollectRaised
                     | Some observations \<Rightarrow> Answered (Inr (test_answer dumps as_json ref observations))))))"

subsection \<open>list\<close>

definition by_ref :: "full_config \<Rightarrow> string \<Rightarrow> string option" where
  \<comment> \<open>the last server that names a reference\<close>
  "by_ref c ref =
     map_option sc_id (find (\<lambda>s. text_set (sc_collector_ref s) \<and> sc_collector_ref s = Some ref) (rev (cfg_servers (fc_public c))))"

definition command_list_collectors :: "path option \<Rightarrow> installation \<Rightarrow> answer" where
  "command_list_collectors config_path w =
     bind_err (load_public_config config_path w) (\<lambda>(p, c).
     bind_err (read_map (map_path_of p c) w) (\<lambda>entries.
       let map_path = map_path_of p c; (servers_without, entries_without) = unreferenced (fc_public c) entries;
           status = (\<lambda>name. secret_file_status (in_files w) (key_path map_path name))
       in Inr
         ([''collectors map: '' @ as_posix map_path] @
          map (\<lambda>(ref, e). ''  '' @ pad 28 ref @ '' '' @ pad 11 (ce_kind e) @ '' server='' @ pad 12 (or_default ''-'' (by_ref c ref)) @
                 '' key='' @ status (ce_key_file e) @ '' host-key='' @ status (ce_known_hosts_file e) @
                 (if entry_enabled e then [] else '' (disabled)'')) entries @
          map (\<lambda>sid. ''  server '' @ sid @ '': no collector (probes only) -> vpn-pulse collector keygen '' @ sid @ '' --host ...'') servers_without @
          map (\<lambda>ref. ''  entry '' @ ref @ '': no server refers to it'') entries_without, 0)))"

subsection \<open>A host key is pinned only when it is the expected one\<close>

lemma preferred_key_in: "keys \<noteq> [] \<Longrightarrow> preferred_key keys \<in> set keys"
  by (auto simp: preferred_key_def find_Some_iff split: option.split)

lemma pin_success:
  assumes "command_pin server_id expected config_path tools w = (w', Inr out)"
  obtains p c entries ref e key fingerprint where
    "load_public_config config_path w = Inr (p, c)" "read_map (map_path_of p c) w = Inr entries" "entry_of c entries server_id = Inr (ref, e)"
    "key \<in> set (key_lines (to_keyscan tools (ce_host e) (or_default 22 (ce_port e))))" "fingerprint_of tools key = Some fingerprint"
    "text_set expected \<longrightarrow> expected = Some fingerprint"
    "w' = w\<lparr>in_files := write_secret_file (key_path (map_path_of p c) (ce_known_hosts_file e)) key (in_files w)\<rparr>"
proof -
  from assms obtain m ref e where found:
      "bind_err (load_public_config config_path w) (\<lambda>(p, c). bind_err (read_map (map_path_of p c) w) (\<lambda>entries.
         bind_err (entry_of c entries server_id) (\<lambda>(ref, e). Inr (map_path_of p c, ref, e)))) = Inr (m, ref, e)"
    by (auto simp: command_pin_def split: if_splits sum.splits)
  let ?keys = "key_lines (to_keyscan tools (ce_host e) (or_default 22 (ce_port e)))"
  from found obtain p c entries where load: "load_public_config config_path w = Inr (p, c)" "read_map m w = Inr entries"
      "entry_of c entries server_id = Inr (ref, e)" "m = map_path_of p c"
    by (auto simp: bind_err_Inr)
  from assms have keys: "?keys \<noteq> []" by (auto simp: command_pin_def found Let_def split: if_splits)
  from assms obtain fingerprint where fp: "fingerprint_of tools (preferred_key ?keys) = Some fingerprint"
    by (auto simp: command_pin_def found Let_def split: if_splits option.splits)
  from assms have "text_set expected \<longrightarrow> expected = Some fingerprint" "w' = w\<lparr>in_files := write_secret_file (key_path m (ce_known_hosts_file e)) (preferred_key ?keys) (in_files w)\<rparr>"
    by (auto simp: command_pin_def found fp Let_def split: if_splits)
  with load preferred_key_in [OF keys] fp that show thesis by simp
qed

lemma pin_failure: "command_pin server_id expected config_path tools w = (w', Inl e) \<Longrightarrow> w' = w"
  by (auto simp: command_pin_def Let_def split: if_splits sum.splits option.splits)

text \<open>
  C33. What \<open>collector pin --fingerprint\<close> leaves behind is one line the server sent whose fingerprint is the one
  the administrator gave, in the known_hosts file of that server's entry, readable by its owner only; with
  any other key, or any other error, no file changes.
\<close>

theorem pin_is_strict:
  assumes "command_pin server_id (Some expected) config_path tools w = (w', result)" "expected \<noteq> []"
  shows "case result of
       Inl e \<Rightarrow> w' = w
     | Inr out \<Rightarrow> \<exists>p c entries ref e key.
         load_public_config config_path w = Inr (p, c) \<and> read_map (map_path_of p c) w = Inr entries \<and>
         entry_of c entries server_id = Inr (ref, e) \<and> key \<in> set (to_keyscan tools (ce_host e) (or_default 22 (ce_port e))) \<and>
         find (starts_with ''SHA256:'') (to_fingerprint_words tools key) = Some expected \<and>
         w' = w\<lparr>in_files := (in_files w)(key_path (map_path_of p c) (ce_known_hosts_file e) \<mapsto> owner_only (strip key @ [CHR 0x0A]))\<rparr>"
proof (cases result)
  case (Inl e)
  with assms(1) pin_failure show ?thesis by auto
next
  case (Inr out)
  from assms(1) [unfolded Inr] show ?thesis unfolding Inr sum.case
  proof (rule pin_success)
    fix p c entries ref e key fingerprint
    assume "load_public_config config_path w = Inr (p, c)" "read_map (map_path_of p c) w = Inr entries" "entry_of c entries server_id = Inr (ref, e)"
      "key \<in> set (key_lines (to_keyscan tools (ce_host e) (or_default 22 (ce_port e))))" "fingerprint_of tools key = Some fingerprint"
      "text_set (Some expected) \<longrightarrow> Some expected = Some fingerprint"
      "w' = w\<lparr>in_files := write_secret_file (key_path (map_path_of p c) (ce_known_hosts_file e)) key (in_files w)\<rparr>"
    then show "\<exists>p c entries ref e key.
         load_public_config config_path w = Inr (p, c) \<and> read_map (map_path_of p c) w = Inr entries \<and>
         entry_of c entries server_id = Inr (ref, e) \<and> key \<in> set (to_keyscan tools (ce_host e) (or_default 22 (ce_port e))) \<and>
         find (starts_with ''SHA256:'') (to_fingerprint_words tools key) = Some expected \<and>
         w' = w\<lparr>in_files := (in_files w)(key_path (map_path_of p c) (ce_known_hosts_file e) \<mapsto> owner_only (strip key @ [CHR 0x0A]))\<rparr>"
      using assms(2)
      by (intro exI [of _ p] exI [of _ c] exI [of _ entries] exI [of _ ref] exI [of _ e] exI [of _ key])
         (simp add: text_set_def fingerprint_of_def key_lines_def write_secret_file_def)
  qed
qed

definition sample_config_path :: path where
  "sample_config_path = Path True [''etc'', ''config.yaml'']"

definition sample_full_config :: full_config where
  "sample_full_config =
     \<lparr>fc_public = sample_config\<lparr>cfg_servers := [sample_server\<lparr>sc_enabled := Some True, sc_collector_ref := Some ''c1'',
        sc_name := JObj [(''ru'', JStr ''A''), (''en'', JStr ''A'')]\<rparr>]\<rparr>,
      fc_database = Some ''/var/db'', fc_collectors_file = Some ''secrets/map.yaml'', fc_telegram = None, fc_public_url = None, fc_timezone = ''UTC''\<rparr>"

definition sample_installation :: installation where
  "sample_installation =
     \<lparr>in_configs = [sample_config_path \<mapsto> Inr sample_full_config],
      in_maps = [Path True [''etc'', ''secrets'', ''map.yaml''] \<mapsto> MapDocument 1 [(''c1'', sample_entry)]], in_files = Map.empty\<rparr>"

definition sample_fingerprint :: string where
  "sample_fingerprint = ''SHA256:'' @ replicate 43 (CHR ''A'')"

definition sample_tools :: ssh_tools where
  "sample_tools = \<lparr>to_installed = True, to_keyscan = (\<lambda>host port. [''# banner'', host @ '' ssh-ed25519 AAAA'']),
     to_fingerprint_words = (\<lambda>line. if strip line = [] then [] else [''256'', sample_fingerprint])\<rparr>"

lemma sample_loads [simp]:
  "load_public_config (Some sample_config_path) sample_installation = Inr (sample_config_path, sample_full_config)"
  "map_path_of sample_config_path sample_full_config = Path True [''etc'', ''secrets'', ''map.yaml'']"
  "read_map (Path True [''etc'', ''secrets'', ''map.yaml'']) sample_installation = Inr [(''c1'', sample_entry)]"
  "entry_of sample_full_config [(''c1'', sample_entry)] ''s1'' = Inr (''c1'', sample_entry)"
proof -
  have valid: "collectors_map_valid 1 [(''c1'', sample_entry)]"
    by (simp add: collectors_map_valid_def entry_name_pattern_def at_end_def lower_or_digit_def is_digit_def entry_valid_def sample_entry_def)
  show "read_map (Path True [''etc'', ''secrets'', ''map.yaml'']) sample_installation = Inr [(''c1'', sample_entry)]"
    using valid by (simp add: read_map_def sample_installation_def load_collectors_map_def)
  show "load_public_config (Some sample_config_path) sample_installation = Inr (sample_config_path, sample_full_config)"
    by (simp add: load_public_config_def sample_installation_def)
  show "map_path_of sample_config_path sample_full_config = Path True [''etc'', ''secrets'', ''map.yaml'']"
    by (simp add: map_path_of_def collectors_map_path_def sample_full_config_def sample_config_path_def text_set_def path_of_def
        starts_with_def path_join_def parent_def)
  show "entry_of sample_full_config [(''c1'', sample_entry)] ''s1'' = Inr (''c1'', sample_entry)"
    by (simp add: entry_of_def find_server_def sample_full_config_def sample_config_def sample_server_def)
qed

lemma answered: "\<not> isl (snd r) \<Longrightarrow> \<exists>w out. r = (w, Inr out)"
  by (cases r; cases "snd r") auto

theorem pin_is_strict_witness:
  "\<exists>w' out. command_pin ''s1'' (Some sample_fingerprint) (Some sample_config_path) sample_tools sample_installation = (w', Inr out) \<and>
     (\<exists>q key. key \<in> {''# banner'', ''vpn.example ssh-ed25519 AAAA''} \<and> in_files w' = [q \<mapsto> owner_only (strip key @ [CHR 0x0A])])"
proof -
  let ?r = "command_pin ''s1'' (Some sample_fingerprint) (Some sample_config_path) sample_tools sample_installation"
  have set: "text_set (Some sample_fingerprint)" by (simp add: text_set_def sample_fingerprint_def)
  have keys: "to_keyscan sample_tools (ce_host sample_entry) (or_default 22 (ce_port sample_entry)) = [''# banner'', ''vpn.example ssh-ed25519 AAAA'']"
    by (simp add: sample_tools_def sample_entry_def)
  have "\<not> isl (snd ?r)" by code_simp
  then obtain w' out where run: "?r = (w', Inr out)" using answered by blast
  have empty: "in_files sample_installation = Map.empty" by (simp add: sample_installation_def)
  from pin_is_strict [OF run] set obtain p c entries ref e key where pinned:
      "load_public_config (Some sample_config_path) sample_installation = Inr (p, c)" "read_map (map_path_of p c) sample_installation = Inr entries"
      "entry_of c entries ''s1'' = Inr (ref, e)" "key \<in> set (to_keyscan sample_tools (ce_host e) (or_default 22 (ce_port e)))"
      "in_files w' = (in_files sample_installation)(key_path (map_path_of p c) (ce_known_hosts_file e) \<mapsto> owner_only (strip key @ [CHR 0x0A]))"
    by (auto simp: text_set_def)
  from pinned(1-3) have "e = sample_entry" by auto
  with pinned(4,5) keys empty run show ?thesis by auto
qed

subsection \<open>From keygen to the first collection\<close>

lemma set_AList_update: "x \<in> set (AList.update k v d) \<Longrightarrow> x = (k, v) \<or> x \<in> set d"
  by (induction d) (auto split: if_splits)

lemma update_first_find:
  "find P xs = Some x \<Longrightarrow> P (f x) \<Longrightarrow> find P (update_first P f xs) = Some (f x)"
  by (induction xs) (auto split: if_splits)

lemma find_built:
  assumes "find (\<lambda>s. sc_id s = sid) (cfg_servers config) = Some s" "is_enabled s" "usable_entry entries s = Some (ref, e)"
  shows "find (\<lambda>b. sh_server_id (bc_collector b) = sid) (build_collectors config entries base) =
     Some \<lparr>bc_collector = \<lparr>sh_server_id = sid, sh_freshness = or_default 180 (cfg_freshness_seconds config)\<rparr>,
           bc_target = target_for e base, bc_name = ref\<rparr>"
proof -
  let ?f = "\<lambda>s. if \<not> is_enabled s then None else case usable_entry entries s of None \<Rightarrow> None
      | Some (ref, e) \<Rightarrow> Some \<lparr>bc_collector = \<lparr>sh_server_id = sc_id s, sh_freshness = or_default 180 (cfg_freshness_seconds config)\<rparr>,
          bc_target = target_for e base, bc_name = ref\<rparr>"
  have found: "find (\<lambda>b. sh_server_id (bc_collector b) = sid) (List.map_filter f servers) = f s"
    if "find (\<lambda>s. sc_id s = sid) servers = Some s" "\<And>s b. f s = Some b \<Longrightarrow> sh_server_id (bc_collector b) = sc_id s" "f s \<noteq> None"
    for f :: "server_config \<Rightarrow> built_collector option" and servers
    using that by (induction servers) (auto simp: List.map_filter_simps split: if_splits option.splits)
  have "sc_id s = sid" using assms(1) by (auto simp: find_Some_iff)
  with assms(2,3) have "?f s = Some \<lparr>bc_collector = \<lparr>sh_server_id = sid, sh_freshness = or_default 180 (cfg_freshness_seconds config)\<rparr>,
      bc_target = target_for e base, bc_name = ref\<rparr>" by simp
  moreover have "find (\<lambda>b. sh_server_id (bc_collector b) = sid) (List.map_filter ?f (cfg_servers config)) = ?f s"
    by (rule found [OF assms(1)]) (use assms in \<open>auto split: if_splits option.splits\<close>)
  ultimately show ?thesis by (simp add: build_collectors_def Let_def)
qed

lemma still_ok:
  "secret_file_status fs q = ''ok'' \<Longrightarrow> strip content \<noteq> [] \<Longrightarrow> secret_file_status (write_secret_file p content fs) q = ''ok''"
  by (cases "q = p") (simp_all add: written_secret_is_ok written_secret_status)

lemma strip_comment: "strip (CHR ''#'' # rest) \<noteq> []"
  by (simp add: strip_def is_space_def)

lemma owner_only_ok: "strip content \<noteq> [] \<Longrightarrow> fs q = Some (owner_only content) \<Longrightarrow> secret_file_status fs q = ''ok''"
proof -
  assume "strip content \<noteq> []" "fs q = Some (owner_only content)"
  moreover have "content \<noteq> []" using \<open>strip content \<noteq> []\<close> by (auto simp: strip_def)
  ultimately show ?thesis by (simp add: secret_file_status_def owner_only_def)
qed

lemma path_of_word: "CHR ''/'' \<notin> set s \<Longrightarrow> s \<noteq> [] \<Longrightarrow> s \<noteq> ''.'' \<Longrightarrow> path_of s = Path False [s]"
  by (cases s) (auto simp: path_of_def split_on_word starts_with_slash)

lemma entry_name_no_slash:
  assumes "entry_name_pattern name"
  shows "CHR ''/'' \<notin> set name"
proof -
  have ok: "CHR ''/'' \<notin> set s" if "list_all (\<lambda>c. lower_or_digit c \<or> c = CHR ''-'') s" for s
    using that by (auto simp: list_all_iff lower_or_digit_def is_digit_def)
  from assms consider "CHR ''/'' \<notin> set name" | "CHR ''/'' \<notin> set (butlast name)" "last name = CHR 0x0A" "name \<noteq> []"
    by (auto simp: entry_name_pattern_def at_end_def dest: ok)
  then show ?thesis
  proof cases
    case 2
    then have "set name = set (butlast name @ [CHR 0x0A])" by (metis append_butlast_last_id)
    with 2(1) show ?thesis by simp
  qed
qed

lemma key_files_differ: "CHR ''/'' \<notin> set ref \<Longrightarrow> key_path m (ref @ ''.key'') \<noteq> key_path m (ref @ ''.key.pub'')"
  by (simp add: key_path_def path_join_def path_of_word)

lemma keygen_success:
  assumes "command_keygen dump a config_path (KeygenMade private_key public_key) w = (w', Inr out)"
    "load_public_config config_path w = Inr (p, c)" "find_server c (ka_server_id a) = Inr s"
  obtains kind entries c' where
    "helper_kind (ka_kind a) s = Some kind" "read_map (map_path_of p c) w = Inr entries"
    "HOST_RE (ka_host a)" "USER_RE (ka_user a)" "1 \<le> ka_port a" "ka_port a \<le> 65535"
    "load_public_config config_path w' = Inr (p, c')"
    "c' = c \<and> sc_collector_ref s = Some (collector_ref_for (ka_server_id a)) \<and> text_set (fc_collectors_file c) \<or>
     c' = referring_config a p (map_path_of p c) c"
    "in_maps w' (map_path_of p c) = Some (MapDocument 1 (AList.update (collector_ref_for (ka_server_id a)) (new_entry a kind) entries))"
    "\<exists>text. in_files w' = write_secret_file (map_path_of p c) (CHR ''#'' # text)
       ((in_files w)(key_path (map_path_of p c) (collector_ref_for (ka_server_id a) @ ''.key'') \<mapsto> owner_only private_key,
                     key_path (map_path_of p c) (collector_ref_for (ka_server_id a) @ ''.key.pub'') \<mapsto> owner_only public_key))"
proof -
  from assms(1) obtain p1 c1 s1 kind entries where checks: "keygen_checks a config_path w = Inr (p1, c1, s1, kind, entries)"
    by (auto simp: command_keygen_def split: sum.splits)
  from checks assms(2,3) have facts: "p1 = p" "c1 = c" "s1 = s" "helper_kind (ka_kind a) s = Some kind" "read_map (map_path_of p c) w = Inr entries"
      "HOST_RE (ka_host a)" "USER_RE (ka_user a)" "1 \<le> ka_port a" "ka_port a \<le> 65535"
    by (auto simp: keygen_checks_def Let_def bind_err_Inr split: if_splits option.splits)
  from assms(2) obtain configs: "config_path = Some p" "in_configs w p = Some (Inr c)"
    by (auto simp: load_public_config_def split: option.splits sum.splits)
  note run = assms(1) [unfolded command_keygen_def checks, simplified Let_def facts(1-3), simplified]
  let ?ref = "collector_ref_for (ka_server_id a)" and ?m = "map_path_of p c"
  show thesis
  proof (rule that [OF facts(4-9)])
    show "load_public_config config_path w' = Inr (p, if sc_collector_ref s \<noteq> Some ?ref \<or> \<not> text_set (fc_collectors_file c) then referring_config a p ?m c else c)"
      using run configs
      by (auto simp: write_config_atomic_def write_map_def load_public_config_def split: if_splits)
    show "(if sc_collector_ref s \<noteq> Some ?ref \<or> \<not> text_set (fc_collectors_file c) then referring_config a p ?m c else c) = c \<and>
        sc_collector_ref s = Some ?ref \<and> text_set (fc_collectors_file c) \<or>
      (if sc_collector_ref s \<noteq> Some ?ref \<or> \<not> text_set (fc_collectors_file c) then referring_config a p ?m c else c) = referring_config a p ?m c"
      by simp
    show "in_maps w' ?m = Some (MapDocument 1 (AList.update ?ref (new_entry a kind) entries))"
      using run
      by (auto simp: write_config_atomic_def write_map_def split: if_splits)
    show "\<exists>text. in_files w' = write_secret_file ?m (CHR ''#'' # text)
       ((in_files w)(key_path ?m (?ref @ ''.key'') \<mapsto> owner_only private_key, key_path ?m (?ref @ ''.key.pub'') \<mapsto> owner_only public_key))"
      using run
      by (intro exI [of _ "'' VPN Pulse collectors map'' @ [CHR 0x0A] @ dump (AList.update ?ref (new_entry a kind) entries)"])
        (auto simp: write_config_atomic_def write_map_def fun_upd_twist split: if_splits)
  qed
qed

lemma secrets_are_not_settings [simp]:
  "load_public_config config_path (w\<lparr>in_files := fs\<rparr>) = load_public_config config_path w"
  "read_map m (w\<lparr>in_files := fs\<rparr>) = read_map m w"
  by (cases config_path) (simp_all add: load_public_config_def read_map_def)

lemma new_entry_valid:
  assumes "HOST_RE (ka_host a)" "USER_RE (ka_user a)" "1 \<le> ka_port a" "ka_port a \<le> 65535" "length (ka_host a) \<le> 253"
    "helper_kind (ka_kind a) s = Some kind" "ka_kind a \<in> {None, Some ''awg-host'', Some ''awg-docker''}"
  shows "entry_valid (new_entry a kind)"
proof -
  have "ka_host a \<noteq> []" using assms(1) by (auto simp: HOST_RE_def at_end_def)
  moreover have "kind \<in> {''awg-host'', ''awg-docker''}" using assms(6,7) by (auto simp: helper_kind_def text_set_def split: if_splits)
  ultimately show ?thesis using assms(2-5) by (auto simp: entry_valid_def new_entry_def Let_def USER_RE_def Suc_le_eq)
qed

lemma read_map_entries:
  "read_map m w = Inr entries \<Longrightarrow> (name, e) \<in> set entries \<Longrightarrow> entry_name_pattern name \<and> entry_valid e"
  by (auto simp: read_map_def load_collectors_map_def collectors_map_valid_def list_all_iff split: option.splits map_doc.splits sum.splits if_splits)

lemma updated_map_valid:
  "read_map m w = Inr entries \<Longrightarrow> entry_name_pattern ref \<Longrightarrow> entry_valid e \<Longrightarrow> collectors_map_valid 1 (AList.update ref e entries)"
  by (auto simp: collectors_map_valid_def list_all_iff update_nonempty dest!: set_AList_update dest: read_map_entries)

lemma map_path_referring: "map_path_of p (referring_config a p (map_path_of p c) c) = map_path_of p c"
proof (cases "text_set (fc_collectors_file c)")
  case True
  then show ?thesis by (simp add: map_path_of_def collectors_map_path_def referring_config_def Let_def)
next
  case False
  then have m: "map_path_of p c = Path (is_absolute p) (butlast (path_parts p) @ [''secrets'', ''collectors.yaml''])"
    by (simp add: map_path_of_def collectors_map_path_def path_of_def starts_with_def path_join_def parent_def)
  then have "collectors_file_for p (map_path_of p c) = ''secrets/collectors.yaml''"
    by (simp add: collectors_file_for_def is_relative_to_def relative_to_def parent_def as_posix_def join_def)
  moreover have set: "text_set (Some ''secrets/collectors.yaml'')" by (simp add: text_set_def)
  ultimately have "collectors_map_path (referring_config a p (map_path_of p c) c) (Some p) = Some (map_path_of p c)"
    using False m set by (simp add: collectors_map_path_def referring_config_def Let_def path_of_def starts_with_def path_join_def parent_def)
  then show ?thesis by (simp add: map_path_of_def)
qed

lemma referring_server:
  "find_server c (ka_server_id a) = Inr s \<Longrightarrow>
   find_server (referring_config a p m c) (ka_server_id a) = Inr (s\<lparr>sc_collector_ref := Some (collector_ref_for (ka_server_id a))\<rparr>)"
proof -
  assume "find_server c (ka_server_id a) = Inr s"
  then have found: "find (\<lambda>s. sc_id s = ka_server_id a) (cfg_servers (fc_public c)) = Some s" by (simp add: find_server_def split: option.splits)
  then have "sc_id s = ka_server_id a" by (auto simp: find_Some_iff)
  with found show ?thesis by (simp add: find_server_def referring_config_def Let_def update_first_find)
qed

lemma test_finds_collector:
  assumes "load_public_config config_path w = Inr (p, c)" "read_map (map_path_of p c) w = Inr entries"
    "find_server c server_id = Inr s" "is_enabled s" "sc_collector_ref s = Some ref" "ref \<noteq> []" "map_of entries ref = Some e" "entry_enabled e"
    "secret_file_status (in_files w) (key_path (map_path_of p c) (ce_key_file e)) = ''ok''"
    "secret_file_status (in_files w) (key_path (map_path_of p c) (ce_known_hosts_file e)) = ''ok''"
  shows "\<exists>b. sh_server_id (bc_collector b) = server_id \<and> bc_target b = target_for e (parent (map_path_of p c)) \<and>
     (\<forall>dumps as_json collect_now. command_test dumps server_id as_json config_path collect_now w =
        (case collect_now b of None \<Rightarrow> CollectRaised | Some obs \<Rightarrow> Answered (Inr (test_answer dumps as_json ref obs))))"
proof -
  have entry: "entry_of c entries server_id = Inr (ref, e)" using assms(3,5-7) by (simp add: entry_of_def)
  have "find (\<lambda>s. sc_id s = server_id) (cfg_servers (fc_public c)) = Some s"
    using assms(3) by (simp add: find_server_def split: option.splits)
  from find_built [OF this assms(4)] assms(5-8)
  obtain b where "find (\<lambda>b. sh_server_id (bc_collector b) = server_id) (build_collectors (fc_public c) entries (parent (map_path_of p c))) = Some b"
      "sh_server_id (bc_collector b) = server_id" "bc_target b = target_for e (parent (map_path_of p c))"
    by (simp add: usable_entry_Some)
  with assms(1,2,9,10) entry show ?thesis by (intro exI [of _ b]) (simp add: command_test_def)
qed

text \<open>
  C34. The way a server is connected ends where it should: after a keygen that succeeded and a pin that
  succeeded, \<open>collector test\<close> finds both secrets in place and collects from exactly that server through the
  host, port and user that were given - provided the server is enabled and its id gives an entry name the
  contract allows.
\<close>

theorem connecting_a_server:
  assumes "command_keygen dump a config_path (KeygenMade private_key public_key) w = (w1, Inr lines1)"
    "command_pin (ka_server_id a) expected config_path tools w1 = (w2, Inr lines2)"
    "load_public_config config_path w = Inr (p, c)" "find_server c (ka_server_id a) = Inr s" "is_enabled s"
    "ka_kind a \<in> {None, Some ''awg-host'', Some ''awg-docker''}" "length (ka_host a) \<le> 253"
    "entry_name_pattern (collector_ref_for (ka_server_id a))" "strip private_key \<noteq> []"
    "\<And>line. strip line = [] \<Longrightarrow> to_fingerprint_words tools line = []"
  shows "\<exists>b. sh_server_id (bc_collector b) = ka_server_id a \<and> tg_host (bc_target b) = ka_host a \<and> tg_port (bc_target b) = ka_port a \<and>
     tg_user (bc_target b) = ka_user a \<and>
     (\<forall>dumps as_json collect_now. command_test dumps (ka_server_id a) as_json config_path collect_now w2 =
        (case collect_now b of None \<Rightarrow> CollectRaised
         | Some obs \<Rightarrow> Answered (Inr (test_answer dumps as_json (collector_ref_for (ka_server_id a)) obs))))"
proof -
  let ?ref = "collector_ref_for (ka_server_id a)" and ?m = "map_path_of p c"
  from keygen_success [OF assms(1,3,4)] obtain kind entries c' dumped where made:
      "helper_kind (ka_kind a) s = Some kind" "read_map ?m w = Inr entries" "HOST_RE (ka_host a)" "USER_RE (ka_user a)"
      "1 \<le> ka_port a" "ka_port a \<le> 65535" "load_public_config config_path w1 = Inr (p, c')"
      "c' = c \<and> sc_collector_ref s = Some ?ref \<or> c' = referring_config a p ?m c"
      "in_maps w1 ?m = Some (MapDocument 1 (AList.update ?ref (new_entry a kind) entries))"
      "in_files w1 = write_secret_file ?m (CHR ''#'' # dumped)
         ((in_files w)(key_path ?m (?ref @ ''.key'') \<mapsto> owner_only private_key, key_path ?m (?ref @ ''.key.pub'') \<mapsto> owner_only public_key))"
    by metis
  let ?e = "new_entry a kind" and ?entries = "AList.update ?ref (new_entry a kind) entries"
  have valid: "collectors_map_valid 1 ?entries"
    using updated_map_valid [OF made(2) assms(8) new_entry_valid [OF made(3-6) assms(7) made(1) assms(6)]] .
  have m: "map_path_of p c' = ?m" using made(8) map_path_referring by auto
  from made(8) assms(4,5) referring_server [OF assms(4)] obtain s' where
      s': "find_server c' (ka_server_id a) = Inr s'" "is_enabled s'" "sc_collector_ref s' = Some ?ref"
    by (auto simp: is_enabled_def)
  have e: "map_of ?entries ?ref = Some ?e" by (simp add: update_conv')
  from assms(2) show ?thesis
  proof (rule pin_success)
    fix p2 c2 entries2 ref2 e2 key fingerprint
    assume pin: "load_public_config config_path w1 = Inr (p2, c2)" "read_map (map_path_of p2 c2) w1 = Inr entries2"
      "entry_of c2 entries2 (ka_server_id a) = Inr (ref2, e2)" "fingerprint_of tools key = Some fingerprint"
      "w2 = w1\<lparr>in_files := write_secret_file (key_path (map_path_of p2 c2) (ce_known_hosts_file e2)) key (in_files w1)\<rparr>"
    with made(7,9) m valid have same: "p2 = p" "c2 = c'" "entries2 = ?entries" by (auto simp: read_map_def load_collectors_map_def)
    with pin(3) s' e have "e2 = ?e" by (auto simp: entry_of_def collector_ref_for_def)
    have key: "strip key \<noteq> []" using pin(4) assms(10) by (auto simp: fingerprint_of_def)
    have "secret_file_status (in_files w1) (key_path ?m (?ref @ ''.key'')) = ''ok''"
      unfolding made(10) using key_files_differ [OF entry_name_no_slash [OF assms(8)]] assms(9)
      by (intro still_ok strip_comment owner_only_ok) auto
    with key have "secret_file_status (in_files w2) (key_path ?m (ce_key_file ?e)) = ''ok''"
      by (simp add: pin(5) still_ok new_entry_def Let_def)
    moreover have "secret_file_status (in_files w2) (key_path ?m (ce_known_hosts_file ?e)) = ''ok''"
      by (simp add: pin(5) same m \<open>e2 = ?e\<close> written_secret_is_ok key)
    moreover have "load_public_config config_path w2 = Inr (p, c')" "read_map (map_path_of p c') w2 = Inr ?entries"
      using made(7) pin(2) by (simp_all add: pin(5) same)
    ultimately show ?thesis
      using test_finds_collector [of config_path w2 p c' ?entries "ka_server_id a" s' ?ref ?e] s' e m
      by (auto simp: collector_ref_for_def new_entry_def Let_def entry_enabled_def target_for_def)
  qed
qed

definition sample_keygen :: keygen_args where
  "sample_keygen = \<lparr>ka_server_id = ''s1'', ka_host = ''vpn.example'', ka_kind = None, ka_user = ''vpnpulse'', ka_port = 22,
     ka_force = False, ka_db = None\<rparr>"

definition sample_keyed :: "installation \<times> answer" where
  "sample_keyed = command_keygen (\<lambda>_. []) sample_keygen (Some sample_config_path) (KeygenMade ''KEY'' ''PUB'') sample_installation"

definition sample_pinned :: "installation \<times> answer" where
  "sample_pinned = command_pin ''s1'' None (Some sample_config_path) sample_tools (fst sample_keyed)"

lemma sample_connected: "\<not> isl (snd sample_keyed)" "\<not> isl (snd sample_pinned)"
  by code_simp+

theorem connecting_a_server_witness:
  "\<exists>b. tg_host (bc_target b) = ''vpn.example'' \<and>
     (\<forall>collect_now. command_test (\<lambda>_. []) ''s1'' False (Some sample_config_path) collect_now (fst sample_pinned) =
        (case collect_now b of None \<Rightarrow> CollectRaised | Some obs \<Rightarrow> Answered (Inr (test_answer (\<lambda>_. []) False (collector_ref_for ''s1'') obs))))"
proof -
  obtain w1 lines1 where keygen: "sample_keyed = (w1, Inr lines1)" using answered [OF sample_connected(1)] by auto
  obtain w2 lines2 where pin: "sample_pinned = (w2, Inr lines2)" using answered [OF sample_connected(2)] by auto
  have server: "\<exists>s. find_server sample_full_config (ka_server_id sample_keygen) = Inr s \<and> is_enabled s"
    by (simp add: find_server_def sample_full_config_def sample_keygen_def sample_config_def sample_server_def is_enabled_def)
  have name: "entry_name_pattern (collector_ref_for (ka_server_id sample_keygen))" by code_simp
  have pinned: "command_pin (ka_server_id sample_keygen) None (Some sample_config_path) sample_tools w1 = (w2, Inr lines2)"
    using pin by (simp add: sample_pinned_def sample_keygen_def keygen)
  from server obtain s where s: "find_server sample_full_config (ka_server_id sample_keygen) = Inr s" "is_enabled s" by blast
  from connecting_a_server [OF keygen [unfolded sample_keyed_def] pinned sample_loads(1) s _ _ name]
  obtain b where b: "tg_host (bc_target b) = ka_host sample_keygen"
      "\<forall>dumps as_json collect_now. command_test dumps (ka_server_id sample_keygen) as_json (Some sample_config_path) collect_now w2 =
        (case collect_now b of None \<Rightarrow> CollectRaised
         | Some obs \<Rightarrow> Answered (Inr (test_answer dumps as_json (collector_ref_for (ka_server_id sample_keygen)) obs)))"
    by (auto simp: sample_keygen_def sample_tools_def strip_def is_space_def)
  have "ka_server_id sample_keygen = ''s1''" "ka_host sample_keygen = ''vpn.example''" "fst sample_pinned = w2"
    by (simp_all add: sample_keygen_def pin)
  with b show ?thesis by (intro exI [of _ b]) (simp only: simp_thms)
qed

text \<open>
  An id that ends in a dash, which the configuration allows, gives an entry name the contract of the map
  forbids: keygen reports success and leaves a map that no command can load any more.
\<close>

lemma keygen_breaks_the_map:
  assumes "command_keygen dump a config_path (KeygenMade private_key public_key) w = (w1, Inr lines1)"
    "load_public_config config_path w = Inr (p, c)" "find_server c (ka_server_id a) = Inr s"
    "ka_server_id a \<noteq> []" "last (ka_server_id a) = CHR ''-''"
  shows "\<exists>message. read_map (map_path_of p c) w1 = Inl (cli_fail message)"
proof -
  let ?ref = "collector_ref_for (ka_server_id a)"
  from keygen_success [OF assms(1-3)] obtain kind entries where
      doc: "in_maps w1 (map_path_of p c) = Some (MapDocument 1 (AList.update ?ref (new_entry a kind) entries))" by metis
  have "last ?ref = CHR ''-''" using assms(4,5) by (simp add: collector_ref_for_def)
  then have bad: "\<not> entry_name_pattern ?ref" by (auto simp: entry_name_pattern_def at_end_def lower_or_digit_def is_digit_def)
  have "(?ref, new_entry a kind) \<in> set (AList.update ?ref (new_entry a kind) entries)"
    by (intro map_of_SomeD) (simp add: update_conv')
  with bad have "\<not> collectors_map_valid 1 (AList.update ?ref (new_entry a kind) entries)" by (auto simp: collectors_map_valid_def list_all_iff)
  then show ?thesis by (simp add: read_map_def doc load_collectors_map_def)
qed

text \<open>For a server that is switched off \<open>collector test\<close> ends in an uncaught StopIteration.\<close>

lemma test_of_disabled_server:
  assumes "load_public_config config_path w = Inr (p, c)" "read_map (map_path_of p c) w = Inr entries" "entry_of c entries server_id = Inr (ref, e)"
    "secret_file_status (in_files w) (key_path (map_path_of p c) (ce_key_file e)) = ''ok''"
    "secret_file_status (in_files w) (key_path (map_path_of p c) (ce_known_hosts_file e)) = ''ok''"
    "\<forall>s\<in>set (cfg_servers (fc_public c)). sc_id s = server_id \<longrightarrow> \<not> is_enabled s"
  shows "command_test dumps server_id as_json config_path collect_now w = StopIteration"
proof -
  have "find (\<lambda>b. sh_server_id (bc_collector b) = server_id) (build_collectors (fc_public c) entries (parent (map_path_of p c))) = None"
    using assms(6) by (auto simp: find_None_iff built_collectors_eq collected_server_def)
  with assms(1-5) show ?thesis by (simp add: command_test_def)
qed

end
