(* ===== verification/Doctor.thy ===== *)
theory Doctor
  imports Admin_View Collector_Cli
begin

text \<open>
  \<open>vpn-pulse doctor\<close> (src/src/vpnpulse/cli/doctor.py): the findings of the read model, which the Admin screen
  shows too, and the local checks of the database, the bot token, the HTTPS endpoint and the collectors.
  The network is an argument: the addresses DNS gives and the end of the certificate TLS validated.
\<close>

subsection \<open>The collectors\<close>

definition hint :: "string \<Rightarrow> string \<Rightarrow> string \<Rightarrow> string \<Rightarrow> doctor_item" where
  "hint check st text command = \<lparr>di_check = check, di_state = st, di_next = text, di_command = command\<rparr>"

definition entry_check ::
  "dictionaries \<Rightarrow> string \<Rightarrow> server_config list \<Rightarrow> path \<Rightarrow> files \<Rightarrow> string \<times> collector_entry \<Rightarrow> doctor_item option" where
  \<comment> \<open>the body of the loop over the entries\<close>
  "entry_check ds lang servers map_path fs item =
     (let (ref, e) = item
      in if \<not> entry_enabled e then None
         else case find (\<lambda>s. sc_collector_ref s = Some ref) servers of
                None \<Rightarrow> None
              | Some s \<Rightarrow>
                  if secret_file_status fs (key_path map_path (ce_key_file e)) \<noteq> ''ok''
                  then Some (hint ''collectors'' ''fail'' (translate ds lang ''doctor.collectors.key'' [(''collector'', ref)])
                         (''vpn-pulse collector keygen '' @ sc_id s @ '' --host <server> --force''))
                  else if secret_file_status fs (key_path map_path (ce_known_hosts_file e)) \<noteq> ''ok''
                  then Some (hint ''collectors'' ''warn'' (translate ds lang ''doctor.collectors.pin'' [(''collector'', ref)])
                         (''vpn-pulse collector pin '' @ sc_id s))
                  else None)"

definition collectors_checks :: "dictionaries \<Rightarrow> string \<Rightarrow> full_config \<Rightarrow> path option \<Rightarrow> maps \<Rightarrow> files \<Rightarrow> doctor_item list" where
  "collectors_checks ds lang c config_path docs fs =
     (let servers = enabled_servers (fc_public c);
          nothing = (\<lambda>first_id. [hint ''collectors'' ''ok'' (translate ds lang ''doctor.collectors.none'' [])
                       (''vpn-pulse collector keygen '' @ first_id @ '' --host <server>'')])
      in case servers of
           [] \<Rightarrow> []
         | s0 # _ \<Rightarrow>
             (case collectors_map_path c config_path of
                None \<Rightarrow> nothing (sc_id s0)
              | Some p \<Rightarrow>
                  (case docs p of
                     None \<Rightarrow> nothing (sc_id s0)
                   | Some doc \<Rightarrow>
                       (case load_collectors_map (path_name p) doc of
                          Inl _ \<Rightarrow> [hint ''collectors'' ''fail'' (translate ds lang ''doctor.collectors.invalid'' []) ''vpn-pulse collector list'']
                        | Inr entries \<Rightarrow>
                            let without = fst (unreferenced (fc_public c) entries)
                            in (case without of
                                  [] \<Rightarrow> []
                                | w # _ \<Rightarrow> [hint ''collectors'' ''warn''
                                    (translate ds lang ''doctor.collectors.missing'' [(''servers'', join '', '' without)])
                                    (''vpn-pulse collector keygen '' @ w @ '' --host <server>'')]) @
                               List.map_filter (entry_check ds lang servers p fs) entries))))"

subsection \<open>The HTTPS endpoint\<close>

fun after_last :: "char \<Rightarrow> string \<Rightarrow> string" where
  "after_last d [] = []"
| "after_last d (c # s) = (if d \<in> set s then after_last d s else if c = d then s else c # s)"

definition https_host :: "string \<Rightarrow> string option" where
  \<comment> \<open>\<open>urlparse(url)\<close>: the host name in lower case when the scheme is https\<close>
  "https_host url =
     (if lower (take 8 url) \<noteq> ''https://'' then None
      else let netloc = takeWhile (\<lambda>c. c \<notin> {CHR ''/'', CHR ''?'', CHR ''#''}) (drop 8 url);
               place = after_last (CHR ''@'') netloc;
               host = (if starts_with ''['' place then takeWhile (\<lambda>c. c \<noteq> CHR '']'') (drop 1 place) else takeWhile (\<lambda>c. c \<noteq> CHR '':'') place)
           in if host = [] then None else Some (lower host))"

text \<open>What the network says about a host: its addresses, or no answer, and the end of its valid certificate.\<close>

record network =
  nw_addresses :: "string \<Rightarrow> string list option"
  nw_certificate_expiry :: "string \<Rightarrow> datetime option"

definition https_check :: "dictionaries \<Rightarrow> string \<Rightarrow> full_config \<Rightarrow> network \<Rightarrow> datetime \<Rightarrow> doctor_item option \<times> string list" where
  "https_check ds lang c net now =
     (let item = (\<lambda>st key params. Some (hint ''https'' st (translate ds lang key params) ''vpn-pulse doctor https''))
      in if \<not> text_set (fc_public_url c) then (None, [translate ds lang ''doctor.https.missing'' []])
         else case https_host (or_default [] (fc_public_url c)) of
                None \<Rightarrow> (item ''fail'' ''doctor.https.invalid'' [], [''app.public_url must be an https URL''])
              | Some host \<Rightarrow>
                  (case nw_addresses net host of
                     None \<Rightarrow> (item ''fail'' ''doctor.https.dns'' [], [''DNS: '' @ host @ '' does not resolve''])
                   | Some addresses \<Rightarrow>
                       let resolves = ''DNS: '' @ host @ '' resolves ('' @ show_nat (card (set addresses)) @ '' address(es))''
                       in case nw_certificate_expiry net host of
                            None \<Rightarrow> (item ''fail'' ''doctor.https.tls'' [], [resolves, ''TLS certificate validation failed''])
                          | Some expiry \<Rightarrow>
                              let left = (expiry - now) div days 1;
                                  details = [resolves, ''TLS: hostname valid; certificate expires in '' @ show_int left @ '' days'']
                              in if left < 0 then (item ''fail'' ''doctor.https.expired'' [], details)
                                 else if left < 14 then (item ''warn'' ''doctor.https.expiring'' [(''days'', show_int left)], details)
                                 else (None, details)))"

subsection \<open>The local checks and the summary\<close>

datatype database_file = NoDatabase | BrokenDatabase | OpenedDatabase db

definition telegram_checks :: "dictionaries \<Rightarrow> string \<Rightarrow> full_config \<Rightarrow> files \<Rightarrow> doctor_item list" where
  "telegram_checks ds lang c fs =
     (case fc_telegram c of
        None \<Rightarrow> [hint ''telegram'' ''ok'' (translate ds lang ''doctor.telegram.missing'' []) ''vpn-pulse doctor telegram'']
      | Some t \<Rightarrow>
          let status = secret_file_status fs (path_of (tc_bot_token_file t))
          in if status \<in> {''missing'', ''empty''}
             then [hint ''telegram'' ''fail'' (translate ds lang ''doctor.telegram.tokenMissing'' []) ''vpn-pulse doctor telegram'']
             else if status = ''permissions''
             then [hint ''telegram'' ''warn'' (translate ds lang ''doctor.telegram.permissions'' []) (''chmod 600 '' @ tc_bot_token_file t)]
             else [])"

record doctor_world =
  dw_database :: database_file
  dw_network :: network
  dw_maps :: maps
  dw_files :: files

definition local_checks :: "dictionaries \<Rightarrow> string \<Rightarrow> full_config \<Rightarrow> path option \<Rightarrow> doctor_world \<Rightarrow> datetime \<Rightarrow> doctor_item list \<times> db option" where
  "local_checks ds lang c config_path w now =
     (let (storage, connection) =
        (case dw_database w of
           NoDatabase \<Rightarrow> ([hint ''storage'' ''fail'' (translate ds lang ''doctor.storage.missing'' []) ''vpn-pulse init''], None)
         | BrokenDatabase \<Rightarrow> ([hint ''storage'' ''fail'' (translate ds lang ''doctor.storage.broken'' []) ''vpn-pulse doctor storage''], None)
         | OpenedDatabase d \<Rightarrow> ([], Some d));
          https_item = fst (https_check ds lang c (dw_network w) now)
      in (storage @ telegram_checks ds lang c (dw_files w) @ (case https_item of None \<Rightarrow> [] | Some i \<Rightarrow> [i]) @
            collectors_checks ds lang c config_path (dw_maps w) (dw_files w),
          connection))"

definition state_rank :: "string \<Rightarrow> nat" where
  "state_rank st = (if st = ''fail'' then 0 else if st = ''warn'' then 1 else 2)"

record summary =
  su_result :: string
  su_items :: "doctor_item list"
  su_next_command :: "string option"

definition result_of :: "doctor_item list \<Rightarrow> string" where
  "result_of items =
     (if list_ex (\<lambda>i. di_state i = ''fail'') items then ''fail'' else if list_ex (\<lambda>i. di_state i = ''warn'') items then ''warn'' else ''ok'')"

definition summary_of :: "doctor_item list \<Rightarrow> summary" where
  "summary_of items =
     \<lparr>su_result = result_of items, su_items = items,
      su_next_command = map_option di_command (first_row (filter (\<lambda>i. di_state i \<noteq> ''ok'') items))\<rparr>"

definition run_doctor ::
  "dictionaries \<Rightarrow> read_settings \<Rightarrow> string \<Rightarrow> full_config \<Rightarrow> path option \<Rightarrow> doctor_world \<Rightarrow> datetime \<Rightarrow> read_error + summary" where
  "run_doctor ds rs lang c config_path w now =
     (let (local, connection) = local_checks ds lang c config_path w now
      in bind_err (case connection of None \<Rightarrow> Inr [] | Some d \<Rightarrow> bind_err (admin_overview ds rs d now lang) (\<lambda>ov. Inr (ov_doctor_items ov)))
           (\<lambda>items. Inr (summary_of (sort_key (\<lambda>i. state_rank (di_state i)) (items @ local)))))"

definition exit_of :: "string \<Rightarrow> nat" where
  \<comment> \<open>\<open>EXIT\<close>\<close>
  "exit_of result = (if result = ''ok'' then 0 else if result = ''warn'' then 1 else 2)"

definition section_summary :: "string \<Rightarrow> summary \<Rightarrow> summary" where
  "section_summary section s = summary_of (filter (\<lambda>i. di_check i = section) (su_items s))"

definition doctor_lines :: "string option \<Rightarrow> string list \<Rightarrow> summary \<Rightarrow> string list" where
  "doctor_lines section details s =
     (let label = (\<lambda>st. if st = ''ok'' then ''OK'' else if st = ''warn'' then ''WARN'' else ''FAIL'')
      in [''doctor: '' @ label (su_result s) @ (if text_set section then '' ('' @ or_default [] section @ '')'' else [])] @
         map (\<lambda>i. ''  ['' @ label (di_state i) @ ''] '' @ di_check i @ '': '' @ di_next i @
                (if di_command i \<noteq> [] then ''  ->  '' @ di_command i else [])) (su_items s) @
         (if text_set section then map (\<lambda>line. ''  '' @ line) details else []) @
         (if \<not> list_ex (\<lambda>i. di_state i \<noteq> ''ok'') (su_items s) \<and> \<not> text_set section then [''  every check passed''] else []))"

definition command_doctor ::
  "dictionaries \<Rightarrow> read_settings \<Rightarrow> string option \<Rightarrow> (string \<Rightarrow> string list) \<Rightarrow> string \<Rightarrow> full_config \<Rightarrow> path option \<Rightarrow> doctor_world \<Rightarrow>
   datetime \<Rightarrow> read_error + string list \<times> nat" where
  \<comment> \<open>the text answer; \<open>details\<close> are the lines of a section\<close>
  "command_doctor ds rs section details lang c config_path w now =
     bind_err (run_doctor ds rs lang c config_path w now) (\<lambda>s.
       let s' = (if text_set section then section_summary (or_default [] section) s else s)
       in Inr (doctor_lines section (details (or_default [] section)) s', exit_of (su_result s')))"

subsection \<open>The details of a section\<close>

definition age_text :: "stamp option \<Rightarrow> datetime \<Rightarrow> string" where
  \<comment> \<open>\<open>_age\<close>\<close>
  "age_text value now =
     (case dt value of
        None \<Rightarrow> ''never''
      | Some t \<Rightarrow>
          let mins = (now - t) div minutes 1
          in if mins < 120 then show_int mins @ '' min ago'' else show_int (mins div 60) @ '' h ago'')"

definition last_collection :: "db \<Rightarrow> string \<Rightarrow> observation_row option" where
  \<comment> \<open>... WHERE server_id = ? AND source_kind = 'collector' ORDER BY observed_at DESC LIMIT 1\<close>
  "last_collection d server_id =
     newest ob_observed_at (filter (\<lambda>r. ob_server_id r = server_id \<and> ob_source_kind r = ''collector'') (db_observations d))"

definition collectors_details :: "full_config \<Rightarrow> path option \<Rightarrow> maps \<Rightarrow> files \<Rightarrow> db option \<Rightarrow> datetime \<Rightarrow> string list" where
  "collectors_details c config_path docs fs connection now =
     (case collectors_map_path c config_path of
        None \<Rightarrow> [''no collectors map configured (storage.collectors_file): servers are read through probes only'']
      | Some p \<Rightarrow>
          (case docs p of
             None \<Rightarrow> [''collectors map not found: '' @ path_name p @ '' - vpn-pulse collector keygen <server> --host <server>'']
           | Some doc \<Rightarrow>
               (case load_collectors_map (path_name p) doc of
                  Inl e \<Rightarrow> [e]
                | Inr entries \<Rightarrow>
                    let server_of = (\<lambda>ref. map_option sc_id (find (\<lambda>s. sc_collector_ref s = Some ref) (rev (enabled_servers (fc_public c)))));
                        in_place = (\<lambda>name. secret_file_status fs (key_path p name) = ''ok'');
                        last_line = (\<lambda>ref. case (connection, server_of ref) of
                                       (Some d, Some sid) \<Rightarrow>
                                         (case last_collection d sid of
                                            None \<Rightarrow> '', no collection yet''
                                          | Some r \<Rightarrow> '', last collection '' @ ob_result r @ '' '' @ age_text (Some (ob_observed_at r)) now @
                                              (if text_set (ob_error_code r) then '' ('' @ or_default [] (ob_error_code r) @ '')'' else []))
                                     | _ \<Rightarrow> []);
                        lines = map (\<lambda>(ref, e). ref @ '': '' @ ce_kind e @ '' -> '' @ or_default ''no server refers to it'' (server_of ref) @ '' ['' @
                                  (if \<not> entry_enabled e then ''disabled''
                                   else if in_place (ce_key_file e) \<and> in_place (ce_known_hosts_file e) then ''ok'' else ''key or host key missing'') @
                                  '']'' @ last_line ref) entries;
                        without = fst (unreferenced (fc_public c) entries);
                        all_lines = lines @ (if without = [] then [] else [''servers without a helper (probes only): '' @ join '', '' without])
                    in if all_lines = [] then [''the map has no entries''] else all_lines)))"

definition telegram_details :: "full_config \<Rightarrow> files \<Rightarrow> string list" where
  "telegram_details c fs =
     (case fc_telegram c of
        None \<Rightarrow> [''not configured: messages are printed by vpn-pulse run; add telegram.bot_token_file and telegram.group_chat_id to config.yaml'']
      | Some t \<Rightarrow> [''token file: '' @ tc_bot_token_file t @ '' - '' @ secret_file_status fs (path_of (tc_bot_token_file t)),
                   ''group chat: '' @ tc_group_chat_id t @ ''; admin chat: '' @ or_default ''same as the group'' (tc_admin_chat_id t)])"

definition servers_details :: "read_settings \<Rightarrow> db \<Rightarrow> datetime \<Rightarrow> string list" where
  "servers_details rs d now =
     (let cards = sw_servers (status rs d now ''ru'')
      in if cards = [] then [''no servers configured'']
         else map (\<lambda>c. cd_id c @ '': '' @ state_value (cd_state c) @ (if fv_is_stale (cd_freshness c) then '' (stale)'' else []) @
                     '', observed '' @ age_text (fv_observed_at (cd_freshness c)) now) cards)"

definition probes_details :: "read_settings \<Rightarrow> db \<Rightarrow> datetime \<Rightarrow> string list" where
  "probes_details rs d now =
     (let probes = admin_probes rs d now
      in if probes = [] then [''no probes enrolled'']
         else map (\<lambda>p. pw_id p @ '': '' @ pw_kind p @ '' '' @ pw_status p @ '', last report '' @ age_text (pw_last_seen_at p) now) probes)"

definition midnight :: "datetime \<Rightarrow> datetime" where
  \<comment> \<open>\<open>now.replace(hour=0, minute=0, second=0, microsecond=0)\<close>\<close>
  "midnight now = now div days 1 * days 1"

definition collector_details :: "db \<Rightarrow> datetime \<Rightarrow> string list" where
  "collector_details d now =
     (case newest run_started_at (db_runs d) of
        None \<Rightarrow> [''no collection run yet - is vpn-pulse run running?'']
      | Some r \<Rightarrow>
          [''last run: '' @ (if text_set (run_result r) then or_default [] (run_result r) else ''running'') @ '' '' @
             age_text (case run_finished_at r of None \<Rightarrow> Some (run_started_at r) | Some t \<Rightarrow> Some t) now @
             (if text_set (run_error_code r) then '' ('' @ or_default [] (run_error_code r) @ '')'' else []),
           ''runs today: '' @ show_nat (count_where (\<lambda>r. StampZ (midnight now) \<le> run_started_at r) (db_runs d))])"

definition oldest_pending :: "db \<Rightarrow> stamp option" where
  \<comment> \<open>MIN(created_at) of the waiting messages\<close>
  "oldest_pending d =
     (let waiting = map q_created_at (filter (\<lambda>q. q_state q = Pending) (db_queue d))
      in if waiting = [] then None else Some (Min (set waiting)))"

definition queue_details :: "db \<Rightarrow> datetime \<Rightarrow> string list" where
  "queue_details d now =
     (let in_state = (\<lambda>st. show_nat (count_where (\<lambda>q. q_state q = st) (db_queue d)))
      in [''pending: '' @ in_state Pending @
            (if oldest_pending d = None then [] else '' (oldest '' @ age_text (oldest_pending d) now @ '')''),
          ''sent: '' @ in_state Sent @ '', failed: '' @ in_state Failed])"

definition storage_details :: "path \<Rightarrow> nat option \<Rightarrow> nat \<Rightarrow> db option \<Rightarrow> string list" where
  \<comment> \<open>the size of the file, when there is one, and the version of the newest migration are arguments\<close>
  "storage_details db_path size_bytes version connection =
     [''database: '' @ as_posix db_path] @
     (case size_bytes of None \<Rightarrow> [] | Some n \<Rightarrow> [''size: '' @ show_nat (n div 1024) @ '' KiB'']) @
     (case connection of
        None \<Rightarrow> []
      | Some d \<Rightarrow>
          [''schema version: '' @ show_nat version @ ''; '' @
             join '', '' [''observations '' @ show_nat (length (db_observations d)), ''events '' @ show_nat (length (db_events d)),
               ''probes '' @ show_nat (length (db_probes d)), ''notification_queue '' @ show_nat (length (db_queue d))]])"

definition section_details ::
  "dictionaries \<Rightarrow> read_settings \<Rightarrow> string \<Rightarrow> full_config \<Rightarrow> path option \<Rightarrow> path \<Rightarrow> nat option \<Rightarrow> nat \<Rightarrow> doctor_world \<Rightarrow> db option \<Rightarrow>
   datetime \<Rightarrow> string \<Rightarrow> cli_error + string list" where
  "section_details ds rs section c config_path db_path size_bytes version w connection now lang =
     (if section = ''collectors'' then Inr (collectors_details c config_path (dw_maps w) (dw_files w) connection now)
      else if section = ''storage'' then Inr (storage_details db_path size_bytes version connection)
      else if section = ''telegram'' then Inr (telegram_details c (dw_files w))
      else if section = ''https'' then Inr (snd (https_check ds lang c (dw_network w) now))
      else case connection of
             None \<Rightarrow> Inr [''database unavailable'']
           | Some d \<Rightarrow>
               if section = ''servers'' then Inr (servers_details rs d now)
               else if section = ''probes'' then Inr (probes_details rs d now)
               else if section = ''collector'' then Inr (collector_details d now)
               else if section = ''queue'' then Inr (queue_details d now)
               else Inl (cli_fail (''unknown section '' @ section)))"

subsection \<open>Facts\<close>

lemma clean_join: "clean_path p \<Longrightarrow> clean_path q \<Longrightarrow> clean_path (path_join p q)"
  by (auto simp: clean_path_def path_join_def list_all_iff)

lemma clean_parent: "clean_path p \<Longrightarrow> clean_path (parent p)"
  by (auto simp: clean_path_def parent_def list_all_iff dest: in_set_butlastD)

lemma clean_map_path: "clean_path cp \<Longrightarrow> collectors_map_path c (Some cp) = Some p \<Longrightarrow> clean_path p"
  by (auto simp: collectors_map_path_def Let_def clean_path_of clean_join clean_parent split: if_splits)

lemma target_secrets:
  assumes "clean_path p"
  shows "path_of (tg_key_file (target_for e (parent p))) = key_path p (ce_key_file e)"
    "path_of (tg_known_hosts_file (target_for e (parent p))) = key_path p (ce_known_hosts_file e)"
  using assms by (simp_all add: target_for_def key_path_def path_of_as_posix clean_join clean_parent clean_path_of)

definition secrets_in_place :: "path \<Rightarrow> files \<Rightarrow> collector_entry \<Rightarrow> bool" where
  "secrets_in_place p fs e \<longleftrightarrow>
     secret_file_status fs (key_path p (ce_key_file e)) = ''ok'' \<and> secret_file_status fs (key_path p (ce_known_hosts_file e)) = ''ok''"

definition asks_for_repair :: "doctor_item \<Rightarrow> bool" where
  \<comment> \<open>a failure, or the advice to pin a host key\<close>
  "asks_for_repair i \<longleftrightarrow> di_state i = ''fail'' \<or> starts_with ''vpn-pulse collector pin'' (di_command i)"

lemma entry_check_repair:
  assumes "distinct (map fst entries)" "(ref, e) \<in> set entries"
  shows "(\<exists>i. entry_check ds lang (enabled_servers config) p fs (ref, e) = Some i \<and> asks_for_repair i) \<longleftrightarrow>
     \<not> secrets_in_place p fs e \<and> entry_enabled e \<and> (\<exists>s\<in>set (enabled_servers config). sc_collector_ref s = Some ref)"
  by (auto simp: entry_check_def Let_def secrets_in_place_def asks_for_repair_def hint_def find_None_iff find_Some_iff starts_with_def
      split: option.split)

lemma entry_check_asks: "entry_check ds lang servers p fs x = Some i \<Longrightarrow> asks_for_repair i"
  by (auto simp: entry_check_def Let_def asks_for_repair_def hint_def starts_with_def split: prod.splits if_splits option.splits)

lemma unreadable_secret_None:
  "clean_path p \<Longrightarrow> bc_target b = target_for e (parent p) \<Longrightarrow> unreadable_secret fs b = None \<longleftrightarrow> secrets_in_place p fs e"
  by (auto simp: unreadable_secret_def secrets_in_place_def target_secrets)

lemma run_starts_iff:
  assumes "clean_path p" "collectors_map_path c (Some cp) = Some p" "docs p = Some doc" "load_collectors_map (path_name p) doc = Inr entries"
  shows "(\<exists>built. real_collectors c (Some cp) docs fs = Inr built) \<longleftrightarrow>
     (\<forall>s\<in>set (enabled_servers (fc_public c)). \<forall>ref e. usable_entry entries s = Some (ref, e) \<longrightarrow> secrets_in_place p fs e)"
proof -
  have "(\<exists>built. real_collectors c (Some cp) docs fs = Inr built) \<longleftrightarrow>
      first_failure (unreadable_secret fs) (build_collectors (fc_public c) entries (parent p)) = None"
    using assms(2-4) by (auto simp: real_collectors_def Let_def split: option.split)
  also have "\<dots> \<longleftrightarrow> (\<forall>s\<in>set (filter (collected_server entries) (cfg_servers (fc_public c))).
      secrets_in_place p fs (snd (the (usable_entry entries s))))"
    by (simp add: first_failure_None built_collectors_eq case_prod_beta Let_def unreadable_secret_None [OF assms(1)])
  also have "\<dots> \<longleftrightarrow> (\<forall>s\<in>set (enabled_servers (fc_public c)). \<forall>ref e. usable_entry entries s = Some (ref, e) \<longrightarrow> secrets_in_place p fs e)"
    by (auto simp: collected_server_def enabled_servers_def)
  finally show ?thesis .
qed

subsection \<open>The diagnosis and the loop agree\<close>

lemma checks_repair:
  assumes "distinct (map fst entries)"
  shows "list_ex asks_for_repair (List.map_filter (entry_check ds lang (enabled_servers config) p fs) entries) \<longleftrightarrow>
     (\<exists>s\<in>set (enabled_servers config). \<exists>ref e. sc_collector_ref s = Some ref \<and> map_of entries ref = Some e \<and> entry_enabled e \<and>
        \<not> secrets_in_place p fs e)"
proof -
  have "list_ex asks_for_repair (List.map_filter f entries) \<longleftrightarrow> (\<exists>x\<in>set entries. \<exists>i. f x = Some i \<and> asks_for_repair i)" for f
    by (induction entries) (auto simp: List.map_filter_simps split: option.split)
  then have "list_ex asks_for_repair (List.map_filter (entry_check ds lang (enabled_servers config) p fs) entries) \<longleftrightarrow>
      (\<exists>(ref, e)\<in>set entries. \<not> secrets_in_place p fs e \<and> entry_enabled e \<and> (\<exists>s\<in>set (enabled_servers config). sc_collector_ref s = Some ref))"
    using entry_check_repair [OF assms, of _ _ ds lang config p fs] by (fastforce simp: case_prod_beta)
  also have "\<dots> \<longleftrightarrow> (\<exists>s\<in>set (enabled_servers config). \<exists>ref e. sc_collector_ref s = Some ref \<and> map_of entries ref = Some e \<and> entry_enabled e \<and>
        \<not> secrets_in_place p fs e)"
    using assms by (auto simp: Map.map_of_eq_Some_iff)
  finally show ?thesis .
qed


definition sample_world :: doctor_world where
  "sample_world = \<lparr>dw_database = NoDatabase, dw_network = \<lparr>nw_addresses = (\<lambda>_. None), nw_certificate_expiry = (\<lambda>_. None)\<rparr>,
     dw_maps = in_maps sample_installation, dw_files = in_files sample_installation\<rparr>"


text \<open>A configured map that is missing: the doctor is content, the loop does not start.\<close>

lemma doctor_passes_missing_map:
  assumes "collectors_map_path c config_path = Some p" "docs p = None"
  shows "(\<exists>e. real_collectors c config_path docs fs = Inl e) \<and>
     list_all (\<lambda>i. di_state i = ''ok'') (collectors_checks ds lang c config_path docs fs)"
  using assms by (simp add: real_collectors_def collectors_checks_def Let_def hint_def split: list.split)

subsection \<open>The exit code tells the truth\<close>

definition telegram_ready :: "full_config \<Rightarrow> files \<Rightarrow> bool" where
  "telegram_ready c fs \<longleftrightarrow> (case fc_telegram c of None \<Rightarrow> True | Some t \<Rightarrow> secret_file_status fs (path_of (tc_bot_token_file t)) = ''ok'')"

definition https_ready :: "full_config \<Rightarrow> network \<Rightarrow> datetime \<Rightarrow> bool" where
  \<comment> \<open>no public address, or one that resolves and whose certificate is valid for two weeks more\<close>
  "https_ready c net now \<longleftrightarrow>
     \<not> text_set (fc_public_url c) \<or>
     (\<exists>host expiry. https_host (or_default [] (fc_public_url c)) = Some host \<and> nw_addresses net host \<noteq> None \<and>
        nw_certificate_expiry net host = Some expiry \<and> now + days 14 \<le> expiry)"

definition collectors_ready :: "full_config \<Rightarrow> path option \<Rightarrow> maps \<Rightarrow> files \<Rightarrow> bool" where
  \<comment> \<open>no map yet, or a valid one where every enabled server has an entry and its secrets are in place\<close>
  "collectors_ready c config_path docs fs \<longleftrightarrow>
     enabled_servers (fc_public c) = [] \<or>
     (case collectors_map_path c config_path of
        None \<Rightarrow> True
      | Some p \<Rightarrow>
          (case docs p of
             None \<Rightarrow> True
           | Some doc \<Rightarrow>
               (case load_collectors_map (path_name p) doc of
                  Inl _ \<Rightarrow> False
                | Inr entries \<Rightarrow>
                    \<forall>s\<in>set (enabled_servers (fc_public c)). \<exists>ref e. usable_entry entries s = Some (ref, e) \<and> secrets_in_place p fs e)))"

lemma hint_state [simp]: "di_state (hint check st text command) = st"
  by (simp add: hint_def)

lemma entry_check_state: "entry_check ds lang servers p fs x = Some i \<Longrightarrow> di_state i \<in> {''fail'', ''warn''}"
  by (auto simp: entry_check_def Let_def split: prod.splits if_splits option.splits)

lemma checked_entries_ok:
  "list_all (\<lambda>i. di_state i = ''ok'') (List.map_filter (entry_check ds lang servers p fs) entries) \<longleftrightarrow>
     \<not> list_ex asks_for_repair (List.map_filter (entry_check ds lang servers p fs) entries)"
  by (induction entries) (auto simp: List.map_filter_simps dest: entry_check_state entry_check_asks split: option.split)

lemma collectors_ready_eq:
  assumes "\<And>p version entries. docs p = Some (MapDocument version entries) \<Longrightarrow> distinct (map fst entries)"
  shows "list_all (\<lambda>i. di_state i = ''ok'') (collectors_checks ds lang c config_path docs fs) \<longleftrightarrow> collectors_ready c config_path docs fs"
proof (cases "enabled_servers (fc_public c) = [] \<or> collectors_map_path c config_path = None")
  case True
  then show ?thesis by (auto simp: collectors_ready_def collectors_checks_def Let_def split: list.split)
next
  case False
  then obtain s0 rest p where some: "enabled_servers (fc_public c) = s0 # rest" "collectors_map_path c config_path = Some p"
    by (cases "enabled_servers (fc_public c)") auto
  show ?thesis
  proof (cases "\<exists>doc entries. docs p = Some doc \<and> load_collectors_map (path_name p) doc = Inr entries")
    case False
    with some show ?thesis
      by (cases "docs p") (auto simp: collectors_ready_def collectors_checks_def Let_def split: sum.split)
  next
    case True
    then obtain doc0 entries where found: "docs p = Some doc0" "load_collectors_map (path_name p) doc0 = Inr entries" by blast
    then obtain version where "doc0 = MapDocument version entries" by (cases doc0) (auto simp: load_collectors_map_def split: if_splits)
    with found have doc: "docs p = Some (MapDocument version entries)"
        "load_collectors_map (path_name p) (MapDocument version entries) = Inr entries" "collectors_map_valid version entries"
      by (auto simp: load_collectors_map_def split: if_splits)
    let ?servers = "enabled_servers (fc_public c)" and ?without = "fst (unreferenced (fc_public c) entries)"
    have without: "?without = [] \<longleftrightarrow> (\<forall>s\<in>set ?servers. usable_entry entries s \<noteq> None)"
      using servers_without_eq [OF doc(3), of "fc_public c"] by (auto simp: filter_empty_conv collected_server_def enabled_servers_def)
    have "list_all (\<lambda>i. di_state i = ''ok'') (collectors_checks ds lang c config_path docs fs) \<longleftrightarrow>
        ?without = [] \<and> \<not> list_ex asks_for_repair (List.map_filter (entry_check ds lang ?servers p fs) entries)"
      using some doc(1,2) unfolding collectors_checks_def Let_def by (cases ?without) (simp_all add: checked_entries_ok)
    also have "\<dots> \<longleftrightarrow> (\<forall>s\<in>set ?servers. \<exists>ref e. usable_entry entries s = Some (ref, e) \<and> secrets_in_place p fs e)"
      unfolding without checks_repair [OF assms [OF doc(1)]] usable_entry_Some [symmetric] using map_names_not_Nil [OF doc(3)]
      by (fastforce simp: usable_entry_Some)
    also have "\<dots> \<longleftrightarrow> collectors_ready c config_path docs fs" using some doc(1,2) by (simp add: collectors_ready_def)
    finally show ?thesis .
  qed
qed

lemma states_of_checks:
  "list_all (\<lambda>i. di_state i \<in> {''ok'', ''warn'', ''fail''}) (collectors_checks ds lang c config_path docs fs)"
proof -
  have "list_all (\<lambda>i. di_state i \<in> {''ok'', ''warn'', ''fail''}) (List.map_filter (entry_check ds lang servers p fs) entries)" for servers p entries
    by (induction entries) (auto simp: List.map_filter_simps dest: entry_check_state split: option.split)
  then show ?thesis by (auto simp: collectors_checks_def Let_def split: list.split option.split sum.split)
qed

lemma https_item:
  "(fst (https_check ds lang c net now) = None \<longleftrightarrow> https_ready c net now) \<and>
   (\<forall>i. fst (https_check ds lang c net now) = Some i \<longrightarrow> di_state i \<in> {''warn'', ''fail''})"
proof -
  have "14 \<le> (expiry - now) div days 1 \<longleftrightarrow> now + days 14 \<le> expiry" for expiry
    by (simp add: days_def) linarith
  note left = this [symmetric]
  show ?thesis
    by (auto simp: https_check_def https_ready_def Let_def left split: option.split if_splits)
qed

lemma telegram_items:
  "list_all (\<lambda>i. di_state i \<in> {''ok'', ''warn'', ''fail''}) (telegram_checks ds lang c fs) \<and>
   (list_all (\<lambda>i. di_state i = ''ok'') (telegram_checks ds lang c fs) \<longleftrightarrow> telegram_ready c fs)"
  using secret_status_values [of fs] by (auto simp: telegram_checks_def telegram_ready_def Let_def split: option.split)

lemma hints_states: "i \<in> set (all_hints ds rs d now lang) \<Longrightarrow> di_state i \<in> {''warn'', ''fail''}"
  by (auto simp: all_hints_def servers_findings_def probe_findings_def collector_findings_def queue_findings_def Let_def
      split: if_splits option.splits)

lemma result_ok_iff:
  "list_all (\<lambda>i. di_state i \<in> {''ok'', ''warn'', ''fail''}) items \<Longrightarrow> result_of items = ''ok'' \<longleftrightarrow> list_all (\<lambda>i. di_state i = ''ok'') items"
  by (induction items) (auto simp: result_of_def split: if_splits)

lemma overview_items:
  assumes "\<forall>s\<in>set (enabled_servers (rs_config rs)). payload_wf d (sc_id s)"
  obtains ov where "admin_overview ds rs d now lang = Inr ov"
    "list_all (\<lambda>i. di_state i \<in> {''ok'', ''warn'', ''fail''}) (ov_doctor_items ov)"
    "list_all (\<lambda>i. di_state i = ''ok'') (ov_doctor_items ov) \<longleftrightarrow> healthy rs d now"
proof -
  from admin_overview_total [OF assms, of ds now lang] obtain ov
    where ov: "admin_overview ds rs d now lang = Inr ov" "ov_doctor_items ov = take 20 (all_hints ds rs d now lang)" by blast
  have states: "\<forall>i\<in>set (ov_doctor_items ov). di_state i \<in> {''warn'', ''fail''}"
    using ov(2) hints_states by (metis in_set_takeD)
  then have "list_all (\<lambda>i. di_state i = ''ok'') (ov_doctor_items ov) \<longleftrightarrow> ov_doctor_items ov = []"
    by (cases "ov_doctor_items ov") auto
  then have "list_all (\<lambda>i. di_state i = ''ok'') (ov_doctor_items ov) \<longleftrightarrow> healthy rs d now"
    by (simp add: ov(2) all_hints_healthy)
  with ov(1) states that show thesis by (auto simp: list_all_iff)
qed

lemma first_finding_None: "first_row (filter (\<lambda>i. di_state i \<noteq> st) items) = None \<longleftrightarrow> list_all (\<lambda>i. di_state i = st) items"
  by (induction items) (auto simp: first_row_def)

lemma list_all_sort_key [simp]: "list_all P (sort_key f xs) = list_all P xs"
  by (simp add: list_all_iff)

text \<open>
  Exit code 0 of \<open>vpn-pulse doctor\<close> means that everything it looks at is in order, and nothing less: the
  findings of the Admin screen are none, the bot token is there and private, the public address resolves
  and its certificate is valid for two weeks more, and the collectors have their entries and secrets. The
  items come worst first, and a next command is given exactly when something is not in order.
\<close>

theorem doctor_is_truthful:
  assumes "\<forall>s\<in>set (enabled_servers (rs_config rs)). payload_wf d (sc_id s)" "dw_database w = OpenedDatabase d"
    "\<forall>p version entries. dw_maps w p = Some (MapDocument version entries) \<longrightarrow> distinct (map fst entries)"
  shows "\<exists>s. run_doctor ds rs lang c config_path w now = Inr s \<and>
     command_doctor ds rs None details lang c config_path w now = Inr (doctor_lines None (details []) s, exit_of (su_result s)) \<and>
     (exit_of (su_result s) = 0 \<longleftrightarrow>
        healthy rs d now \<and> telegram_ready c (dw_files w) \<and> https_ready c (dw_network w) now \<and>
        collectors_ready c config_path (dw_maps w) (dw_files w)) \<and>
     (su_next_command s = None \<longleftrightarrow> exit_of (su_result s) = 0) \<and>
     sorted (map (\<lambda>i. state_rank (di_state i)) (su_items s))"
proof -
  from overview_items [OF assms(1)] obtain ov where ov: "admin_overview ds rs d now lang = Inr ov"
      "list_all (\<lambda>i. di_state i \<in> {''ok'', ''warn'', ''fail''}) (ov_doctor_items ov)"
      "list_all (\<lambda>i. di_state i = ''ok'') (ov_doctor_items ov) \<longleftrightarrow> healthy rs d now" by blast
  let ?https = "case fst (https_check ds lang c (dw_network w) now) of None \<Rightarrow> [] | Some i \<Rightarrow> [i]"
  let ?local = "telegram_checks ds lang c (dw_files w) @ ?https @ collectors_checks ds lang c config_path (dw_maps w) (dw_files w)"
  let ?items = "sort_key (\<lambda>i. state_rank (di_state i)) (ov_doctor_items ov @ ?local)"
  have run: "run_doctor ds rs lang c config_path w now = Inr (summary_of ?items)"
    by (simp add: run_doctor_def local_checks_def assms(2) ov(1) Let_def)
  have https: "list_all (\<lambda>i. di_state i \<in> {''ok'', ''warn'', ''fail''}) ?https"
      "list_all (\<lambda>i. di_state i = ''ok'') ?https \<longleftrightarrow> https_ready c (dw_network w) now"
    using https_item [of ds lang c "dw_network w" now] by (auto split: option.split)
  have all_states: "list_all (\<lambda>i. di_state i \<in> {''ok'', ''warn'', ''fail''}) ?items"
    using ov(2) https(1) telegram_items [of ds lang c "dw_files w"] states_of_checks by simp
  have exit_zero: "exit_of (result_of ?items) = 0 \<longleftrightarrow> list_all (\<lambda>i. di_state i = ''ok'') ?items"
    unfolding result_ok_iff [OF all_states, symmetric] by (simp add: exit_of_def)
  also have "\<dots> \<longleftrightarrow> healthy rs d now \<and> telegram_ready c (dw_files w) \<and> https_ready c (dw_network w) now \<and>
        collectors_ready c config_path (dw_maps w) (dw_files w)"
    using ov(3) https(2) telegram_items [of ds lang c "dw_files w"] by (simp add: collectors_ready_eq assms(3))
  finally have meaning: "exit_of (result_of ?items) = 0 \<longleftrightarrow> \<dots>" .
  have "first_row (filter (\<lambda>i. di_state i \<noteq> ''ok'') ?items) = None \<longleftrightarrow> list_all (\<lambda>i. di_state i = ''ok'') ?items"
    by (rule first_finding_None)
  then show ?thesis
    using run meaning exit_zero by (intro exI [of _ "summary_of ?items"]) (simp add: command_doctor_def summary_of_def text_set_def)
qed

theorem doctor_is_truthful_witness:
  "\<exists>s. run_doctor [] view_settings ''en'' sample_full_config None (sample_world\<lparr>dw_database := OpenedDatabase empty_db\<rparr>) 0 = Inr s \<and>
     exit_of (su_result s) \<noteq> 0"
proof -
  let ?w = "sample_world\<lparr>dw_database := OpenedDatabase empty_db\<rparr>"
  have wf: "\<forall>s\<in>set (enabled_servers (rs_config view_settings)). payload_wf empty_db (sc_id s)"
    by (auto simp: payload_wf_def collector_payload_def latest_by_source_def latest_of_def empty_db_def newest_def List.map_filter_def
        EVIDENCE_SOURCES_def)
  have db: "dw_database ?w = OpenedDatabase empty_db" by simp
  have maps: "\<forall>p version entries. dw_maps ?w p = Some (MapDocument version entries) \<longrightarrow> distinct (map fst entries)"
    by (auto simp: sample_world_def sample_installation_def split: if_splits)
  have "\<exists>s. run_doctor [] view_settings ''en'' sample_full_config None ?w 0 = Inr s \<and> (exit_of (su_result s) = 0 \<longrightarrow> healthy view_settings empty_db 0)"
    using doctor_is_truthful [where ds = "[]" and lang = "''en''" and c = sample_full_config and config_path = None and now = 0 and details = "\<lambda>_. []", OF wf db maps]
    by (elim exE conjE) (intro exI conjI, assumption, simp)
  then show ?thesis by (auto simp: healthy_def empty_db_def)
qed

end
