(* ===== verification/Messages.thy ===== *)
theory Messages
  imports Notifications Read_Model I18n
begin

text \<open>
  The messengers of the notification queue (src/src/vpnpulse/notify.py): the text of a message, the console,
  the recording fake and the Telegram sender, and what the queue worker makes of them.
\<close>

subsection \<open>The text of a message\<close>

record formatter =
  fm_config :: config
  fm_dictionaries :: dictionaries

definition fm_lang :: "formatter \<Rightarrow> string" where
  "fm_lang fm = or_default ''ru'' (cfg_default_language (fm_config fm))"

definition name_text :: "string \<Rightarrow> json \<Rightarrow> string" where
  \<comment> \<open>the name in the language, else in Russian; \<open>str\<close> of a missing one is None\<close>
  "name_text lang name =
     (case name of
        JObj d \<Rightarrow> (case json_or (jget d lang) (jget d ''ru'') of JNull \<Rightarrow> ''None'' | v \<Rightarrow> plain_text v)
      | JNull \<Rightarrow> ''None''
      | v \<Rightarrow> plain_text v)"

definition server_name :: "formatter \<Rightarrow> string \<Rightarrow> string" where
  "server_name fm server_id =
     (case find (\<lambda>s. sc_id s = server_id) (cfg_servers (fm_config fm)) of
        Some s \<Rightarrow> name_text (fm_lang fm) (sc_name s)
      | None \<Rightarrow> server_id)"

definition text_param :: "jdict \<Rightarrow> string \<Rightarrow> string \<Rightarrow> string" where
  \<comment> \<open>\<open>params.get(key, default)\<close> of a text\<close>
  "text_param params key default_text = (case map_of params key of Some (JStr s) \<Rightarrow> s | _ \<Rightarrow> default_text)"

definition message_text :: "formatter \<Rightarrow> string \<Rightarrow> jdict \<Rightarrow> string" where
  "message_text fm template_key params =
     translate (fm_dictionaries fm) (fm_lang fm) template_key
       [(''server'', server_name fm (text_param params ''server_id'' [])),
        (''state'', translate (fm_dictionaries fm) (fm_lang fm) (''status.state.'' @ text_param params ''state'' ''unknown'') [])]"

definition params_of :: "queue_row \<Rightarrow> jdict" where
  \<comment> \<open>\<open>{**json.loads(params_json), "destination": destination}\<close>\<close>
  "params_of row =
     [(''server_id'', JStr (qp_server_id (q_params row))), (''scope_key'', JStr (qp_scope_key (q_params row))),
      (''state'', JStr (state_value (qp_state (q_params row)))), (''from_state'', JStr (state_value (qp_from_state (q_params row)))),
      (''destination'', JStr (q_destination row))]"

subsection \<open>Messengers\<close>

record fake_notifier =
  fk_formatter :: "formatter option"
  fk_sent :: "(string \<times> string \<times> jdict) list"
  fk_fail_times :: nat

definition fake_send :: "fake_notifier \<Rightarrow> string \<Rightarrow> jdict \<Rightarrow> bool \<times> fake_notifier" where
  "fake_send n template_key params =
     (if 0 < fk_fail_times n then (False, n\<lparr>fk_fail_times := fk_fail_times n - 1\<rparr>)
      else let txt = (case fk_formatter n of None \<Rightarrow> template_key | Some fm \<Rightarrow> message_text fm template_key params)
           in (True, n\<lparr>fk_sent := fk_sent n @ [(template_key, txt, params)]\<rparr>))"

definition console_line :: "formatter \<Rightarrow> string \<Rightarrow> jdict \<Rightarrow> string" where
  "console_line fm template_key params = ''['' @ text_param params ''destination'' ''group'' @ ''] '' @ message_text fm template_key params"

definition console_messenger :: messenger where
  "console_messenger row = Returned (Some True)"

record telegram_notifier =
  tn_formatter :: formatter
  tn_group_chat_id :: string
  tn_admin_chat_id :: "string option"
  tn_open_url :: "string option"

definition admin_chat :: "telegram_notifier \<Rightarrow> string" where
  \<comment> \<open>\<open>admin_chat_id or group_chat_id\<close>\<close>
  "admin_chat n = (case tn_admin_chat_id n of None \<Rightarrow> tn_group_chat_id n | Some c \<Rightarrow> if c = [] then tn_group_chat_id n else c)"

definition telegram_body :: "telegram_notifier \<Rightarrow> string \<Rightarrow> jdict \<Rightarrow> jdict" where
  "telegram_body n template_key params =
     (let destination = text_param params ''destination'' ''group''
      in [(''chat_id'', JStr (if destination = ''admin'' then admin_chat n else tn_group_chat_id n)),
          (''text'', JStr (message_text (tn_formatter n) template_key params)),
          (''disable_notification'', JBool (destination = ''admin''))] @
         (if tn_open_url n = None \<or> tn_open_url n = Some [] then []
          else [(''reply_markup'', JObj [(''inline_keyboard'', JArr [JArr [JObj
                 [(''text'', JStr (message_text (tn_formatter n) ''bot.open'' [])), (''url'', JStr (or_default [] (tn_open_url n)))]]])])]))"

datatype http_answer =
    HttpError              \<comment> \<open>URLError, OSError or a body that is not JSON: logged, False\<close>
  | HttpBody json          \<comment> \<open>the parsed body; an empty one is the empty dictionary\<close>

definition telegram_result :: "http_answer \<Rightarrow> send_result" where
  "telegram_result a =
     (case a of
        HttpError \<Rightarrow> Returned (Some False)
      | HttpBody (JObj d) \<Rightarrow> Returned (Some (case map_of d ''ok'' of None \<Rightarrow> True | Some v \<Rightarrow> truthy v))
      | HttpBody _ \<Rightarrow> Raised)"

definition telegram_messenger :: "telegram_notifier \<Rightarrow> string option \<Rightarrow> (string \<Rightarrow> jdict \<Rightarrow> http_answer) \<Rightarrow> messenger" where
  \<comment> \<open>\<open>token\<close> is the text of the token file, None when reading it raises; \<open>post\<close> is sendMessage with a token and a body\<close>
  "telegram_messenger n token post row =
     (case token of
        None \<Rightarrow> Raised
      | Some t \<Rightarrow> telegram_result (post t (telegram_body n (q_template_key row) (params_of row))))"

subsection \<open>What a message discloses\<close>

lemma params_of_simps [simp]:
  "text_param (params_of row) ''server_id'' e = qp_server_id (q_params row)"
  "text_param (params_of row) ''state'' e = state_value (qp_state (q_params row))"
  "text_param (params_of row) ''destination'' e = q_destination row"
  by (simp_all add: params_of_def text_param_def)

text \<open>
  A message goes to one of the two configured chats, the administrator's only when it is addressed to the
  administrator, and carries nothing but the text made of the template, the public name of the server and
  the public name of the state: two messages that agree in those are the same message.
\<close>

theorem message_discloses_only_names:
  assumes "q_destination row = q_destination row'" "q_template_key row = q_template_key row'"
    "server_name (tn_formatter n) (qp_server_id (q_params row)) = server_name (tn_formatter n) (qp_server_id (q_params row'))"
    "qp_state (q_params row) = qp_state (q_params row')"
  shows "telegram_messenger n token post row = telegram_messenger n token post row' \<and>
     jget (telegram_body n (q_template_key row) (params_of row)) ''chat_id'' =
       JStr (if q_destination row = ''admin'' then admin_chat n else tn_group_chat_id n)"
proof -
  have "message_text (tn_formatter n) (q_template_key row) (params_of row) = message_text (tn_formatter n) (q_template_key row') (params_of row')"
    using assms by (simp add: message_text_def)
  then have "telegram_body n (q_template_key row) (params_of row) = telegram_body n (q_template_key row') (params_of row')"
    using assms(1) by (simp add: telegram_body_def)
  then have "telegram_messenger n token post row = telegram_messenger n token post row'" by (simp only: telegram_messenger_def)
  then show ?thesis by (simp add: telegram_body_def Let_def)
qed

definition sample_notifier :: telegram_notifier where
  "sample_notifier = \<lparr>tn_formatter = \<lparr>fm_config = rs_config view_settings, fm_dictionaries = []\<rparr>, tn_group_chat_id = ''-100'',
     tn_admin_chat_id = Some ''7'', tn_open_url = None\<rparr>"

theorem message_discloses_only_names_witness:
  "telegram_messenger sample_notifier (Some ''T'') (\<lambda>_ _. HttpError) (sample_row ''a'' ''s1'' ''bot.unavailable'' 5) =
     telegram_messenger sample_notifier (Some ''T'') (\<lambda>_ _. HttpError) (sample_row ''b'' ''s1'' ''bot.unavailable'' 9)"
  by (rule message_discloses_only_names [THEN conjunct1]) (simp_all add: sample_row_def)

text \<open>A message counts as sent exactly when Telegram answered with a dictionary that does not deny it.\<close>

lemma telegram_sent_iff:
  "send_ok (telegram_messenger n token post row) \<longleftrightarrow>
     (\<exists>t d. token = Some t \<and> post t (telegram_body n (q_template_key row) (params_of row)) = HttpBody (JObj d) \<and>
        (\<forall>v. map_of d ''ok'' = Some v \<longrightarrow> truthy v))"
  by (auto simp: telegram_messenger_def telegram_result_def send_ok_def split: option.splits http_answer.splits json.splits)

subsection \<open>The queue drains once the messenger answers\<close>

definition after_runs :: "int \<Rightarrow> (messenger \<times> datetime) list \<Rightarrow> queue_row list \<Rightarrow> queue_row list" where
  "after_runs backoff runs queue = foldl (\<lambda>q (send, now). snd (deliver_pending send backoff now q)) queue runs"

definition due_by :: "datetime \<Rightarrow> queue_row \<Rightarrow> bool" where
  "due_by t q \<longleftrightarrow> (q_state q = Pending \<longrightarrow> q_next_attempt_at q \<le> StampP t)"

lemma outcome_id: "q_id (outcome send backoff now queue q) = q_id q"
  by (simp add: outcome_def)

lemma outcome_due_by:
  assumes "attempts_ok q" "0 \<le> backoff" "now \<le> t" "due_by (t + seconds (backoff * MAX_ATTEMPTS)) q"
  shows "due_by (t + seconds (backoff * MAX_ATTEMPTS)) (outcome send backoff now queue q)"
proof -
  have "backoff * (q_attempts q + 1) \<le> backoff * MAX_ATTEMPTS" if "\<not> MAX_ATTEMPTS \<le> q_attempts q + 1"
    using assms(2) that by (intro mult_left_mono) auto
  with assms(3,4) show ?thesis by (auto simp: due_by_def outcome_def delivered_def seconds_def)
qed

lemma after_runs_inv:
  assumes "unique q_id queue" "list_all attempts_ok queue" "0 \<le> backoff" "\<forall>(send, now)\<in>set runs. now \<le> t"
    "list_all (due_by (t + seconds (backoff * MAX_ATTEMPTS))) queue"
  shows "unique q_id (after_runs backoff runs queue) \<and> map q_id (after_runs backoff runs queue) = map q_id queue \<and>
     list_all (due_by (t + seconds (backoff * MAX_ATTEMPTS))) (after_runs backoff runs queue)"
  using assms
proof (induction runs arbitrary: queue)
  case (Cons run runs)
  obtain send now where run: "run = (send, now)" by (cases run)
  let ?q = "map (outcome send backoff now queue) queue"
  have next_queue: "snd (deliver_pending send backoff now queue) = ?q" using Cons.prems(1) by (rule deliver_pending_queue)
  have ids: "map q_id ?q = map q_id queue" by (simp add: o_def outcome_id)
  moreover have "unique q_id ?q" using Cons.prems(1) unfolding unique_def ids .
  moreover have "list_all attempts_ok ?q" using Cons.prems(2) by (simp add: list_all_iff attempts_outcome)
  moreover have "list_all (due_by (t + seconds (backoff * MAX_ATTEMPTS))) ?q"
    using Cons.prems(2-5) run by (simp add: list_all_iff outcome_due_by)
  ultimately have "unique q_id (after_runs backoff runs ?q) \<and> map q_id (after_runs backoff runs ?q) = map q_id queue \<and>
      list_all (due_by (t + seconds (backoff * MAX_ATTEMPTS))) (after_runs backoff runs ?q)"
    using Cons.IH [of ?q] Cons.prems(3,4) by simp
  moreover have "after_runs backoff (run # runs) queue = after_runs backoff runs ?q" by (simp add: after_runs_def run next_queue)
  ultimately show ?case by simp
qed (simp add: after_runs_def)

text \<open>
  C8. No message waits for ever: however long the messenger failed, twenty backoff periods after the last
  failing run at the latest a run finds everything that still waits due; if the messenger answers then, no
  message is left waiting, and no row has disappeared.
\<close>

theorem queue_drains:
  assumes "unique q_id queue" "list_all attempts_ok queue" "0 \<le> backoff" "\<forall>(send, now)\<in>set runs. now \<le> t"
    "list_all (due_by (t + seconds (backoff * MAX_ATTEMPTS))) queue" "\<forall>row. send_ok (answering row)" "t + seconds (backoff * MAX_ATTEMPTS) \<le> now"
    "result = snd (deliver_pending answering backoff now (after_runs backoff runs queue))"
  shows "list_all (\<lambda>q. q_state q \<noteq> Pending) result \<and> map q_id result = map q_id queue"
proof -
  let ?q = "after_runs backoff runs queue"
  from after_runs_inv [OF assms(1-5)] have q: "unique q_id ?q" "map q_id ?q = map q_id queue"
      "list_all (due_by (t + seconds (backoff * MAX_ATTEMPTS))) ?q" by simp_all
  have result: "result = map (outcome answering backoff now ?q) ?q" using assms(8) deliver_pending_queue [OF q(1)] by simp
  have "q_state (outcome answering backoff now ?q row) \<noteq> Pending" if "row \<in> set ?q" for row
  proof (cases "q_state row = Pending")
    case True
    with q(3) that have "q_next_attempt_at row \<le> StampP (t + seconds (backoff * MAX_ATTEMPTS))" by (simp add: due_by_def list_all_iff)
    also have "\<dots> \<le> StampP now" using assms(7) by simp
    finally show ?thesis using True assms(6) by (simp add: outcome_def delivered_def is_due_def)
  qed (simp add: outcome_def is_due_def)
  then show ?thesis using q(2) by (simp add: result list_all_iff o_def outcome_id)
qed

theorem queue_drains_witness:
  "list_all (\<lambda>q. q_state q \<noteq> Pending)
     (snd (deliver_pending (\<lambda>_. Returned None) 30 (seconds 700)
        (after_runs 30 [(\<lambda>_. Raised, seconds 10), (\<lambda>_. Raised, seconds 50)] [sample_row ''a'' ''s1'' ''bot.unavailable'' 5])))"
  by (rule queue_drains [where t = "seconds 50", THEN conjunct1])
     (simp_all add: unique_def sample_row_def attempts_ok_def due_by_def send_ok_def seconds_def MAX_ATTEMPTS_def)

end
