(* ===== verification/Observability.thy ===== *)
theory Observability
  imports Json Text
begin

text \<open>
  Structured logs (src/src/vpnpulse/observability.py): a record becomes a JSON object whose extra fields
  pass through \<open>_safe\<close>, which replaces the value of every key that may hold a secret, at any depth.
\<close>

subsection \<open>Operations\<close>

definition REDACTED_KEYS :: "string list" where
  "REDACTED_KEYS = [''authorization'', ''init_data'', ''password'', ''private_key'', ''probe_token'', ''psk'', ''token'']"

definition secret_key :: "string option \<Rightarrow> bool" where
  \<comment> \<open>\<open>key and key.lower() in REDACTED_KEYS\<close>\<close>
  "secret_key key = (case key of None \<Rightarrow> False | Some k \<Rightarrow> k \<noteq> [] \<and> lower k \<in> set REDACTED_KEYS)"

definition redaction :: json where
  "redaction = JStr ''[REDACTED]''"

lemma size_member: "e \<in> set d \<Longrightarrow> size (snd e) < size (JObj d)" "x \<in> set xs \<Longrightarrow> size x < size (JArr xs)"
proof -
  show "e \<in> set d \<Longrightarrow> size (snd e) < size (JObj d)" by (induction d) (auto simp: case_prod_beta)
  show "x \<in> set xs \<Longrightarrow> size x < size (JArr xs)" by (induction xs) auto
qed

function safe :: "string option \<Rightarrow> json \<Rightarrow> json" where
  \<comment> \<open>\<open>_safe\<close> on what json.dumps can print; other objects are texts already\<close>
  "safe key v =
     (if secret_key key then redaction
      else case v of
             JObj d \<Rightarrow> JObj (map (\<lambda>e. (fst e, safe (Some (fst e)) (snd e))) d)
           | JArr xs \<Rightarrow> JArr (map (safe None) xs)
           | _ \<Rightarrow> v)"
  by pat_completeness auto

termination
  by (relation "measure (\<lambda>(key, v). size v)") (auto simp del: json.size dest: size_member)

declare safe.simps [simp del]

record log_record =
  lr_timestamp :: string
  lr_level :: string
  lr_service :: "string option"
  lr_event :: "string option"
  lr_message :: string
  lr_extra :: jdict

definition EXTRA_FIELDS :: "string list" where
  "EXTRA_FIELDS = [''trace_id'', ''duration_ms'', ''result'', ''details'']"

definition format_record :: "log_record \<Rightarrow> jdict" where
  \<comment> \<open>\<open>JsonFormatter.format\<close> before \<open>json.dumps\<close>\<close>
  "format_record r =
     [(''timestamp'', JStr (lr_timestamp r)), (''level'', JStr (lower (lr_level r))),
      (''service'', JStr (case lr_service r of None \<Rightarrow> ''vpnpulse'' | Some s \<Rightarrow> s)),
      (''event'', JStr (case lr_event r of None \<Rightarrow> lr_message r | Some e \<Rightarrow> e))] @
     List.map_filter (\<lambda>field. map_option (\<lambda>v. (field, safe (Some field) v)) (map_of (lr_extra r) field)) EXTRA_FIELDS"

subsection \<open>What the log shows at a place\<close>

text \<open>A place in a document: the keys and indices that lead to it.\<close>

datatype step = Key string | Index nat

fun at_place :: "json \<Rightarrow> step list \<Rightarrow> json option" where
  "at_place v [] = Some v"
| "at_place (JObj d) (Key k # p) = Option.bind (map_of d k) (\<lambda>v. at_place v p)"
| "at_place (JArr xs) (Index i # p) = (if i < length xs then at_place (xs ! i) p else None)"
| "at_place _ _ = None"

definition open_step :: "step \<Rightarrow> bool" where
  \<comment> \<open>a step that does not lead under a secret key\<close>
  "open_step s = (case s of Key k \<Rightarrow> \<not> secret_key (Some k) | Index _ \<Rightarrow> True)"

definition is_leaf :: "json \<Rightarrow> bool" where
  "is_leaf v = (case v of JObj _ \<Rightarrow> False | JArr _ \<Rightarrow> False | _ \<Rightarrow> True)"

lemma safe_leaf: "is_leaf v \<Longrightarrow> \<not> secret_key key \<Longrightarrow> safe key v = v"
  by (subst safe.simps) (cases v, auto simp: is_leaf_def)

lemma safe_secret: "secret_key key \<Longrightarrow> safe key v = redaction"
  by (subst safe.simps) simp

lemma safe_JObj: "\<not> secret_key key \<Longrightarrow> safe key (JObj d) = JObj (map (\<lambda>(k, v). (k, safe (Some k) v)) d)"
  by (subst safe.simps) (auto simp: case_prod_beta)

lemma safe_JArr: "\<not> secret_key key \<Longrightarrow> safe key (JArr xs) = JArr (map (safe None) xs)"
  by (subst safe.simps) simp

lemma map_of_safe: "map_of (map (\<lambda>(k, v). (k, safe (Some k) v)) d) k = map_option (safe (Some k)) (map_of d k)"
  by (induction d) auto

fun key_of_step :: "step \<Rightarrow> string option" where
  "key_of_step (Key k) = Some k"
| "key_of_step (Index i) = None"

lemma at_place_safe_step:
  assumes "\<not> secret_key key"
  shows "at_place (safe key v) (s # p) =
     Option.bind (at_place v [s]) (\<lambda>w. at_place (safe (key_of_step s) w) p)"
  by (cases v; cases s) (simp_all add: assms safe_JObj safe_JArr safe_leaf is_leaf_def map_of_safe split: Option.bind_split)

lemma at_place_step: "at_place v (s # p) = Option.bind (at_place v [s]) (\<lambda>w. at_place w p)"
  by (cases v; cases s) (simp_all split: Option.bind_split)

lemma not_secret_open: "open_step s \<Longrightarrow> \<not> secret_key (key_of_step s)"
  by (cases s) (auto simp: open_step_def secret_key_def)

lemma log_along_open_path:
  "\<not> secret_key key \<Longrightarrow> list_all open_step p \<Longrightarrow>
   (\<exists>w. at_place v p = Some w) = (\<exists>w. at_place (safe key v) p = Some w) \<and>
   (\<forall>w. at_place v p = Some w \<longrightarrow> (\<exists>key'. \<not> secret_key key' \<and> at_place (safe key v) p = Some (safe key' w)))"
proof (induction p arbitrary: key v)
  case Nil
  then show ?case by auto
next
  case (Cons s p)
  then have "open_step s" "list_all open_step p" by simp_all
  show ?case
  proof (cases "at_place v [s]")
    case None
    then show ?thesis using at_place_safe_step [OF Cons.prems(1), of v s p] at_place_step [of v s p] by simp
  next
    case (Some w)
    with Cons.IH [OF not_secret_open [OF \<open>open_step s\<close>] \<open>list_all open_step p\<close>, of w] at_place_safe_step [OF Cons.prems(1), of v s p]
      at_place_step [of v s p]
    show ?thesis by simp
  qed
qed

text \<open>
  The log shows everything but the secrets: at a place that no secret key leads to, the log has the same
  simple value as the record; under a secret key, at whatever depth, it has the mark and nothing below it,
  whatever the record holds there.
\<close>

theorem log_hides_secrets:
  assumes "\<not> secret_key key" "list_all open_step p"
  shows "(\<forall>w. is_leaf w \<longrightarrow> (at_place v p = Some w \<longrightarrow> at_place (safe key v) p = Some w)) \<and>
     (\<forall>k rest. secret_key (Some k) \<longrightarrow> at_place v (p @ [Key k]) \<noteq> None \<longrightarrow>
        at_place (safe key v) (p @ Key k # rest) = (if rest = [] then Some redaction else None))"
proof (intro conjI allI impI)
  fix w assume "is_leaf w" "at_place v p = Some w"
  with log_along_open_path [OF assms, of v] show "at_place (safe key v) p = Some w" by (auto simp: safe_leaf)
next
  fix k rest assume k: "secret_key (Some k)" "at_place v (p @ [Key k]) \<noteq> None"
  have append: "at_place u (p @ q) = Option.bind (at_place u p) (\<lambda>w. at_place w q)" for u q
  proof (induction p arbitrary: u)
    case (Cons s p)
    then show ?case using at_place_step [of u s "p @ q"] at_place_step [of u s p] by (cases "at_place u [s]") simp_all
  qed simp
  from k(2) obtain w where w: "at_place v p = Some w" "at_place w [Key k] \<noteq> None" by (auto simp: append split: Option.bind_splits)
  from log_along_open_path [OF assms, of v] w(1) obtain key' where key': "\<not> secret_key key'" "at_place (safe key v) p = Some (safe key' w)" by auto
  from at_place_safe_step [OF key'(1), of w "Key k" rest] w(2) k(1)
  have "at_place (safe key' w) (Key k # rest) = at_place redaction rest" by (auto simp: safe_secret)
  also have "\<dots> = (if rest = [] then Some redaction else None)" by (cases rest) (simp_all add: redaction_def)
  finally show "at_place (safe key v) (p @ Key k # rest) = (if rest = [] then Some redaction else None)" by (simp add: append key'(2))
qed

definition sample_details :: json where
  "sample_details = JObj [(''code'', JStr ''E1''), (''request'', JArr [JObj [(''Token'', JStr ''123:ABC''), (''n'', JInt 2)]])]"

theorem log_hides_secrets_witness:
  "at_place (safe (Some ''details'') sample_details) [Key ''request'', Index 0, Key ''n''] = Some (JInt 2) \<and>
   at_place (safe (Some ''details'') sample_details) [Key ''request'', Index 0, Key ''Token''] = Some redaction"
proof -
  have keys: "\<not> secret_key (Some ''details'')" "\<not> secret_key (Some ''request'')" "\<not> secret_key (Some ''n'')" "secret_key (Some ''Token'')"
    by code_simp+
  have there: "at_place sample_details [Key ''request'', Index 0, Key ''n''] = Some (JInt 2)"
      "at_place sample_details [Key ''request'', Index 0, Key ''Token''] = Some (JStr ''123:ABC'')"
    by (simp_all add: sample_details_def)
  have "at_place (safe (Some ''details'') sample_details) [Key ''request'', Index 0, Key ''n''] = Some (JInt 2)"
    using log_hides_secrets [of "Some ''details''" "[Key ''request'', Index 0, Key ''n'']" sample_details] keys there
    by (auto simp: open_step_def is_leaf_def)
  moreover have "at_place (safe (Some ''details'') sample_details) [Key ''request'', Index 0, Key ''Token''] = Some redaction"
    using log_hides_secrets [of "Some ''details''" "[Key ''request'', Index 0]" sample_details] keys there
    by (auto simp: open_step_def)
  ultimately show ?thesis by blast
qed

end
