(* ===== verification/Backup.thy ===== *)
theory Backup
  imports Cli_Common Ssh
begin

text \<open>
  \<open>vpn-pulse backup\<close> and \<open>vpn-pulse restore\<close> (src/src/vpnpulse/cli/backup.py): what an archive holds, how
  it is verified and where it is restored to. A tree of files maps relative paths, as lists of components,
  to contents. Messages that end in a path of the host stop before it, and restoring onto a file whose name is a
  directory is not modelled. SHA-256, the JSON printer and parser, and what SQLite says of a database file are arguments.
\<close>

subsection \<open>Trees and archives\<close>

type_synonym tree = "(string list \<times> string) list"

datatype member_kind = TarFile string | TarDirectory | TarSymlink | TarHardlink

record tar_member =
  tm_name :: string
  tm_kind :: member_kind

definition posix :: "string list \<Rightarrow> string" where
  "posix parts = as_posix (Path False parts)"

definition DB_MEMBER :: "string list" where
  "DB_MEMBER = [''data'', ''vpnpulse.sqlite3'']"

definition MANIFEST :: string where
  "MANIFEST = ''MANIFEST.json''"

subsection \<open>Writing an archive\<close>

definition stage_tree :: "string \<Rightarrow> string \<Rightarrow> tree option \<Rightarrow> string option \<Rightarrow> tree" where
  \<comment> \<open>the staged copies: the snapshot of the database, config.yaml, the directory of secrets and run.env\<close>
  "stage_tree db_file config secrets run_env =
     [(DB_MEMBER, db_file), ([''config.yaml''], config)] @
     (case secrets of None \<Rightarrow> [] | Some t \<Rightarrow> map (\<lambda>(n, c). (''secrets'' # n, c)) t) @
     (case run_env of None \<Rightarrow> [] | Some c \<Rightarrow> [([''run.env''], c)])"

definition manifest_item :: "(string \<Rightarrow> string) \<Rightarrow> string list \<times> string \<Rightarrow> json" where
  "manifest_item sha = (\<lambda>(n, c). JObj [(''path'', JStr (posix n)), (''sha256'', JStr (sha c)), (''size'', JInt (int (length c)))])"

definition manifest_of :: "(string \<Rightarrow> string) \<Rightarrow> string \<Rightarrow> string \<Rightarrow> int \<Rightarrow> tree \<Rightarrow> json" where
  "manifest_of sha created_at app_version schema_version stage =
     JObj [(''created_at'', JStr created_at), (''app_version'', JStr app_version), (''schema_version'', JInt schema_version),
           (''files'', JArr (map (manifest_item sha) (sort_key fst stage)))]"

definition backup_members :: "(string \<Rightarrow> string) \<Rightarrow> (json \<Rightarrow> string) \<Rightarrow> string \<Rightarrow> string \<Rightarrow> int \<Rightarrow> tree \<Rightarrow> tar_member list" where
  \<comment> \<open>the files in the order of their paths; entries of directories carry no content and are left out\<close>
  "backup_members sha dumps created_at app_version schema_version stage =
     map (\<lambda>(n, c). \<lparr>tm_name = posix n, tm_kind = TarFile c\<rparr>)
       (sort_key fst (stage @ [([MANIFEST], dumps (manifest_of sha created_at app_version schema_version stage) @ [CHR 0x0A])]))"

record kept_archive =
  af_name :: string
  af_mtime :: int

definition rotate_archives :: "nat \<Rightarrow> kept_archive list \<Rightarrow> kept_archive list \<times> kept_archive list" where
  \<comment> \<open>sorted by modification time, newest first: the archives kept and those removed\<close>
  "rotate_archives keep archives = (let newest_first = sort_key (\<lambda>a. - af_mtime a) archives in (take keep newest_first, drop keep newest_first))"

definition secret_roots :: "full_config \<Rightarrow> path \<Rightarrow> (path \<Rightarrow> bool) \<Rightarrow> cli_error + path list" where
  \<comment> \<open>\<open>exists\<close>: the path is an existing directory; a path stands for what it resolves to\<close>
  "secret_roots c config_path is_directory =
     (let relative = (\<lambda>v. let p = path_of v in if is_absolute p then p else path_join (parent config_path) p);
          roots = remdups ([path_join (parent config_path) (path_of ''secrets'')] @
            (if text_set (fc_collectors_file c) then [parent (relative (or_default [] (fc_collectors_file c)))] else []) @
            (case fc_telegram c of None \<Rightarrow> [] | Some t \<Rightarrow> if tc_bot_token_file t = [] then [] else [parent (relative (tc_bot_token_file t))]));
          existing = filter is_directory roots
      in if 1 < length existing
         then Inl (cli_fail ''secret files span multiple directories; place them together before backup'') else Inr existing)"

subsection \<open>Verifying an archive\<close>

datatype verify_error = Refused cli_error | Crashed

abbreviation refuse :: "string \<Rightarrow> verify_error + 'a" where
  "refuse message \<equiv> Inl (Refused (cli_fail message))"

definition unsafe_member :: "tar_member \<Rightarrow> bool" where
  "unsafe_member m \<longleftrightarrow>
     tm_kind m \<in> {TarSymlink, TarHardlink} \<or> is_absolute (path_of (tm_name m)) \<or> ''..'' \<in> set (path_parts (path_of (tm_name m)))"

definition extracted :: "tar_member list \<Rightarrow> tree" where
  "extracted members =
     foldl (\<lambda>t m. case tm_kind m of TarFile c \<Rightarrow> AList.update (path_parts (path_of (tm_name m))) c t | _ \<Rightarrow> t) [] members"

fun int_of_json :: "json \<Rightarrow> int option" where
  \<comment> \<open>\<open>int(value)\<close>; None is the TypeError or ValueError\<close>
  "int_of_json (JInt i) = Some i"
| "int_of_json (JBool b) = Some (if b then 1 else 0)"
| "int_of_json (JFloat x) = Some (if 0 \<le> x then \<lfloor>x\<rfloor> else \<lceil>x\<rceil>)"
| "int_of_json (JStr s) = parse_int (strip s)"
| "int_of_json _ = None"

fun items_of :: "json \<Rightarrow> json list option" where
  \<comment> \<open>iterating over a value; None is the TypeError\<close>
  "items_of (JArr xs) = Some xs"
| "items_of (JObj d) = Some (map (\<lambda>e. JStr (fst e)) d)"
| "items_of (JStr s) = Some (map (\<lambda>c. JStr [c]) s)"
| "items_of _ = None"

definition hashable :: "json \<Rightarrow> bool" where
  "hashable v = (case v of JArr _ \<Rightarrow> False | JObj _ \<Rightarrow> False | _ \<Rightarrow> True)"

definition get_or :: "json \<Rightarrow> jdict \<Rightarrow> string \<Rightarrow> json" where
  "get_or default_value d k = (case map_of d k of None \<Rightarrow> default_value | Some v \<Rightarrow> v)"

definition listed_items :: "json list \<Rightarrow> (json \<times> jdict) list" where
  \<comment> \<open>the items that are dictionaries with a path\<close>
  "listed_items items = List.map_filter (\<lambda>i. case i of JObj d \<Rightarrow> map_option (\<lambda>v. (v, d)) (map_of d ''path'') | _ \<Rightarrow> None) items"

definition expected_of :: "json list \<Rightarrow> (json \<times> jdict) list" where
  "expected_of items = foldl (\<lambda>d (k, item). AList.update k item d) [] (listed_items items)"

definition actual_of :: "tree \<Rightarrow> json set" where
  "actual_of t = (\<lambda>(n, c). JStr (posix n)) ` set (filter (\<lambda>(n, c). n \<noteq> [] \<and> last n \<noteq> MANIFEST) t)"

definition item_matches :: "(string \<Rightarrow> string) \<Rightarrow> tree \<Rightarrow> json \<times> jdict \<Rightarrow> bool" where
  "item_matches sha t entry =
     (let (k, item) = entry
      in case k of
           JStr rel \<Rightarrow>
             (case map_of t (path_parts (path_of rel)) of
                None \<Rightarrow> False
              | Some c \<Rightarrow> equals_int (int (length c)) (jget item ''size'') \<and> jget item ''sha256'' = JStr (sha c))
         | _ \<Rightarrow> False)"

definition verify_archive ::
  "(string \<Rightarrow> string) \<Rightarrow> (string \<Rightarrow> json option) \<Rightarrow> int \<Rightarrow> string option + tar_member list \<Rightarrow> verify_error + jdict \<times> tree" where
  \<comment> \<open>an archive is its members; \<open>Inl None\<close> is no file, \<open>Inl (Some e)\<close> one that reading fails on with the error e\<close>
  "verify_archive sha loads known_version archive =
     (case archive of
        Inl None \<Rightarrow> refuse ''backup archive not found''
      | Inl (Some e) \<Rightarrow> refuse (''backup archive cannot be read ('' @ e @ '')'')
      | Inr members \<Rightarrow>
          if list_ex unsafe_member members then refuse ''backup contains an unsafe path or link''
          else let t = extracted members
               in case map_of t [MANIFEST] of
                    None \<Rightarrow> refuse ''backup has no MANIFEST.json''
                  | Some content \<Rightarrow>
                      (case loads content of
                         None \<Rightarrow> refuse ''backup manifest is invalid''
                       | Some (JObj manifest) \<Rightarrow>
                           (case (int_of_json (get_or (JInt (-1)) manifest ''schema_version''), items_of (get_or (JArr []) manifest ''files'')) of
                              (Some version, Some items) \<Rightarrow>
                                let expected = expected_of items
                                in if known_version < version then refuse ''backup is from a newer schema version - update the application first''
                                   else if \<not> list_all (\<lambda>(k, item). hashable k) (listed_items items) then Inl Crashed
                                   else if expected = [] \<or> JStr (posix DB_MEMBER) \<notin> fst ` set expected \<or> JStr ''config.yaml'' \<notin> fst ` set expected
                                   then refuse ''backup manifest is incomplete''
                                   else if actual_of t \<noteq> fst ` set expected then refuse ''backup file list does not match its manifest''
                                   else (case find (\<lambda>entry. \<not> item_matches sha t entry) expected of
                                           Some (JStr rel, item) \<Rightarrow> refuse (''backup checksum mismatch: '' @ rel)
                                         | Some _ \<Rightarrow> Inl Crashed
                                         | None \<Rightarrow> Inr (manifest, t))
                            | (Some version, None) \<Rightarrow>
                                if known_version < version then refuse ''backup is from a newer schema version - update the application first''
                                else Inl Crashed
                            | (None, _) \<Rightarrow> Inl Crashed)
                       | Some _ \<Rightarrow> Inl Crashed))"

subsection \<open>Restoring\<close>

definition secrets_of :: "tree \<Rightarrow> tree" where
  "secrets_of t = filter (\<lambda>(n, c). take 1 n = [''secrets''] \<and> 1 < length n) t"

definition restored_tree :: "tree \<Rightarrow> tree" where
  \<comment> \<open>what a restore into a new directory leaves there\<close>
  "restored_tree t = filter (\<lambda>(n, c). n \<in> {[''config.yaml''], DB_MEMBER, [''run.env'']}) t @ secrets_of t"

definition verified :: "(string \<Rightarrow> string) \<Rightarrow> (string \<Rightarrow> json option) \<Rightarrow> int \<Rightarrow> (string \<Rightarrow> string option) \<Rightarrow> string option + tar_member list \<Rightarrow> verify_error + tree" where
  \<comment> \<open>the archive verified and its database checked; \<open>integrity\<close> is what PRAGMA integrity_check says, None an error of SQLite\<close>
  "verified sha loads known_version integrity archive =
     bind_err (verify_archive sha loads known_version archive) (\<lambda>(manifest, t).
       case integrity (or_default [] (map_of t DB_MEMBER)) of
         None \<Rightarrow> Inl Crashed
       | Some result \<Rightarrow>
           if result \<noteq> ''ok'' then refuse (''restored database integrity check failed: '' @ result)
           else if map_of manifest ''schema_version'' = None then Inl Crashed
           else Inr t)"

definition restore_into ::
  "(string \<Rightarrow> string) \<Rightarrow> (string \<Rightarrow> json option) \<Rightarrow> int \<Rightarrow> (string \<Rightarrow> string option) \<Rightarrow> string option + tar_member list \<Rightarrow> path \<Rightarrow> tree \<Rightarrow> verify_error + tree" where
  \<comment> \<open>\<open>--into\<close> a directory that holds the given files\<close>
  "restore_into sha loads known_version integrity archive into target =
     bind_err (verified sha loads known_version integrity archive) (\<lambda>t.
       if target \<noteq> [] then refuse (''restore target is not empty: '' @ as_posix into) else Inr (restored_tree t))"

type_synonym disk = "path \<rightharpoonup> string"

definition with_bak :: "string \<Rightarrow> path \<Rightarrow> path" where
  \<comment> \<open>the name with \<open>.bak-\<close> and the stamp\<close>
  "with_bak stamp p = Path (is_absolute p) (butlast (path_parts p) @ [last (path_parts p) @ ''.bak-'' @ stamp])"

definition replace_file :: "string \<Rightarrow> path \<times> string \<Rightarrow> disk \<Rightarrow> disk" where
  "replace_file stamp = (\<lambda>(p, c) d. (case d p of None \<Rightarrow> d | Some old \<Rightarrow> d(with_bak stamp p \<mapsto> old))(p \<mapsto> c))"

definition under :: "path \<Rightarrow> path \<Rightarrow> bool" where
  \<comment> \<open>a file of the directory, at any depth\<close>
  "under dir p \<longleftrightarrow> is_relative_to p dir \<and> length (path_parts dir) < length (path_parts p)"

definition replace_secrets :: "string \<Rightarrow> path \<Rightarrow> tree \<Rightarrow> disk \<Rightarrow> disk" where
  \<comment> \<open>the directory is copied to its \<open>.bak\<close> name, removed, and written from the archive\<close>
  "replace_secrets stamp dir secrets d =
     (\<lambda>p. if under (with_bak stamp dir) p \<and> d (path_join dir (relative_to p (with_bak stamp dir))) \<noteq> None
          then d (path_join dir (relative_to p (with_bak stamp dir)))
          else if under dir p then map_of secrets (''secrets'' # path_parts (relative_to p dir))
          else d p)"

definition restore_in_place ::
  "(string \<Rightarrow> string) \<Rightarrow> (string \<Rightarrow> json option) \<Rightarrow> int \<Rightarrow> (string \<Rightarrow> string option) \<Rightarrow> string option + tar_member list \<Rightarrow>
   bool \<Rightarrow> string \<Rightarrow> path \<Rightarrow> path \<Rightarrow> disk \<Rightarrow> verify_error + disk" where
  "restore_in_place sha loads known_version integrity archive yes stamp config_path db_path d =
     bind_err (verified sha loads known_version integrity archive) (\<lambda>t.
       if \<not> yes then refuse ''in-place restore requires --yes; stop vpn-pulse-run vpn-pulse-api vpn-pulse-bot first''
       else let copies = [(config_path, or_default [] (map_of t [''config.yaml''])), (db_path, or_default [] (map_of t DB_MEMBER))] @
                  (case map_of t [''run.env''] of None \<Rightarrow> [] | Some c \<Rightarrow> [(path_join (parent config_path) (path_of ''run.env''), c)]);
                d1 = foldl (\<lambda>d f. replace_file stamp f d) d copies
            in Inr (if secrets_of t = [] then d1
                    else replace_secrets stamp (path_join (parent config_path) (path_of ''secrets'')) (secrets_of t) d1))"

subsection \<open>Names\<close>

definition name_ok :: "string list \<Rightarrow> bool" where
  \<comment> \<open>a relative path that stays inside its directory\<close>
  "name_ok n \<longleftrightarrow> n \<noteq> [] \<and> list_all (\<lambda>w. w \<noteq> [] \<and> w \<noteq> ''.'' \<and> w \<noteq> ''..'' \<and> CHR ''/'' \<notin> set w) n"

lemma path_of_posix: "name_ok n \<Longrightarrow> path_of (posix n) = Path False n"
  unfolding posix_def by (intro path_of_as_posix) (auto simp: name_ok_def clean_path_def list_all_iff)

lemma posix_inj: "name_ok m \<Longrightarrow> name_ok n \<Longrightarrow> posix m = posix n \<longleftrightarrow> m = n"
  using path_of_posix by (metis path.inject)

lemma safe_member: "name_ok n \<Longrightarrow> \<not> unsafe_member \<lparr>tm_name = posix n, tm_kind = TarFile c\<rparr>"
  by (auto simp: unsafe_member_def path_of_posix name_ok_def list_all_iff)

lemma update_absent: "k \<notin> fst ` set t \<Longrightarrow> AList.update k v t = t @ [(k, v)]"
  by (induction t) auto

lemma foldl_update_new:
  "distinct (map fst xs @ map fst t) \<Longrightarrow> foldl (\<lambda>d (k, v). AList.update k v d) t xs = t @ xs"
proof (induction xs arbitrary: t)
  case (Cons x xs)
  obtain k v where x: "x = (k, v)" by (cases x)
  have "AList.update k v t = t @ [(k, v)]" using Cons.prems by (intro update_absent) (auto simp: x)
  with Cons show ?case by (simp add: x)
qed simp

lemma map_of_perm:
  assumes "distinct (map fst xs)" "mset xs = mset ys"
  shows "map_of xs = map_of ys"
proof -
  have "distinct (map fst ys)" using assms by (metis mset_map mset_eq_imp_distinct_iff)
  moreover have "set xs = set ys" using assms(2) by (metis set_mset_mset)
  ultimately show ?thesis using assms(1) map_of_inject_set by blast
qed

lemma distinct_keys_sort: "distinct (map fst (sort_key f xs)) \<longleftrightarrow> distinct (map fst xs)"
  unfolding distinct_map by simp

lemma map_of_filter_key: "map_of (filter (\<lambda>(n, c). P n) t) n = (if P n then map_of t n else None)"
  by (induction t) auto

lemma extracted_files:
  assumes "distinct (map fst t)" "\<forall>(n, c)\<in>set t. name_ok n"
  shows "extracted (map (\<lambda>(n, c). \<lparr>tm_name = posix n, tm_kind = TarFile c\<rparr>) t) = t"
proof -
  have "extracted (map (\<lambda>(n, c). \<lparr>tm_name = posix n, tm_kind = TarFile c\<rparr>) t) = foldl (\<lambda>d (k, v). AList.update k v d) [] t"
    unfolding extracted_def foldl_map
    by (rule foldl_cong) (use assms(2) in \<open>auto simp: path_of_posix\<close>)
  then show ?thesis using foldl_update_new [of t "[]"] assms(1) by simp
qed

subsection \<open>What a backup restores\<close>

lemma listed_manifest_items:
  "listed_items (map (manifest_item sha) t) = map (\<lambda>(n, c). (JStr (posix n), [(''path'', JStr (posix n)), (''sha256'', JStr (sha c)), (''size'', JInt (int (length c)))])) t"
  by (induction t) (auto simp: listed_items_def manifest_item_def List.map_filter_simps)

lemma expected_manifest:
  assumes "distinct (map fst t)" "\<forall>(n, c)\<in>set t. name_ok n"
  shows "expected_of (map (manifest_item sha) t) =
     map (\<lambda>(n, c). (JStr (posix n), [(''path'', JStr (posix n)), (''sha256'', JStr (sha c)), (''size'', JInt (int (length c)))])) t"
proof -
  let ?item = "\<lambda>(n, c). (JStr (posix n), [(''path'', JStr (posix n)), (''sha256'', JStr (sha c)), (''size'', JInt (int (length c)))])"
  have "inj_on (\<lambda>n. JStr (posix n)) (set (map fst t))"
  proof (rule inj_onI)
    fix m n assume "m \<in> set (map fst t)" "n \<in> set (map fst t)" "JStr (posix m) = JStr (posix n)"
    moreover from this assms(2) have "name_ok m" "name_ok n" by auto
    ultimately show "m = n" using posix_inj by blast
  qed
  with assms(1) have "distinct (map (\<lambda>n. JStr (posix n)) (map fst t))" using distinct_map by blast
  moreover have "map fst (map ?item t) = map (\<lambda>n. JStr (posix n)) (map fst t)" by (simp add: case_prod_beta)
  ultimately have "distinct (map fst (map ?item t))" by (simp only:)
  then show ?thesis unfolding expected_of_def listed_manifest_items using foldl_update_new [of "map ?item t" "[]"] by simp
qed

definition stage_ok :: "tree \<Rightarrow> bool" where
  \<comment> \<open>names that stay inside, once each, with a database and a configuration, and no file called MANIFEST.json\<close>
  "stage_ok stage \<longleftrightarrow>
     distinct (map fst stage) \<and> (\<forall>(n, c)\<in>set stage. name_ok n \<and> last n \<noteq> MANIFEST) \<and>
     DB_MEMBER \<in> fst ` set stage \<and> [''config.yaml''] \<in> fst ` set stage"

lemma verify_backup:
  assumes "stage_ok stage" "loads (dumps (manifest_of sha created_at app_version version stage) @ [CHR 0x0A]) =
      Some (manifest_of sha created_at app_version version stage)" "version \<le> known_version"
  shows "\<exists>t manifest. verify_archive sha loads known_version (Inr (backup_members sha dumps created_at app_version version stage)) = Inr (manifest, t) \<and>
     map_of manifest ''schema_version'' = Some (JInt version) \<and>
     map_of t = (map_of stage)([MANIFEST] \<mapsto> dumps (manifest_of sha created_at app_version version stage) @ [CHR 0x0A])"
proof -
  let ?text = "dumps (manifest_of sha created_at app_version version stage) @ [CHR 0x0A]"
  let ?all = "stage @ [([MANIFEST], ?text)]" and ?sorted = "sort_key fst stage"
  let ?t = "sort_key fst ?all" and ?members = "backup_members sha dumps created_at app_version version stage"
  from assms(1) have ok: "distinct (map fst stage)" "\<forall>(n, c)\<in>set stage. name_ok n \<and> last n \<noteq> MANIFEST"
    by (auto simp: stage_ok_def)
  have m_ok: "name_ok [MANIFEST]" by (simp add: name_ok_def MANIFEST_def)
  have fresh: "[MANIFEST] \<notin> fst ` set stage" using ok(2) by fastforce
  have names: "\<forall>(n, c)\<in>set ?t. name_ok n" using ok(2) m_ok by auto
  have distinct_all: "distinct (map fst ?all)" using ok(1) fresh by auto
  then have distinct_t: "distinct (map fst ?t)" unfolding distinct_keys_sort .
  have t: "extracted ?members = ?t" unfolding backup_members_def by (rule extracted_files [OF distinct_t names])
  have safe: "\<not> list_ex unsafe_member ?members"
    using names safe_member by (auto simp: backup_members_def list_ex_iff case_prod_beta)
  have map_t: "map_of ?t = map_of ?all" using distinct_t by (intro map_of_perm) simp_all
  also have "\<dots> = (map_of stage)([MANIFEST] \<mapsto> ?text)"
  proof -
    have "map_of stage [MANIFEST] = None" using fresh by (simp add: map_of_eq_None_iff)
    then show ?thesis by (intro ext) (simp add: map_add_def split: option.split)
  qed
  finally have map_stage: "map_of ?t = (map_of stage)([MANIFEST] \<mapsto> ?text)" .
  have sorted_ok: "distinct (map fst ?sorted)" "\<forall>(n, c)\<in>set ?sorted. name_ok n"
    using ok by (simp add: distinct_keys_sort, fastforce)
  let ?expected = "expected_of (map (manifest_item sha) ?sorted)"
  note expected = expected_manifest [OF sorted_ok, of sha]
  have keys: "fst ` set ?expected = (\<lambda>(n, c). JStr (posix n)) ` set stage"
    unfolding expected by (simp add: image_image case_prod_beta)
  have "\<forall>f\<in>set stage. fst f \<noteq> [] \<and> last (fst f) \<noteq> MANIFEST" using ok(2) by (fastforce simp: name_ok_def)
  moreover have "set ?t = insert ([MANIFEST], ?text) (set stage)" by simp
  ultimately have "set (filter (\<lambda>(n, c). n \<noteq> [] \<and> last n \<noteq> MANIFEST) ?t) = set stage"
    unfolding set_filter case_prod_beta by (simp only: insert_iff) auto
  then have actual: "actual_of ?t = fst ` set ?expected" unfolding keys actual_of_def by (simp only:)
  have "item_matches sha ?t (JStr (posix n), [(''path'', JStr (posix n)), (''sha256'', JStr (sha c)), (''size'', JInt (int (length c)))])"
    if "(n, c) \<in> set stage" for n c
  proof -
    have "name_ok n" "n \<noteq> [MANIFEST]" using that ok(2) by (fastforce simp: name_ok_def)+
    moreover have "map_of ?t n = Some c" using that ok(1) \<open>n \<noteq> [MANIFEST]\<close> by (simp only: map_stage) simp
    ultimately show ?thesis by (simp add: item_matches_def path_of_posix equals_int_def jget_def)
  qed
  then have matches: "list_all (item_matches sha ?t) ?expected"
    unfolding expected list_all_iff by auto
  then have none: "find (\<lambda>entry. \<not> item_matches sha ?t entry) ?expected = None"
    by (auto simp: find_None_iff list_all_iff)
  have hash: "list_all (\<lambda>(k, item). hashable k) (listed_items (map (manifest_item sha) ?sorted))"
    by (auto simp: listed_manifest_items list_all_iff hashable_def)
  have there: "JStr (posix DB_MEMBER) \<in> fst ` set ?expected" "JStr ''config.yaml'' \<in> fst ` set ?expected"
  proof -
    have "posix [''config.yaml''] = ''config.yaml''" by (simp add: posix_def as_posix_def join_def)
    then show "JStr (posix DB_MEMBER) \<in> fst ` set ?expected" "JStr ''config.yaml'' \<in> fst ` set ?expected"
      unfolding keys using assms(1) by (force simp: stage_ok_def)+
  qed
  then have "?expected \<noteq> []" by auto
  let ?m = "[(''created_at'', JStr created_at), (''app_version'', JStr app_version), (''schema_version'', JInt version),
             (''files'', JArr (map (manifest_item sha) ?sorted))]"
  have loads: "loads ?text = Some (JObj ?m)" using assms(2) by (simp add: manifest_of_def)
  have content: "map_of ?t [MANIFEST] = Some ?text" by (simp add: map_stage)
  have "verify_archive sha loads known_version (Inr ?members) = Inr (?m, ?t)"
    using \<open>?expected \<noteq> []\<close> safe assms(3) actual none hash there
    by (simp add: verify_archive_def t content loads get_or_def)
  moreover have "map_of ?m ''schema_version'' = Some (JInt version)" by simp
  ultimately show ?thesis using map_stage by blast
qed

lemma restored_map:
  "map_of (restored_tree t) n =
     (if n \<in> {[''config.yaml''], DB_MEMBER, [''run.env'']} \<or> take 1 n = [''secrets''] \<and> 1 < length n then map_of t n else None)"
proof -
  have either: "(case if B then x else None of None \<Rightarrow> if A then x else None | Some y \<Rightarrow> Some y) = (if B \<or> A then x else None)"
    for A B and x :: "string option" by (cases x) auto
  show ?thesis unfolding restored_tree_def secrets_of_def map_of_append map_add_def map_of_filter_key by (rule either)
qed

definition secrets_ok :: "tree option \<Rightarrow> bool" where
  "secrets_ok secrets = (case secrets of None \<Rightarrow> True
     | Some t \<Rightarrow> distinct (map fst t) \<and> list_all (\<lambda>(n, c). name_ok n \<and> last n \<noteq> MANIFEST) t)"

lemma name_ok_secret: "name_ok n \<Longrightarrow> name_ok (''secrets'' # n)" "name_ok n \<Longrightarrow> last (''secrets'' # n) = last n"
  by (auto simp: name_ok_def)

lemma name_ok_fixed: "name_ok DB_MEMBER" "name_ok [''config.yaml'']" "name_ok [''run.env'']"
  by (simp_all add: name_ok_def DB_MEMBER_def)

lemma staged_is_ok:
  assumes "secrets_ok secrets"
  shows "stage_ok (stage_tree db config secrets run_env)"
proof -
  have distinct: "distinct (map (\<lambda>f. ''secrets'' # fst f) t)" if "distinct (map fst t)" for t :: tree
    using that by (induction t) force+
  have names: "name_ok (''secrets'' # n) \<and> last (''secrets'' # n) \<noteq> MANIFEST" if "secrets = Some t" "(n, c) \<in> set t" for t n c
    using assms that name_ok_secret by (fastforce simp: secrets_ok_def list_all_iff)
  have "distinct (map fst (stage_tree db config secrets run_env))"
    using assms distinct by (auto simp: stage_tree_def secrets_ok_def DB_MEMBER_def o_def case_prod_beta split: option.splits)
  moreover have "\<forall>(n, c)\<in>set (stage_tree db config secrets run_env). name_ok n \<and> last n \<noteq> MANIFEST"
    using names name_ok_fixed
    by (auto simp: stage_tree_def MANIFEST_def DB_MEMBER_def simp del: last.simps split: option.splits) (auto simp: DB_MEMBER_def)
  ultimately show ?thesis by (auto simp: stage_ok_def stage_tree_def)
qed

lemma staged_names:
  assumes "secrets_ok secrets" "n \<in> fst ` set (stage_tree db config secrets run_env)"
  shows "n \<in> {[''config.yaml''], DB_MEMBER, [''run.env'']} \<or> take 1 n = [''secrets''] \<and> 1 < length n"
  using assms by (auto simp: stage_tree_def secrets_ok_def name_ok_def list_all_iff split: option.splits)

text \<open>C37. What a backup holds is what restoring it into an empty directory leaves there: the database,
  the configuration, every secret file and run.env, each under its own name and with its own content, and
  nothing else. The JSON reader undoes the JSON printer on the manifest.\<close>
theorem backup_restores:
  assumes "secrets_ok secrets" "version \<le> known_version" "integrity db = Some ''ok''"
    "loads (dumps (manifest_of sha created_at app_version version (stage_tree db config secrets run_env)) @ [CHR 0x0A]) =
     Some (manifest_of sha created_at app_version version (stage_tree db config secrets run_env))"
  shows "\<exists>t. restore_into sha loads known_version integrity
           (Inr (backup_members sha dumps created_at app_version version (stage_tree db config secrets run_env))) into [] = Inr t \<and>
         map_of t = map_of (stage_tree db config secrets run_env)"
proof -
  let ?stage = "stage_tree db config secrets run_env"
  obtain t manifest where
    v: "verify_archive sha loads known_version (Inr (backup_members sha dumps created_at app_version version ?stage)) = Inr (manifest, t)"
    and m: "map_of manifest ''schema_version'' = Some (JInt version)"
    and t: "map_of t = (map_of ?stage)([MANIFEST] \<mapsto> dumps (manifest_of sha created_at app_version version ?stage) @ [CHR 0x0A])"
    using verify_backup [where loads = loads and dumps = dumps, OF staged_is_ok [OF assms(1), of db config run_env] assms(4,2)] by metis
  have db: "map_of t DB_MEMBER = Some db" by (simp add: t stage_tree_def DB_MEMBER_def MANIFEST_def)
  have "map_of (restored_tree t) n = map_of ?stage n" for n
  proof (cases "n \<in> fst ` set ?stage")
    case True
    with staged_names [OF assms(1) True] show ?thesis
      by (auto simp: restored_map t MANIFEST_def DB_MEMBER_def)
  next
    case False
    then have "map_of ?stage n = None" by (simp add: map_of_eq_None_iff)
    then show ?thesis by (auto simp: restored_map t MANIFEST_def DB_MEMBER_def)
  qed
  then show ?thesis using v m db assms(3) by (auto simp: restore_into_def verified_def)
qed

definition sample_secrets :: tree where
  "sample_secrets = [([''bot-token''], ''12:ab''), ([''keys'', ''amsterdam''], ''key'')]"

definition sample_manifest :: json where
  "sample_manifest = manifest_of (\<lambda>c. c) ''T'' ''1'' 7 (stage_tree ''db'' ''cfg'' (Some sample_secrets) None)"

theorem backup_restores_witness:
  "\<exists>t. restore_into (\<lambda>c. c) (\<lambda>_. Some sample_manifest) 7 (\<lambda>_. Some ''ok'')
           (Inr (backup_members (\<lambda>c. c) (\<lambda>_. ''{}'') ''T'' ''1'' 7 (stage_tree ''db'' ''cfg'' (Some sample_secrets) None))) (path_of ''/tmp/rehearsal'') [] = Inr t \<and>
       map_of t = map_of (stage_tree ''db'' ''cfg'' (Some sample_secrets) None)"
  by (rule backup_restores) (simp_all add: sample_manifest_def, code_simp)

text \<open>A secret file called MANIFEST.json is staged and listed, but not counted when the archive is verified:
  no such backup can be restored.\<close>
lemma manifest_among_the_secrets:
  defines "stage \<equiv> stage_tree ''db'' ''cfg'' (Some [([''MANIFEST.json''], ''x'')]) None"
  shows "verify_archive (\<lambda>c. c) (\<lambda>_. Some (manifest_of (\<lambda>c. c) ''T'' ''1'' 7 stage)) 7
           (Inr (backup_members (\<lambda>c. c) (\<lambda>_. ''{}'') ''T'' ''1'' 7 stage)) = refuse ''backup file list does not match its manifest''"
  unfolding stage_def by code_simp

subsection \<open>What a verified archive is\<close>

lemma posix_of_relative: "\<not> is_absolute p \<Longrightarrow> clean_path p \<Longrightarrow> path_parts (path_of (posix (path_parts p))) = path_parts p"
  unfolding posix_def by (subst path_of_as_posix) (auto simp: clean_path_def)

lemma in_update: "f \<in> set (AList.update k v t) \<Longrightarrow> f = (k, v) \<or> f \<in> set t"
  by (induction t) (auto split: if_splits)

lemma extracted_from:
  "(n, c) \<in> set (extracted members) \<Longrightarrow> \<exists>m\<in>set members. n = path_parts (path_of (tm_name m)) \<and> tm_kind m = TarFile c"
proof (induction members rule: rev_induct)
  case (snoc m ms)
  show ?case
  proof (cases "tm_kind m")
    case (TarFile x)
    with snoc.prems have "(n, c) \<in> set (AList.update (path_parts (path_of (tm_name m))) x (extracted ms))" by (simp add: extracted_def)
    then have "(n, c) = (path_parts (path_of (tm_name m)), x) \<or> (n, c) \<in> set (extracted ms)"
      by (rule in_update)
    with snoc.IH TarFile show ?thesis by auto
  qed (use snoc in \<open>auto simp: extracted_def\<close>)
qed (simp add: extracted_def)

lemma distinct_extracted: "distinct (map fst (extracted members))"
proof (induction members rule: rev_induct)
  case (snoc m ms)
  then show ?case by (cases "tm_kind m") (auto simp: extracted_def distinct_update)
qed (simp add: extracted_def)

lemma verified_archive:
  assumes "verify_archive sha loads known_version archive = Inr (manifest, t)"
  shows "\<exists>members items. archive = Inr members \<and> \<not> list_ex unsafe_member members \<and> t = extracted members \<and>
    items_of (get_or (JArr []) manifest ''files'') = Some items \<and> actual_of t = fst ` set (expected_of items) \<and>
    (\<forall>e\<in>set (expected_of items). item_matches sha t e) \<and> {JStr (posix DB_MEMBER), JStr ''config.yaml''} \<subseteq> fst ` set (expected_of items)"
  using assms
  by (auto simp: verify_archive_def Let_def find_None_iff split: sum.splits option.splits if_splits json.splits)

lemma in_expected: "(k, item) \<in> set (expected_of items) \<Longrightarrow> JObj item \<in> set items \<and> jget item ''path'' = k"
proof -
  have "f \<in> set (foldl (\<lambda>d (k, v). AList.update k v d) t xs) \<Longrightarrow> f \<in> set t \<or> f \<in> set xs" for f xs and t :: "(json \<times> jdict) list"
  proof (induction xs arbitrary: t)
    case (Cons x xs)
    then show ?case by (cases x) (auto dest: in_update)
  qed simp
  moreover assume "(k, item) \<in> set (expected_of items)"
  ultimately have "(k, item) \<in> set (listed_items items)" unfolding expected_of_def by fastforce
  then show ?thesis
    by (auto simp: listed_items_def List.map_filter_def jget_def split: json.splits option.splits)
qed


definition sample_archive :: "tar_member list" where
  "sample_archive = backup_members (\<lambda>c. c) (\<lambda>_. ''{}'') ''T'' ''1'' 7 (stage_tree ''db'' ''cfg'' (Some sample_secrets) None)"


text \<open>Restoring in place keeps what a file held before under the name of its backup.\<close>
lemma replaced_file_is_kept:
  assumes "path_parts p \<noteq> []" "d p = Some old"
  shows "replace_file stamp (p, c) d p = Some c" "replace_file stamp (p, c) d (with_bak stamp p) = Some old"
proof -
  have "last (path_parts (with_bak stamp p)) \<noteq> last (path_parts p)" by (simp add: with_bak_def)
  then have "with_bak stamp p \<noteq> p" by metis
  then show "replace_file stamp (p, c) d p = Some c" "replace_file stamp (p, c) d (with_bak stamp p) = Some old"
    using assms(2) by (simp_all add: replace_file_def)
qed

text \<open>A relative bot_token_file is read from the working directory by every other command, and looked for next to
  config.yaml by the backup: where the two differ the archive holds no secret, and nothing says so.\<close>
lemma relative_secrets_are_missed:
  assumes "fc_telegram c = Some t" "tc_bot_token_file t = ''keys/bot.token''" "fc_collectors_file c = None"
  shows "parent (path_of (tc_bot_token_file t)) = Path False [''keys'']"
    "secret_roots c (Path False [''inst'', ''config.yaml'']) (\<lambda>p. p = Path False [''keys'']) = Inr []"
  using assms by (simp_all add: secret_roots_def path_of_def parent_def path_join_def text_set_def starts_with_def Let_def)

end
