(* ===== verification/Calendar.thy ===== *)
theory Calendar
  imports Timestamps Text
begin

text \<open>
  How instants are printed: the date of the proleptic Gregorian calendar and the time of day in UTC, in
  the formats the commands use. An instant counts microseconds from the first second of 1970.
\<close>

subsection \<open>Dates\<close>

definition civil_of_days :: "int \<Rightarrow> int \<times> int \<times> int" where
  \<comment> \<open>year, month and day of a day counted from 1970-01-01; years begin in March within a cycle of 400\<close>
  "civil_of_days day_number =
     (let z = day_number + 719468; era = z div 146097; doe = z mod 146097;
          yoe = (doe - doe div 1460 + doe div 36524 - doe div 146096) div 365;
          doy = doe - (365 * yoe + yoe div 4 - yoe div 100);
          mp = (5 * doy + 2) div 153;
          month = (if mp < 10 then mp + 3 else mp - 9)
      in (yoe + era * 400 + (if month \<le> 2 then 1 else 0), month, doy - (153 * mp + 2) div 5 + 1))"

definition days_of_civil :: "int \<Rightarrow> int \<Rightarrow> int \<Rightarrow> int" where
  "days_of_civil y m d =
     (let y' = (if m \<le> 2 then y - 1 else y); era = y' div 400; yoe = y' mod 400;
          doy = (153 * (if 2 < m then m - 3 else m + 9) + 2) div 5 + d - 1
      in era * 146097 + (yoe * 365 + yoe div 4 - yoe div 100 + doy) - 719468)"

definition date_of :: "datetime \<Rightarrow> datetime" where
  \<comment> \<open>midnight of the day in UTC\<close>
  "date_of t = t div days 1 * days 1"

definition iso_date :: "string \<Rightarrow> datetime option" where
  \<comment> \<open>\<open>datetime.fromisoformat\<close> on YYYY-MM-DD; a day the calendar does not have is a ValueError\<close>
  "iso_date s =
     (case split_on (CHR ''-'') s of
        [y, m, d] \<Rightarrow>
          if isdigit y \<and> isdigit m \<and> isdigit d \<and> length y = 4 \<and> length m = 2 \<and> length d = 2 then
            (let ymd = (int (nat_of_digits y), int (nat_of_digits m), int (nat_of_digits d));
                 n = days_of_civil (fst ymd) (fst (snd ymd)) (snd (snd ymd))
             in if 0 < fst ymd \<and> civil_of_days n = ymd then Some (n * days 1) else None)
          else None
      | _ \<Rightarrow> None)"

definition padded :: "nat \<Rightarrow> int \<Rightarrow> string" where
  "padded width n = (let s = show_nat (nat n) in replicate (width - length s) (CHR ''0'') @ s)"

definition date_text :: "datetime \<Rightarrow> string" where
  "date_text t = (let (y, m, d) = civil_of_days (t div days 1) in padded 4 y @ ''-'' @ padded 2 m @ ''-'' @ padded 2 d)"

definition clock_text :: "datetime \<Rightarrow> string" where
  \<comment> \<open>\<open>%H:%M\<close>\<close>
  "clock_text t = padded 2 (t mod days 1 div hours 1) @ '':'' @ padded 2 (t mod hours 1 div minutes 1)"

definition fraction_of_second :: "datetime \<Rightarrow> string" where
  "fraction_of_second t = (if t mod second = 0 then [] else ''.'' @ padded 6 (t mod second))"

definition iso_text :: "stamp \<Rightarrow> string" where
  \<comment> \<open>the stored text of an instant\<close>
  "iso_text s =
     (let t = dt_of s
      in date_text t @ ''T'' @ clock_text t @ '':'' @ padded 2 (t mod minutes 1 div second) @ fraction_of_second t @
         (case s of StampZ _ \<Rightarrow> ''Z'' | StampP _ \<Rightarrow> ''+00:00''))"

subsection \<open>Known dates\<close>

lemma known_dates:
  "civil_of_days 0 = (1970, 1, 1)" "civil_of_days 19782 = (2024, 2, 29)" "civil_of_days (- 1) = (1969, 12, 31)"
  "civil_of_days 11016 = (2000, 2, 29)" "civil_of_days 47540 = (2100, 2, 28)" "civil_of_days 47541 = (2100, 3, 1)"
  by code_simp+

lemma known_days:
  "days_of_civil 1970 1 1 = 0" "days_of_civil 2024 2 29 = 19782" "days_of_civil 1969 12 31 = - 1" "days_of_civil 2100 3 1 = 47541"
  "civil_of_days (days_of_civil 2023 2 29) \<noteq> (2023, 2, 29)" "civil_of_days (days_of_civil 2026 13 1) \<noteq> (2026, 13, 1)"
  by code_simp+

lemma known_texts:
  "padded 2 7 = ''07''" "clock_text 61000000 = ''00:01''"
  by code_simp+

end
