(* ===== verification/Admin_Cli.thy ===== *)
theory Admin_Cli
  imports Collector_Cli Admin_View Calendar
begin

text \<open>
  \<open>vpn-pulse note set | clear | show\<close> and \<open>vpn-pulse probe enroll | list | revoke\<close> (src/src/vpnpulse/cli/note.py
  and probe.py): the same store the API writes, reached from the terminal. A command reads the clock once;
  random codes and identifiers, the time zone database and \<open>datetime.fromisoformat\<close> (of the text with its Z as +00:00) are arguments.
\<close>

subsection \<open>The installation and its databases\<close>

text \<open>A database file holds the tables of the current schema; \<open>open_database\<close> has applied the migrations.\<close>

record site =
  si_inst :: installation
  si_dbs :: "path \<rightharpoonup> db"

text \<open>How a command ends: with an answer or an error for the user, or with an exception nothing catches.\<close>

datatype outcome = Finished answer | Uncaught

definition opened :: "string option \<Rightarrow> path option \<Rightarrow> site \<Rightarrow> cli_error + full_config \<times> path \<times> db" where
  \<comment> \<open>\<open>_open\<close>\<close>
  "opened args_db config_path w =
     bind_err (load_public_config config_path (si_inst w)) (\<lambda>(p, c).
       let db_path = resolve_db args_db (Some c)
       in case si_dbs w db_path of
            None \<Rightarrow> Inl (cli_fail (''database not found: '' @ as_posix db_path @ '' (vpn-pulse init creates it, or pass --db)''))
          | Some d \<Rightarrow> Inr (c, db_path, d))"

definition stored :: "path \<Rightarrow> db \<Rightarrow> site \<Rightarrow> site" where
  "stored p d w = w\<lparr>si_dbs := (si_dbs w)(p \<mapsto> d)\<rparr>"

definition make_store :: "full_config \<Rightarrow> int \<Rightarrow> store_settings" where
  \<comment> \<open>the commands pass no pepper and leave sessions at 30 minutes\<close>
  "make_store c enrollment_minutes =
     \<lparr>st_config = fc_public c, st_pepper = [], st_session_minutes = 30, st_enrollment_minutes = enrollment_minutes\<rparr>"

text \<open>The random identifiers of one command; the note's is also written as text.\<close>

record drawn =
  dw_note_id :: uid
  dw_note_text :: string
  dw_entry_id :: uid
  dw_trace_id :: string
  dw_code :: string

subsection \<open>note\<close>

definition MAX_TEXT :: nat where
  "MAX_TEXT = 500"

text \<open>
  A time zone at the moment of the command: the wall clock of an instant, whether that wall clock is the
  second of two equal ones, and the instant of a wall clock (the argument says which of two).
\<close>

record zone =
  zn_local :: "datetime \<Rightarrow> datetime"
  zn_fold :: "datetime \<Rightarrow> bool"
  zn_utc :: "bool \<Rightarrow> datetime \<Rightarrow> datetime"

definition utc_zone :: zone where
  "utc_zone = \<lparr>zn_local = (\<lambda>t. t), zn_fold = (\<lambda>_. False), zn_utc = (\<lambda>_ t. t)\<rparr>"

datatype iso_time = NotIso | Naive datetime | Aware datetime

datatype expiry = Expiry "datetime option" | BadExpiry cli_error | ExpiryRaised

definition hour_minute :: "string \<Rightarrow> (int \<times> int) option" where
  \<comment> \<open>\<open>^\d{1,2}:\d{2}$\<close>, with the line feed that \<open>$\<close> allows at the end\<close>
  "hour_minute s =
     (case split_on (CHR '':'') (if s \<noteq> [] \<and> last s = CHR 0x0A then butlast s else s) of
        [h, m] \<Rightarrow> if isdigit h \<and> isdigit m \<and> length h \<in> {1, 2} \<and> length m = 2
                  then Some (int (nat_of_digits h), int (nat_of_digits m)) else None
      | _ \<Rightarrow> None)"

definition parse_expiry ::
  "(string \<Rightarrow> zone option) \<Rightarrow> (string \<Rightarrow> iso_time) \<Rightarrow> string option \<Rightarrow> string \<Rightarrow> datetime \<Rightarrow> expiry" where
  "parse_expiry zones fromisoformat value timezone now =
     (if \<not> text_set value then Expiry None
      else let z = or_default utc_zone (zones (if timezone = [] then ''UTC'' else timezone)); v = or_default [] value
           in case hour_minute v of
                Some (h, m) \<Rightarrow>
                  if 23 < h \<or> 59 < m then ExpiryRaised
                  else let local = zn_local z now div days 1 * days 1 + hours h + minutes m
                       in if local \<le> zn_local z now then Expiry (Some (zn_utc z False (local + days 1)))
                          else Expiry (Some (zn_utc z (zn_fold z now) local))
              | None \<Rightarrow>
                  (case fromisoformat v of
                     NotIso \<Rightarrow> BadExpiry (cli_fail ''--expires must be HH:MM or an ISO 8601 time'')
                   | read \<Rightarrow>
                       let parsed = (case read of Naive local \<Rightarrow> zn_utc z False local | Aware t \<Rightarrow> t | NotIso \<Rightarrow> now)
                       in if parsed \<le> now then BadExpiry (cli_fail ''--expires is already in the past'') else Expiry (Some parsed)))"

definition configured :: "full_config \<Rightarrow> string \<Rightarrow> bool" where
  "configured c server_id \<longleftrightarrow> list_ex (\<lambda>s. sc_id s = server_id) (cfg_servers (fc_public c))"

record note_args =
  na_text :: string
  na_expires :: "string option"
  na_server :: "string option"
  na_db :: "string option"

definition published_line :: "datetime option \<Rightarrow> string option \<Rightarrow> string" where
  "published_line expires server =
     ''note published'' @ (case expires of None \<Rightarrow> [] | Some t \<Rightarrow> '' until '' @ date_text t @ '' '' @ clock_text t @ '' UTC'') @
     (if text_set server then '' for '' @ or_default [] server else [])"

definition command_note_set ::
  "(string \<Rightarrow> zone option) \<Rightarrow> (string \<Rightarrow> iso_time) \<Rightarrow> note_args \<Rightarrow> path option \<Rightarrow> drawn \<Rightarrow> datetime \<Rightarrow> site \<Rightarrow> outcome \<times> site" where
  "command_note_set zones fromisoformat a config_path r now w =
     (let content = strip (na_text a)
      in if content = [] \<or> MAX_TEXT < length content then (Finished (Inl (cli_fail ''the note must be 1-500 characters'')), w)
         else case opened (na_db a) config_path w of
                Inl e \<Rightarrow> (Finished (Inl e), w)
              | Inr (c, db_path, d) \<Rightarrow>
                  if text_set (na_server a) \<and> \<not> configured c (or_default [] (na_server a))
                  then (Finished (Inl (cli_fail (''server '' @ or_default [] (na_server a) @ '' is not in the configuration''))), w)
                  else case parse_expiry zones fromisoformat (na_expires a) (fc_timezone c) now of
                         BadExpiry e \<Rightarrow> (Finished (Inl e), w)
                       | ExpiryRaised \<Rightarrow> (Uncaught, w)
                       | Expiry expires \<Rightarrow>
                           let synced = (if text_set (na_server a) then sync_servers d (fc_public c) now else d); st = make_store c 10
                           in case put_note synced (dw_note_id r) content expires (na_server a) ''admin'' now of
                                Inl _ \<Rightarrow> (Uncaught, stored db_path synced w)
                              | Inr (info, d') \<Rightarrow>
                                  (case audit st d' (dw_entry_id r) ''cli'' ''admin'' ''note.put'' ''note'' (dw_note_text r) ''ok''
                                          [(''length'', JInt (int (length content)))] (dw_trace_id r) now of
                                     Inl _ \<Rightarrow> (Uncaught, stored db_path d' w)
                                   | Inr d'' \<Rightarrow> (Finished (Inr ([published_line expires (na_server a)], 0)), stored db_path d'' w)))"

definition command_note_clear :: "string option \<Rightarrow> path option \<Rightarrow> drawn \<Rightarrow> datetime \<Rightarrow> site \<Rightarrow> outcome \<times> site" where
  "command_note_clear args_db config_path r now w =
     (case opened args_db config_path w of
        Inl e \<Rightarrow> (Finished (Inl e), w)
      | Inr (c, db_path, d) \<Rightarrow>
          let (cleared, d') = delete_note d now
          in case audit (make_store c 10) d' (dw_entry_id r) ''cli'' ''admin'' ''note.delete'' ''note'' ''active''
                    (if cleared then ''ok'' else ''noop'') [] (dw_trace_id r) now of
               Inl _ \<Rightarrow> (Uncaught, stored db_path d' w)
             | Inr d'' \<Rightarrow> (Finished (Inr ([if cleared then ''note cleared'' else ''there was no active note''], 0)), stored db_path d'' w))"

definition note_line :: "note_info \<Rightarrow> string" where
  "note_line n =
     ni_text n @ (if text_set (ni_server_id n) then '' ['' @ or_default [] (ni_server_id n) @ '']'' else []) @
     (case ni_expires_at n of None \<Rightarrow> [] | Some s \<Rightarrow> '' (until '' @ iso_text s @ '')'')"

definition command_note_show :: "string option \<Rightarrow> path option \<Rightarrow> datetime \<Rightarrow> site \<Rightarrow> outcome" where
  "command_note_show args_db config_path now w =
     (case opened args_db config_path w of
        Inl e \<Rightarrow> Finished (Inl e)
      | Inr (c, db_path, d) \<Rightarrow>
          Finished (Inr ([case note_state d now of
                            NoteNone \<Rightarrow> ''no note has ever been published''
                          | NoteCleared \<Rightarrow> ''no active note''
                          | NoteActive n \<Rightarrow> note_line n], 0)))"

subsection \<open>probe\<close>

definition PROBE_KINDS :: "string list" where
  \<comment> \<open>\<open>KINDS\<close>\<close>
  "PROBE_KINDS = [''pc'', ''android'', ''abroad'', ''watchdog'']"

definition CAPABILITY :: "(string \<times> string list) list" where
  "CAPABILITY = [(''pc'', [''report_pc'']), (''android'', [''report_mobile'']), (''abroad'', [''report_abroad'']), (''watchdog'', [''read_watchdog''])]"

definition GUIDE :: "(string \<times> string) list" where
  "GUIDE = [(''pc'', ''docs/probes/pc.md''), (''android'', ''docs/probes/android.md''), (''abroad'', ''docs/probes/abroad.md''),
     (''watchdog'', ''docs/operations/doctor.md'')]"

definition enabled_ids :: "full_config \<Rightarrow> string list" where
  "enabled_ids c = map sc_id (filter is_enabled (cfg_servers (fc_public c)))"

record enroll_args =
  ea_kind :: string
  ea_via :: "string option"
  ea_minutes :: int
  ea_db :: "string option"

definition enroll_lines :: "string \<Rightarrow> string \<Rightarrow> datetime \<Rightarrow> string list" where
  "enroll_lines kind code expires =
     [''Enrollment code for the '' @ kind @ '' probe (single use, valid until '' @ clock_text expires @ '' UTC):'', [],
      ''    '' @ code, [],
      ''Enter it in the probe; it exchanges the code at POST /api/v1/probe/enroll for its own token.'',
      ''Setup guide: '' @ or_default [] (map_of GUIDE kind) @ ''. Afterwards: vpn-pulse probe list'']"

definition command_enroll :: "enroll_args \<Rightarrow> path option \<Rightarrow> drawn \<Rightarrow> datetime \<Rightarrow> site \<Rightarrow> outcome \<times> site" where
  \<comment> \<open>the parser admits the kinds of \<open>KINDS\<close> only; \<open>dw_code\<close> is the random code\<close>
  "command_enroll a config_path r now w =
     (if ea_minutes a < 1 \<or> 60 < ea_minutes a then (Finished (Inl (cli_fail ''--minutes must be between 1 and 60'')), w)
      else case opened (ea_db a) config_path w of
             Inl e \<Rightarrow> (Finished (Inl e), w)
           | Inr (c, db_path, d) \<Rightarrow>
               if text_set (ea_via a) \<and> ea_kind a \<noteq> ''abroad'' then (Finished (Inl (cli_fail ''--via is only valid for an abroad probe'')), w)
               else if ea_kind a = ''abroad'' \<and> \<not> text_set (ea_via a)
               then (Finished (Inl (cli_fail ''an abroad probe requires --via SERVER_ID'')), w)
               else if text_set (ea_via a) \<and> or_default [] (ea_via a) \<notin> set (enabled_ids c)
               then (Finished (Inl (cli_fail (''server '' @ or_default [] (ea_via a) @ '' not found''))), w)
               else let st = make_store c (ea_minutes a)
                    in case create_enrollment st d (dw_code r) (ea_kind a) (or_default [] (map_of CAPABILITY (ea_kind a))) ''cli'' now (ea_via a) of
                         Inl _ \<Rightarrow> (Uncaught, w)
                       | Inr ((code, expires), d') \<Rightarrow>
                           (case audit st d' (dw_entry_id r) ''cli'' ''admin'' ''probe.enroll_code'' ''probe'' (ea_kind a) ''ok''
                                   [(''minutes'', JInt (ea_minutes a))] (dw_trace_id r) now of
                              Inl _ \<Rightarrow> (Uncaught, stored db_path d' w)
                            | Inr d'' \<Rightarrow> (Finished (Inr (enroll_lines (ea_kind a) code expires, 0)), stored db_path d'' w)))"

definition probe_line :: "nat \<Rightarrow> probe_view \<Rightarrow> string" where
  "probe_line width p =
     pad width (pw_id p) @ ''  '' @ pad 8 (pw_kind p) @ ''  '' @ pad 8 (pw_status p) @ ''  last report '' @
     (case pw_last_seen_at p of None \<Rightarrow> ''never'' | Some s \<Rightarrow> iso_text s) @ ''  '' @ or_default [] (pw_network_type p) @ '' '' @
     (case pw_route_verified p of Some True \<Rightarrow> ''route ok'' | Some False \<Rightarrow> ''route NOT verified'' | None \<Rightarrow> []) @ ''  v'' @
     (if pw_agent_version p = [] then ''?'' else pw_agent_version p)"

definition command_probe_list :: "(probe_view list \<Rightarrow> string) \<Rightarrow> (full_config \<Rightarrow> read_settings) \<Rightarrow> bool \<Rightarrow> string option \<Rightarrow> path option \<Rightarrow> datetime \<Rightarrow> site \<Rightarrow> outcome" where
  \<comment> \<open>\<open>dumps\<close> is the JSON answer, \<open>settings\<close> what the read model takes from the configuration\<close>
  "command_probe_list dumps settings as_json args_db config_path now w =
     (case opened args_db config_path w of
        Inl e \<Rightarrow> Finished (Inl e)
      | Inr (c, db_path, d) \<Rightarrow>
          let probes = admin_probes (settings c) d now
          in Finished (Inr
               (if as_json then [dumps probes]
                else if probes = [] then [''no probes enrolled - vpn-pulse probe enroll pc'']
                else map (probe_line (Max (set (map (\<lambda>p. length (pw_id p)) probes)))) probes, 0)))"

definition command_probe_revoke ::
  "string \<Rightarrow> bool \<Rightarrow> terminal \<Rightarrow> string option \<Rightarrow> path option \<Rightarrow> drawn \<Rightarrow> datetime \<Rightarrow> site \<Rightarrow> outcome \<times> site" where
  "command_probe_revoke probe_id yes tty args_db config_path r now w =
     (case opened args_db config_path w of
        Inl e \<Rightarrow> (Finished (Inl e), w)
      | Inr (c, db_path, d) \<Rightarrow>
          if probe_summary d probe_id = None
          then (Finished (Inl (CliError (''probe '' @ probe_id @ '' not found (vpn-pulse probe list)'') 1)), w)
          else case confirm yes tty (''Revoke '' @ probe_id @ ''? Its token stops working immediately'') of
                 Inl e \<Rightarrow> (Finished (Inl e), w)
               | Inr (asked, False) \<Rightarrow> (Finished (Inr (asked @ [''nothing changed''], 1)), w)
               | Inr (asked, True) \<Rightarrow>
                   let (revoked, d') = revoke_probe d probe_id now
                   in case audit (make_store c 10) d' (dw_entry_id r) ''cli'' ''admin'' ''probe.revoke'' ''probe'' probe_id
                             (if revoked then ''ok'' else ''noop'') [] (dw_trace_id r) now of
                        Inl _ \<Rightarrow> (Uncaught, stored db_path d' w)
                      | Inr d'' \<Rightarrow> (Finished (Inr (asked @ [if revoked then ''revoked '' @ probe_id else probe_id @ '' was already revoked''], 0)),
                                    stored db_path d'' w))"

subsection \<open>The terminal's notes\<close>

definition zone_ok :: "zone \<Rightarrow> datetime \<Rightarrow> bool" where
  \<comment> \<open>a later wall clock of the same day, read on the same side of a repeated hour, is a later instant, and so is any of a later day\<close>
  "zone_ok z now \<longleftrightarrow>
     (\<forall>local. zn_local z now < local \<longrightarrow> now < zn_utc z (zn_fold z now) local) \<and>
     (\<forall>local. zn_local z now div days 1 < local div days 1 \<longrightarrow> now < zn_utc z False local)"

lemma expiry_is_later:
  assumes "parse_expiry zones fromisoformat value timezone now = Expiry (Some e)"
    "zone_ok (or_default utc_zone (zones (if timezone = [] then ''UTC'' else timezone))) now"
  shows "now < e"
proof -
  let ?z = "or_default utc_zone (zones (if timezone = [] then ''UTC'' else timezone))"
  have tomorrow: "now < zn_utc ?z False (zn_local ?z now div days 1 * days 1 + hours h + minutes m + days 1)"
    if "0 \<le> h" "h \<le> 23" "0 \<le> m" "m \<le> 59" for h m
  proof -
    let ?d = "zn_local ?z now div days 1" and ?t = "hours h + minutes m"
    have "0 \<le> ?t" "?t < days 1" using that by (simp_all add: duration_defs)
    then have "((?d + 1) * days 1 + ?t) div days 1 = ?d + 1" by (simp add: duration_defs)
    then have "zn_local ?z now div days 1 < (?d * days 1 + hours h + minutes m + days 1) div days 1" by (simp add: algebra_simps)
    then show ?thesis using assms(2) unfolding zone_ok_def by blast
  qed
  have digits: "hour_minute v = Some (h, m) \<Longrightarrow> 0 \<le> h \<and> 0 \<le> m" for v h m
    by (auto simp: hour_minute_def split: list.splits if_splits)
  show ?thesis
  proof (cases "hour_minute (or_default [] value)")
    case (Some hm)
    obtain h m where hm: "hm = (h, m)" by (cases hm)
    with Some digits have "0 \<le> h" "0 \<le> m" by blast+
    with assms(1) tomorrow [of h m] show ?thesis
      using assms(2) by (auto simp: parse_expiry_def Let_def Some hm zone_ok_def not_less not_le split: if_splits)
  next
    case None
    with assms(1) show ?thesis by (auto simp: parse_expiry_def Let_def split: if_splits iso_time.splits)
  qed
qed

lemma note_set_success:
  assumes "command_note_set zones fromisoformat a config_path r now w = (Finished (Inr out), w')"
  obtains c db_path d expires info d' d'' where
    "opened (na_db a) config_path w = Inr (c, db_path, d)"
    "parse_expiry zones fromisoformat (na_expires a) (fc_timezone c) now = Expiry expires"
    "put_note (if text_set (na_server a) then sync_servers d (fc_public c) now else d) (dw_note_id r) (strip (na_text a)) expires (na_server a) ''admin'' now = Inr (info, d')"
    "db_notes d'' = db_notes d'" "w' = stored db_path d'' w"
proof -
  from assms obtain c db_path d where o: "opened (na_db a) config_path w = Inr (c, db_path, d)"
    by (auto simp: command_note_set_def Let_def split: if_splits sum.splits)
  from assms obtain expires where e: "parse_expiry zones fromisoformat (na_expires a) (fc_timezone c) now = Expiry expires"
    by (auto simp: command_note_set_def Let_def o split: if_splits expiry.splits)
  let ?d = "if text_set (na_server a) then sync_servers d (fc_public c) now else d"
  from assms obtain info d' where n: "put_note ?d (dw_note_id r) (strip (na_text a)) expires (na_server a) ''admin'' now = Inr (info, d')"
    by (auto simp: command_note_set_def Let_def o e split: if_splits sum.splits)
  from assms obtain d'' where l: "audit (make_store c 10) d' (dw_entry_id r) ''cli'' ''admin'' ''note.put'' ''note'' (dw_note_text r) ''ok''
      [(''length'', JInt (int (length (strip (na_text a)))))] (dw_trace_id r) now = Inr d''" "w' = stored db_path d'' w"
    by (auto simp: command_note_set_def Let_def o e n split: if_splits sum.splits)
  have "db_notes d'' = db_notes d'" using l(1) by (auto simp: audit_def bind_err_Inr)
  with o e n l(2) that show thesis by blast
qed

lemma note_state_cong: "db_notes d = db_notes d' \<Longrightarrow> note_state d now = note_state d' now"
  by (simp add: note_state_def current_note_def)

lemma opened_stored: "opened args_db config_path w = Inr (c, p, d) \<Longrightarrow> opened args_db config_path (stored p d' w) = Inr (c, p, d')"
  by (auto simp: opened_def stored_def bind_err_Inr Let_def split: option.splits)

text \<open>A note published from the terminal is what \<open>note show\<close> and the status screen give from then until it
  expires, and the expiry read from HH:MM or an ISO time lies after the publication.\<close>
theorem published_note_is_shown:
  assumes "command_note_set zones fromisoformat a config_path r now w = (Finished (Inr out), w')"
    "\<forall>timezone. zone_ok (or_default utc_zone (zones timezone)) now" "StampZ now \<le> StampZ later"
  shows "\<exists>expires. (case expires of None \<Rightarrow> True | Some e \<Rightarrow> now < e) \<and>
    command_note_show (na_db a) config_path later w' =
      Finished (Inr ([if (case expires of None \<Rightarrow> True | Some e \<Rightarrow> StampZ later < StampZ e)
                      then note_line \<lparr>ni_id = dw_note_id r, ni_server_id = na_server a, ni_text = strip (na_text a),
                             ni_expires_at = iso_z expires, ni_created_at = StampZ now\<rparr>
                      else ''no active note''], 0))"
proof -
  obtain c db_path d expires info d' d'' where s:
    "opened (na_db a) config_path w = Inr (c, db_path, d)"
    "parse_expiry zones fromisoformat (na_expires a) (fc_timezone c) now = Expiry expires"
    "put_note (if text_set (na_server a) then sync_servers d (fc_public c) now else d) (dw_note_id r) (strip (na_text a)) expires (na_server a) ''admin'' now = Inr (info, d')"
    "db_notes d'' = db_notes d'" "w' = stored db_path d'' w"
    using note_set_success [OF assms(1)] by metis
  have "info = \<lparr>ni_id = dw_note_id r, ni_server_id = na_server a, ni_text = strip (na_text a), ni_expires_at = iso_z expires, ni_created_at = StampZ now\<rparr>"
    using s(3) by (auto simp: put_note_def Let_def bind_err_Inr split: if_splits)
  moreover have "case expires of None \<Rightarrow> True | Some e \<Rightarrow> now < e"
    using expiry_is_later s(2) assms(2) by (cases expires) auto
  ultimately show ?thesis
    using opened_stored [OF s(1), of d''] note_state_put [OF s(3), of later] note_state_cong [OF s(4), of later] assms(3)
    by (intro exI [of _ expires]) (simp add: command_note_show_def s(5) split: if_splits)
qed

definition sample_site :: site where
  "sample_site = \<lparr>si_inst = sample_installation, si_dbs = [Path True [''var'', ''db''] \<mapsto> empty_db]\<rparr>"

definition sample_drawn :: drawn where
  "sample_drawn = \<lparr>dw_note_id = Uuid4 ''n'', dw_note_text = ''n'', dw_entry_id = Uuid4 ''e'', dw_trace_id = ''t'', dw_code = ''code''\<rparr>"

definition sample_note :: note_args where
  "sample_note = \<lparr>na_text = '' maintenance '', na_expires = None, na_server = Some ''s1'', na_db = None\<rparr>"

definition sample_zones :: "string \<Rightarrow> zone option" where
  "sample_zones _ = None"

lemma sample_note_published:
  "\<exists>out. fst (command_note_set sample_zones (\<lambda>_. NotIso) sample_note (Some sample_config_path) sample_drawn 5000000 sample_site) = Finished (Inr out)"
proof -
  have "(case fst (command_note_set sample_zones (\<lambda>_. NotIso) sample_note (Some sample_config_path) sample_drawn 5000000 sample_site) of
      Finished (Inr _) \<Rightarrow> True | _ \<Rightarrow> False)" by code_simp
  then show ?thesis by (auto split: outcome.splits sum.splits)
qed

theorem published_note_is_shown_witness:
  "\<exists>expires. (case expires of None \<Rightarrow> True | Some e \<Rightarrow> (5000000 :: int) < e) \<and>
     command_note_show (na_db sample_note) (Some sample_config_path) 7000000
       (snd (command_note_set sample_zones (\<lambda>_. NotIso) sample_note (Some sample_config_path) sample_drawn 5000000 sample_site)) =
      Finished (Inr ([if (case expires of None \<Rightarrow> True | Some e \<Rightarrow> StampZ 7000000 < StampZ e)
                      then note_line \<lparr>ni_id = dw_note_id sample_drawn, ni_server_id = na_server sample_note, ni_text = strip (na_text sample_note),
                             ni_expires_at = iso_z expires, ni_created_at = StampZ 5000000\<rparr>
                      else ''no active note''], 0))"
proof -
  obtain out where out: "fst (command_note_set sample_zones (\<lambda>_. NotIso) sample_note (Some sample_config_path) sample_drawn 5000000 sample_site) = Finished (Inr out)"
    using sample_note_published by blast
  have "StampZ 5000000 \<le> StampZ 7000000" using stampz_le_complete [of 5000000 7000000] by (simp add: second_def)
  moreover have "5000000 < local" if "5000000 div days 1 < local div days 1" for local
    using that by (metis duration_defs(5) linorder_not_less zdiv_mono1 zero_less_numeral mult.left_neutral)
  then have "\<forall>timezone. zone_ok (or_default utc_zone (sample_zones timezone)) 5000000"
    by (simp add: zone_ok_def sample_zones_def or_default_def utc_zone_def)
  ultimately show ?thesis using out by (intro published_note_is_shown) (simp_all add: prod_eq_iff)
qed

text \<open>An hour or a minute that does not exist is an exception, not an error the user can read.\<close>

lemma expires_2500_raises: "parse_expiry zones fromisoformat (Some ''25:00'') timezone now = ExpiryRaised"
proof -
  have "hour_minute ''25:00'' = Some (25, 0)" by code_simp
  then show ?thesis by (simp add: parse_expiry_def text_set_def or_default_def)
qed

subsection \<open>The terminal's probes\<close>

text \<open>The code \<open>probe enroll\<close> prints opens exactly what was asked for: until it expires it is exchanged for
  a probe of that kind with the capabilities of the kind and the server it measures through, which for an
  abroad probe is an enabled server of the configuration; once it has expired it opens nothing.\<close>
theorem enrolled_code_opens:
  assumes "command_enroll a config_path r now w = (Finished (Inr out), w')"
  shows "\<exists>c db_path d d'. opened (ea_db a) config_path w = Inr (c, db_path, d) \<and> si_dbs w' db_path = Some d' \<and>
    fst (consume_enrollment d' (dw_code r) later) =
      (if later < now + minutes (ea_minutes a)
       then Some \<lparr>el_kind = ea_kind a, el_capabilities = or_default [] (map_of CAPABILITY (ea_kind a)), el_via_server_id = ea_via a\<rparr>
       else None) \<and>
    (ea_kind a = ''abroad'' \<longrightarrow> ea_via a \<in> Some ` set (enabled_ids c)) \<and> 1 \<le> ea_minutes a \<and> ea_minutes a \<le> 60"
proof -
  have range: "1 \<le> ea_minutes a" "ea_minutes a \<le> 60" using assms by (auto simp: command_enroll_def split: if_splits)
  from assms obtain c db_path d where o: "opened (ea_db a) config_path w = Inr (c, db_path, d)"
    by (auto simp: command_enroll_def split: if_splits sum.splits)
  have via: "ea_kind a = ''abroad'' \<longrightarrow> ea_via a \<in> Some ` set (enabled_ids c)"
    using assms by (auto simp: command_enroll_def o text_set_def or_default_def split: if_splits option.splits)
  let ?st = "make_store c (ea_minutes a)" and ?caps = "or_default [] (map_of CAPABILITY (ea_kind a))"
  from assms obtain code expires d' where e: "create_enrollment ?st d (dw_code r) (ea_kind a) ?caps ''cli'' now (ea_via a) = Inr ((code, expires), d')"
    by (auto simp: command_enroll_def Let_def o split: if_splits sum.splits)
  from assms obtain d'' where l: "audit ?st d' (dw_entry_id r) ''cli'' ''admin'' ''probe.enroll_code'' ''probe'' (ea_kind a) ''ok''
      [(''minutes'', JInt (ea_minutes a))] (dw_trace_id r) now = Inr d''" "w' = stored db_path d'' w"
    by (auto simp: command_enroll_def Let_def o e split: if_splits sum.splits)
  have "db_enrollments d'' = db_enrollments d'" using l(1) by (auto simp: audit_def bind_err_Inr)
  moreover from e obtain row where "db_enrollments d' = db_enrollments d @ [row]" "Sha (dw_code r) \<notin> en_code_hash ` set (db_enrollments d)"
      "en_code_hash row = Sha (dw_code r)" "en_kind row = ea_kind a" "en_capabilities row = ?caps" "en_via_server_id row = ea_via a"
      "en_used_at row = None" "en_expires_at row = StampZ (now + minutes (ea_minutes a))"
    by (auto simp: create_enrollment_def insert_row_def Let_def enrollment_ttl_def make_store_def split: if_splits)
  moreover have "find (\<lambda>x. en_code_hash x = Sha (dw_code r)) (db_enrollments d) = None"
    using calculation by (force simp: find_None_iff)
  ultimately have "fst (consume_enrollment d'' (dw_code r) later) =
      (if later < now + minutes (ea_minutes a) then Some \<lparr>el_kind = ea_kind a, el_capabilities = ?caps, el_via_server_id = ea_via a\<rparr> else None)"
    by (simp add: consume_enrollment_def find_append)
  with o via range l(2) show ?thesis by (intro exI [of _ c] exI [of _ db_path] exI [of _ d] exI [of _ d'']) (simp add: stored_def)
qed

definition sample_enroll :: enroll_args where
  "sample_enroll = \<lparr>ea_kind = ''abroad'', ea_via = Some ''s1'', ea_minutes = 10, ea_db = None\<rparr>"

theorem enrolled_code_opens_witness:
  "\<exists>c db_path d d'. opened None (Some sample_config_path) sample_site = Inr (c, db_path, d) \<and>
     si_dbs (snd (command_enroll sample_enroll (Some sample_config_path) sample_drawn 5 sample_site)) db_path = Some d' \<and>
     fst (consume_enrollment d' ''code'' 6) = Some \<lparr>el_kind = ''abroad'', el_capabilities = [''report_abroad''], el_via_server_id = Some ''s1''\<rparr>"
proof -
  have "(case fst (command_enroll sample_enroll (Some sample_config_path) sample_drawn 5 sample_site) of Finished (Inr _) \<Rightarrow> True | _ \<Rightarrow> False)"
    by code_simp
  then obtain out where "command_enroll sample_enroll (Some sample_config_path) sample_drawn 5 sample_site =
      (Finished (Inr out), snd (command_enroll sample_enroll (Some sample_config_path) sample_drawn 5 sample_site))"
    by (auto simp: prod_eq_iff split: outcome.splits sum.splits)
  from enrolled_code_opens [OF this, of 6] show ?thesis
    by (auto simp: sample_enroll_def sample_drawn_def minutes_def CAPABILITY_def or_default_def)
qed

lemma in_update_where: "row \<in> set (update_where P f rows) \<Longrightarrow> \<exists>old. row = (if P old then f old else old)"
  unfolding update_where_def by auto

lemma revoked_rows:
  assumes "row \<in> set (db_probes (snd (revoke_probe d probe_id now)))" "pb_public_id row = probe_id"
  shows "pb_status row = ''revoked''"
proof -
  from assms(1) have "row \<in> set (update_where (\<lambda>r. pb_public_id r = probe_id \<and> pb_status r \<noteq> ''revoked'')
      (\<lambda>r. r\<lparr>pb_status := ''revoked'', pb_revoked_at := Some (StampZ now)\<rparr>) (db_probes d))"
    by (simp add: revoke_probe_def Let_def)
  from in_update_where [OF this] obtain old where "row = (if pb_public_id old = probe_id \<and> pb_status old \<noteq> ''revoked''
      then old\<lparr>pb_status := ''revoked'', pb_revoked_at := Some (StampZ now)\<rparr> else old)" by blast
  with assms(2) show ?thesis by (cases "pb_public_id old = probe_id \<and> pb_status old \<noteq> ''revoked''") auto
qed

text \<open>Revoking from the terminal is all or nothing: when the command answers 0 no token opens that probe any
  more, and without the confirmation, for an unknown probe or any other error the user sees, nothing changes.\<close>
theorem revoked_or_unchanged:
  assumes "command_probe_revoke probe_id yes tty args_db config_path r now w = (Finished result, w')"
  shows "(\<forall>lines. result \<noteq> Inr (lines, 0)) \<and> w' = w \<or>
    (\<exists>lines c db_path d d'. result = Inr (lines, 0) \<and> opened args_db config_path w = Inr (c, db_path, d) \<and> si_dbs w' db_path = Some d' \<and>
       (\<forall>row\<in>set (db_probes d'). pb_public_id row = probe_id \<longrightarrow> pb_status row = ''revoked'') \<and>
       (\<forall>token p. probe_by_token d' token = Some p \<longrightarrow> ps_id p \<noteq> probe_id))"
proof (cases "\<exists>lines. result = Inr (lines, 0)")
  case False
  then show ?thesis using assms
    by (auto simp: command_probe_revoke_def Let_def case_prod_beta split: sum.splits if_splits bool.splits prod.splits)
next
  case True
  then obtain lines where lines: "result = Inr (lines, 0)" by blast
  from assms lines obtain c db_path d where o: "opened args_db config_path w = Inr (c, db_path, d)"
    by (auto simp: command_probe_revoke_def split: sum.splits)
  let ?d = "snd (revoke_probe d probe_id now)"
  from assms lines obtain d'' where l: "\<exists>res. audit (make_store c 10) ?d (dw_entry_id r) ''cli'' ''admin'' ''probe.revoke'' ''probe'' probe_id res [] (dw_trace_id r) now = Inr d''"
      "w' = stored db_path d'' w"
    by (auto simp: command_probe_revoke_def Let_def o case_prod_beta split: sum.splits if_splits bool.splits prod.splits)
  have probes: "db_probes d'' = db_probes ?d" using l(1) by (auto simp: audit_def bind_err_Inr)
  have revoked: "pb_status row = ''revoked''" if "row \<in> set (db_probes d'')" "pb_public_id row = probe_id" for row
    using that revoked_rows unfolding probes by blast
  have "ps_id p \<noteq> probe_id" if found: "probe_by_token d'' token = Some p" for token p
  proof -
    from found obtain row where row: "find (\<lambda>r. pb_token_hash r = Sha token) (db_probes d'') = Some row" "pb_status row \<noteq> ''revoked''"
        "probe_summary d'' (pb_public_id row) = Some p"
      by (auto simp: probe_by_token_def split: option.splits if_splits)
    from row(1) have "row \<in> set (db_probes d'')" by (auto simp: find_Some_iff)
    with revoked row(2) have "pb_public_id row \<noteq> probe_id" by blast
    moreover from row(3) have "ps_id p = pb_public_id row"
      by (auto simp: probe_summary_def Let_def find_Some_iff split: option.splits)
    ultimately show ?thesis by simp
  qed
  with lines o l(2) revoked show ?thesis by (auto simp: stored_def)
qed

definition sample_probe_site :: site where
  "sample_probe_site = sample_site\<lparr>si_dbs := [Path True [''var'', ''db''] \<mapsto> empty_db\<lparr>db_probes := [\<lparr>pb_id = ''pc-1'', pb_public_id = ''pc-1'',
     pb_kind = ''pc'', pb_status = ''active'', pb_capabilities = [], pb_token_hash = Sha ''tok'', pb_token_prefix = ''tok'', pb_schema_major = 1,
     pb_agent_version = ''1'', pb_enrolled_at = StampZ 1, pb_last_seen_at = None, pb_revoked_at = None, pb_via_server_id = None\<rparr>]\<rparr>]\<rparr>"

theorem revoked_or_unchanged_witness:
  "\<exists>d'. si_dbs (snd (command_probe_revoke ''pc-1'' True NotATerminal None (Some sample_config_path) sample_drawn 5 sample_probe_site))
           (Path True [''var'', ''db'']) = Some d' \<and> (\<forall>token p. probe_by_token d' token \<noteq> Some p \<or> ps_id p \<noteq> ''pc-1'')"
proof -
  let ?run = "command_probe_revoke ''pc-1'' True NotATerminal None (Some sample_config_path) sample_drawn 5 sample_probe_site"
  have "(case fst ?run of Finished (Inr (_, n)) \<Rightarrow> n = 0 | _ \<Rightarrow> False)" by code_simp
  then obtain lines where "?run = (Finished (Inr (lines, 0)), snd ?run)"
    by (auto simp: prod_eq_iff split: outcome.splits sum.splits)
  moreover have "opened None (Some sample_config_path) sample_probe_site = Inr (c, p, d) \<Longrightarrow> p = Path True [''var'', ''db'']" for c p d
    by (auto simp: opened_def sample_probe_site_def sample_site_def sample_full_config_def resolve_db_def text_set_def or_default_def path_of_def
        starts_with_def split: option.splits)
  moreover note revoked_or_unchanged [of "''pc-1''" True NotATerminal None "Some sample_config_path" sample_drawn 5 sample_probe_site "Inr (lines, 0)" "snd ?run"]
  ultimately obtain d' where "si_dbs (snd ?run) (Path True [''var'', ''db'']) = Some d'" "\<forall>token p. probe_by_token d' token = Some p \<longrightarrow> ps_id p \<noteq> ''pc-1''"
    by blast
  then show ?thesis by blast
qed

end
