(* ===== verification/Backup_Cli.thy ===== *)
theory Backup_Cli
  imports Backup Admin_Cli
begin

text \<open>
  The commands \<open>vpn-pulse backup\<close> and \<open>vpn-pulse restore\<close> as a whole (command_backup, command_restore and
  _secure_layout of src/src/vpnpulse/cli/backup.py): the checks before an archive is written, the rotation of
  older ones, the report, the three ways to restore and the permissions afterwards. The host is what the
  commands see of the disk; the copy SQLite makes of a live database, its schema version, the size of an archive
  and the modes of staged files are arguments.
\<close>

record backup_host =
  bh_config :: "cli_error + path \<times> full_config"
  bh_disk :: disk
  bh_modes :: "path \<rightharpoonup> nat"  \<comment> \<open>of the files, and of the directories named here; None does not exist\<close>
  bh_directory :: "path \<Rightarrow> bool"
  bh_listing :: "path \<Rightarrow> tree"  \<comment> \<open>the files below a directory\<close>
  bh_occupied :: "path \<Rightarrow> bool"  \<comment> \<open>a directory that is not empty\<close>
  bh_archives :: "path \<Rightarrow> kept_archive list"

record backup_args =
  ba_db :: "string option"
  ba_to :: "path option"
  ba_keep :: int
  ba_json :: bool

text \<open>What a backup takes from its surroundings: digest and printer, SQLite, the tar file, the clock.\<close>

record backup_tools =
  bk_sha :: "string \<Rightarrow> string"
  bk_dumps :: "json \<Rightarrow> string"
  bk_snapshot :: "string \<Rightarrow> string"
  bk_schema_version :: "string \<Rightarrow> int option"
  bk_size :: "tar_member list \<Rightarrow> nat"
  bk_created_at :: string
  bk_app_version :: string
  bk_stamp :: string
  bk_mtime :: int

subsection \<open>Backup\<close>

definition archive_name :: "string \<Rightarrow> string" where
  "archive_name stamp = ''vpn-pulse-backup-'' @ stamp @ ''.tar''"

definition file_in :: "path \<Rightarrow> string \<Rightarrow> path" where
  "file_in dir name = path_join dir (Path False [name])"

definition destination_of :: "backup_args \<Rightarrow> path \<Rightarrow> path" where
  "destination_of a db_path = (case ba_to a of Some p \<Rightarrow> p | None \<Rightarrow> file_in (parent db_path) ''backups'')"

definition staged :: "backup_tools \<Rightarrow> path list \<Rightarrow> path \<Rightarrow> string \<Rightarrow> backup_host \<Rightarrow> tree" where
  "staged t roots config_path db_file h =
     stage_tree (bk_snapshot t db_file) (or_default [] (bh_disk h config_path)) (map_option (bh_listing h) (first_row roots))
       (bh_disk h (file_in (parent config_path) ''run.env''))"

definition backup_report :: "backup_tools \<Rightarrow> bool \<Rightarrow> path \<Rightarrow> nat \<Rightarrow> int \<Rightarrow> string list \<Rightarrow> string list" where
  "backup_report t as_json archive bytes version removed =
     (let copy = ''scp <host>:'' @ as_posix archive @ '' .''
      in if as_json then
           [bk_dumps t (JObj [(''archive'', JStr (as_posix archive)), (''size'', JInt (int bytes)), (''schema_version'', JInt version),
              (''copy_command'', JStr copy), (''removed'', JArr (map JStr removed))])]
         else [''backup: '' @ as_posix archive, ''size: '' @ show_nat bytes @ '' bytes; schema_version: '' @ show_int version] @
              map (\<lambda>old. ''removed old backup: '' @ old) removed @ [''copy it off the host when needed: '' @ copy])"

definition command_backup :: "backup_tools \<Rightarrow> backup_args \<Rightarrow> backup_host \<Rightarrow> outcome \<times> backup_host" where
  \<comment> \<open>the directory of the archives is created on the way; a new archive the rotation removes at once, as older than \<open>keep\<close> others, is missed when its size is read\<close>
  "command_backup t a h =
     (if ba_keep a < 1 then (Finished (Inl (cli_fail ''--keep must be at least 1'')), h)
      else case bh_config h of
             Inl e \<Rightarrow> (Finished (Inl e), h)
           | Inr (config_path, c) \<Rightarrow>
               let db_path = resolve_db (ba_db a) (Some c)
               in case bh_disk h db_path of
                    None \<Rightarrow> (Finished (Inl (cli_fail (''database not found: '' @ as_posix db_path))), h)
                  | Some db_file \<Rightarrow>
                      let destination = destination_of a db_path; name = archive_name (bk_stamp t); archive = file_in destination name
                      in if name \<in> af_name ` set (bh_archives h destination)
                         then (Finished (Inl (cli_fail (''backup already exists: '' @ as_posix archive @ ''; wait one second and retry''))), h)
                         else case secret_roots c config_path (bh_directory h) of
                                Inl e \<Rightarrow> (Finished (Inl e), h)
                              | Inr roots \<Rightarrow>
                                  let stage = staged t roots config_path db_file h
                                  in case bk_schema_version t (bk_snapshot t db_file) of
                                       None \<Rightarrow> (Uncaught, h)
                                     | Some version \<Rightarrow>
                                         let members = backup_members (bk_sha t) (bk_dumps t) (bk_created_at t) (bk_app_version t) version stage;
                                             made = \<lparr>af_name = name, af_mtime = bk_mtime t\<rparr>;
                                             (kept, removed) = rotate_archives (nat (ba_keep a)) (bh_archives h destination @ [made]);
                                             h' = h\<lparr>bh_archives := (bh_archives h)(destination := kept),
                                                    bh_modes := (bh_modes h)(archive \<mapsto> 384)\<rparr>
                                         in if made \<in> set removed then (Uncaught, h')
                                            else (Finished (Inr (backup_report t (ba_json a) archive (bk_size t members) version
                                                    (map (\<lambda>old. as_posix (file_in destination (af_name old))) removed), 0)), h'))"

subsection \<open>Restore\<close>

definition secure_layout :: "path \<Rightarrow> path option \<Rightarrow> disk \<Rightarrow> (path \<rightharpoonup> nat) \<Rightarrow> (path \<rightharpoonup> nat)" where
  \<comment> \<open>448 is \<open>0o700\<close>, 384 is \<open>0o600\<close>; the files are changed after the directories\<close>
  "secure_layout base explicit_db d modes =
     (\<lambda>p. if modes p = None then None
          else if p \<in> {file_in base ''config.yaml'', file_in base ''run.env'',
                       (case explicit_db of Some db \<Rightarrow> db | None \<Rightarrow> path_join base (Path False DB_MEMBER))} \<or>
                  under (file_in base ''secrets'') p \<and> d p \<noteq> None then Some 384
          else if p \<in> {file_in base ''data'', file_in base ''secrets''} then Some 448
          else modes p)"

record restore_args =
  rr_into :: "path option"
  rr_yes :: bool
  rr_dry_run :: bool
  rr_db :: "string option"

record restore_tools =
  rt_sha :: "string \<Rightarrow> string"
  rt_loads :: "string \<Rightarrow> json option"
  rt_known_version :: int
  rt_integrity :: "string \<Rightarrow> string option"
  rt_archive :: "string option + tar_member list"
  rt_stamp :: string
  rt_mode :: "path \<Rightarrow> nat"  \<comment> \<open>of a copied file or directory\<close>

definition verified_line :: "restore_tools \<Rightarrow> string" where
  \<comment> \<open>the version the manifest states, a number where the verification passed\<close>
  "verified_line t =
     ''backup verified: schema_version '' @
     (case verify_archive (rt_sha t) (rt_loads t) (rt_known_version t) (rt_archive t) of
        Inr (manifest, _) \<Rightarrow> plain_text (jget manifest ''schema_version'') | Inl _ \<Rightarrow> []) @ ''; integrity_check: ok''"

definition write_tree :: "path \<Rightarrow> tree \<Rightarrow> disk \<Rightarrow> disk" where
  "write_tree base t d = foldl (\<lambda>d (n, c). d(path_join base (Path False n) \<mapsto> c)) d t"

definition written_modes :: "restore_tools \<Rightarrow> path \<Rightarrow> tree \<Rightarrow> (path \<rightharpoonup> nat) \<Rightarrow> (path \<rightharpoonup> nat)" where
  "written_modes t base tree modes =
     foldl (\<lambda>m (n, c). m(path_join base (Path False n) \<mapsto> rt_mode t (path_join base (Path False n))))
       ((if modes base = None then modes(base \<mapsto> rt_mode t base) else modes)(file_in base ''data'' \<mapsto> 448) ++
        (if secrets_of tree = [] then Map.empty else [file_in base ''secrets'' \<mapsto> rt_mode t (file_in base ''secrets'')])) tree"

definition restored_modes :: "restore_tools \<Rightarrow> path \<Rightarrow> path \<Rightarrow> tree \<Rightarrow> disk \<Rightarrow> (path \<rightharpoonup> nat) \<Rightarrow> (path \<rightharpoonup> nat)" where
  \<comment> \<open>in place: a copied file has the mode of its source, a former secret is gone\<close>
  "restored_modes t config_path db_path tree d modes =
     (let secrets = file_in (parent config_path) ''secrets''; env = file_in (parent config_path) ''run.env''
      in (\<lambda>p. if secrets_of tree \<noteq> [] \<and> p = secrets then Some (rt_mode t p)
             else if d p = None then (if secrets_of tree \<noteq> [] \<and> under secrets p then None else modes p)
             else if modes p = None \<or> p = config_path \<or> p = db_path \<or> map_of tree [''run.env''] \<noteq> None \<and> p = env \<or>
                     secrets_of tree \<noteq> [] \<and> under secrets p then Some (rt_mode t p)
             else modes p))"

definition refused_or :: "verify_error + 'a \<Rightarrow> backup_host \<Rightarrow> ('a \<Rightarrow> outcome \<times> backup_host) \<Rightarrow> outcome \<times> backup_host" where
  "refused_or r h f = (case r of Inl (Refused e) \<Rightarrow> (Finished (Inl e), h) | Inl Crashed \<Rightarrow> (Uncaught, h) | Inr x \<Rightarrow> f x)"

definition command_restore :: "restore_tools \<Rightarrow> restore_args \<Rightarrow> backup_host \<Rightarrow> outcome \<times> backup_host" where
  \<comment> \<open>the restored database is checked once more, in its place\<close>
  "command_restore t a h =
     (case bh_config h of
        Inl e \<Rightarrow> (Finished (Inl e), h)
      | Inr (config_path, c) \<Rightarrow>
          refused_or (verified (rt_sha t) (rt_loads t) (rt_known_version t) (rt_integrity t) (rt_archive t)) h (\<lambda>tree.
            if rr_dry_run a then (Finished (Inr ([verified_line t, ''dry run: nothing was restored''], 0)), h)
            else case rr_into a of
                   Some base \<Rightarrow>
                     refused_or (restore_into (rt_sha t) (rt_loads t) (rt_known_version t) (rt_integrity t) (rt_archive t) base
                        (if bh_occupied h base then bh_listing h base @ [([], [])] else [])) h (\<lambda>written.
                       let d = write_tree base written (bh_disk h)
                       in (Finished (Inr ([verified_line t, ''rehearsal restore: '' @ as_posix base @ ''; integrity_check: ok''], 0)),
                           h\<lparr>bh_disk := d, bh_modes := secure_layout base None d (written_modes t base written (bh_modes h))\<rparr>))
                 | None \<Rightarrow>
                     let db_path = resolve_db (rr_db a) (Some c)
                     in refused_or (restore_in_place (rt_sha t) (rt_loads t) (rt_known_version t) (rt_integrity t) (rt_archive t)
                          (rr_yes a) (rt_stamp t) config_path db_path (bh_disk h)) h (\<lambda>d.
                         let modes = restored_modes t config_path db_path tree d (bh_modes h);
                             h' = h\<lparr>bh_disk := d, bh_modes := secure_layout (parent config_path) (Some db_path) d modes\<rparr>
                         in case rt_integrity t (or_default [] (d db_path)) of
                              None \<Rightarrow> (Uncaught, h')
                            | Some result \<Rightarrow>
                                if result \<noteq> ''ok'' then (Finished (Inl (cli_fail (''restored database integrity check failed: '' @ result))), h')
                                else (Finished (Inr ([verified_line t,
                                        ''restored config, database and secrets; integrity_check: ok; backups end in .bak-'' @ rt_stamp t,
                                        ''start the services: systemctl start vpn-pulse-run vpn-pulse-api vpn-pulse-bot''], 0)), h'))))"

subsection \<open>Properties\<close>

lemma write_tree_other: "p \<notin> (\<lambda>(n, c). path_join base (Path False n)) ` set t \<Longrightarrow> write_tree base t d p = d p"
proof (induction t arbitrary: d)
  case (Cons e t)
  then show ?case by (cases e) (auto simp: write_tree_def)
qed (simp add: write_tree_def)

lemma foldl_updates_keep: "m p \<noteq> None \<Longrightarrow> foldl (\<lambda>m (n, c). m(f n \<mapsto> g n c)) m t p \<noteq> None"
  by (induction t arbitrary: m) auto

lemma foldl_updates_written: "(n, c) \<in> set t \<Longrightarrow> foldl (\<lambda>m (n, c). m(f n \<mapsto> g n c)) m t (f n) \<noteq> None"
proof (induction t arbitrary: m)
  case (Cons e t)
  obtain k x where e: "e = (k, x)" by (cases e)
  show ?case
  proof (cases "(n, c) \<in> set t")
    case True
    then show ?thesis using Cons.IH by (simp add: e)
  next
    case False
    with Cons.prems have "k = n" "x = c" by (auto simp: e)
    then show ?thesis using foldl_updates_keep [of "m(f n \<mapsto> g n c)" "f n" f g t] by (simp add: e fun_upd_def)
  qed
qed simp

lemma write_tree_written: "(n, c) \<in> set t \<Longrightarrow> write_tree base t d (path_join base (Path False n)) \<noteq> None"
  unfolding write_tree_def by (rule foldl_updates_written [where f = "\<lambda>n. path_join base (Path False n)"])

lemma written_mode_exists: "(n, c) \<in> set tree \<Longrightarrow> written_modes t base tree modes (path_join base (Path False n)) \<noteq> None"
  unfolding written_modes_def by (rule foldl_updates_written [where f = "\<lambda>n. path_join base (Path False n)"])

lemma refused_or_cases:
  assumes "refused_or r h f = (out, h')"
  obtains "h' = h" | x where "r = Inr x" "f x = (out, h')"
  using assms by (auto simp: refused_or_def split: sum.splits verify_error.splits)

lemma command_restore_written:
  assumes "command_restore t a h = (out, h')" "rr_into a = Some base" "h' \<noteq> h"
  obtains written lines where "restore_into (rt_sha t) (rt_loads t) (rt_known_version t) (rt_integrity t) (rt_archive t) base
        (if bh_occupied h base then bh_listing h base @ [([], [])] else []) = Inr written"
    "bh_disk h' = write_tree base written (bh_disk h)"
    "bh_modes h' = secure_layout base None (write_tree base written (bh_disk h)) (written_modes t base written (bh_modes h))"
    "out = Finished (Inr lines)" "\<not> rr_dry_run a"
proof -
  obtain config where config: "bh_config h = Inr config"
    using assms by (cases "bh_config h") (auto simp: command_restore_def)
  show thesis
    using assms(1) unfolding command_restore_def config sum.case
    apply (cases config, simp only: prod.case assms(2) option.case)
    apply (erule refused_or_cases)
    using assms(3) apply blast
    apply (cases "rr_dry_run a")
    using assms(3) apply simp
    apply (simp only: if_False)
    apply (erule refused_or_cases)
    using assms(3) apply blast
    apply (auto simp: Let_def intro: that)
    done
qed

lemma restored_path_secured:
  assumes "(n, c) \<in> set (restored_tree t)" "d (path_join base (Path False n)) \<noteq> None" "modes (path_join base (Path False n)) \<noteq> None"
  shows "secure_layout base None d modes (path_join base (Path False n)) = Some 384"
proof -
  have "n \<in> {[''config.yaml''], DB_MEMBER, [''run.env'']} \<or> take 1 n = [''secrets''] \<and> 1 < length n"
    using assms(1) by (auto simp: restored_tree_def secrets_of_def)
  then have "path_join base (Path False n) \<in> {file_in base ''config.yaml'', file_in base ''run.env'', path_join base (Path False DB_MEMBER)} \<or>
      under (file_in base ''secrets'') (path_join base (Path False n))"
    by (cases n) (auto simp: file_in_def under_def is_relative_to_def path_join_def)
  with assms(2,3) show ?thesis by (auto simp: secure_layout_def)
qed


text \<open>
  A backup never costs a newer one: after a successful \<open>vpn-pulse backup\<close> the new archive is in its directory
  with mode 0600, at most \<open>--keep\<close> archives are there, every archive the rotation removed is no younger than each one it kept,
  and neither the files of the host nor the archives of another directory have changed.
\<close>

lemma rotation_keeps_newest:
  assumes "rotate_archives keep archives = (kept, removed)"
  shows "mset kept + mset removed = mset archives" "length kept = min keep (length archives)"
    "\<And>old new. old \<in> set removed \<Longrightarrow> new \<in> set kept \<Longrightarrow> af_mtime old \<le> af_mtime new"
proof -
  let ?s = "sort_key (\<lambda>a. - af_mtime a) archives"
  have kept: "kept = take keep ?s" "removed = drop keep ?s" using assms by (simp_all add: rotate_archives_def Let_def)
  show "mset kept + mset removed = mset archives" unfolding kept by (metis append_take_drop_id mset_append mset_sort)
  show "length kept = min keep (length archives)" by (simp add: kept)
  have "sorted (map (\<lambda>a. - af_mtime a) (kept @ removed))" by (simp add: kept)
  then show "\<And>old new. old \<in> set removed \<Longrightarrow> new \<in> set kept \<Longrightarrow> af_mtime old \<le> af_mtime new"
    by (fastforce simp: sorted_append)
qed

theorem backup_rotates_safely:
  assumes "command_backup t a h = (Finished (Inr answer), h')" "bh_config h = Inr (config_path, c)"
  defines "dir \<equiv> destination_of a (resolve_db (ba_db a) (Some c))"
  shows "\<lparr>af_name = archive_name (bk_stamp t), af_mtime = bk_mtime t\<rparr> \<in> set (bh_archives h' dir) \<and>
    bh_modes h' (file_in dir (archive_name (bk_stamp t))) = Some 384 \<and>
    length (bh_archives h' dir) = min (nat (ba_keep a)) (Suc (length (bh_archives h dir))) \<and>
    (\<forall>old \<in> set (bh_archives h dir) - set (bh_archives h' dir). \<forall>new \<in> set (bh_archives h' dir). af_mtime old \<le> af_mtime new) \<and>
    bh_disk h' = bh_disk h \<and> (\<forall>other. other \<noteq> dir \<longrightarrow> bh_archives h' other = bh_archives h other)"
proof -
  let ?made = "\<lparr>af_name = archive_name (bk_stamp t), af_mtime = bk_mtime t\<rparr>"
  obtain kept removed where rotated: "rotate_archives (nat (ba_keep a)) (bh_archives h dir @ [?made]) = (kept, removed)"
    by (cases "rotate_archives (nat (ba_keep a)) (bh_archives h dir @ [?made])")
  have h': "h' = h\<lparr>bh_archives := (bh_archives h)(dir := kept), bh_modes := (bh_modes h)(file_in dir (archive_name (bk_stamp t)) \<mapsto> 384)\<rparr>"
    "?made \<notin> set removed"
    using assms(1) rotated
    by (auto simp: command_backup_def assms(2) Let_def simp flip: dir_def split: if_splits option.splits sum.splits)
  note newest = rotation_keeps_newest [OF rotated]
  have "set kept \<union> set removed = set (bh_archives h dir) \<union> {?made}"
    using arg_cong [OF newest(1), of set_mset] by simp
  with h' newest(2,3) show ?thesis by auto
qed

definition sample_backup_host :: backup_host where
  "sample_backup_host =
     \<lparr>bh_config = Inr (sample_config_path, sample_full_config),
      bh_disk = [sample_config_path \<mapsto> ''cfg'', path_of ''/var/db'' \<mapsto> ''db''],
      bh_modes = [sample_config_path \<mapsto> 416, path_of ''/var/db'' \<mapsto> 416],
      bh_directory = (\<lambda>p. False), bh_listing = (\<lambda>_. []), bh_occupied = (\<lambda>_. False),
      bh_archives = (\<lambda>p. if p = path_of ''/var/backups'' then
        [\<lparr>af_name = archive_name ''b'', af_mtime = 20\<rparr>, \<lparr>af_name = archive_name ''a'', af_mtime = 10\<rparr>] else [])\<rparr>"

definition sample_backup_tools :: backup_tools where
  "sample_backup_tools =
     \<lparr>bk_sha = (\<lambda>c. c), bk_dumps = (\<lambda>_. ''{}''), bk_snapshot = (\<lambda>c. c), bk_schema_version = (\<lambda>_. Some 7), bk_size = length,
      bk_created_at = ''T'', bk_app_version = ''1'', bk_stamp = ''c'', bk_mtime = 30\<rparr>"

definition sample_backup_args :: backup_args where
  "sample_backup_args = \<lparr>ba_db = None, ba_to = None, ba_keep = 2, ba_json = False\<rparr>"

definition sample_restore_tools :: restore_tools where
  "sample_restore_tools =
     \<lparr>rt_sha = (\<lambda>c. c), rt_loads = (\<lambda>_. Some sample_manifest), rt_known_version = 7, rt_integrity = (\<lambda>_. Some ''ok''),
      rt_archive = Inr (backup_members (\<lambda>c. c) (\<lambda>_. ''{}'') ''T'' ''1'' 7 (stage_tree ''db'' ''cfg'' (Some sample_secrets) None)),
      rt_stamp = ''r'', rt_mode = (\<lambda>_. 416)\<rparr>"

definition sample_rehearsal :: restore_args where
  "sample_rehearsal = \<lparr>rr_into = Some (path_of ''/tmp/rehearsal''), rr_yes = False, rr_dry_run = False, rr_db = None\<rparr>"


theorem backup_rotates_safely_witness:
  "\<exists>answer h'. command_backup sample_backup_tools sample_backup_args sample_backup_host = (Finished (Inr answer), h') \<and>
     \<lparr>af_name = archive_name ''c'', af_mtime = 30\<rparr> \<in> set (bh_archives h' (path_of ''/var/backups'')) \<and>
     length (bh_archives h' (path_of ''/var/backups'')) = 2"
proof -
  let ?r = "command_backup sample_backup_tools sample_backup_args sample_backup_host"
  have "(case fst ?r of Finished (Inr _) \<Rightarrow> True | _ \<Rightarrow> False)" by code_simp
  then obtain answer where answer: "?r = (Finished (Inr answer), snd ?r)"
    by (cases ?r) (auto split: outcome.splits sum.splits)
  have dir: "destination_of sample_backup_args (resolve_db (ba_db sample_backup_args) (Some sample_full_config)) = path_of ''/var/backups''"
    by code_simp
  have config: "bh_config sample_backup_host = Inr (sample_config_path, sample_full_config)" by (simp add: sample_backup_host_def)
  have args: "bk_stamp sample_backup_tools = ''c''" "bk_mtime sample_backup_tools = 30" "ba_keep sample_backup_args = 2"
    by (simp_all add: sample_backup_tools_def sample_backup_args_def)
  have "length (bh_archives sample_backup_host (path_of ''/var/backups'')) = 2" by code_simp
  then have "\<lparr>af_name = archive_name ''c'', af_mtime = 30\<rparr> \<in> set (bh_archives (snd ?r) (path_of ''/var/backups''))"
      "length (bh_archives (snd ?r) (path_of ''/var/backups'')) = 2"
    using backup_rotates_safely [OF answer config, unfolded dir args] by simp_all
  with answer show ?thesis by blast
qed

end
