(* ===== verification/Migrations.thy ===== *)
theory Migrations
  imports Cli_Common
begin

text \<open>
  Opening a database file (src/src/vpnpulse/storage/database.py and \<open>open_database\<close> of cli/common.py): the
  numbered scripts of the migrations directory, which of them a file still needs, and what remains when
  one fails. What a script does to the tables is the argument \<open>script\<close>: whether it ends, and the tables it
  leaves; \<open>executescript\<close> commits each statement, so a script that fails leaves what it did so far.
\<close>

subsection \<open>Fetched rows\<close>

record 'row fetched =
  fr_rows :: "'row list"
  fr_index :: nat

definition fetchone :: "'row fetched \<Rightarrow> 'row option \<times> 'row fetched" where
  "fetchone r =
     (if length (fr_rows r) \<le> fr_index r then (None, r)
      else (Some (fr_rows r ! fr_index r), r\<lparr>fr_index := fr_index r + 1\<rparr>))"

definition fetchall :: "'row fetched \<Rightarrow> 'row list \<times> 'row fetched" where
  "fetchall r = (drop (fr_index r) (fr_rows r), r\<lparr>fr_index := length (fr_rows r)\<rparr>)"

lemma fetchall_after_fetchone:
  "fetchone r = (Some x, r') \<Longrightarrow> fst (fetchall r) = x # fst (fetchall r')"
  "fetchone r = (None, r') \<Longrightarrow> fst (fetchall r) = []"
  by (auto simp: fetchone_def fetchall_def Cons_nth_drop_Suc split: if_splits)

subsection \<open>The migrations directory\<close>

type_synonym migration = "string \<times> string"   \<comment> \<open>the name of the file and its text\<close>

definition is_migration :: "migration \<Rightarrow> bool" where
  \<comment> \<open>the pattern \<open>[0-9][0-9][0-9][0-9]_*.sql\<close>\<close>
  "is_migration f \<longleftrightarrow>
     5 \<le> length (fst f) \<and> list_all is_digit (take 4 (fst f)) \<and> fst f ! 4 = CHR ''_'' \<and>
     4 \<le> length (drop 5 (fst f)) \<and> drop (length (fst f) - 4) (fst f) = ''.sql''"

definition version_of :: "migration \<Rightarrow> int" where
  \<comment> \<open>\<open>int(name.split("_", 1)[0])\<close>\<close>
  "version_of f = or_default 0 (parse_int (takeWhile (\<lambda>c. c \<noteq> CHR ''_'') (fst f)))"

definition migration_files :: "migration list \<Rightarrow> migration list" where
  "migration_files dir = sort_key fst (filter is_migration dir)"

definition known_schema_version :: "migration list \<Rightarrow> int" where
  "known_schema_version dir = foldl max 0 (map version_of (filter is_migration dir))"

subsection \<open>Applying them\<close>

record migration_row =
  mr_version :: int
  mr_applied_at :: string
  mr_checksum :: string

record 'tables versioned_file =
  df_tables :: 'tables
  df_migrations :: "migration_row list"

datatype migration_result = Migrated | ChecksumChanged int | ScriptFailed int | VersionTaken int

definition applied_of :: "'tables versioned_file \<Rightarrow> int \<rightharpoonup> string" where
  "applied_of d = map_of (map (\<lambda>r. (mr_version r, mr_checksum r)) (df_migrations d))"

definition apply_migration ::
  "(string \<Rightarrow> string) \<Rightarrow> (string \<Rightarrow> 'tables \<Rightarrow> bool \<times> 'tables) \<Rightarrow> (int \<Rightarrow> string) \<Rightarrow> (int \<rightharpoonup> string) \<Rightarrow> migration \<Rightarrow>
   'tables versioned_file \<Rightarrow> migration_result \<times> 'tables versioned_file" where
  \<comment> \<open>the body of the loop; \<open>clock\<close> is the stamp of the row\<close>
  "apply_migration sha script clock applied f d =
     (let version = version_of f; checksum = sha (snd f)
      in case applied version of
           Some c \<Rightarrow> (if c \<noteq> checksum then ChecksumChanged version else Migrated, d)
         | None \<Rightarrow>
             let (ended, tables) = script (snd f) (df_tables d); d' = d\<lparr>df_tables := tables\<rparr>
             in if \<not> ended then (ScriptFailed version, d')
                else if version \<in> mr_version ` set (df_migrations d) then (VersionTaken version, d')
                else (Migrated, d'\<lparr>df_migrations :=
                        df_migrations d @ [\<lparr>mr_version = version, mr_applied_at = clock version, mr_checksum = checksum\<rparr>]\<rparr>))"

fun migrate ::
  "(string \<Rightarrow> string) \<Rightarrow> (string \<Rightarrow> 'tables \<Rightarrow> bool \<times> 'tables) \<Rightarrow> (int \<Rightarrow> string) \<Rightarrow> (int \<rightharpoonup> string) \<Rightarrow> migration list \<Rightarrow>
   'tables versioned_file \<Rightarrow> migration_result \<times> 'tables versioned_file" where
  \<comment> \<open>the loop of \<open>apply_migrations\<close>: \<open>applied\<close> is read once, before it\<close>
  "migrate sha script clock applied [] d = (Migrated, d)"
| "migrate sha script clock applied (f # fs) d =
     (case apply_migration sha script clock applied f d of
        (Migrated, d') \<Rightarrow> migrate sha script clock applied fs d'
      | stopped \<Rightarrow> stopped)"

definition apply_migrations ::
  "(string \<Rightarrow> string) \<Rightarrow> (string \<Rightarrow> 'tables \<Rightarrow> bool \<times> 'tables) \<Rightarrow> (int \<Rightarrow> string) \<Rightarrow> migration list \<Rightarrow>
   'tables versioned_file \<Rightarrow> migration_result \<times> 'tables versioned_file" where
  "apply_migrations sha script clock dir d = migrate sha script clock (applied_of d) (migration_files dir) d"

definition schema_version :: "'tables versioned_file \<Rightarrow> int" where
  \<comment> \<open>\<open>SELECT max(version) FROM schema_migrations\<close>, 0 when there is none (cli/backup.py)\<close>
  "schema_version d = foldl max 0 (map mr_version (df_migrations d))"

definition open_database ::
  "(string \<Rightarrow> string) \<Rightarrow> (string \<Rightarrow> 'tables \<Rightarrow> bool \<times> 'tables) \<Rightarrow> (int \<Rightarrow> string) \<Rightarrow> migration list \<Rightarrow> 'tables \<Rightarrow>
   path \<Rightarrow> bool \<Rightarrow> 'tables versioned_file option \<Rightarrow> cli_error + (migration_result \<times> 'tables versioned_file)" where
  \<comment> \<open>\<open>no_tables\<close> is the content of a new file; a result other than \<open>Migrated\<close> is an exception no command catches\<close>
  "open_database sha script clock dir no_tables p create existing =
     (case existing of
        None \<Rightarrow> if \<not> create then Inl (cli_fail (''database not found: '' @ as_posix p @ '' (vpn-pulse init creates it, or pass --db)''))
                else Inr (apply_migrations sha script clock dir \<lparr>df_tables = no_tables, df_migrations = []\<rparr>)
      | Some d \<Rightarrow> Inr (apply_migrations sha script clock dir d))"

subsection \<open>What a run of the scripts leaves\<close>

lemma migrate_Cons_Migrated:
  "migrate sha script clock applied (f # fs) d = (Migrated, d2) \<longleftrightarrow>
     (\<exists>d1. apply_migration sha script clock applied f d = (Migrated, d1) \<and> migrate sha script clock applied fs d1 = (Migrated, d2))"
  by (auto split: prod.splits migration_result.splits)

lemma migrate_append:
  "migrate sha script clock applied fs d = (Migrated, d1) \<Longrightarrow>
   migrate sha script clock applied (fs @ gs) d = migrate sha script clock applied gs d1"
proof (induction fs arbitrary: d)
  case (Cons f fs)
  then show ?case by (auto split: prod.splits migration_result.splits)
qed simp

lemma apply_migration_rows:
  assumes "apply_migration sha script clock applied f d = (Migrated, d1)"
  shows "if applied (version_of f) = Some (sha (snd f)) then d1 = d
         else applied (version_of f) = None \<and> version_of f \<notin> mr_version ` set (df_migrations d) \<and>
              df_migrations d1 = df_migrations d @ [\<lparr>mr_version = version_of f, mr_applied_at = clock (version_of f), mr_checksum = sha (snd f)\<rparr>]"
  using assms by (auto simp: apply_migration_def Let_def split: option.splits prod.splits if_splits)

lemma applied_of_grows:
  assumes "df_migrations d1 = df_migrations d @ [r]" "mr_version r \<notin> mr_version ` set (df_migrations d)"
  shows "applied_of d1 = (applied_of d)(mr_version r \<mapsto> mr_checksum r)"
proof -
  have "map_of (map (\<lambda>r. (mr_version r, mr_checksum r)) (df_migrations d)) (mr_version r) = None"
    using assms(2) by (auto simp: map_of_eq_None_iff)
  then show ?thesis by (intro ext) (simp add: applied_of_def assms(1) map_add_def split: option.split)
qed

text \<open>After a run that ends, the rows say of every version of the directory what its script's checksum is, and
  of other versions what they said before.\<close>

lemma migrate_applied:
  assumes "migrate sha script clock applied fs d = (Migrated, d1)" "\<forall>v. applied v \<noteq> None \<longrightarrow> applied v = applied_of d v"
  shows "(\<forall>f\<in>set fs. applied_of d1 (version_of f) = Some (sha (snd f))) \<and>
         (\<forall>v. v \<notin> version_of ` set fs \<or> applied_of d v \<noteq> None \<longrightarrow> applied_of d1 v = applied_of d v)"
  using assms
proof (induction fs arbitrary: d)
  case (Cons f fs)
  from Cons.prems(1) obtain d' where step: "apply_migration sha script clock applied f d = (Migrated, d')"
    and rest: "migrate sha script clock applied fs d' = (Migrated, d1)" unfolding migrate_Cons_Migrated by blast
  show ?case
  proof (cases "applied (version_of f) = Some (sha (snd f))")
    case True
    with apply_migration_rows [OF step] have "d' = d" by simp
    moreover have "applied_of d (version_of f) = Some (sha (snd f))" using Cons.prems(2) True by force
    ultimately show ?thesis using Cons.IH [OF rest] Cons.prems(2) by (simp; blast)
  next
    case False
    let ?r = "\<lparr>mr_version = version_of f, mr_applied_at = clock (version_of f), mr_checksum = sha (snd f)\<rparr>"
    from False apply_migration_rows [OF step] have rows: "applied (version_of f) = None"
      "version_of f \<notin> mr_version ` set (df_migrations d)" "df_migrations d' = df_migrations d @ [?r]" by simp_all
    then have grown: "applied_of d' = (applied_of d)(version_of f \<mapsto> sha (snd f))" using applied_of_grows [of d' d ?r] by simp
    have none: "applied_of d (version_of f) = None" using rows(2) by (auto simp: applied_of_def map_of_eq_None_iff)
    have "\<forall>v. applied v \<noteq> None \<longrightarrow> applied v = applied_of d' v" using Cons.prems(2) rows(1) grown by auto
    note IH = Cons.IH [OF rest this]
    from IH grown have "applied_of d1 (version_of f) = Some (sha (snd f))" by auto
    moreover have "applied_of d1 v = applied_of d v" if "v \<notin> version_of ` set (f # fs) \<or> applied_of d v \<noteq> None" for v
    proof -
      have "v \<noteq> version_of f" using that none by auto
      with IH that grown show ?thesis by auto
    qed
    ultimately show ?thesis using IH by auto
  qed
qed simp

lemma migrate_nothing_to_do:
  assumes "\<forall>f\<in>set fs. applied (version_of f) = Some (sha (snd f))"
  shows "migrate sha script clock applied fs d = (Migrated, d)"
  using assms by (induction fs) (auto simp: apply_migration_def)

lemma migrate_cong:
  assumes "\<forall>f\<in>set fs. applied (version_of f) = applied' (version_of f)"
  shows "migrate sha script clock applied fs d = migrate sha script clock applied' fs d"
  using assms
proof (induction fs arbitrary: d)
  case (Cons f fs)
  then have "apply_migration sha script clock applied f d = apply_migration sha script clock applied' f d" by (simp add: apply_migration_def)
  with Cons show ?case by (auto split: prod.splits migration_result.splits)
qed simp

lemma filter_sorted_key: "filter (\<lambda>f. k = fst f) (sort_key fst xs) = filter (\<lambda>f. k = fst f) xs"
  using sort_key_stable [of fst k xs] by (simp add: eq_commute)

lemma migration_files_grow:
  assumes "\<forall>f\<in>set old. \<forall>g\<in>set new. fst f < fst g"
  shows "migration_files (old @ new) = migration_files old @ migration_files new"
proof -
  have "sorted (map fst (migration_files old @ migration_files new))"
    using assms by (fastforce simp: migration_files_def sorted_append order.strict_implies_order)
  moreover have "mset (migration_files old @ migration_files new) = mset (filter is_migration (old @ new))" by (simp add: migration_files_def)
  moreover have "filter (\<lambda>f. k = fst f) (migration_files old @ migration_files new) = filter (\<lambda>f. k = fst f) (filter is_migration (old @ new))" for k
    by (simp add: migration_files_def filter_sorted_key)
  ultimately show ?thesis unfolding migration_files_def [of "old @ new"]
    by (intro properties_for_sort_key) auto
qed

lemma migrate_versions:
  "migrate sha script clock applied fs d = (Migrated, d1) \<Longrightarrow>
   mr_version ` set (df_migrations d1) \<subseteq> mr_version ` set (df_migrations d) \<union> version_of ` set fs"
proof (induction fs arbitrary: d)
  case (Cons f fs)
  from Cons.prems obtain d' where step: "apply_migration sha script clock applied f d = (Migrated, d')"
    and rest: "migrate sha script clock applied fs d' = (Migrated, d1)" unfolding migrate_Cons_Migrated by blast
  from apply_migration_rows [OF step]
  have "mr_version ` set (df_migrations d') \<subseteq> mr_version ` set (df_migrations d) \<union> {version_of f}" by (auto split: if_splits)
  with Cons.IH [OF rest] show ?case by auto
qed simp

lemma foldl_max: "foldl max a xs = Max (insert a (set xs))" for a :: int
proof -
  have "(\<lambda>x s. max s x) = (max :: int \<Rightarrow> int \<Rightarrow> int)" by (intro ext) (rule max.commute)
  then show ?thesis using Max.set_eq_fold [of a xs] by (simp add: foldl_conv_fold)
qed

subsection \<open>Upgrades\<close>


definition sample_dir :: "migration list" where
  "sample_dir = [(''0002_via.sql'', ''ALTER TABLE probes''), (''.keep'', []), (''0001_initial.sql'', ''CREATE TABLE probes'')]"

definition sample_script :: "string \<Rightarrow> string list \<Rightarrow> bool \<times> string list" where
  \<comment> \<open>a script that ran before fails\<close>
  "sample_script sql tables = (if sql \<in> set tables then (False, tables) else (True, tables @ [sql]))"


text \<open>A new file carries the version the release knows, so a backup of it is never from a newer one.\<close>
lemma new_file_version:
  assumes "apply_migrations sha script clock dir \<lparr>df_tables = none, df_migrations = []\<rparr> = (Migrated, d)"
  shows "schema_version d = known_schema_version dir"
proof -
  have run: "migrate sha script clock (applied_of \<lparr>df_tables = none, df_migrations = []\<rparr>) (migration_files dir)
      \<lparr>df_tables = none, df_migrations = []\<rparr> = (Migrated, d)" using assms by (simp add: apply_migrations_def)
  have "version_of f \<in> mr_version ` set (df_migrations d)" if "f \<in> set (migration_files dir)" for f
  proof -
    from migrate_applied [OF run] that have "applied_of d (version_of f) = Some (sha (snd f))" by simp
    then show ?thesis unfolding applied_of_def by (force dest: map_of_SomeD)
  qed
  with migrate_versions [OF run] have "mr_version ` set (df_migrations d) = version_of ` set (migration_files dir)" by auto
  then show ?thesis by (simp add: schema_version_def known_schema_version_def foldl_max migration_files_def)
qed

text \<open>A process that stops between the end of a script and the insertion of its row leaves a file whose next
  opening runs the script again; a script that cannot be repeated, as one that creates a table, then fails at
  every opening.\<close>
lemma interrupted_migration_is_stuck:
  assumes "migration_files dir = f # fs" "script (snd f) tables = (True, tables')" "\<not> fst (script (snd f) tables')"
  shows "fst (apply_migrations sha script clock dir \<lparr>df_tables = tables', df_migrations = []\<rparr>) = ScriptFailed (version_of f)"
  using assms by (simp add: apply_migrations_def apply_migration_def applied_of_def case_prod_beta Let_def)

end
