(* ===== verification/Demo_Catalog.thy ===== *)
theory Demo_Catalog
  imports Admin_View Calendar
begin

text \<open>
  The demonstration catalog (src/src/vpnpulse/dev/scenarios.py): the fixture of scenarios, the
  inheritance between them, and the scenario built for an instant. The parsed fixture is an argument.
  A key the code indexes and a text it converts are branches that fail; a value of another JSON type than
  fixtures/ui/scenarios.json has at its place reads as the empty value of that type. Texts are UTF-8
  bytes; load and series are exact rationals. The daily curve \<open>math.sin\<close> computes is the argument
  \<open>sine\<close>, a function of the fraction of a turn.
\<close>

datatype demo_error = DemoKeyError | DemoValueError | DemoIndexError | DemoRecursionError | DemoStopIteration
  | DemoIntegrityError | ReadModelUnavailable

subsection \<open>Reading the fixture\<close>

definition need :: "jdict \<Rightarrow> string \<Rightarrow> demo_error + json" where
  \<comment> \<open>\<open>d[k]\<close>\<close>
  "need d k = (case map_of d k of None \<Rightarrow> Inl DemoKeyError | Some v \<Rightarrow> Inr v)"

definition need_num :: "jdict \<Rightarrow> string \<Rightarrow> demo_error + rat" where
  \<comment> \<open>\<open>d[k]\<close> used as a number\<close>
  "need_num d k = bind_err (need d k) (\<lambda>v. case as_num v of None \<Rightarrow> Inl DemoValueError | Some x \<Rightarrow> Inr x)"

definition get_else :: "jdict \<Rightarrow> string \<Rightarrow> json \<Rightarrow> json" where
  \<comment> \<open>\<open>d.get(k, other)\<close>\<close>
  "get_else d k other = (case map_of d k of None \<Rightarrow> other | Some v \<Rightarrow> v)"

fun map_err :: "('a \<Rightarrow> 'e + 'b) \<Rightarrow> 'a list \<Rightarrow> 'e + 'b list" where
  "map_err f [] = Inr []"
| "map_err f (x # xs) = bind_err (f x) (\<lambda>y. bind_err (map_err f xs) (\<lambda>ys. Inr (y # ys)))"

definition merge_dicts :: "jdict \<Rightarrow> jdict \<Rightarrow> jdict" where
  \<comment> \<open>\<open>{**base, **over}\<close>\<close>
  "merge_dicts base over = foldl (\<lambda>d (k, v). AList.update k v d) base over"

definition set_at :: "int \<Rightarrow> 'a \<Rightarrow> 'a list \<Rightarrow> demo_error + 'a list" where
  \<comment> \<open>\<open>xs[i] = v\<close>: a negative index counts from the end\<close>
  "set_at i v xs =
     (let n = int (length xs); j = (if i < 0 then i + n else i)
      in if j < 0 \<or> n \<le> j then Inl DemoIndexError else Inr (xs[nat j := v]))"

fun py_str :: "json \<Rightarrow> string" where
  \<comment> \<open>\<open>str(value)\<close> of a scalar that is not a float\<close>
  "py_str JNull = ''None''"
| "py_str v = plain_text v"

definition SOURCE_KINDS :: "string list" where
  "SOURCE_KINDS = [''pc'', ''mobile'', ''abroad'']"

definition kind_probe :: "string \<Rightarrow> string" where
  "kind_probe k = (if k = ''mobile'' then ''android'' else k)"

definition UI_ONLY_SCENARIOS :: "string list" where
  "UI_ONLY_SCENARIOS = [''loading'']"

definition EM_DASH :: string where
  "EM_DASH = [CHR 0xE2, CHR 0x80, CHR 0x94]"

definition parse_decimal :: "string \<Rightarrow> rat option" where
  \<comment> \<open>\<open>float(text)\<close> on digits with at most one point; other forms of a float do not occur in a percentage\<close>
  "parse_decimal s =
     (case split_on (CHR ''.'') (strip s) of
        [whole] \<Rightarrow> map_option of_nat (parse_nat whole)
      | [whole, part] \<Rightarrow>
          (case (parse_nat whole, parse_nat part) of
             (Some w, Some p) \<Rightarrow> Some (of_nat w + of_nat p / 10 ^ length part)
           | _ \<Rightarrow> None)
      | _ \<Rightarrow> None)"

definition parse_percent :: "json \<Rightarrow> demo_error + rat option" where
  "parse_percent value =
     (if value = JNull \<or> value = JStr EM_DASH then Inr None
      else case value of
             JFloat x \<Rightarrow> Inr (Some (round4 (x / 100)))
           | _ \<Rightarrow> (case parse_decimal (map (\<lambda>c. if c = CHR '','' then CHR ''.'' else c) (filter (\<lambda>c. c \<noteq> CHR 0x25) (py_str value))) of
                    None \<Rightarrow> Inl DemoValueError
                  | Some x \<Rightarrow> Inr (Some (round4 (x / 100)))))"

definition seeded_value :: "(rat \<Rightarrow> rat) \<Rightarrow> int \<Rightarrow> rat \<Rightarrow> rat \<Rightarrow> rat \<Rightarrow> nat \<Rightarrow> rat" where
  "seeded_value sine seed base amp hours_per_point i =
     (let hr = of_nat i * hours_per_point;
          day = max 0 (sine ((hr - 6) / 24))
      in max 0 (of_int (round_half_even ((base + amp * day + of_int ((int i * 7 + seed) mod 5) * (3 / 10) - 6 / 10) * 10)) / 10))"

definition seeded :: "(rat \<Rightarrow> rat) \<Rightarrow> int \<Rightarrow> rat \<Rightarrow> rat \<Rightarrow> nat \<Rightarrow> rat \<Rightarrow> rat list" where
  "seeded sine seed base amp points hours_per_point = map (seeded_value sine seed base amp hours_per_point) [0..<points]"

definition load_base :: "rat \<Rightarrow> rat" where
  \<comment> \<open>\<open>1 + awg / 4 if awg else 0.3\<close>\<close>
  "load_base awg = (if awg \<noteq> 0 then 1 + awg / 4 else 3 / 10)"

subsection \<open>Inheritance\<close>

type_synonym catalog = jdict

definition scenarios_of :: "catalog \<Rightarrow> jdict" where
  "scenarios_of fx = as_dict (jget fx ''scenarios'')"

definition catalog_ids :: "catalog \<Rightarrow> string list" where
  \<comment> \<open>\<open>ScenarioCatalog.ids\<close>\<close>
  "catalog_ids fx = filter (\<lambda>k. k \<notin> set UI_ONLY_SCENARIOS) (map fst (scenarios_of fx))"

definition raw_scenario :: "catalog \<Rightarrow> string \<Rightarrow> jdict" where
  \<comment> \<open>an id the catalog lacks is the scenario \<open>operational\<close>\<close>
  "raw_scenario fx scenario_id =
     (let raw = as_dict (jget (scenarios_of fx) scenario_id)
      in if raw \<noteq> [] then raw else as_dict (jget (scenarios_of fx) ''operational''))"

definition parent_of :: "jdict \<Rightarrow> string option" where
  "parent_of raw = (if truthy (jget raw ''inherit'') then Some (plain_text (jget raw ''inherit'')) else None)"

definition merge_override :: "jdict \<Rightarrow> string \<times> json \<Rightarrow> jdict" where
  \<comment> \<open>\<open>merged["servers"][sid] = {**merged["servers"].get(sid, {}), **over}\<close>\<close>
  "merge_override servers entry =
     (let (sid, over) = entry in AList.update sid (JObj (merge_dicts (as_dict (jget servers sid)) (as_dict over))) servers)"

definition merge_scenario :: "jdict \<Rightarrow> jdict \<Rightarrow> jdict" where
  "merge_scenario base raw =
     (let merged = AList.update ''servers''
            (JObj (foldl merge_override (as_dict (jget base ''servers'')) (as_dict (jget raw ''servers''))))
            (merge_dicts base raw)
      in if map_of raw ''events'' = None then AList.update ''events'' (jget base ''events'') merged else merged)"

partial_function (option) merged :: "catalog \<Rightarrow> string \<Rightarrow> jdict option" where
  \<comment> \<open>\<open>ScenarioCatalog.merged\<close>; None where the inheritance never ends\<close>
  "merged fx scenario_id =
     (case parent_of (raw_scenario fx scenario_id) of
        None \<Rightarrow> Some (raw_scenario fx scenario_id)
      | Some parent \<Rightarrow> Option.bind (merged fx parent) (\<lambda>base. Some (merge_scenario base (raw_scenario fx scenario_id))))"

subsection \<open>The scenario of an instant\<close>

record demo_server =
  \<comment> \<open>the dictionary \<open>s\<close>: what the fixture says, and the four keys the build replaces\<close>
  dv_raw :: jdict
  dv_load :: jdict
  dv_sources :: "(string \<times> jdict) list"
  dv_series :: "rat option list"
  dv_segs :: "string list"

record demo_admin =
  da_attention :: "json list"
  da_probes :: jdict
  da_services :: jdict
  da_doctor :: json
  da_enroll_code :: json
  da_next_command :: json

record scenario =
  so_id :: string
  so_raw :: jdict
  so_servers :: "demo_server list"
  so_events :: "json list"
  so_admin :: "demo_admin option"
  so_presence :: "(string \<times> string) list"
  so_now :: datetime

definition dv_id :: "demo_server \<Rightarrow> string" where
  "dv_id s = plain_text (jget (dv_raw s) ''id'')"

definition scenario_server :: "scenario \<Rightarrow> string \<Rightarrow> demo_server option" where
  \<comment> \<open>\<open>Scenario.server\<close>\<close>
  "scenario_server sc server_id = find (\<lambda>s. dv_id s = server_id) (so_servers sc)"

definition event_set :: "catalog \<Rightarrow> json \<Rightarrow> demo_error + json list" where
  \<comment> \<open>\<open>fx["eventSets"][name]\<close>\<close>
  "event_set fx name = bind_err (need (as_dict (jget fx ''eventSets'')) (plain_text name)) (\<lambda>v. Inr (as_list v))"

definition build_events :: "catalog \<Rightarrow> jdict \<Rightarrow> demo_error + json list" where
  "build_events fx sc =
     bind_err (case jget sc ''events'' of JStr name \<Rightarrow> event_set fx (JStr name) | ev \<Rightarrow> Inr (as_list ev)) (\<lambda>ev.
       if truthy (jget sc ''eventsAppend'')
       then bind_err (event_set fx (jget sc ''eventsAppend'')) (\<lambda>more. Inr (ev @ more))
       else Inr ev)"

definition mark_segment :: "json \<Rightarrow> string list \<Rightarrow> demo_error + string list" where
  \<comment> \<open>\<open>for i in range(a, b + 1): s["segs"][i] = state\<close>\<close>
  "mark_segment mark segs =
     (case mark of
        JArr [JInt a, JInt b, st] \<Rightarrow> fold_err (\<lambda>i xs. set_at i (plain_text st) xs) [a..b] segs
      | _ \<Rightarrow> Inl DemoValueError)"

definition gap_from :: "json \<Rightarrow> string list \<times> rat option list \<Rightarrow> demo_error + string list \<times> rat option list" where
  "gap_from v both =
     (case v of
        JInt g \<Rightarrow> fold_err (\<lambda>i (segs, series). bind_err (set_at i ''unknown'' segs) (\<lambda>segs'.
                    bind_err (set_at i None series) (\<lambda>series'. Inr (segs', series')))) [g..47] both
      | _ \<Rightarrow> Inr both)"

definition build_sources :: "jdict \<Rightarrow> jdict \<Rightarrow> demo_error + (string \<times> jdict) list" where
  "build_sources defaults over =
     map_err (\<lambda>k. bind_err (need (as_dict (jget defaults ''sourcesOk'')) k) (\<lambda>ok.
       Inr (k, merge_dicts (as_dict ok) (as_dict (jget (as_dict (jget over ''sources'')) k))))) SOURCE_KINDS"

definition build_server :: "(rat \<Rightarrow> rat) \<Rightarrow> jdict \<Rightarrow> jdict \<Rightarrow> jdict \<Rightarrow> demo_error + demo_server" where
  "build_server sine defaults base_s over =
     (let s = merge_dicts base_s over
      in bind_err (need s ''id'') (\<lambda>sid.
         bind_err (need (as_dict (jget defaults ''load'')) (plain_text sid)) (\<lambda>default_load.
           let load = merge_dicts (as_dict default_load) (as_dict (jget over ''load''))
           in bind_err (build_sources defaults over) (\<lambda>sources.
              bind_err (need_num load ''awg'') (\<lambda>awg.
              bind_err (need_num s ''seed'') (\<lambda>seed.
              bind_err (need s ''state'') (\<lambda>st.
                let series0 = map Some (seeded sine \<lfloor>seed\<rfloor> (load_base awg) (3 + awg) 48 (1 / 2));
                    series = (if st = JStr ''unavailable'' then series0[46 := Some 0, 47 := Some 0] else series0)
                in bind_err (fold_err mark_segment (as_list (jget over ''marks'')) (replicate 48 ''operational'')) (\<lambda>segs.
                   bind_err (gap_from (jget over ''gapFrom'') (segs, series)) (\<lambda>(segs', series').
                     Inr \<lparr>dv_raw = s, dv_load = load, dv_sources = sources, dv_series = series', dv_segs = segs'\<rparr>)))))))))"

definition build_servers :: "(rat \<Rightarrow> rat) \<Rightarrow> catalog \<Rightarrow> jdict \<Rightarrow> demo_error + demo_server list" where
  "build_servers sine fx sc =
     (if truthy (jget sc ''empty'') \<or> truthy (jget sc ''loading'') \<or> jget sc ''api'' = JStr ''auth'' then Inr []
      else bind_err (need fx ''servers'') (\<lambda>servers.
           fold_err (\<lambda>base_s built.
             bind_err (need (as_dict base_s) ''id'') (\<lambda>sid.
               let over = as_dict (jget (as_dict (jget sc ''servers'')) (plain_text sid))
               in if over = [] then Inr built
                  else bind_err (build_server sine (as_dict (jget fx ''defaults'')) (as_dict base_s) over) (\<lambda>s. Inr (built @ [s]))))
             (as_list servers) []))"

definition build_admin :: "catalog \<Rightarrow> jdict \<Rightarrow> demo_error + demo_admin option" where
  "build_admin fx sc =
     (if map_of sc ''admin'' = Some JNull then Inr None
      else
        let a = as_dict (jget sc ''admin'');
            defaults = as_dict (jget (as_dict (jget fx ''defaults'')) ''admin'')
        in bind_err (case map_of a ''attention'' of Some v \<Rightarrow> Inr v | None \<Rightarrow> need defaults ''attention'') (\<lambda>attention.
           bind_err (need defaults ''probes'') (\<lambda>probes.
           bind_err (need defaults ''services'') (\<lambda>services.
           bind_err (if truthy (jget a ''doctor'') then Inr (jget a ''doctor'') else need defaults ''doctor'') (\<lambda>doctor.
           bind_err (need defaults ''enrollCode'') (\<lambda>code.
             Inr (Some \<lparr>da_attention = as_list (jget a ''attentionPrepend'') @ as_list attention,
                        da_probes = merge_dicts (as_dict probes) (as_dict (jget a ''probes'')),
                        da_services = merge_dicts (as_dict services) (as_dict (jget a ''services'')),
                        da_doctor = doctor, da_enroll_code = code, da_next_command = jget a ''nextCommand''\<rparr>)))))))"

definition presence_of :: "jdict \<Rightarrow> demo_admin option \<Rightarrow> string \<Rightarrow> string" where
  "presence_of over_sources admin k =
     (if truthy (jget over_sources k) then plain_text (jget over_sources k)
      else
        let p = (case admin of None \<Rightarrow> [] | Some a \<Rightarrow> as_dict (jget (da_probes a) (kind_probe k)))
        in if p = [] \<or> jget p ''enrolled'' = JBool False then ''none''
           else if jget p ''state'' = JStr ''unknown'' then ''silent'' else ''active'')"

definition build_scenario :: "(rat \<Rightarrow> rat) \<Rightarrow> catalog \<Rightarrow> jdict \<Rightarrow> string \<Rightarrow> datetime \<Rightarrow> demo_error + scenario" where
  \<comment> \<open>\<open>ScenarioCatalog.build\<close> after the inheritance is resolved\<close>
  "build_scenario sine fx sc scenario_id now =
     bind_err (build_events fx sc) (\<lambda>ev.
     bind_err (build_servers sine fx sc) (\<lambda>servers.
     bind_err (build_admin fx sc) (\<lambda>admin.
       Inr \<lparr>so_id = scenario_id, so_raw = sc, so_servers = servers, so_events = ev, so_admin = admin,
            so_presence = map (\<lambda>k. (k, presence_of (as_dict (jget sc ''sources'')) admin k)) SOURCE_KINDS, so_now = now\<rparr>)))"

definition build :: "(rat \<Rightarrow> rat) \<Rightarrow> catalog \<Rightarrow> string \<Rightarrow> datetime \<Rightarrow> demo_error + scenario" where
  "build sine fx scenario_id now =
     (case merged fx scenario_id of None \<Rightarrow> Inl DemoRecursionError | Some sc \<Rightarrow> build_scenario sine fx sc scenario_id now)"

subsection \<open>Dictionaries\<close>

fun keys_unique :: "json \<Rightarrow> bool" where
  \<comment> \<open>no key twice in a dictionary, as a parser leaves it\<close>
  "keys_unique (JObj d) = (distinct (map fst d) \<and> list_all (\<lambda>(k, v). keys_unique v) d)"
| "keys_unique (JArr xs) = list_all keys_unique xs"
| "keys_unique _ = True"

lemma map_of_merge_dicts:
  "distinct (map fst over) \<Longrightarrow>
   map_of (merge_dicts base over) k = (case map_of over k of None \<Rightarrow> map_of base k | Some v \<Rightarrow> Some v)"
proof (induction over arbitrary: base)
  case (Cons e over)
  obtain a v where e: "e = (a, v)" by (cases e)
  have "merge_dicts base (e # over) = merge_dicts (AList.update a v base) over" by (simp add: merge_dicts_def e)
  moreover have "map_of over a = None" using Cons.prems by (simp add: e map_of_eq_None_iff)
  ultimately show ?case using Cons by (auto simp: e update_conv split: option.split)
qed (simp add: merge_dicts_def)

lemma jget_merge_dicts:
  "distinct (map fst over) \<Longrightarrow> jget (merge_dicts base over) k = (if map_of over k = None then jget base k else jget over k)"
  by (cases "map_of over k") (simp_all add: jget_def map_of_merge_dicts)

lemma jget_update: "jget (AList.update k v d) k' = (if k' = k then v else jget d k')"
  by (simp add: jget_def update_conv)

lemma keys_unique_jget: "keys_unique (JObj d) \<Longrightarrow> keys_unique (jget d k)"
  by (auto simp: jget_def list_all_iff split: option.split dest!: map_of_SomeD)

lemma keys_unique_as_dict: "keys_unique v \<Longrightarrow> keys_unique (JObj (as_dict v))"
  by (cases v) simp_all

lemma keys_unique_member: "keys_unique (JObj d) \<Longrightarrow> keys_unique (JObj (as_dict (jget d k)))"
  by (intro keys_unique_as_dict keys_unique_jget)

lemma distinct_member: "keys_unique (JObj d) \<Longrightarrow> distinct (map fst (as_dict (jget d k)))"
  using keys_unique_member [of d k] by simp

lemma keys_unique_raw: "keys_unique (JObj fx) \<Longrightarrow> keys_unique (JObj (raw_scenario fx sid))"
  unfolding raw_scenario_def scenarios_of_def Let_def by (auto intro: keys_unique_member simp del: keys_unique.simps)

subsection \<open>The nearest definition wins\<close>

fun nearest :: "jdict list \<Rightarrow> string \<Rightarrow> json" where
  \<comment> \<open>the value in the first of the dictionaries that has the key\<close>
  "nearest [] k = JNull"
| "nearest (d # ds) k = (if map_of d k = None then nearest ds k else jget d k)"

inductive inherits :: "catalog \<Rightarrow> string \<Rightarrow> jdict list \<Rightarrow> bool" for fx where
  root: "parent_of (raw_scenario fx sid) = None \<Longrightarrow> inherits fx sid [raw_scenario fx sid]"
| child: "parent_of (raw_scenario fx sid) = Some parent \<Longrightarrow> inherits fx parent ds \<Longrightarrow> inherits fx sid (raw_scenario fx sid # ds)"

inductive_cases inherits_cases: "inherits fx sid ds"

definition server_override :: "string \<Rightarrow> jdict \<Rightarrow> jdict" where
  \<comment> \<open>what a scenario says of a server\<close>
  "server_override sid raw = as_dict (jget (as_dict (jget raw ''servers'')) sid)"

lemma merge_servers_other:
  "sid \<notin> fst ` set over \<Longrightarrow> jget (foldl merge_override servers over) sid = jget servers sid"
  by (induction over arbitrary: servers) (auto simp: merge_override_def jget_update)

lemma merge_servers_lookup:
  assumes "distinct (map fst over)" "list_all (\<lambda>(k, v). keys_unique v) over"
  shows "jget (as_dict (jget (foldl merge_override servers over) sid)) k =
    (if map_of (as_dict (jget over sid)) k = None then jget (as_dict (jget servers sid)) k else jget (as_dict (jget over sid)) k)"
  using assms
proof (induction over arbitrary: servers)
  case (Cons e over)
  obtain i v where e: "e = (i, v)" by (cases e)
  have v: "keys_unique v" and i: "i \<notin> fst ` set over" using Cons.prems by (auto simp: e)
  show ?case
  proof (cases "i = sid")
    case True
    have "jget (foldl merge_override servers (e # over)) sid = jget (merge_override servers e) sid"
      using True i by (simp add: merge_servers_other)
    also have "\<dots> = JObj (merge_dicts (as_dict (jget servers sid)) (as_dict v))"
      using True by (simp add: e merge_override_def jget_update)
    finally show ?thesis using True keys_unique_as_dict [OF v]
      by (cases "map_of (as_dict v) k") (simp_all add: e jget_merge_dicts)
  next
    case False
    then have "jget (merge_override servers e) sid = jget servers sid" "jget (e # over) sid = jget over sid"
      by (simp_all add: e merge_override_def jget_update)
    with Cons show ?thesis by simp
  qed
qed simp

lemma merge_scenario_lookup:
  assumes "keys_unique (JObj raw)" "k \<noteq> ''servers''"
  shows "jget (merge_scenario base raw) k = (if map_of raw k = None then jget base k else jget raw k)"
  using assms by (auto simp: merge_scenario_def Let_def jget_update jget_merge_dicts)

lemma merge_scenario_server:
  assumes "keys_unique (JObj raw)"
  shows "jget (server_override sid (merge_scenario base raw)) k =
    (if map_of (server_override sid raw) k = None then jget (server_override sid base) k else jget (server_override sid raw) k)"
proof -
  have servers: "keys_unique (JObj (as_dict (jget raw ''servers'')))" using assms by (rule keys_unique_member)
  have "server_override sid (merge_scenario base raw) =
      as_dict (jget (foldl merge_override (as_dict (jget base ''servers'')) (as_dict (jget raw ''servers''))) sid)"
    by (simp add: server_override_def merge_scenario_def Let_def jget_update)
  with merge_servers_lookup [of "as_dict (jget raw ''servers'')"] servers show ?thesis by (simp add: server_override_def)
qed

lemma merged_inherits:
  assumes "inherits fx sid ds" "keys_unique (JObj fx)"
  shows "\<exists>m. merged fx sid = Some m \<and> (\<forall>k. k \<noteq> ''servers'' \<longrightarrow> jget m k = nearest ds k) \<and>
    (\<forall>server k. jget (server_override server m) k = nearest (map (server_override server) ds) k)"
  using assms
proof (induction rule: inherits.induct)
  case (root sid)
  then have "merged fx sid = Some (raw_scenario fx sid)" by (simp add: merged.simps)
  then show ?case by (simp add: jget_def)
next
  case (child sid parent ds)
  then obtain m where m: "merged fx parent = Some m" "\<And>k. k \<noteq> ''servers'' \<Longrightarrow> jget m k = nearest ds k"
      "\<And>server k. jget (server_override server m) k = nearest (map (server_override server) ds) k" by blast
  have raw: "keys_unique (JObj (raw_scenario fx sid))" using child.prems by (rule keys_unique_raw)
  have "merged fx sid = Some (merge_scenario m (raw_scenario fx sid))"
    using child.hyps(1) m(1) by (simp add: merged.simps [of fx sid])
  moreover have "jget (merge_scenario m (raw_scenario fx sid)) k = nearest (raw_scenario fx sid # ds) k" if "k \<noteq> ''servers''" for k
    using merge_scenario_lookup [OF raw that] m(2) [OF that] by simp
  moreover have "jget (server_override server (merge_scenario m (raw_scenario fx sid))) k =
      nearest (map (server_override server) (raw_scenario fx sid # ds)) k" for server k
    using merge_scenario_server [OF raw] m(3) by simp
  ultimately show ?case by blast
qed

lemma merged_returns_inherits: "merged fx sid = Some m \<Longrightarrow> \<exists>ds. inherits fx sid ds"
proof -
  assume returned: "merged fx sid = Some m"
  show ?thesis
  proof (rule merged.raw_induct [where P = "\<lambda>fx sid m. \<exists>ds. inherits fx sid ds", OF _ returned])
    fix merged' :: "catalog \<Rightarrow> string \<Rightarrow> jdict option" and fx sid m
    assume IH: "\<And>fx sid m. merged' fx sid = Some m \<Longrightarrow> \<exists>ds. inherits fx sid ds"
      and step: "(case parent_of (raw_scenario fx sid) of
        None \<Rightarrow> Some (raw_scenario fx sid)
      | Some parent \<Rightarrow> Option.bind (merged' fx parent) (\<lambda>base. Some (merge_scenario base (raw_scenario fx sid)))) = Some m"
    show "\<exists>ds. inherits fx sid ds"
    proof (cases "parent_of (raw_scenario fx sid)")
      case None
      then show ?thesis by (blast intro: inherits.root)
    next
      case (Some parent)
      with step obtain base where "merged' fx parent = Some base" by (auto simp: bind_eq_Some_conv)
      from IH [OF this] Some show ?thesis by (blast intro: inherits.child)
    qed
  qed
qed

text \<open>
  Inheritance between scenarios is resolved: the merge returns exactly when following \<open>inherit\<close> comes
  to an end, and then every setting is the one of the nearest scenario of the line that has it -- for a server, field
  by field.
\<close>

theorem merged_nearest_definition:
  assumes "keys_unique (JObj fx)"
  shows "(merged fx sid \<noteq> None \<longleftrightarrow> (\<exists>ds. inherits fx sid ds)) \<and>
    (inherits fx sid ds \<longrightarrow> (\<forall>k. k \<noteq> ''servers'' \<longrightarrow> jget (the (merged fx sid)) k = nearest ds k) \<and>
       (\<forall>server k. jget (server_override server (the (merged fx sid))) k = nearest (map (server_override server) ds) k))"
  using merged_inherits [OF _ assms] merged_returns_inherits [of fx sid] by fastforce

definition sample_catalog :: catalog where
  "sample_catalog =
     [(''scenarios'', JObj
        [(''operational'', JObj [(''overall'', JStr ''operational''), (''freshnessMin'', JInt 1),
            (''servers'', JObj [(''s1'', JObj [(''state'', JStr ''operational''), (''uptime24'', JStr ''100%'')])])]),
         (''worse'', JObj [(''inherit'', JStr ''operational''), (''overall'', JStr ''degraded''),
            (''servers'', JObj [(''s1'', JObj [(''state'', JStr ''degraded'')])])]),
         (''loop'', JObj [(''inherit'', JStr ''loop'')])])]"

theorem merged_nearest_definition_witness:
  "jget (server_override ''s1'' (the (merged sample_catalog ''worse''))) ''uptime24'' = JStr ''100%'' \<and>
   jget (the (merged sample_catalog ''worse'')) ''overall'' = JStr ''degraded''"
proof -
  have "keys_unique (JObj sample_catalog)" by code_simp
  note nearest_wins = merged_nearest_definition [OF this, THEN conjunct2, rule_format]
  have "inherits sample_catalog ''operational'' [raw_scenario sample_catalog ''operational'']"
    by (rule inherits.root) code_simp
  then have line: "inherits sample_catalog ''worse'' [raw_scenario sample_catalog ''worse'', raw_scenario sample_catalog ''operational'']"
    by (rule inherits.child [rotated]) code_simp
  have "nearest [raw_scenario sample_catalog ''worse'', raw_scenario sample_catalog ''operational''] ''overall'' = JStr ''degraded''"
    "nearest (map (server_override ''s1'') [raw_scenario sample_catalog ''worse'', raw_scenario sample_catalog ''operational'']) ''uptime24''
       = JStr ''100%''" by code_simp+
  with nearest_wins [OF line] show ?thesis by simp
qed

text \<open>A scenario that inherits from itself is never resolved.\<close>
lemma loop_never_merges: "merged sample_catalog ''loop'' = None"
proof -
  have parent: "parent_of (raw_scenario sample_catalog ''loop'') = Some ''loop''" by code_simp
  have False if "inherits sample_catalog sid ds" "sid = ''loop''" for sid ds
    using that parent by (induction rule: inherits.induct) simp_all
  then show ?thesis using merged_returns_inherits [of sample_catalog "''loop''"] by (cases "merged sample_catalog ''loop''") auto
qed

end
