(* ===== verification/Demo_View.thy ===== *)
theory Demo_View
  imports Demo_Catalog Schemas
begin

text \<open>
  The read model of the demonstration (\<open>FixtureReadModel\<close> of src/src/vpnpulse/dev/scenarios.py): what
  each screen shows of a built scenario, in the records the answers of \<open>SqliteReadModel\<close> have. A state of
  the fixture is the text of one of the four states; any other text, which the response models refuse, reads
  as unknown.
\<close>

subsection \<open>Building blocks\<close>

fun state_named :: "string \<Rightarrow> state" where
  "state_named s =
     (if s = ''operational'' then Operational else if s = ''degraded'' then Degraded
      else if s = ''unavailable'' then Unavailable else Unknown)"

definition state_of_result :: "string \<Rightarrow> demo_error + state" where
  \<comment> \<open>\<open>RESULT_STATE[r]\<close>\<close>
  "state_of_result r =
     (if r = ''ok'' then Inr Operational else if r = ''fail'' then Inr Unavailable
      else if r = ''partial'' then Inr Degraded else if r = ''unknown'' then Inr Unknown else Inl DemoKeyError)"

definition FRESHNESS_SECONDS :: int where
  "FRESHNESS_SECONDS = 180"

definition demo_lang :: "string \<Rightarrow> string" where
  "demo_lang lang = (if lang \<in> {''ru'', ''en''} then lang else ''ru'')"

definition demo_text :: "json \<Rightarrow> string \<Rightarrow> string" where
  \<comment> \<open>\<open>_text\<close>\<close>
  "demo_text v lang =
     (case v of
        JObj d \<Rightarrow> plain_text (json_or (jget d lang) (json_or (jget d ''ru'') (JStr [])))
      | _ \<Rightarrow> plain_text v)"

definition minutes_of :: "rat \<Rightarrow> timedelta" where
  \<comment> \<open>\<open>timedelta(minutes=x)\<close>: whole microseconds\<close>
  "minutes_of x = round_half_even (x * 60000000)"

definition demo_freshness :: "datetime \<Rightarrow> json \<Rightarrow> freshness_view" where
  "demo_freshness now mins =
     (case as_num mins of
        None \<Rightarrow> \<lparr>fv_observed_at = None, fv_fresh_until = None, fv_is_stale = True\<rparr>
      | Some m \<Rightarrow>
          let observed = now - minutes_of m
          in \<lparr>fv_observed_at = Some (StampZ observed), fv_fresh_until = Some (StampZ (observed + seconds FRESHNESS_SECONDS)),
              fv_is_stale = (of_int FRESHNESS_SECONDS < m * 60)\<rparr>)"

definition clock_time :: "string \<Rightarrow> demo_error + timedelta" where
  \<comment> \<open>hour and minute of HH:MM as \<open>int\<close> reads them and \<open>datetime\<close> admits them\<close>
  "clock_time hhmm =
     (case map parse_int (split_on (CHR '':'') hhmm) of
        [Some h, Some m] \<Rightarrow> if 0 \<le> h \<and> h \<le> 23 \<and> 0 \<le> m \<and> m \<le> 59 then Inr (hours h + minutes m) else Inl DemoValueError
      | _ \<Rightarrow> Inl DemoValueError)"

definition time_at :: "datetime \<Rightarrow> json \<Rightarrow> string \<Rightarrow> demo_error + datetime" where
  \<comment> \<open>\<open>_at\<close>: a number of days ago, or a date\<close>
  "time_at now day hhmm =
     bind_err (clock_time hhmm) (\<lambda>clock.
       bind_err (case day of
                   JInt n \<Rightarrow> Inr (date_of (now - days n))
                 | _ \<Rightarrow> (case iso_date (py_str day) of None \<Rightarrow> Inl DemoValueError | Some t \<Rightarrow> Inr t)) (\<lambda>base.
         Inr (base + clock)))"

subsection \<open>Evidence, cards and details\<close>

definition detail_code :: "jdict \<Rightarrow> string option" where
  \<comment> \<open>\<open>str(src.get("detailKey", "")).split(".")[-1] or None\<close>\<close>
  "detail_code src =
     (let code = last (split_on (CHR ''.'') (py_str (get_else src ''detailKey'' (JStr []))))
      in if code = [] then None else Some code)"

definition presence_in :: "scenario \<Rightarrow> string \<Rightarrow> string" where
  "presence_in sc k = or_default [] (map_of (so_presence sc) k)"

definition source_evidence :: "scenario \<Rightarrow> demo_server \<Rightarrow> string \<Rightarrow> demo_error + evidence_item" where
  "source_evidence sc s k =
     (let src = or_default [] (map_of (dv_sources s) k)
      in bind_err (need src ''r'') (\<lambda>r. bind_err (state_of_result (plain_text r)) (\<lambda>st.
           Inr \<lparr>ei_source = k, ei_state = st, ei_freshness = demo_freshness (so_now sc) (jget src ''age''),
                ei_reason_code = detail_code src,
                ei_via_server_id = (if k = ''abroad'' then jget (dv_raw s) ''abroadFrom'' else JNull)\<rparr>)))"

definition confirmed_by_people :: "demo_server \<Rightarrow> bool" where
  "confirmed_by_people s \<longleftrightarrow> jget (dv_raw s) ''confirmedBy'' \<in> {JStr ''humans'', JStr ''both''}"

definition demo_evidence :: "scenario \<Rightarrow> demo_server \<Rightarrow> demo_error + evidence_item list" where
  "demo_evidence sc s =
     bind_err (map_err (source_evidence sc s) (filter (\<lambda>k. presence_in sc k \<noteq> ''none'') SOURCE_KINDS)) (\<lambda>items.
       Inr (if confirmed_by_people s
            then items @ [\<lparr>ei_source = ''human_activity'', ei_state = Operational,
                           ei_freshness = demo_freshness (so_now sc) (get_else (dv_raw s) ''staleMin'' (JInt 1)),
                           ei_reason_code = None, ei_via_server_id = JNull\<rparr>]
            else items))"

fun run_start :: "string list \<Rightarrow> nat \<Rightarrow> nat" where
  \<comment> \<open>the first bucket of the spell that bucket \<open>i\<close> belongs to\<close>
  "run_start segs 0 = 0"
| "run_start segs (Suc i) = (if segs ! i = segs ! 47 then run_start segs i else Suc i)"

definition last_recovery :: "string list \<Rightarrow> nat option" where
  \<comment> \<open>the last bucket that is operational again after trouble\<close>
  "last_recovery segs =
     foldl (\<lambda>found i. if segs ! i = ''operational'' \<and> segs ! (i - 1) \<notin> {''operational'', ''unknown''} then Some i else found)
       None [1..<48]"

definition demo_state :: "demo_server \<Rightarrow> string" where
  "demo_state s = plain_text (jget (dv_raw s) ''state'')"

definition demo_state_times :: "scenario \<Rightarrow> demo_server \<Rightarrow> stamp option \<times> stamp option" where
  "demo_state_times sc s =
     (let segs = dv_segs s; start = run_start segs 47; same = (demo_state s = segs ! 47)
      in (if same \<and> start = 0 then None
          else Some (StampZ (so_now sc - minutes (if \<not> same then 1 else 30 * (48 - int start)))),
          map_option (\<lambda>i. StampZ (so_now sc - minutes (30 * (48 - int i)))) (last_recovery segs)))"

definition demo_card :: "scenario \<Rightarrow> string \<Rightarrow> demo_server \<Rightarrow> demo_error + card" where
  "demo_card sc lang s =
     (let raw = dv_raw s; known = filter (\<lambda>x. x \<noteq> ''unknown'') (dv_segs s);
          (state_since, last_incident) = demo_state_times sc s;
          stale = get_else raw ''staleMin'' (if demo_state s \<noteq> ''unknown'' then JInt 1 else jget (so_raw sc) ''freshnessMin'')
      in bind_err (need raw ''name'') (\<lambda>name.
         bind_err (need raw ''cc'') (\<lambda>cc.
         bind_err (parse_percent (jget raw ''uptime24'')) (\<lambda>uptime.
         bind_err (demo_evidence sc s) (\<lambda>sources.
           Inr \<lparr>cd_id = dv_id s, cd_name = demo_text name lang, cd_country_code = upper (plain_text cc),
                cd_state = state_named (demo_state s), cd_freshness = demo_freshness (so_now sc) stale,
                cd_recommended = (jget (so_raw sc) ''recommended'' = JStr (dv_id s)),
                cd_state_since = state_since, cd_last_incident_at = last_incident, cd_uptime_24h = uptime,
                cd_coverage_24h = (if demo_state s = ''unknown'' \<and> known = [] then None
                                   else Some (round4 (of_nat (length known) / 48))),
                cd_sources = sources\<rparr>)))))"

definition COMPONENT_IDS :: "(string \<times> string) list" where
  "COMPONENT_IDS = [(''amneziawg'', ''amneziawg''), (''xray'', ''xray''), (''hiddify'', ''hiddify''), (''ddns'', ''ddns''), (''bbr'', ''tuning'')]"

fun words_of :: "string \<Rightarrow> string list" where
  \<comment> \<open>\<open>name.split()\<close>\<close>
  "words_of [] = []"
| "words_of (c # s) =
     (if is_space c then words_of s
      else case s of
             [] \<Rightarrow> [[c]]
           | c' # _ \<Rightarrow> if is_space c' then [c] # words_of s
                       else (case words_of s of [] \<Rightarrow> [[c]] | w # ws \<Rightarrow> (c # w) # ws))"

definition component_of :: "jdict \<Rightarrow> demo_error + json" where
  "component_of w =
     bind_err (need w ''name'') (\<lambda>n.
       let name = plain_text n;
           cid = (case find (\<lambda>(needle, cid). contains needle (lower name)) COMPONENT_IDS of None \<Rightarrow> ''other'' | Some (_, cid) \<Rightarrow> cid);
           parts = words_of name;
           versioned = (1 < length parts \<and> is_digit (hd (last parts)))
       in Inr (JObj [(''id'', JStr cid), (''name'', JStr (if versioned then join '' '' (butlast parts) else name)),
                     (''version'', if versioned then JStr (last parts) else JNull),
                     (''note_key'', jget w ''noteKey''), (''note'', jget w ''note'')]))"

definition service_checks :: "jdict \<Rightarrow> json list" where
  "service_checks sysm =
     (let check = (\<lambda>name ok. JObj [(''check'', JStr name), (''ok'', JBool ok)])
      in [check ''ssh'' (truthy (jget sysm ''ssh'')), check ''engine'' True, check ''port'' (truthy (jget sysm ''port''))] @
         (if truthy (jget sysm ''dns'') then [check ''dns'' True, check ''ddns'' (truthy (jget sysm ''ddns''))] else []))"

definition needed_dict :: "jdict \<Rightarrow> (string \<times> string) list \<Rightarrow> demo_error + jdict" where
  \<comment> \<open>a new dictionary of indexed entries\<close>
  "needed_dict d keys = map_err (\<lambda>(new, old). bind_err (need d old) (\<lambda>v. Inr (new, v))) keys"

definition demo_resources :: "jdict \<Rightarrow> demo_error + jdict" where
  "demo_resources ld =
     needed_dict ld [(''traffic_mbps'', ''mbit''), (''cpu_percent'', ''cpu''), (''memory_percent'', ''ram''),
       (''swap_percent'', ''swap''), (''peak_connections_24h'', ''peak'')]"

definition demo_profiles :: "(stamp \<Rightarrow> json) \<Rightarrow> datetime \<Rightarrow> jdict \<Rightarrow> jdict \<Rightarrow> demo_error + jdict" where
  \<comment> \<open>\<open>stamp_json\<close>: the text of an instant in an answer\<close>
  "demo_profiles stamp_json now keys ld =
     bind_err (needed_dict keys [(''issued'', ''issued''), (''ever_connected'', ''ever''), (''active_24h'', ''active'')]) (\<lambda>d.
       Inr (d @ [(''last_connection_at'', case as_num (jget ld ''lastConnMin'') of
                    None \<Rightarrow> JNull | Some m \<Rightarrow> stamp_json (StampZ (now - minutes_of m)))]))"

definition demo_protocols :: "demo_server \<Rightarrow> demo_error + protocol_view list" where
  "demo_protocols s =
     (let st = state_named (demo_state s); ld = dv_load s; known = truthy (jget ld ''xrayKnown'')
      in bind_err (need (dv_raw s) ''protocols'') (\<lambda>protocols.
         bind_err (need ld ''awg'') (\<lambda>awg.
           Inr (\<lparr>plv_kind = ''amneziawg'', plv_state = st, plv_coverage = (if demo_state s = ''unknown'' then 0 else 1), plv_connections = awg\<rparr> #
                (if JStr ''xray'' \<in> set (as_list protocols)
                 then [\<lparr>plv_kind = ''xray_reality'', plv_state = (if known then st else Unknown), plv_coverage = (if known then 1 else 0),
                        plv_connections = (if known then jget ld ''xray'' else JNull)\<rparr>]
                 else [])))))"

definition demo_detail :: "(stamp \<Rightarrow> json) \<Rightarrow> scenario \<Rightarrow> string \<Rightarrow> demo_server \<Rightarrow> demo_error + server_detail" where
  "demo_detail stamp_json sc lang s =
     bind_err (demo_protocols s) (\<lambda>protocols.
     bind_err (map_err (\<lambda>w. component_of (as_dict w)) (as_list (jget (dv_raw s) ''software''))) (\<lambda>components.
     bind_err (demo_card sc lang s) (\<lambda>c.
     bind_err (parse_percent (jget (dv_raw s) ''uptime7'')) (\<lambda>uptime.
     bind_err (demo_resources (dv_load s)) (\<lambda>resources.
     bind_err (need (dv_raw s) ''keys'') (\<lambda>keys.
     bind_err (demo_profiles stamp_json (so_now sc) (as_dict keys) (dv_load s)) (\<lambda>profiles.
       Inr \<lparr>dl_card = c, dl_protocols = protocols, dl_uptime_7d = uptime,
            dl_coverage_7d = (if demo_state s = ''unknown'' then None else Some 1), dl_components = components,
            dl_resources = JObj resources, dl_profiles = JObj profiles,
            dl_service_checks = service_checks (as_dict (jget (dv_raw s) ''system''))\<rparr>)))))))"

end
