(* ===== verification/Demo_Screens.thy ===== *)
theory Demo_Screens
  imports Demo_View Read_View
begin

text \<open>
  The screens of the demonstration (the protocol part of \<open>FixtureReadModel\<close> in
  src/src/vpnpulse/dev/scenarios.py): status, details, charts, events with their cursor, help, the
  administrator's answers, the revocation of a demo probe and readiness. The scenario of a request is built
  anew for every answer.
\<close>

record demo_reader =
  dr_catalog :: catalog
  dr_default_scenario :: string
  dr_contact_url :: "string option"
  dr_notes :: "db option"
  dr_revoked :: "string list"

definition context_of :: "(rat \<Rightarrow> rat) \<Rightarrow> demo_reader \<Rightarrow> string option \<Rightarrow> datetime \<Rightarrow> demo_error + scenario" where
  \<comment> \<open>\<open>_ctx\<close>; the scenario of the request is the argument\<close>
  "context_of sine dr requested now =
     build sine (dr_catalog dr) (case requested of None \<Rightarrow> dr_default_scenario dr | Some s \<Rightarrow> if s = [] then dr_default_scenario dr else s) now"

definition offline :: "scenario \<Rightarrow> bool" where
  "offline sc \<longleftrightarrow> jget (so_raw sc) ''api'' = JStr ''offline''"

definition when_online :: "scenario \<Rightarrow> demo_error + 'a \<Rightarrow> demo_error + 'a" where
  "when_online sc answer = (if offline sc then Inl ReadModelUnavailable else answer)"

subsection \<open>Status and details\<close>

definition demo_probe_of :: "scenario \<Rightarrow> string \<Rightarrow> jdict" where
  "demo_probe_of sc k = (case so_admin sc of None \<Rightarrow> [] | Some a \<Rightarrow> as_dict (jget (da_probes a) (kind_probe k)))"

definition demo_note :: "scenario \<Rightarrow> string \<Rightarrow> jdict \<Rightarrow> demo_error + note_info" where
  "demo_note sc lang note =
     bind_err (need note ''text'') (\<lambda>content.
     bind_err (if truthy (jget note ''expires'')
               then bind_err (time_at (so_now sc) (JInt 0) (plain_text (jget note ''expires''))) (\<lambda>t. Inr (Some (StampZ t)))
               else Inr None) (\<lambda>expires.
     bind_err (time_at (so_now sc) (JInt 0) (plain_text (get_else note ''time'' (JStr ''00:00'')))) (\<lambda>created.
       Inr \<lparr>ni_id = Uuid5 ''demo'' [KStr (so_id sc), KStr ''note''], ni_server_id = None, ni_text = demo_text content lang,
            ni_expires_at = expires, ni_created_at = StampZ created\<rparr>)))"

definition shown_note :: "demo_reader \<Rightarrow> scenario \<Rightarrow> string \<Rightarrow> demo_error + note_info option" where
  \<comment> \<open>a note ever written through the API replaces the one of the scenario\<close>
  "shown_note dr sc lang =
     (case (case dr_notes dr of None \<Rightarrow> NoteNone | Some d \<Rightarrow> note_state d (so_now sc)) of
        NoteActive info \<Rightarrow> Inr (Some info)
      | NoteCleared \<Rightarrow> Inr None
      | NoteNone \<Rightarrow>
          (let note = as_dict (jget (so_raw sc) ''note'')
           in if note = [] then Inr None else bind_err (demo_note sc lang note) (\<lambda>n. Inr (Some n))))"

definition demo_source_view :: "scenario \<Rightarrow> string \<Rightarrow> source_view" where
  "demo_source_view sc k =
     (let ago = (case as_num (jget (demo_probe_of sc k) ''lastMin'') of None \<Rightarrow> 0 | Some m \<Rightarrow> m)
      in \<lparr>sv_source = k, sv_state = presence_in sc k, sv_last_report_at = Some (StampZ (so_now sc - minutes_of ago))\<rparr>)"

definition observing_since :: "catalog \<Rightarrow> demo_error + stamp option" where
  "observing_since fx =
     bind_err (need fx ''meta'') (\<lambda>meta.
       let since = jget (as_dict meta) ''since''
       in if truthy since
          then (case iso_date (py_str since) of None \<Rightarrow> Inl DemoValueError | Some t \<Rightarrow> Inr (Some (StampZ t)))
          else Inr None)"

definition demo_status :: "demo_reader \<Rightarrow> scenario \<Rightarrow> string \<Rightarrow> demo_error + status_view" where
  "demo_status dr sc lang0 =
     (let lang = demo_lang lang0;
          active = filter (\<lambda>k. presence_in sc k = ''active'') SOURCE_KINDS;
          present = filter (\<lambda>k. presence_in sc k \<noteq> ''none'') SOURCE_KINDS
      in when_online sc
           (bind_err (observing_since (dr_catalog dr)) (\<lambda>since.
            bind_err (shown_note dr sc lang) (\<lambda>note.
            bind_err (map_err (demo_card sc lang) (so_servers sc)) (\<lambda>cards.
              Inr \<lparr>sw_state = state_named (plain_text (get_else (so_raw sc) ''overall'' (JStr ''unknown''))),
                   sw_freshness = demo_freshness (so_now sc) (jget (so_raw sc) ''freshnessMin''),
                   sw_coverage = round4 (of_nat (length active) / of_nat (length SOURCE_KINDS)),
                   sw_mode = (if truthy (jget (so_raw sc) ''demo'') then ''demo'' else ''live''),
                   sw_observing_since = since,
                   sw_recommended_server_id = as_str (jget (so_raw sc) ''recommended''),
                   sw_note = note, sw_servers = cards, sw_sources = map (demo_source_view sc) present\<rparr>)))))"

definition demo_server_view :: "(stamp \<Rightarrow> json) \<Rightarrow> scenario \<Rightarrow> string \<Rightarrow> string \<Rightarrow> demo_error + server_detail option" where
  "demo_server_view stamp_json sc server_id lang =
     when_online sc
       (case scenario_server sc server_id of
          None \<Rightarrow> Inr None
        | Some s \<Rightarrow> bind_err (demo_detail stamp_json sc (demo_lang lang) s) (\<lambda>x. Inr (Some x)))"

subsection \<open>Charts\<close>

definition chart_source :: "(rat \<Rightarrow> rat) \<Rightarrow> demo_server \<Rightarrow> string \<Rightarrow> demo_error + timedelta \<times> rat option list \<times> string list" where
  \<comment> \<open>\<open>step, series, segs\<close>\<close>
  "chart_source sine s period =
     (if period = ''24h'' then Inr (minutes 30, dv_series s, dv_segs s)
      else bind_err (need_num (dv_load s) ''awg'') (\<lambda>awg.
           bind_err (need_num (dv_raw s) ''seed'') (\<lambda>seed.
             let series = seeded sine \<lfloor>seed\<rfloor> (load_base awg) (3 + awg) 168 1;
                 segs = replicate 120 ''operational'' @ dv_segs s
             in Inr (hours 1, map (\<lambda>(i, x). if 120 \<le> i \<and> segs ! i = ''unknown'' then None else Some x) (enumerate 0 series), segs))))"

definition demo_metrics :: "(rat \<Rightarrow> rat) \<Rightarrow> scenario \<Rightarrow> string \<Rightarrow> string \<Rightarrow> demo_error + metrics_view option" where
  "demo_metrics sine sc server_id period =
     (case scenario_server sc server_id of
        None \<Rightarrow> Inr None
      | Some s \<Rightarrow>
          bind_err (chart_source sine s period) (\<lambda>(step, series, segs).
            let n = length series;
                pts = map (\<lambda>(i, x). \<lparr>mp_at = so_now sc - step * (int n - 1 - int i), mp_state = state_named (segs ! i),
                        mp_coverage = (if segs ! i = ''unknown'' then 0 else 1),
                        mp_connections = map_option (\<lambda>v. \<lfloor>v + 1 / 2\<rfloor>) x\<rparr>) (enumerate 0 series)
            in Inr (Some \<lparr>mv_server_id = server_id, mv_period = period,
                 mv_coverage = round4 (of_nat (length (filter (\<lambda>p. mp_coverage p \<noteq> 0) pts)) / of_nat n), mv_points = pts\<rparr>)))"

subsection \<open>Events\<close>

definition EVENT_KIND :: "(string \<times> string) list" where
  "EVENT_KIND = [(''stateChanged'', ''state_change''), (''sourceFailed'', ''monitoring''), (''recovered'', ''recovery''),
     (''note'', ''note''), (''addressUpdated'', ''configuration''), (''keysIssued'', ''configuration''), (''probeSilent'', ''monitoring'')]"

definition EVENT_SEVERITY :: "(string \<times> string) list" where
  "EVENT_SEVERITY = [(''ok'', ''info''), (''problem'', ''critical''), (''note'', ''info''), (''info'', ''info'')]"

definition demo_severity :: "jdict \<Rightarrow> string" where
  "demo_severity e =
     (if jget e ''kind'' = JStr ''stateChanged'' \<and> jget e ''state'' = JStr ''degraded'' then ''warning''
      else or_default ''info'' (map_of EVENT_SEVERITY (plain_text (jget e ''sev''))))"

definition event_params :: "(json \<Rightarrow> json) \<Rightarrow> jdict \<Rightarrow> jdict" where
  \<comment> \<open>the parameters; \<open>written\<close> is what becomes of the text\<close>
  "event_params written e =
     (if truthy (jget e ''state'') then [(''state'', jget e ''state'')] else []) @
     (if truthy (jget e ''source'') then [(''source'', jget e ''source'')] else []) @
     (if jget e ''text'' \<noteq> JNull then [(''text'', written (jget e ''text''))] else [])"

definition demo_event :: "scenario \<Rightarrow> string \<Rightarrow> nat \<times> json \<Rightarrow> demo_error + event_item" where
  "demo_event sc lang entry =
     (let (index, ev) = entry; e = as_dict ev
      in bind_err (time_at (so_now sc) (get_else e ''day'' (JInt 0)) (plain_text (get_else e ''time'' (JStr ''00:00'')))) (\<lambda>occurred.
           Inr \<lparr>evi_id = Uuid5 ''demo'' [KStr (so_id sc), KNat index, KStr (py_str (jget e ''kind'')), KStr (py_str (jget e ''day'')),
                  KStr (py_str (jget e ''time''))],
                evi_kind = or_default ''monitoring'' (map_of EVENT_KIND (plain_text (jget e ''kind''))),
                evi_severity = demo_severity e, evi_server_id = as_str (jget e ''server''),
                evi_title_key = ''events.'' @ py_str (jget e ''kind''),
                evi_params = event_params (\<lambda>v. JStr (demo_text v lang)) e, evi_occurred_at = StampZ occurred\<rparr>))"

definition wanted_event :: "string \<Rightarrow> event_item \<Rightarrow> bool" where
  "wanted_event filt e \<longleftrightarrow>
     (if filt = ''problems'' then evi_severity e \<in> {''warning'', ''critical''}
      else if filt = ''notes'' then evi_kind e = ''note'' else True)"

definition demo_event_list :: "scenario \<Rightarrow> string \<Rightarrow> string \<Rightarrow> demo_error + event_item list" where
  "demo_event_list sc filt lang =
     bind_err (map_err (demo_event sc lang) (enumerate 0 (so_events sc))) (\<lambda>items.
       Inr (filter (wanted_event filt) (order_desc evi_occurred_at items)))"

definition page_of :: "event_item list \<Rightarrow> string option \<Rightarrow> nat \<Rightarrow> event_page" where
  "page_of items cursor limit =
     (let start = cursor_offset cursor
      in \<lparr>ep_items = take limit (drop start items),
          ep_next_cursor = (if start + limit < length items then Some (show_nat (start + limit)) else None)\<rparr>)"

definition demo_events :: "scenario \<Rightarrow> string \<Rightarrow> string option \<Rightarrow> nat \<Rightarrow> string \<Rightarrow> demo_error + event_page" where
  "demo_events sc filt cursor limit lang =
     when_online sc
       (bind_err (demo_event_list sc filt (demo_lang lang)) (\<lambda>items.
          Inr (page_of items cursor limit)))"

definition demo_help :: "demo_reader \<Rightarrow> help_view" where
  "demo_help dr =
     \<lparr>hv_step_keys = [''help.step1'', ''help.step2'', ''help.step3'', ''help.step4''],
      hv_contact_available = (dr_contact_url dr \<noteq> None), hv_contact_url = dr_contact_url dr\<rparr>"

subsection \<open>Administration\<close>

definition demo_attention :: "string \<Rightarrow> json \<Rightarrow> demo_error + attention_item" where
  "demo_attention lang entry =
     (let a = as_dict entry
      in bind_err (need a ''sev'') (\<lambda>severity. bind_err (need a ''text'') (\<lambda>message.
           Inr \<lparr>at_severity = plain_text severity, at_code = plain_text (get_else a ''code'' (JStr ''ATTENTION'')),
                at_message = demo_text message lang, at_server_id = as_str (jget a ''server'')\<rparr>)))"

definition admin_attention :: "scenario \<Rightarrow> json list" where
  "admin_attention sc = (case so_admin sc of None \<Rightarrow> [] | Some a \<Rightarrow> da_attention a)"

definition demo_admin_server :: "(stamp \<Rightarrow> json) \<Rightarrow> scenario \<Rightarrow> string \<Rightarrow> string \<Rightarrow> demo_error + admin_detail option" where
  "demo_admin_server stamp_json sc server_id lang0 =
     (let lang = demo_lang lang0
      in case scenario_server sc server_id of
           None \<Rightarrow> Inr None
         | Some s \<Rightarrow>
             bind_err (map_err (demo_attention lang)
                        (filter (\<lambda>a. jget (as_dict a) ''server'' = JStr server_id) (admin_attention sc))) (\<lambda>items.
             bind_err (demo_detail stamp_json sc lang s) (\<lambda>x.
               Inr (Some \<lparr>ad_detail = x, ad_attention = map (\<lambda>a. take 80 (at_message a)) items, ad_attention_items = items,
                    ad_diagnostics =
                      (if truthy (jget (dv_raw s) ''diag'')
                       then [(''code'', JStr ''BLOCKED_IN_COUNTRY''), (''abroad_reachable'', JBool True), (''ssh_ok'', JBool True),
                             (''action_key'', JStr ''admin.diag.action'')]
                       else [])\<rparr>))))"

record demo_probe = probe_view +
  dp_queued_reports :: json

definition DEMO_CAPABILITIES :: "(string \<times> string list) list" where
  "DEMO_CAPABILITIES = [(''pc'', [''control_internet'', ''handshake'', ''https'']), (''android'', [''dns'', ''tcp'']), (''abroad'', [''handshake''])]"

definition DEMO_NETWORK :: "(string \<times> string) list" where
  "DEMO_NETWORK = [(''pc'', ''home''), (''android'', ''cellular''), (''abroad'', ''abroad'')]"

definition demo_probe_view :: "demo_reader \<Rightarrow> scenario \<Rightarrow> string \<times> jdict \<Rightarrow> demo_error + demo_probe" where
  \<comment> \<open>a probe without a version has none, for which the empty text stands\<close>
  "demo_probe_view dr sc entry =
     (let (kind, p) = entry; probe_id = ''probe-'' @ kind
      in case (map_of DEMO_CAPABILITIES kind, map_of DEMO_NETWORK kind) of
           (Some capabilities, Some network) \<Rightarrow>
             Inr \<lparr>pw_id = probe_id, pw_kind = kind,
               pw_status = (if probe_id \<in> set (dr_revoked dr) then ''revoked''
                            else if jget p ''session'' = JStr ''stopped'' then ''stopped''
                            else if jget p ''state'' = JStr ''unknown'' then ''stale'' else ''active''),
               pw_last_seen_at = map_option (\<lambda>m. StampZ (so_now sc - minutes_of m)) (as_num (jget p ''lastMin'')),
               pw_capabilities = capabilities, pw_agent_version = plain_text (jget p ''version''),
               pw_route_verified = (if kind = ''pc'' then as_bool (jget p ''route'') else None),
               pw_network_type = Some network, dp_queued_reports = jget p ''queue''\<rparr>
         | _ \<Rightarrow> Inl DemoKeyError)"

definition enrolled_probes :: "scenario \<Rightarrow> (string \<times> jdict) list" where
  "enrolled_probes sc =
     (case so_admin sc of
        None \<Rightarrow> []
      | Some a \<Rightarrow> filter (\<lambda>(k, p). jget p ''enrolled'' \<noteq> JBool False) (map (\<lambda>(k, v). (k, as_dict v)) (da_probes a)))"

definition demo_admin_probes :: "demo_reader \<Rightarrow> scenario \<Rightarrow> demo_error + demo_probe list" where
  "demo_admin_probes dr sc = map_err (demo_probe_view dr sc) (enrolled_probes sc)"

definition demo_doctor_item :: "string \<Rightarrow> json \<Rightarrow> demo_error + doctor_item" where
  \<comment> \<open>the empty text stands for no command\<close>
  "demo_doctor_item lang entry =
     (let it = as_dict entry
      in bind_err (need it ''name'') (\<lambda>name. bind_err (need it ''state'') (\<lambda>st.
           Inr \<lparr>di_check = plain_text name, di_state = plain_text st, di_next = demo_text (jget it ''next'') lang,
                di_command = plain_text (jget it ''cmd'')\<rparr>)))"

definition demo_admin_overview :: "scenario \<Rightarrow> string \<Rightarrow> demo_error + overview" where
  "demo_admin_overview sc lang0 =
     (let lang = demo_lang lang0;
          doctor = (case so_admin sc of
                      None \<Rightarrow> [(''result'', JStr ''ok''), (''items'', JArr [])]
                    | Some a \<Rightarrow> if truthy (da_doctor a) then as_dict (da_doctor a) else [(''result'', JStr ''ok''), (''items'', JArr [])]);
          command = (case so_admin sc of None \<Rightarrow> JNull | Some a \<Rightarrow> da_next_command a)
      in bind_err (map_err (demo_attention lang) (admin_attention sc)) (\<lambda>unsorted.
         bind_err (case sort_attention unsorted of Inl _ \<Rightarrow> Inl DemoKeyError | Inr items \<Rightarrow> Inr items) (\<lambda>items.
         bind_err (map_err (demo_doctor_item lang) (as_list (jget doctor ''items''))) (\<lambda>hints.
         bind_err (need doctor ''result'') (\<lambda>result.
           Inr \<lparr>ov_attention_items = items, ov_doctor_result = plain_text result, ov_doctor_items = hints,
                ov_next_command = (if truthy command then Some (plain_text command)
                                 else (case first_row hints of None \<Rightarrow> None | Some h \<Rightarrow> if di_command h = [] then None else Some (di_command h)))\<rparr>)))))"

definition demo_revoke_probe :: "demo_reader \<Rightarrow> string \<Rightarrow> bool \<times> demo_reader" where
  "demo_revoke_probe dr probe_id =
     (if probe_id \<notin> {''probe-pc'', ''probe-android'', ''probe-abroad''} then (False, dr)
      else (True, dr\<lparr>dr_revoked := probe_id # dr_revoked dr\<rparr>))"

definition demo_readiness :: "demo_reader \<Rightarrow> scenario \<Rightarrow> readiness_view" where
  "demo_readiness dr sc =
     (let mine = (case so_admin sc of None \<Rightarrow> [] | Some a \<Rightarrow> da_services a);
          defaults = as_dict (jget (as_dict (jget (as_dict (jget (dr_catalog dr) ''defaults'')) ''admin'')) ''services'');
          checks = map (\<lambda>(name, st). (name, \<lparr>rc_ok = (st = JStr ''ok''), rc_age_seconds = (if st = JStr ''ok'' then Some 0 else None)\<rparr>))
                     (if mine \<noteq> [] then mine else defaults)
      in \<lparr>rd_ready = list_all (\<lambda>(k, c). rc_ok c) checks, rd_checks = checks\<rparr>)"

subsection \<open>The interface of a read model\<close>

type_synonym demo_request = "(stamp \<Rightarrow> json) \<times> (rat \<Rightarrow> rat) \<times> demo_reader \<times> scenario"

definition demo_cards :: "demo_request \<Rightarrow> string \<Rightarrow> string \<Rightarrow> demo_error + card list" where
  "demo_cards v role lang = (case v of (stamp_json, sine, dr, sc) \<Rightarrow> bind_err (demo_status dr sc lang) (\<lambda>s. Inr (sw_servers s)))"

definition demo_details :: "demo_request \<Rightarrow> string \<Rightarrow> string \<Rightarrow> string \<Rightarrow> demo_error + server_detail option" where
  "demo_details v sid role lang = (case v of (stamp_json, sine, dr, sc) \<Rightarrow> demo_server_view stamp_json sc sid lang)"

definition demo_charts :: "demo_request \<Rightarrow> string \<Rightarrow> string \<Rightarrow> demo_error + metrics_view option" where
  "demo_charts v sid period = (case v of (stamp_json, sine, dr, sc) \<Rightarrow> demo_metrics sine sc sid period)"

definition demo_admin_details :: "demo_request \<Rightarrow> string \<Rightarrow> string \<Rightarrow> demo_error + admin_detail option" where
  "demo_admin_details v sid lang = (case v of (stamp_json, sine, dr, sc) \<Rightarrow> demo_admin_server stamp_json sc sid lang)"

lemma map_err_Inr: "map_err f xs = Inr ys \<longleftrightarrow> list_all2 (\<lambda>x y. f x = Inr y) xs ys"
  by (induction xs arbitrary: ys) (auto simp: bind_err_Inr list_all2_Cons1)

lemma map_err_member: "map_err f xs = Inr ys \<Longrightarrow> x \<in> set xs \<Longrightarrow> \<exists>y \<in> set ys. f x = Inr y"
  unfolding map_err_Inr by (auto simp: list_all2_conv_all_nth in_set_conv_nth)

lemma map_err_source: "map_err f xs = Inr ys \<Longrightarrow> y \<in> set ys \<Longrightarrow> \<exists>x \<in> set xs. f x = Inr y"
  by (induction xs arbitrary: ys) (auto simp: bind_err_Inr)

lemma map_err_keys: "map_err f xs = Inr ys \<Longrightarrow> (\<And>x y. f x = Inr y \<Longrightarrow> g y = h x) \<Longrightarrow> map g ys = map h xs"
  by (induction xs arbitrary: ys) (auto simp: bind_err_Inr)

lemma demo_card_id: "demo_card sc lang s = Inr c \<Longrightarrow> cd_id c = dv_id s"
  by (auto simp: demo_card_def Let_def bind_err_Inr case_prod_beta)

lemma demo_detail_card: "demo_detail stamp_json sc lang s = Inr x \<Longrightarrow> demo_card sc lang s = Inr (dl_card x)"
  by (auto simp: demo_detail_def bind_err_Inr)

lemma demo_status_cards:
  "demo_status dr sc lang = Inr v \<Longrightarrow> \<not> offline sc \<and> map_err (demo_card sc (demo_lang lang)) (so_servers sc) = Inr (sw_servers v)"
  by (auto simp: demo_status_def when_online_def Let_def bind_err_Inr split: if_splits)

lemma demo_cards_of:
  assumes "demo_cards (stamp_json, sine, dr, sc) role lang = Inr cs"
  shows "\<not> offline sc \<and> map_err (demo_card sc (demo_lang lang)) (so_servers sc) = Inr cs"
  using assms by (auto simp: demo_cards_def bind_err_Inr dest: demo_status_cards)

lemma demo_card_ids:
  assumes "demo_cards (stamp_json, sine, dr, sc) role lang = Inr cs"
  shows "map cd_id cs = map dv_id (so_servers sc)" and "cd_id ` set cs = dv_id ` set (so_servers sc)"
proof -
  show "map cd_id cs = map dv_id (so_servers sc)"
    by (rule map_err_keys [OF demo_cards_of [OF assms, THEN conjunct2]]) (rule demo_card_id)
  then show "cd_id ` set cs = dv_id ` set (so_servers sc)" by (metis image_set)
qed

lemma scenario_server_None: "scenario_server sc sid = None \<longleftrightarrow> sid \<notin> dv_id ` set (so_servers sc)"
  by (auto simp: scenario_server_def find_None_iff_none)

lemma scenario_server_Some: "scenario_server sc sid = Some s \<Longrightarrow> s \<in> set (so_servers sc) \<and> dv_id s = sid"
  by (auto simp: scenario_server_def dest: find_Some_in)

interpretation demo: read_view demo_cards demo_details demo_charts demo_admin_details
proof
  fix v :: demo_request and sid role lang period and cs x m r full
  obtain stamp_json sine dr sc where v: "v = (stamp_json, sine, dr, sc)" by (cases v)
  show "dl_card x \<in> set cs \<and> cd_id (dl_card x) = sid"
    if "demo_details v sid role lang = Inr (Some x)" and cs: "demo_cards v role lang = Inr cs"
  proof -
    from that(1) obtain s where s: "scenario_server sc sid = Some s" "demo_detail stamp_json sc (demo_lang lang) s = Inr x"
      by (auto simp: v demo_details_def demo_server_view_def when_online_def bind_err_Inr split: if_splits option.splits)
    note c = demo_detail_card [OF s(2)] and listed = scenario_server_Some [OF s(1)]
    from map_err_member [OF demo_cards_of [OF cs [unfolded v], THEN conjunct2]] listed c have "dl_card x \<in> set cs" by fastforce
    with demo_card_id [OF c] listed show ?thesis by simp
  qed
  show "sid \<notin> cd_id ` set cs" if "demo_details v sid role lang = Inr None" and cs: "demo_cards v role lang = Inr cs"
    using that(1) by (auto simp: v demo_details_def demo_server_view_def when_online_def bind_err_Inr scenario_server_None
        demo_card_ids(2) [OF cs [unfolded v]] split: if_splits option.splits)
  show "sid \<in> cd_id ` set cs \<and> mv_server_id m = sid \<and> mv_period m = period"
    if "demo_charts v sid period = Inr (Some m)" and cs: "demo_cards v ''member'' lang = Inr cs"
    using that(1) scenario_server_Some
    by (fastforce simp: v demo_charts_def demo_metrics_def bind_err_Inr Let_def demo_card_ids(2) [OF cs [unfolded v]] split: option.splits)
  show "sid \<notin> cd_id ` set cs" if "demo_charts v sid period = Inr None" and cs: "demo_cards v ''member'' lang = Inr cs"
    using that(1) by (auto simp: v demo_charts_def demo_metrics_def bind_err_Inr Let_def scenario_server_None
        demo_card_ids(2) [OF cs [unfolded v]] split: option.splits)
  show "map_option ad_detail r = full" if "demo_admin_details v sid lang = Inr r" "demo_details v sid ''admin'' lang = Inr full"
    using that by (auto simp: v demo_admin_details_def demo_admin_server_def demo_details_def demo_server_view_def when_online_def
        Let_def bind_err_Inr split: if_splits option.splits)
qed

interpretation demo_list: cursor_list "\<lambda>c. page_of items c limit" items limit for items limit
  by unfold_locales (simp_all add: page_of_def Let_def)

end
