(* ===== verification/Demo_Laws.thy ===== *)
theory Demo_Laws
  imports Demo_Screens
begin

text \<open>
  What the demonstration promises: every built server has a day of forty-eight buckets, the screens of a
  scenario agree with each other, and its events are paged like those of an installation.
\<close>

subsection \<open>The day of a server\<close>

lemma length_set_at: "set_at i v xs = Inr ys \<Longrightarrow> length ys = length xs"
  by (auto simp: set_at_def Let_def split: if_splits)

lemma length_mark_segment:
  assumes "mark_segment mark segs = Inr segs'"
  shows "length segs' = length segs"
proof -
  obtain a b st where "fold_err (\<lambda>i xs. set_at i (plain_text st) xs) [a..b] segs = Inr segs'"
    using assms by (auto simp: mark_segment_def split: json.splits list.splits)
  then show ?thesis by (rule fold_err_inv [rotated 2]) (auto dest: length_set_at)
qed

lemma length_gap_from:
  assumes "gap_from v (segs, series) = Inr (segs', series')"
  shows "length segs' = length segs \<and> length series' = length series"
proof (cases "\<exists>g. v = JInt g")
  case True
  then obtain g where "fold_err (\<lambda>i (segs, series). bind_err (set_at i ''unknown'' segs) (\<lambda>segs'.
      bind_err (set_at i None series) (\<lambda>series'. Inr (segs', series')))) [g..47] (segs, series) = Inr (segs', series')"
    using assms by (auto simp: gap_from_def)
  then have "(\<lambda>(a, b). length a = length segs \<and> length b = length series) (segs', series')"
    by (rule fold_err_inv [rotated 2]) (auto simp: bind_err_Inr dest!: length_set_at)
  then show ?thesis by simp
next
  case False
  with assms show ?thesis by (cases v) (auto simp: gap_from_def)
qed

definition whole_day :: "demo_server \<Rightarrow> bool" where
  "whole_day s \<longleftrightarrow> length (dv_segs s) = 48 \<and> length (dv_series s) = 48"

lemma built_server_day:
  assumes "build_server sine defaults base_s over = Inr s"
  shows "whole_day s"
proof -
  obtain series0 segs where marked: "fold_err mark_segment (as_list (jget over ''marks'')) (replicate 48 ''operational'') = Inr segs"
      and gap: "gap_from (jget over ''gapFrom'') (segs, series0) = Inr (dv_segs s, dv_series s)" and n: "length series0 = 48"
    using assms by (auto simp: build_server_def Let_def bind_err_Inr seeded_def)
  have "length segs = 48"
    using marked by (rule fold_err_inv [rotated 2]) (auto dest: length_mark_segment)
  with length_gap_from [OF gap] n show ?thesis by (simp add: whole_day_def)
qed

lemma built_days:
  assumes "build sine fx scenario_id now = Inr sc" "s \<in> set (so_servers sc)"
  shows "whole_day s"
proof -
  obtain m servers where servers: "build_servers sine fx m = Inr servers" "so_servers sc = servers"
    using assms(1) by (auto simp: build_def build_scenario_def bind_err_Inr split: option.splits)
  have "list_all whole_day servers"
  proof (cases "truthy (jget m ''empty'') \<or> truthy (jget m ''loading'') \<or> jget m ''api'' = JStr ''auth''")
    case True
    with servers(1) show ?thesis by (auto simp: build_servers_def)
  next
    case False
    with servers(1) obtain all_servers where
        "fold_err (\<lambda>base_s built.
             bind_err (need (as_dict base_s) ''id'') (\<lambda>sid.
               let over = as_dict (jget (as_dict (jget m ''servers'')) (plain_text sid))
               in if over = [] then Inr built
                  else bind_err (build_server sine (as_dict (jget fx ''defaults'')) (as_dict base_s) over) (\<lambda>s. Inr (built @ [s]))))
           (as_list all_servers) [] = Inr servers"
      by (auto simp: build_servers_def bind_err_Inr)
    then show ?thesis
      by (rule fold_err_inv [rotated 2]) (auto simp: bind_err_Inr Let_def dest: built_server_day split: if_splits)
  qed
  with assms(2) servers(2) show ?thesis by (simp add: list_all_iff)
qed

lemma run_start_spell: "\<forall>j. run_start segs i \<le> j \<and> j < i \<longrightarrow> segs ! j = segs ! 47"
  by (induction i) (auto simp: less_Suc_eq)

lemma run_start_begins: "run_start segs i \<noteq> 0 \<Longrightarrow> segs ! (run_start segs i - 1) \<noteq> segs ! 47"
  by (induction i) (auto split: if_splits)

subsection \<open>Cards and charts\<close>

lemma day_chart:
  assumes "whole_day s" "scenario_server sc sid = Some s" "demo_metrics sine sc sid ''24h'' = Inr r"
  shows "\<exists>m. r = Some m \<and> length (mv_points m) = 48 \<and>
    mv_coverage m = round4 (of_nat (length (filter (\<lambda>x. x \<noteq> ''unknown'') (dv_segs s))) / 48)"
proof -
  have segs: "map (\<lambda>i. dv_segs s ! i) [0..<48] = dv_segs s" using assms(1) map_nth [of "dv_segs s"] by (simp add: whole_day_def)
  have "length (filter (\<lambda>i. dv_segs s ! i \<noteq> ''unknown'') [0..<48]) = length (filter (\<lambda>x. x \<noteq> ''unknown'') (dv_segs s))"
    by (subst (2) segs [symmetric]) (simp only: filter_map length_map o_def)
  moreover have "length (filter (\<lambda>p. dv_segs s ! fst p \<noteq> ''unknown'') (enumerate 0 (dv_series s))) =
      length (filter (\<lambda>i. dv_segs s ! i \<noteq> ''unknown'') (map fst (enumerate 0 (dv_series s))))"
    by (simp only: filter_map length_map o_def)
  ultimately show ?thesis
    using assms by (auto simp: demo_metrics_def chart_source_def Let_def whole_day_def filter_map o_def case_prod_beta)
qed

lemma demo_card_coverage:
  "demo_card sc lang s = Inr c \<Longrightarrow>
   cd_coverage_24h c \<in> {None, Some (round4 (of_nat (length (filter (\<lambda>x. x \<noteq> ''unknown'') (dv_segs s))) / 48))}"
  by (cases "demo_state s = ''unknown'' \<and> filter (\<lambda>x. x \<noteq> ''unknown'') (dv_segs s) = []")
    (auto simp: demo_card_def Let_def bind_err_Inr case_prod_beta)

subsection \<open>Properties\<close>

text \<open>
  The screens of a demonstration agree: whatever scenario is built, a server of its status screen opens
  with the very card of the list, and its chart of a day has forty-eight points whose coverage is the one the
  card states, if it states one.
\<close>

theorem demo_screens_agree:
  assumes "build sine (dr_catalog dr) scenario_id now = Inr sc" "demo_status dr sc lang = Inr v" "c \<in> set (sw_servers v)"
    and "distinct (map dv_id (so_servers sc))"
    and "demo_server_view stamp_json sc (cd_id c) lang = Inr r" "demo_metrics sine sc (cd_id c) ''24h'' = Inr chart"
  shows "\<exists>x m. r = Some x \<and> dl_card x = c \<and> chart = Some m \<and> length (mv_points m) = 48 \<and>
    cd_coverage_24h c \<in> {None, Some (mv_coverage m)}"
proof -
  let ?v = "(stamp_json, sine, dr, sc)"
  have listed: "demo_cards ?v role lang = Inr (sw_servers v)" for role using assms(2) by (simp add: demo_cards_def)
  have "distinct (map cd_id (sw_servers v))" using demo_card_ids(1) [OF listed] assms(4) by simp
  then obtain x where x: "r = Some x" "dl_card x = c"
    using demo.every_card_opens [OF listed assms(3)] assms(5) by (force simp: demo_details_def)
  with assms(5) obtain s where s: "scenario_server sc (cd_id c) = Some s" "demo_detail stamp_json sc (demo_lang lang) s = Inr x"
    by (auto simp: demo_server_view_def when_online_def bind_err_Inr split: if_splits option.splits)
  have "whole_day s" using built_days [OF assms(1)] scenario_server_Some [OF s(1)] by simp
  from day_chart [OF this s(1) assms(6)] demo_card_coverage [OF demo_detail_card [OF s(2)]] x show ?thesis by auto
qed

text \<open>
  The events of a demonstration are paged like those of an installation: following the cursor gives the
  selected events, each once and newest first.
\<close>

theorem demo_events_complete:
  assumes "demo_event_list sc filt (demo_lang lang) = Inr items" "0 < limit" "length items < fuel" "\<not> offline sc"
  shows "(let pages = pages_of fuel (\<lambda>c. page_of items c limit) None
     in concat (map ep_items pages) = items \<and> ep_next_cursor (last pages) = None \<and>
        list_all (\<lambda>p. length (ep_items p) \<le> limit) pages) \<and>
     demo_events sc filt cursor limit lang = Inr (page_of items cursor limit) \<and>
     sorted_wrt (\<lambda>a b. evi_occurred_at b \<le> evi_occurred_at a) items \<and> list_all (wanted_event filt) items"
proof -
  obtain found where found: "items = filter (wanted_event filt) (order_desc evi_occurred_at found)"
    using assms(1) by (auto simp: demo_event_list_def bind_err_Inr)
  have "sorted_wrt (\<lambda>a b. evi_occurred_at b \<le> evi_occurred_at a) (order_desc evi_occurred_at found)"
    using sorted_sort_key [of evi_occurred_at] unfolding order_desc_def sorted_wrt_rev by (simp add: sorted_map)
  then have "sorted_wrt (\<lambda>a b. evi_occurred_at b \<le> evi_occurred_at a) items" unfolding found by (rule sorted_wrt_filter)
  moreover have "list_all (wanted_event filt) items" by (simp add: found list_all_iff)
  ultimately show ?thesis
    using demo_list.pages_items [OF assms(2), of items fuel None] assms demo_list.pages_size [of limit fuel items None]
    by (simp add: Let_def demo_events_def when_online_def)
qed

subsection \<open>A small fixture\<close>

definition sample_fixture :: catalog where
  "sample_fixture =
     [(''meta'', JObj [(''since'', JStr ''2026-06-06'')]),
      (''servers'', JArr [JObj [(''id'', JStr ''s1''), (''name'', JObj [(''ru'', JStr ''R''), (''en'', JStr ''Server 1'')]), (''cc'', JStr ''lv''),
         (''protocols'', JArr [JStr ''awg'']), (''seed'', JInt 1),
         (''keys'', JObj [(''issued'', JInt 10), (''ever'', JInt 7), (''active'', JInt 4)])]]),
      (''eventSets'', JObj [(''base'', JArr
         [JObj [(''kind'', JStr ''recovered''), (''server'', JStr ''s1''), (''day'', JInt 0), (''time'', JStr ''08:02''), (''sev'', JStr ''ok'')],
          JObj [(''kind'', JStr ''sourceFailed''), (''server'', JStr ''s1''), (''source'', JStr ''mobile''), (''day'', JInt 0),
                (''time'', JStr ''07:41''), (''sev'', JStr ''problem'')]])]),
      (''defaults'', JObj
        [(''load'', JObj [(''s1'', JObj [(''awg'', JInt 0), (''mbit'', JInt 0), (''cpu'', JInt 4), (''ram'', JInt 20), (''swap'', JInt 2),
            (''peak'', JInt 5), (''lastConnMin'', JInt 180)])]),
         (''sourcesOk'', JObj [(''pc'', JObj [(''r'', JStr ''ok''), (''age'', JInt 1)]), (''mobile'', JObj [(''r'', JStr ''ok''), (''age'', JInt 4)]),
            (''abroad'', JObj [(''r'', JStr ''ok''), (''age'', JInt 1)])]),
         (''admin'', JObj [(''probes'', JObj [(''pc'', JObj [(''state'', JStr ''ok''), (''lastMin'', JInt 1)])]),
            (''services'', JObj [(''collector'', JStr ''ok'')]), (''doctor'', JObj [(''result'', JStr ''ok''), (''items'', JArr [])]),
            (''enrollCode'', JStr ''7K4Q''), (''attention'', JArr [])])]),
      (''scenarios'', JObj [(''operational'', JObj
         [(''overall'', JStr ''operational''), (''freshnessMin'', JInt 1), (''recommended'', JStr ''s1''), (''events'', JStr ''base''),
          (''servers'', JObj [(''s1'', JObj [(''state'', JStr ''operational''), (''uptime24'', JStr ''99,1%'')])])])])]"

definition sample_reader :: demo_reader where
  "sample_reader = \<lparr>dr_catalog = sample_fixture, dr_default_scenario = ''operational'', dr_contact_url = None, dr_notes = None, dr_revoked = []\<rparr>"

lemma sample_merged: "merged sample_fixture ''operational'' = Some (raw_scenario sample_fixture ''operational'')"
proof -
  have "parent_of (raw_scenario sample_fixture ''operational'') = None" by code_simp
  then show ?thesis by (simp add: merged.simps)
qed

definition sample_shown :: "rat option list \<Rightarrow> demo_server" where
  "sample_shown series =
     \<lparr>dv_raw = merge_dicts (as_dict (hd (as_list (jget sample_fixture ''servers''))))
          [(''state'', JStr ''operational''), (''uptime24'', JStr ''99,1%'')],
      dv_load = as_dict (jget (as_dict (jget (as_dict (jget sample_fixture ''defaults'')) ''load'')) ''s1''),
      dv_sources = map (\<lambda>(k, v). (k, as_dict v)) (as_dict (jget (as_dict (jget sample_fixture ''defaults'')) ''sourcesOk'')),
      dv_series = series, dv_segs = replicate 48 ''operational''\<rparr>"

definition sample_scenario :: "rat option list \<Rightarrow> scenario" where
  "sample_scenario series =
     \<lparr>so_id = ''operational'', so_raw = raw_scenario sample_fixture ''operational'', so_servers = [sample_shown series],
      so_events = as_list (jget (as_dict (jget sample_fixture ''eventSets'')) ''base''),
      so_admin = (case build_admin sample_fixture (raw_scenario sample_fixture ''operational'') of Inr a \<Rightarrow> a),
      so_presence = [(''pc'', ''active''), (''mobile'', ''none''), (''abroad'', ''none'')], so_now = 1000000000000000\<rparr>"

definition has_answer :: "'e + 'a \<Rightarrow> bool" where
  "has_answer r = (case r of Inl _ \<Rightarrow> False | Inr _ \<Rightarrow> True)"

definition sample_base :: jdict where
  "sample_base = as_dict (hd (as_list (jget sample_fixture ''servers'')))"

definition sample_over :: jdict where
  "sample_over = [(''state'', JStr ''operational''), (''uptime24'', JStr ''99,1%'')]"

lemma sample_server_built:
  "build_server sine (as_dict (jget sample_fixture ''defaults'')) sample_base sample_over =
     Inr (sample_shown (map Some (seeded sine 1 (load_base 0) 3 48 (1 / 2))))"
  by (simp add: sample_fixture_def sample_base_def sample_over_def build_server_def build_sources_def SOURCE_KINDS_def merge_dicts_def
      need_def need_num_def gap_from_def sample_shown_def)

lemma sample_parts:
  "build_events sample_fixture (raw_scenario sample_fixture ''operational'') = Inr (so_events (sample_scenario []))"
  "build_admin sample_fixture (raw_scenario sample_fixture ''operational'') = Inr (so_admin (sample_scenario []))"
  "map (\<lambda>k. (k, presence_of (as_dict (jget (raw_scenario sample_fixture ''operational'') ''sources''))
       (so_admin (sample_scenario [])) k)) SOURCE_KINDS = so_presence (sample_scenario [])"
  by code_simp+

lemma sample_servers_built:
  "build_servers sine sample_fixture (raw_scenario sample_fixture ''operational'') =
     Inr [sample_shown (map Some (seeded sine 1 (load_base 0) 3 48 (1 / 2)))]"
proof -
  have "need sample_fixture ''servers'' = Inr (JArr [JObj sample_base])" "need sample_base ''id'' = Inr (JStr ''s1'')"
    "as_dict (jget (as_dict (jget (raw_scenario sample_fixture ''operational'') ''servers'')) ''s1'') = sample_over" "sample_over \<noteq> []"
    "\<not> truthy (jget (raw_scenario sample_fixture ''operational'') ''empty'')"
    "\<not> truthy (jget (raw_scenario sample_fixture ''operational'') ''loading'')"
    "jget (raw_scenario sample_fixture ''operational'') ''api'' \<noteq> JStr ''auth''" by code_simp+
  then show ?thesis by (simp add: build_servers_def Let_def sample_server_built)
qed

lemma sample_scenario_fields:
  "sample_scenario series =
     \<lparr>so_id = ''operational'', so_raw = raw_scenario sample_fixture ''operational'', so_servers = [sample_shown series],
      so_events = so_events (sample_scenario []), so_admin = so_admin (sample_scenario []),
      so_presence = so_presence (sample_scenario []), so_now = 1000000000000000\<rparr>"
  by (simp only: sample_scenario_def scenario.simps)

lemma sample_scenario_built:
  "build sine sample_fixture ''operational'' 1000000000000000 =
     Inr (sample_scenario (map Some (seeded sine 1 (load_base 0) 3 48 (1 / 2))))"
  unfolding build_def sample_merged option.case build_scenario_def sample_servers_built sample_parts bind_err.simps
  by (simp only: sample_scenario_fields [of "map Some (seeded sine 1 (load_base 0) 3 48 (1 / 2))"])

theorem demo_screens_agree_witness:
  "\<exists>sc v c m. build (\<lambda>_. 0) sample_fixture ''operational'' 1000000000000000 = Inr sc \<and> demo_status sample_reader sc ''en'' = Inr v \<and>
     c \<in> set (sw_servers v) \<and> demo_metrics (\<lambda>_. 0) sc (cd_id c) ''24h'' = Inr (Some m) \<and>
     cd_coverage_24h c \<in> {None, Some (mv_coverage m)}"
proof -
  obtain series where built: "build (\<lambda>_. 0) sample_fixture ''operational'' 1000000000000000 = Inr (sample_scenario series)"
    using sample_scenario_built by blast
  have "has_answer (demo_status sample_reader (sample_scenario series) ''en'')"
    "has_answer (demo_server_view (\<lambda>_. JNull) (sample_scenario series) ''s1'' ''en'')" by code_simp+
  then obtain v r where v: "demo_status sample_reader (sample_scenario series) ''en'' = Inr v"
      and r: "demo_server_view (\<lambda>_. JNull) (sample_scenario series) ''s1'' ''en'' = Inr r"
    by (auto simp: has_answer_def split: sum.splits)
  have ids: "map dv_id (so_servers (sample_scenario series)) = [''s1'']" by code_simp
  have "demo_cards ((\<lambda>_. JNull), (\<lambda>_. 0), sample_reader, sample_scenario series) ''member'' ''en'' = Inr (sw_servers v)"
    using v by (simp add: demo_cards_def)
  from demo_card_ids(1) [OF this] ids have "map cd_id (sw_servers v) = [''s1'']" by simp
  then obtain c where c: "c \<in> set (sw_servers v)" "cd_id c = ''s1''" by auto
  have "\<exists>chart. demo_metrics (\<lambda>_. 0) (sample_scenario series) ''s1'' ''24h'' = Inr chart"
    by (cases "scenario_server (sample_scenario series) ''s1''") (simp_all add: demo_metrics_def chart_source_def Let_def)
  then obtain chart where chart: "demo_metrics (\<lambda>_. 0) (sample_scenario series) ''s1'' ''24h'' = Inr chart" ..
  from demo_screens_agree [of "\<lambda>_. 0" sample_reader "''operational''" 1000000000000000 "sample_scenario series" "''en''" v c
      "\<lambda>_. JNull" r chart] built v c r chart ids show ?thesis
    by (fastforce simp: sample_reader_def)
qed

theorem demo_events_complete_witness:
  "\<exists>items. demo_event_list (sample_scenario []) ''all'' ''en'' = Inr items \<and> items \<noteq> [] \<and>
     concat (map ep_items (pages_of 3 (\<lambda>c. page_of items c 1) None)) = items"
proof -
  have "case demo_event_list (sample_scenario []) ''all'' (demo_lang ''en'') of Inl _ \<Rightarrow> False | Inr items \<Rightarrow> length items = 2" by code_simp
  then obtain items where "demo_event_list (sample_scenario []) ''all'' (demo_lang ''en'') = Inr items" "length items = 2"
    by (auto split: sum.splits)
  moreover have "\<not> offline (sample_scenario [])" by code_simp
  ultimately show ?thesis
    using demo_events_complete [of "sample_scenario []" "''all''" "''en''" items 1 3] by (auto simp: demo_lang_def Let_def)
qed

end
