(* ===== verification/Demo_Seed.thy ===== *)
theory Demo_Seed
  imports Demo_Laws
begin

text \<open>
  Writing a demonstration into a real database (src/src/vpnpulse/dev/seed.py): the configuration of a
  scenario and the rows collectors, probes and the evaluator would have left behind. The statements run in one
  transaction, so an error leaves the database as it was; \<open>b"seed"\<close> is, like the token of a scripted probe, no
  digest of anything. \<open>uid_text\<close> is the text of an identifier, \<open>stamp_json\<close> of an instant.
\<close>

subsection \<open>The configuration\<close>

definition configured_entry :: "scenario \<Rightarrow> nat \<times> json \<Rightarrow> demo_error + server_config list" where
  "configured_entry sc entry =
     (let (index, b) = entry; base = as_dict b
      in bind_err (need base ''id'') (\<lambda>sid.
           let server_id = plain_text sid
           in if scenario_server sc server_id = None then Inr []
              else bind_err (need base ''name'') (\<lambda>name. bind_err (need base ''cc'') (\<lambda>cc.
                     Inr [\<lparr>sc_id = server_id,
                           sc_type = (if jget (as_dict (jget base ''system'')) ''engine'' = JStr ''module'' then ''awg-host'' else ''awg-docker''),
                           sc_enabled = Some True, sc_name = name, sc_country_code = upper (plain_text cc),
                           sc_collector_ref = Some (''collector-'' @ server_id), sc_recommended_priority = Some (10 * (int index + 1))\<rparr>]))))"

definition config_for :: "catalog \<Rightarrow> scenario \<Rightarrow> string option \<Rightarrow> demo_error + config" where
  "config_for fx sc contact_url =
     bind_err (need fx ''servers'') (\<lambda>servers.
     bind_err (map_err (configured_entry sc) (enumerate 0 (as_list servers))) (\<lambda>entries.
       Inr \<lparr>cfg_servers = concat entries, cfg_freshness_seconds = Some 180, cfg_collection_interval_seconds = Some 60,
            cfg_confirmations = Some 2, cfg_quiet_notice_seconds = None, cfg_pc_target_interval_seconds = Some 60,
            cfg_observations_days = Some 7, cfg_events_days = Some 180, cfg_analytics_raw_days = Some 30, cfg_audit_days = Some 365,
            cfg_aggregates_days = Some 90, cfg_default_language = Some ''ru'',
            cfg_admin_contact_url = (case contact_url of None \<Rightarrow> None | Some u \<Rightarrow> if u = [] then None else Some u)\<rparr>))"

subsection \<open>Statements\<close>

definition seed_id :: "key_part list \<Rightarrow> uid" where
  \<comment> \<open>\<open>_uid\<close>\<close>
  "seed_id parts = Uuid5 ''seed'' parts"

definition stored_or :: "sql_error + 'a \<Rightarrow> demo_error + 'a" where
  "stored_or r = (case r of Inl _ \<Rightarrow> Inl DemoIntegrityError | Inr x \<Rightarrow> Inr x)"

definition FRESHNESS :: timedelta where
  "FRESHNESS = seconds 180"

definition seed_server_row :: "server_row \<Rightarrow> db \<Rightarrow> demo_error + db" where
  "seed_server_row row d = bind_err (stored_or (insert_row srv_id row (db_servers d))) (\<lambda>rows. Inr (d\<lparr>db_servers := rows\<rparr>))"

definition seed_protocol :: "protocol_row \<Rightarrow> db \<Rightarrow> demo_error + db" where
  "seed_protocol row d =
     (if list_ex (\<lambda>p. pr_server_id p = pr_server_id row \<and> pr_kind p = pr_kind row) (db_protocols d) then Inl DemoIntegrityError
      else bind_err (stored_or (insert_row pr_id row (db_protocols d))) (\<lambda>rows. Inr (d\<lparr>db_protocols := rows\<rparr>)))"

definition seed_observation :: "uid \<Rightarrow> string \<Rightarrow> string \<Rightarrow> string \<Rightarrow> datetime \<Rightarrow> string \<Rightarrow> json \<Rightarrow> string option \<Rightarrow> db \<Rightarrow> demo_error + db" where
  \<comment> \<open>\<open>_OBS_SQL\<close>: observed and received at the same instant\<close>
  "seed_observation i server_id source scope moment result payload code d =
     (case insert_observation
             \<lparr>ob_id = i, ob_server_id = server_id, ob_source_kind = source, ob_network_scope = scope, ob_observed_at = StampZ moment,
              ob_received_at = StampZ moment, ob_result = result, ob_fresh_until = StampZ (moment + FRESHNESS), ob_confidence = ''sufficient'',
              ob_metrics = Some payload, ob_error_code = code, ob_run_id = None, ob_report_id = None\<rparr> d of
        Inl _ \<Rightarrow> Inl DemoIntegrityError | Inr d' \<Rightarrow> Inr d')"

definition seed_snapshot :: "snapshot_row \<Rightarrow> db \<Rightarrow> demo_error + db" where
  "seed_snapshot row d =
     (if sn_server_id row \<notin> known_servers d then Inl DemoIntegrityError
      else bind_err (stored_or (insert_row sn_scope_key row (db_snapshots d))) (\<lambda>rows. Inr (d\<lparr>db_snapshots := rows\<rparr>)))"

definition reason_of :: "string \<Rightarrow> demo_error + string" where
  \<comment> \<open>\<open>REASON_OF[state]\<close>\<close>
  "reason_of st =
     (if st = ''operational'' then Inr ''FULL_SUCCESS_CONFIRMED'' else if st = ''degraded'' then Inr ''CONFLICTING_FRESH_EVIDENCE''
      else if st = ''unavailable'' then Inr ''FULL_TEST_FAILURE_CONFIRMED'' else if st = ''unknown'' then Inr ''NO_FRESH_EVIDENCE''
      else Inl DemoKeyError)"

definition seed_transition :: "string \<Rightarrow> string \<Rightarrow> key_part \<Rightarrow> string \<Rightarrow> string \<Rightarrow> datetime \<Rightarrow> db \<Rightarrow> demo_error + db" where
  \<comment> \<open>\<open>_TR_SQL\<close>; the evidence is the empty dictionary\<close>
  "seed_transition scenario_id server_id part from_st to_st moment d =
     bind_err (reason_of to_st) (\<lambda>reason.
       let row = \<lparr>tr_id = seed_id [KStr scenario_id, KStr server_id, KStr ''tr'', part], tr_scope_key = ''server:'' @ server_id,
                  tr_from_state = state_named from_st, tr_to_state = state_named to_st, tr_reason_code = reason, tr_opened_at = StampZ moment,
                  tr_confirmed_at = StampZ moment, tr_closed_at = None,
                  tr_dedupe_key = seed_id [KStr scenario_id, KStr server_id, KStr ''dedupe'', part], tr_evidence = (0, 0)\<rparr>
       in if tr_dedupe_key row \<in> tr_dedupe_key ` set (db_transitions d) then Inl DemoIntegrityError
          else bind_err (stored_or (insert_row tr_id row (db_transitions d))) (\<lambda>rows. Inr (d\<lparr>db_transitions := rows\<rparr>)))"

subsection \<open>Observations\<close>

definition seed_result :: "string \<Rightarrow> demo_error + string" where
  \<comment> \<open>\<open>RESULT_OF[r]\<close>\<close>
  "seed_result r =
     (if r = ''ok'' then Inr ''success'' else if r \<in> {''fail'', ''partial''} then Inr ''failure''
      else if r = ''unknown'' then Inr ''not_run'' else Inl DemoKeyError)"

definition rounded :: "rat \<Rightarrow> json" where
  "rounded x = JInt \<lfloor>x + 1 / 2\<rfloor>"

definition payload_details :: "(stamp \<Rightarrow> json) \<Rightarrow> datetime \<Rightarrow> demo_server \<Rightarrow> demo_error + jdict" where
  "payload_details stamp_json now s =
     bind_err (map_err (\<lambda>w. component_of (as_dict w)) (as_list (jget (dv_raw s) ''software''))) (\<lambda>components.
     bind_err (demo_resources (dv_load s)) (\<lambda>resources.
     bind_err (need (dv_raw s) ''keys'') (\<lambda>keys.
     bind_err (demo_profiles stamp_json now (as_dict keys) (dv_load s)) (\<lambda>profiles.
       Inr [(''resources'', JObj resources), (''profiles'', JObj profiles), (''components'', JArr components),
            (''service_checks'', JArr (service_checks (as_dict (jget (dv_raw s) ''system''))))]))))"

definition seed_payload :: "(stamp \<Rightarrow> json) \<Rightarrow> datetime \<Rightarrow> demo_server \<Rightarrow> bool \<Rightarrow> rat option \<Rightarrow> demo_error + jdict" where
  \<comment> \<open>\<open>_collector_payload\<close>, with the value of the series in place of the load\<close>
  "seed_payload stamp_json now s with_details v =
     bind_err (need (dv_load s) ''awg'') (\<lambda>awg.
     bind_err (need (dv_raw s) ''protocols'') (\<lambda>protocols.
       let ld = dv_load s;
           shown = (case v of None \<Rightarrow> awg | Some x \<Rightarrow> rounded x);
           connections = (''amneziawg'', shown) #
             (if JStr ''xray'' \<in> set (as_list protocols)
              then [(''xray_reality'', if truthy (jget ld ''xrayKnown'') then jget ld ''xray'' else JNull)] else [])
       in bind_err (if with_details then payload_details stamp_json now s else Inr []) (\<lambda>more.
            Inr ((''connections'', JObj connections) # more))))"

definition latest_seen :: "scenario \<Rightarrow> demo_server \<Rightarrow> datetime" where
  "latest_seen sc s =
     (let stale = jget (dv_raw s) ''staleMin'';
          shown = (if demo_state s = ''unknown'' then jget (so_raw sc) ''freshnessMin'' else JInt 1);
          mins = json_or stale (json_or shown (JInt 1))
      in so_now sc - minutes_of (case as_num mins of None \<Rightarrow> 1 | Some m \<Rightarrow> m))"

definition seed_week :: "(rat \<Rightarrow> rat) \<Rightarrow> scenario \<Rightarrow> demo_server \<Rightarrow> db \<Rightarrow> demo_error + db" where
  "seed_week sine sc s d =
     bind_err (need_num (dv_load s) ''awg'') (\<lambda>awg. bind_err (need_num (dv_raw s) ''seed'') (\<lambda>seed.
       let week = seeded sine \<lfloor>seed\<rfloor> (load_base awg) (3 + awg) 168 1
       in fold_err (\<lambda>i d. seed_observation (seed_id [KStr (so_id sc), KStr (dv_id s), KStr ''col'', KNat i]) (dv_id s) ''collector'' ''all''
              (so_now sc - hours (168 - int i) + minutes 30) ''success''
              (JObj [(''connections'', JObj [(''amneziawg'', rounded (week ! i))])]) None d) [0..<144] d))"

definition day_extras :: "scenario \<Rightarrow> demo_server \<Rightarrow> jdict" where
  \<comment> \<open>what only the newest observation carries: findings and diagnostics\<close>
  "day_extras sc s =
     (let mine = filter (\<lambda>a. jget (as_dict a) ''server'' = JStr (dv_id s)) (admin_attention sc)
      in (if mine = [] then []
          else [(''attention'', JArr (map (\<lambda>a. JObj [(''severity'', jget (as_dict a) ''sev''),
                   (''code'', get_else (as_dict a) ''code'' (JStr ''ATTENTION'')), (''message'', jget (as_dict a) ''text'')]) mine))]) @
         (if truthy (jget (dv_raw s) ''diag'')
          then [(''diagnostics'', JObj [(''code'', JStr ''BLOCKED_IN_COUNTRY''), (''abroad_reachable'', JBool True), (''ssh_ok'', JBool True),
                  (''action_key'', JStr ''admin.diag.action'')])]
          else []))"

definition seed_bucket :: "(stamp \<Rightarrow> json) \<Rightarrow> scenario \<Rightarrow> demo_server \<Rightarrow> nat \<Rightarrow> db \<times> datetime \<Rightarrow> demo_error + db \<times> datetime" where
  \<comment> \<open>one half hour of the last day; the newest observation is fresh only when the timeline reaches the present\<close>
  "seed_bucket stamp_json sc s i both =
     (let (d, last_obs_at) = both
      in if dv_segs s ! i = ''unknown'' then Inr (d, last_obs_at)
         else let moment = so_now sc - minutes (30 * (48 - int i)) + minutes 15;
                  final = (i = 47 \<or> list_all (\<lambda>x. x = ''unknown'') (drop (i + 1) (dv_segs s)));
                  obs_at = (if final \<and> i = 47 then latest_seen sc s else moment)
              in bind_err (seed_payload stamp_json (so_now sc) s final (dv_series s ! i)) (\<lambda>payload.
                 bind_err (seed_observation (seed_id [KStr (so_id sc), KStr (dv_id s), KStr ''col24'', KNat i]) (dv_id s) ''collector'' ''all''
                     obs_at ''success'' (JObj (payload @ (if final then day_extras sc s else []))) None d) (\<lambda>d'.
                   Inr (d', max last_obs_at obs_at))))"

definition seed_source :: "scenario \<Rightarrow> demo_server \<Rightarrow> string \<Rightarrow> db \<Rightarrow> demo_error + db" where
  "seed_source sc s k d =
     (let src = or_default [] (map_of (dv_sources s) k)
      in if presence_in sc k = ''none'' then Inr d
         else case as_num (jget src ''age'') of
                None \<Rightarrow> Inr d
              | Some age \<Rightarrow>
                  bind_err (need src ''r'') (\<lambda>r. bind_err (seed_result (plain_text r)) (\<lambda>result.
                    seed_observation (seed_id [KStr (so_id sc), KStr (dv_id s), KStr k]) (dv_id s) k
                      (if k \<noteq> ''abroad'' then ''country'' else ''abroad'') (so_now sc - minutes_of age) result
                      (JObj (if k = ''abroad'' then [(''via_server_id'', jget (dv_raw s) ''abroadFrom'')] else [])) (detail_code src) d)))"

definition seed_people :: "scenario \<Rightarrow> demo_server \<Rightarrow> db \<Rightarrow> demo_error + db" where
  "seed_people sc s d =
     (if confirmed_by_people s
      then seed_observation (seed_id [KStr (so_id sc), KStr (dv_id s), KStr ''humans'']) (dv_id s) ''human_activity'' ''all''
             (so_now sc - minutes 1) ''success'' (JObj []) None d
      else Inr d)"

subsection \<open>State\<close>

definition seed_state :: "scenario \<Rightarrow> demo_server \<Rightarrow> datetime \<Rightarrow> db \<Rightarrow> demo_error + db" where
  "seed_state sc s last_obs_at d =
     (let observed = (if demo_state s = ''unknown'' then min (latest_seen sc s) last_obs_at else latest_seen sc s)
      in bind_err (reason_of (demo_state s)) (\<lambda>reason.
           seed_snapshot \<lparr>sn_scope_key = ''server:'' @ dv_id s, sn_server_id = dv_id s, sn_network_scope = ''all'',
             sn_state = state_named (demo_state s), sn_reason_code = reason, sn_confidence = ''sufficient'',
             sn_observed_at = Some (StampZ observed), sn_evaluated_at = StampZ (so_now sc),
             sn_fresh_until = Some (StampZ (observed + FRESHNESS)), sn_evidence = (1, 1), sn_version = 1\<rparr> d))"

definition seed_change :: "scenario \<Rightarrow> demo_server \<Rightarrow> nat \<Rightarrow> db \<times> string \<Rightarrow> demo_error + db \<times> string" where
  "seed_change sc s i both =
     (let (d, prev) = both; st = dv_segs s ! i
      in if st = prev then Inr (d, prev)
         else bind_err (seed_transition (so_id sc) (dv_id s) (KNat i) prev st (so_now sc - minutes (30 * (48 - int i)) + seconds 1) d)
                (\<lambda>d'. Inr (d', st)))"

definition seed_changes :: "scenario \<Rightarrow> demo_server \<Rightarrow> db \<Rightarrow> demo_error + db" where
  "seed_changes sc s d =
     bind_err (fold_err (seed_change sc s) [0..<48] (d, ''operational'')) (\<lambda>(d', prev).
       if prev = demo_state s then Inr d'
       else seed_transition (so_id sc) (dv_id s) (KStr ''final'') prev (demo_state s) (so_now sc - minutes 1) d')"

subsection \<open>A server\<close>

definition seed_kind :: "scenario \<Rightarrow> demo_server \<Rightarrow> string \<Rightarrow> db \<Rightarrow> demo_error + db" where
  "seed_kind sc s kind d =
     seed_protocol \<lparr>pr_id = dv_id s @ '':'' @ kind, pr_server_id = dv_id s, pr_kind = kind, pr_label_key = ''server.protocol.'' @ kind,
       pr_enabled = True,
       pr_coverage_state = (if truthy (get_else (dv_load s) ''xrayKnown'' (JBool True)) \<or> kind = ''amneziawg'' then ''complete'' else ''partial''),
       pr_created_at = StampZ (so_now sc - days 30), pr_updated_at = StampZ (so_now sc)\<rparr> d"

definition seed_server :: "(rat \<Rightarrow> rat) \<Rightarrow> (stamp \<Rightarrow> json) \<Rightarrow> config \<Rightarrow> scenario \<Rightarrow> nat \<times> demo_server \<Rightarrow> db \<Rightarrow> demo_error + db" where
  "seed_server sine stamp_json cfg sc entry d =
     (let (order, s) = entry
      in bind_err (case find (\<lambda>c. sc_id c = dv_id s) (cfg_servers cfg) of None \<Rightarrow> Inl DemoStopIteration | Some c \<Rightarrow> Inr (sc_type c)) (\<lambda>kind_of.
         bind_err (seed_server_row \<lparr>srv_id = dv_id s, srv_public_id = dv_id s, srv_type = kind_of, srv_enabled = True,
             srv_display_order = order + 1, srv_created_at = StampZ (so_now sc - days 30), srv_updated_at = StampZ (so_now sc)\<rparr> d) (\<lambda>d1.
         bind_err (need (dv_raw s) ''protocols'') (\<lambda>protocols.
         bind_err (fold_err (seed_kind sc s) (''amneziawg'' # (if JStr ''xray'' \<in> set (as_list protocols) then [''xray_reality''] else [])) d1) (\<lambda>d2.
         bind_err (seed_week sine sc s d2) (\<lambda>d3.
         bind_err (fold_err (seed_bucket stamp_json sc s) [0..<48] (d3, so_now sc - hours 25)) (\<lambda>(d4, last_obs_at).
         bind_err (fold_err (seed_source sc s) SOURCE_KINDS d4) (\<lambda>d5.
         bind_err (seed_people sc s d5) (\<lambda>d6.
         bind_err (seed_state sc s last_obs_at d6) (\<lambda>d7.
           seed_changes sc s d7))))))))))"

subsection \<open>Events, the note, probes and the run\<close>

definition seed_event :: "scenario \<Rightarrow> nat \<times> json \<Rightarrow> db \<Rightarrow> demo_error + db" where
  "seed_event sc entry d =
     (let (index, ev) = entry; e = as_dict ev; server = as_str (jget e ''server'')
      in bind_err (time_at (so_now sc) (get_else e ''day'' (JInt 0)) (py_str (get_else e ''time'' (JStr ''00:00'')))) (\<lambda>moment.
           if (case server of None \<Rightarrow> False | Some i \<Rightarrow> i \<notin> known_servers d) then Inl DemoIntegrityError
           else bind_err (stored_or (insert_row evt_id
                  \<lparr>evt_id = seed_id [KStr (so_id sc), KStr ''event'', KNat index],
                   evt_kind = or_default ''monitoring'' (map_of EVENT_KIND (plain_text (jget e ''kind''))), evt_severity = demo_severity e,
                   evt_server_id = server, evt_transition_id = None, evt_title_key = ''events.'' @ py_str (jget e ''kind''),
                   evt_params = event_params (\<lambda>v. v) e, evt_occurred_at = StampZ moment, evt_visible_to = ''member'',
                   evt_created_at = StampZ moment\<rparr> (db_events d))) (\<lambda>rows. Inr (d\<lparr>db_events := rows\<rparr>))))"

definition seed_note :: "scenario \<Rightarrow> db \<Rightarrow> demo_error + db" where
  \<comment> \<open>the insert checks the length of the text\<close>
  "seed_note sc d =
     (let note = as_dict (jget (so_raw sc) ''note'')
      in if note = [] then Inr d
         else bind_err (clock_time (plain_text (get_else note ''time'' (JStr ''00:00'')))) (\<lambda>clock.
              bind_err (if truthy (jget note ''expires'')
                        then bind_err (clock_time (plain_text (jget note ''expires''))) (\<lambda>c. Inr (Some (StampZ (date_of (so_now sc) + c))))
                        else Inr None) (\<lambda>expires.
              bind_err (need note ''text'') (\<lambda>content.
                let created = StampZ (date_of (so_now sc) + clock);
                    written = take 500 (case content of JObj t \<Rightarrow> plain_text (jget t ''ru'') | _ \<Rightarrow> plain_text content)
                in if written = [] then Inl DemoIntegrityError
                   else bind_err (stored_or (insert_row nt_id
                          \<lparr>nt_id = seed_id [KStr (so_id sc), KStr ''note''], nt_server_id = None, nt_text = written, nt_status = ''active'',
                           nt_starts_at = created, nt_expires_at = expires, nt_created_by_role = ''admin'', nt_created_at = created,
                           nt_updated_at = created\<rparr> (db_notes d))) (\<lambda>rows. Inr (d\<lparr>db_notes := rows\<rparr>))))))"

definition seed_probe :: "(uid \<Rightarrow> string) \<Rightarrow> scenario \<Rightarrow> string \<times> jdict \<Rightarrow> db \<Rightarrow> demo_error + db" where
  "seed_probe uid_text sc entry d =
     (let (kind, p) = entry; probe_id = ''probe-'' @ kind;
          version = plain_text (json_or (jget p ''version'') (JStr ''0.1''));
          last_seen = map_option (\<lambda>m. StampZ (so_now sc - minutes_of m)) (as_num (jget p ''lastMin''));
          row = \<lparr>pb_id = probe_id, pb_public_id = probe_id, pb_kind = kind,
                 pb_status = (if jget p ''session'' = JStr ''stopped'' then ''stopped'' else ''active''),
                 pb_capabilities = or_default [] (map_of DEMO_CAPABILITIES kind), pb_token_hash = ScriptToken, pb_token_prefix = ''seed'',
                 pb_schema_major = 1, pb_agent_version = version, pb_enrolled_at = StampZ (so_now sc - days 7), pb_last_seen_at = last_seen,
                 pb_revoked_at = None, pb_via_server_id = None\<rparr>
      in if probe_id \<in> pb_public_id ` set (db_probes d) then Inl DemoIntegrityError
         else bind_err (stored_or (insert_row pb_id row (db_probes d))) (\<lambda>rows.
              let d1 = d\<lparr>db_probes := rows\<rparr>
              in case last_seen of
                   None \<Rightarrow> Inr d1
                 | Some seen \<Rightarrow>
                     (case map_of DEMO_NETWORK kind of
                        None \<Rightarrow> Inl DemoKeyError
                      | Some network \<Rightarrow>
                          bind_err (stored_or (insert_row rep_id
                            \<lparr>rep_id = uid_text (seed_id [KStr (so_id sc), KStr ''report'', KStr kind]), rep_probe_id = probe_id,
                             rep_schema_version = 1, rep_agent_version = version, rep_observed_at = seen, rep_received_at = seen,
                             rep_network_type = network, rep_ip_family = ''ipv4'',
                             rep_route_verified = truthy (get_else p ''route'' (JBool True)), rep_payload_hash = ScriptToken,
                             rep_result = ''ok'', rep_not_run_reason = None\<rparr> (db_reports d1))) (\<lambda>reports.
                            Inr (d1\<lparr>db_reports := reports\<rparr>)))))"

definition seed_run :: "(uid \<Rightarrow> string) \<Rightarrow> scenario \<Rightarrow> db \<Rightarrow> demo_error + db" where
  \<comment> \<open>a finished collection run when there is something to collect\<close>
  "seed_run uid_text sc d =
     (let services = (case so_admin sc of None \<Rightarrow> [] | Some a \<Rightarrow> da_services a)
      in if so_servers sc = [] \<or> get_else services ''collector'' (JStr ''ok'') \<noteq> JStr ''ok'' then Inr d
         else bind_err (stored_or (insert_row run_id
                \<lparr>run_id = seed_id [KStr (so_id sc), KStr ''run''], run_started_at = StampZ (so_now sc - seconds 70),
                 run_finished_at = Some (StampZ (so_now sc - seconds 60)), run_result = Some ''ok'',
                 run_trace_id = uid_text (seed_id [KStr (so_id sc), KStr ''trace'']), run_duration_ms = Some 1200,
                 run_error_code = None\<rparr> (db_runs d))) (\<lambda>rows. Inr (d\<lparr>db_runs := rows\<rparr>)))"

definition seed_built :: "(rat \<Rightarrow> rat) \<Rightarrow> (stamp \<Rightarrow> json) \<Rightarrow> (uid \<Rightarrow> string) \<Rightarrow> config \<Rightarrow> scenario \<Rightarrow> db \<Rightarrow> demo_error + db" where
  \<comment> \<open>the transaction\<close>
  "seed_built sine stamp_json uid_text cfg sc d =
     bind_err (fold_err (seed_server sine stamp_json cfg sc) (enumerate 0 (so_servers sc)) d) (\<lambda>d1.
     bind_err (fold_err (seed_event sc) (enumerate 0 (so_events sc)) d1) (\<lambda>d2.
     bind_err (seed_note sc d2) (\<lambda>d3.
     bind_err (fold_err (seed_probe uid_text sc) (enrolled_probes sc) d3) (\<lambda>d4.
       seed_run uid_text sc d4))))"

definition seed_scenario ::
  "(rat \<Rightarrow> rat) \<Rightarrow> (stamp \<Rightarrow> json) \<Rightarrow> (uid \<Rightarrow> string) \<Rightarrow> catalog \<Rightarrow> string \<Rightarrow> datetime \<Rightarrow> string option \<Rightarrow> db \<Rightarrow> demo_error + config \<times> db" where
  "seed_scenario sine stamp_json uid_text fx scenario_id now contact_url d =
     bind_err (build sine fx scenario_id now) (\<lambda>sc.
     bind_err (config_for fx sc contact_url) (\<lambda>cfg.
     bind_err (seed_built sine stamp_json uid_text cfg sc d) (\<lambda>d'. Inr (cfg, d'))))"

subsection \<open>Only the state of a server writes snapshots\<close>

named_theorems seed_frames

lemma seed_server_row_snapshots [seed_frames]: "seed_server_row row d = Inr d' \<Longrightarrow> db_snapshots d' = db_snapshots d"
  by (auto simp: seed_server_row_def bind_err_Inr)

lemma seed_protocol_snapshots [seed_frames]: "seed_protocol row d = Inr d' \<Longrightarrow> db_snapshots d' = db_snapshots d"
  by (auto simp: seed_protocol_def bind_err_Inr split: if_splits)

lemma seed_observation_snapshots [seed_frames]: "seed_observation i server_id source scope t result payload code d = Inr d' \<Longrightarrow> db_snapshots d' = db_snapshots d"
  by (auto simp: seed_observation_def insert_observation_def split: if_splits option.splits sum.splits)

lemma seed_transition_snapshots [seed_frames]: "seed_transition scenario_id server_id part a b t d = Inr d' \<Longrightarrow> db_snapshots d' = db_snapshots d"
  by (auto simp: seed_transition_def bind_err_Inr Let_def split: if_splits)

lemma fold_err_frame:
  assumes "fold_err f xs a = Inr b" "\<And>x a b. f x a = Inr b \<Longrightarrow> g b = g a"
  shows "g b = g a"
  by (rule fold_err_inv [where I = "\<lambda>e. g e = g a" and f = f, OF _ refl assms(1)]) (simp add: assms(2))

lemma seed_week_snapshots [seed_frames]: "seed_week sine sc s d = Inr d' \<Longrightarrow> db_snapshots d' = db_snapshots d"
  unfolding seed_week_def bind_err_Inr Let_def
  by (elim exE conjE) (erule fold_err_frame [where g = db_snapshots], erule seed_observation_snapshots)

lemma seed_bucket_snapshots [seed_frames]: "seed_bucket stamp_json sc s i (d, t) = Inr (d', t') \<Longrightarrow> db_snapshots d' = db_snapshots d"
  by (auto simp: seed_bucket_def bind_err_Inr Let_def dest: seed_frames split: if_splits)

lemma seed_source_snapshots [seed_frames]: "seed_source sc s k d = Inr d' \<Longrightarrow> db_snapshots d' = db_snapshots d"
  by (auto simp: seed_source_def bind_err_Inr Let_def dest: seed_frames split: if_splits option.splits)

lemma seed_people_snapshots [seed_frames]: "seed_people sc s d = Inr d' \<Longrightarrow> db_snapshots d' = db_snapshots d"
  by (auto simp: seed_people_def dest: seed_frames split: if_splits)

lemma seed_change_snapshots [seed_frames]: "seed_change sc s i (d, p) = Inr (d', p') \<Longrightarrow> db_snapshots d' = db_snapshots d"
  by (auto simp: seed_change_def bind_err_Inr Let_def dest: seed_frames split: if_splits)

lemma seed_changes_snapshots [seed_frames]:
  assumes "seed_changes sc s d = Inr d'"
  shows "db_snapshots d' = db_snapshots d"
proof -
  obtain d1 prev where f: "fold_err (seed_change sc s) [0..<48] (d, ''operational'') = Inr (d1, prev)"
      and rest: "db_snapshots d' = db_snapshots d1"
    using assms by (auto simp: seed_changes_def bind_err_Inr dest: seed_frames split: if_splits)
  have "db_snapshots (fst (d1, prev)) = db_snapshots (fst (d, ''operational''))"
    by (rule fold_err_frame [OF f]) (auto dest: seed_change_snapshots)
  with rest show ?thesis by simp
qed

lemma seed_event_snapshots [seed_frames]: "seed_event sc entry d = Inr d' \<Longrightarrow> db_snapshots d' = db_snapshots d"
  by (auto simp: seed_event_def bind_err_Inr Let_def case_prod_beta split: if_splits)

lemma seed_note_snapshots [seed_frames]: "seed_note sc d = Inr d' \<Longrightarrow> db_snapshots d' = db_snapshots d"
  by (auto simp: seed_note_def bind_err_Inr Let_def split: if_splits)

lemma seed_probe_snapshots [seed_frames]: "seed_probe uid_text sc entry d = Inr d' \<Longrightarrow> db_snapshots d' = db_snapshots d"
  by (cases entry; cases "as_num (jget (snd entry) ''lastMin'')"; cases "map_of DEMO_NETWORK (fst entry)")
    (auto simp: seed_probe_def bind_err_Inr Let_def split: if_splits)

lemma seed_run_snapshots [seed_frames]: "seed_run uid_text sc d = Inr d' \<Longrightarrow> db_snapshots d' = db_snapshots d"
  by (auto simp: seed_run_def bind_err_Inr Let_def split: if_splits)

subsection \<open>The snapshot of each server\<close>

definition snapshot_for :: "scenario \<Rightarrow> demo_server \<Rightarrow> snapshot_row \<Rightarrow> bool" where
  "snapshot_for sc s row \<longleftrightarrow>
     sn_scope_key row = server_key (dv_id s) \<and> sn_state row = state_named (demo_state s) \<and>
     (\<exists>observed. sn_fresh_until row = Some (StampZ (observed + FRESHNESS)) \<and> (demo_state s \<noteq> ''unknown'' \<longrightarrow> observed = latest_seen sc s))"

lemma seed_state_snapshots:
  assumes "seed_state sc s t d = Inr d'"
  shows "\<exists>row. db_snapshots d' = db_snapshots d @ [row] \<and> snapshot_for sc s row \<and> sn_scope_key row \<notin> sn_scope_key ` set (db_snapshots d)"
  using assms
  by (auto simp: seed_state_def seed_snapshot_def bind_err_Inr Let_def stored_or_def insert_row_Inr snapshot_for_def server_key_def
      split: if_splits sum.splits)

lemma seed_server_snapshots:
  assumes "seed_server sine stamp_json cfg sc (order, s) d = Inr d'"
  shows "(\<exists>row. db_snapshots d' = db_snapshots d @ [row] \<and> snapshot_for sc s row \<and> sn_scope_key row \<notin> sn_scope_key ` set (db_snapshots d)) \<and>
    dv_id s \<in> sc_id ` set (cfg_servers cfg)"
proof -
  obtain c d1 kinds d2 d3 d4 t d5 d6 d7 where configured: "find (\<lambda>c. sc_id c = dv_id s) (cfg_servers cfg) = Some c"
      and steps: "db_snapshots d1 = db_snapshots d" "fold_err (seed_kind sc s) kinds d1 = Inr d2" "seed_week sine sc s d2 = Inr d3"
        "fold_err (seed_bucket stamp_json sc s) [0..<48] (d3, so_now sc - hours 25) = Inr (d4, t)"
        "fold_err (seed_source sc s) SOURCE_KINDS d4 = Inr d5" "seed_people sc s d5 = Inr d6"
      and state: "seed_state sc s t d6 = Inr d7" and rest: "seed_changes sc s d7 = Inr d'"
    using assms by (auto simp: seed_server_def bind_err_Inr simp del: fold_err.simps(2) dest!: seed_server_row_snapshots split: option.splits)
  have "db_snapshots d2 = db_snapshots d1"
    using steps(2) by (rule fold_err_frame) (auto simp: seed_kind_def dest: seed_protocol_snapshots)
  moreover have "db_snapshots (fst (d4, t)) = db_snapshots (fst (d3, so_now sc - hours 25))"
    using steps(4) by (rule fold_err_frame) (auto dest: seed_bucket_snapshots)
  moreover have "db_snapshots d5 = db_snapshots d4"
    using steps(5) by (rule fold_err_frame) (rule seed_source_snapshots)
  ultimately have "db_snapshots d6 = db_snapshots d"
    using steps(1) seed_week_snapshots [OF steps(3)] seed_people_snapshots [OF steps(6)] by simp
  with seed_state_snapshots [OF state] seed_changes_snapshots [OF rest] find_Some_in [OF configured] show ?thesis by force
qed

lemma seed_servers_snapshots:
  "fold_err (seed_server sine stamp_json cfg sc) entries d = Inr d' \<Longrightarrow> distinct (map sn_scope_key (db_snapshots d)) \<Longrightarrow>
   \<exists>rows. db_snapshots d' = db_snapshots d @ rows \<and> list_all2 (snapshot_for sc) (map snd entries) rows \<and>
     distinct (map sn_scope_key (db_snapshots d')) \<and> dv_id ` snd ` set entries \<subseteq> sc_id ` set (cfg_servers cfg)"
proof (induction entries arbitrary: d)
  case (Cons entry entries)
  obtain order s where entry: "entry = (order, s)" by (cases entry)
  from Cons.prems(1) obtain d1 where d1: "seed_server sine stamp_json cfg sc (order, s) d = Inr d1"
      "fold_err (seed_server sine stamp_json cfg sc) entries d1 = Inr d'" by (auto simp: entry bind_err_Inr)
  from seed_server_snapshots [OF d1(1)] obtain row where row: "db_snapshots d1 = db_snapshots d @ [row]" "snapshot_for sc s row"
      "sn_scope_key row \<notin> sn_scope_key ` set (db_snapshots d)" "dv_id s \<in> sc_id ` set (cfg_servers cfg)" by blast
  with Cons.prems(2) have "distinct (map sn_scope_key (db_snapshots d1))" by simp
  from Cons.IH [OF d1(2) this] obtain rows where "db_snapshots d' = db_snapshots d1 @ rows"
      "list_all2 (snapshot_for sc) (map snd entries) rows" "distinct (map sn_scope_key (db_snapshots d'))"
      "dv_id ` snd ` set entries \<subseteq> sc_id ` set (cfg_servers cfg)" by blast
  with row entry show ?case by (intro exI [of _ "row # rows"]) auto
qed simp

lemma seeded_snapshots:
  assumes "seed_built sine stamp_json uid_text cfg sc d = Inr d'" "db_snapshots d = []"
  shows "list_all2 (snapshot_for sc) (so_servers sc) (db_snapshots d') \<and> distinct (map sn_scope_key (db_snapshots d')) \<and>
    dv_id ` set (so_servers sc) \<subseteq> sc_id ` set (cfg_servers cfg)"
proof -
  obtain d1 d2 d3 d4 where servers: "fold_err (seed_server sine stamp_json cfg sc) (enumerate 0 (so_servers sc)) d = Inr d1"
      and events: "fold_err (seed_event sc) (enumerate 0 (so_events sc)) d1 = Inr d2" and written: "seed_note sc d2 = Inr d3"
      and probes: "fold_err (seed_probe uid_text sc) (enrolled_probes sc) d3 = Inr d4" and run: "seed_run uid_text sc d4 = Inr d'"
    using assms(1) unfolding seed_built_def bind_err_Inr by blast
  have "db_snapshots d2 = db_snapshots d1" using events by (rule fold_err_frame) (rule seed_event_snapshots)
  moreover have "db_snapshots d4 = db_snapshots d3" using probes by (rule fold_err_frame) (rule seed_probe_snapshots)
  ultimately have same: "db_snapshots d' = db_snapshots d1"
    using seed_note_snapshots [OF written] seed_run_snapshots [OF run] by simp
  have "map snd (enumerate 0 (so_servers sc)) = so_servers sc" by simp
  then have "dv_id ` snd ` set (enumerate 0 (so_servers sc)) = dv_id ` set (so_servers sc)" by (metis image_set)
  with seed_servers_snapshots [OF servers] assms(2) same show ?thesis by auto
qed

subsection \<open>The installation shows the scenario\<close>

text \<open>
  A demonstration written into a database is shown by the read model of an installation as the
  demonstration shows it: the servers of the scenario, each in its state, provided the scenario does not call
  a state other than unknown outdated.
\<close>

lemma configured_servers:
  assumes "config_for fx sc contact_url = Inr cfg" "c \<in> set (cfg_servers cfg)"
  shows "sc_id c \<in> dv_id ` set (so_servers sc) \<and> is_enabled c"
proof -
  obtain servers entries where "map_err (configured_entry sc) (enumerate 0 (as_list servers)) = Inr entries" "cfg_servers cfg = concat entries"
    using assms(1) by (auto simp: config_for_def bind_err_Inr)
  with assms(2) obtain e found where "configured_entry sc e = Inr found" "c \<in> set found" by (auto dest: map_err_source)
  then show ?thesis
    by (auto simp: configured_entry_def Let_def bind_err_Inr case_prod_beta is_enabled_def scenario_server_None split: if_splits)
qed

lemma snapshot_found:
  assumes "list_all2 (snapshot_for sc) servers rows" "distinct (map sn_scope_key rows)" "db_snapshots d = rows" "s \<in> set servers"
  shows "\<exists>row. snapshot_row_of d (server_key (dv_id s)) = Some row \<and> snapshot_for sc s row"
proof -
  obtain row where row: "row \<in> set rows" "snapshot_for sc s row"
    using assms(1,4) by (metis in_set_conv_nth list_all2_conv_all_nth)
  have "find (\<lambda>r. sn_scope_key r = sn_scope_key row) rows = Some row"
    using assms(2) row(1) by (intro find_unique) (auto simp: unique_def)
  with row assms(3) show ?thesis by (auto simp: snapshot_row_of_def snapshot_for_def)
qed

lemma seeded_card_state:
  assumes "snapshot_row_of d (server_key (sc_id c)) = Some row" "snapshot_for sc s row"
    and "demo_state s = ''unknown'' \<or> so_now sc \<le> latest_seen sc s + FRESHNESS"
  shows "cd_state (card_of d c (so_now sc) r) = state_named (demo_state s)"
  using assms by (auto simp: snapshot_for_def is_stale_def dt_def)

lemma seeded_states:
  assumes "seed_scenario sine stamp_json uid_text (dr_catalog dr) scenario_id now contact_url d = Inr (cfg, d')" "db_snapshots d = []"
    and "build sine (dr_catalog dr) scenario_id now = Inr sc" "demo_status dr sc lang = Inr v"
    and "rs_config rs = cfg"
    and "\<forall>s \<in> set (so_servers sc). demo_state s = ''unknown'' \<or> now \<le> latest_seen sc s + FRESHNESS"
  shows "cd_id ` set (sw_servers (status rs d' now lang)) = cd_id ` set (sw_servers v) \<and>
    (\<forall>c \<in> set (sw_servers (status rs d' now lang)). \<exists>c' \<in> set (sw_servers v). cd_id c' = cd_id c \<and> cd_state c' = cd_state c)"
proof -
  have now: "so_now sc = now"
    using assms(3) by (auto simp: build_def build_scenario_def bind_err_Inr split: option.splits)
  have cfg: "config_for (dr_catalog dr) sc contact_url = Inr cfg" and built: "seed_built sine stamp_json uid_text cfg sc d = Inr d'"
    using assms(1,3) by (auto simp: seed_scenario_def bind_err_Inr)
  note snapshots = seeded_snapshots [OF built assms(2)]
  have cards: "map_err (demo_card sc (demo_lang lang)) (so_servers sc) = Inr (sw_servers v)"
    using demo_status_cards [OF assms(4)] by blast
  have "map cd_id (sw_servers v) = map dv_id (so_servers sc)" by (rule map_err_keys [OF cards]) (rule demo_card_id)
  then have ids: "cd_id ` set (sw_servers v) = dv_id ` set (so_servers sc)" by (metis image_set)
  have enabled: "enabled_servers cfg = cfg_servers cfg"
    using configured_servers [OF cfg] by (simp add: enabled_servers_def filter_id_conv)
  have "sc_id ` set (enabled_servers (rs_config rs)) = dv_id ` set (so_servers sc)"
    using configured_servers [OF cfg] snapshots unfolding assms(5) enabled by blast
  then have same: "cd_id ` set (sw_servers (status rs d' now lang)) = cd_id ` set (sw_servers v)" by (simp add: card_ids ids)
  moreover have "\<exists>c' \<in> set (sw_servers v). cd_id c' = cd_id c \<and> cd_state c' = cd_state c"
    if shown: "c \<in> set (sw_servers (status rs d' now lang))" for c
  proof -
    obtain sc' where sc': "cd_id c = sc_id sc'" "cd_state c = cd_state (card_of d' sc' now None)"
      using shown by (auto simp: status_selects status_cards_def)
    from shown same ids obtain s where s: "s \<in> set (so_servers sc)" "dv_id s = cd_id c" by (metis imageE imageI)
    obtain row where row: "snapshot_row_of d' (server_key (dv_id s)) = Some row" "snapshot_for sc s row"
      using snapshot_found [OF _ _ refl s(1)] snapshots by blast
    have "cd_state c = state_named (demo_state s)"
      using seeded_card_state [OF _ row(2), of d' sc' None] row(1) s assms(6) now sc' by simp
    moreover obtain c' where "c' \<in> set (sw_servers v)" "demo_card sc (demo_lang lang) s = Inr c'"
      using map_err_member [OF cards s(1)] by blast
    moreover from this have "cd_state c' = state_named (demo_state s)" "cd_id c' = dv_id s"
      by (auto simp: demo_card_def Let_def bind_err_Inr case_prod_beta)
    ultimately show ?thesis using s(2) by metis
  qed
  ultimately show ?thesis by blast
qed

subsection \<open>Seeding succeeds\<close>

text \<open>Inserting rows with keys that are distinct and new never fails.\<close>

lemma fold_insert_ok:
  assumes "\<And>x a. x \<in> set xs \<Longrightarrow> P a \<Longrightarrow> key x \<notin> ids a \<Longrightarrow> \<exists>b. f x a = Inr b \<and> ids b \<subseteq> insert (key x) (ids a) \<and> P b"
    and "distinct (map key xs)" "key ` set xs \<inter> ids a = {}" "P a"
  shows "\<exists>b. fold_err f xs a = Inr b \<and> ids b \<subseteq> ids a \<union> key ` set xs \<and> P b"
  using assms
proof (induction xs arbitrary: a)
  case (Cons x xs)
  obtain b where b: "f x a = Inr b" "ids b \<subseteq> insert (key x) (ids a)" "P b"
    using Cons.prems(1) [of x a] Cons.prems(3,4) by auto
  have "\<exists>c. fold_err f xs b = Inr c \<and> ids c \<subseteq> ids b \<union> key ` set xs \<and> P c"
  proof (rule Cons.IH)
    show "\<exists>b. f y a = Inr b \<and> ids b \<subseteq> insert (key y) (ids a) \<and> P b" if "y \<in> set xs" "P a" "key y \<notin> ids a" for y a
      using Cons.prems(1) that by simp
    show "distinct (map key xs)" using Cons.prems(2) by simp
    have "key y \<notin> ids b" if "y \<in> set xs" for y
    proof -
      have "key y \<in> key ` set xs" using that by (rule imageI)
      then have "key y \<noteq> key x" "key y \<notin> ids a" using Cons.prems(2,3) by (auto simp del: image_iff)
      with b(2) show ?thesis by blast
    qed
    then show "key ` set xs \<inter> ids b = {}" by blast
    show "P b" by (rule b(3))
  qed
  with b show ?case by auto
qed simp

definition observed_ids :: "db \<Rightarrow> uid set" where
  "observed_ids d = ob_id ` set (db_observations d)"

definition only_observations :: "db \<Rightarrow> db \<Rightarrow> bool" where
  "only_observations d d' \<longleftrightarrow> d' = d\<lparr>db_observations := db_observations d'\<rparr>"

lemma only_observations_trans: "only_observations a b \<Longrightarrow> only_observations b c \<Longrightarrow> only_observations a c"
  unfolding only_observations_def by (metis (no_types, lifting) db.surjective db.update_convs(6))

lemma only_observations_refl [simp]: "only_observations d d"
  by (simp add: only_observations_def)

lemma only_observations_known: "only_observations d d' \<Longrightarrow> known_servers d' = known_servers d"
  unfolding only_observations_def known_servers_def by (metis db.ext_inject db.surjective db.update_convs(6))

lemma seed_observation_ok:
  assumes "server_id \<in> known_servers d" "i \<notin> observed_ids d"
  shows "\<exists>d'. seed_observation i server_id source scope t result payload code d = Inr d' \<and>
    observed_ids d' = insert i (observed_ids d) \<and> only_observations d d'"
  using assms
  by (auto simp: seed_observation_def insert_observation_def insert_row_def observed_ids_def only_observations_def)

definition seed_key :: "scenario \<Rightarrow> demo_server \<Rightarrow> key_part list \<Rightarrow> uid" where
  "seed_key sc s parts = seed_id (KStr (so_id sc) # KStr (dv_id s) # parts)"

lemma seed_key_inj [simp]: "seed_key sc s a = seed_key sc s b \<longleftrightarrow> a = b"
  by (simp add: seed_key_def seed_id_def)

lemma seed_week_ok:
  assumes "need_num (dv_load s) ''awg'' = Inr awg" "need_num (dv_raw s) ''seed'' = Inr seed" "dv_id s \<in> known_servers d"
    and "\<forall>i. seed_key sc s [KStr ''col'', KNat i] \<notin> observed_ids d"
  shows "\<exists>d'. seed_week sine sc s d = Inr d' \<and> only_observations d d' \<and>
    observed_ids d' \<subseteq> observed_ids d \<union> range (\<lambda>i. seed_key sc s [KStr ''col'', KNat i])"
proof -
  let ?week = "seeded sine \<lfloor>seed\<rfloor> (load_base awg) (3 + awg) 168 1"
  let ?f = "\<lambda>i d. seed_observation (seed_id [KStr (so_id sc), KStr (dv_id s), KStr ''col'', KNat i]) (dv_id s) ''collector'' ''all''
      (so_now sc - hours (168 - int i) + minutes 30) ''success'' (JObj [(''connections'', JObj [(''amneziawg'', rounded (?week ! i))])]) None d"
  let ?key = "\<lambda>i. seed_key sc s [KStr ''col'', KNat i]"
  have "\<exists>b. fold_err ?f [0..<144] d = Inr b \<and> observed_ids b \<subseteq> observed_ids d \<union> ?key ` set [0..<144] \<and> only_observations d b"
  proof (rule fold_insert_ok)
    show "\<exists>b. ?f i a = Inr b \<and> observed_ids b \<subseteq> insert (?key i) (observed_ids a) \<and> only_observations d b"
      if "only_observations d a" "?key i \<notin> observed_ids a" for i a
      using seed_observation_ok [of "dv_id s" a "?key i"] only_observations_known [OF that(1)] that(2) assms(3) only_observations_trans [OF that(1)]
      by (fastforce simp: seed_key_def)
  qed (use assms(4) in \<open>auto simp: distinct_map inj_on_def\<close>)
  then show ?thesis using assms(1,2) by (fastforce simp: seed_week_def)
qed

lemma seed_buckets_ok:
  assumes "\<forall>i final. \<exists>p. seed_payload stamp_json (so_now sc) s final (dv_series s ! i) = Inr p" "dv_id s \<in> known_servers d"
    and "\<forall>i. seed_key sc s [KStr ''col24'', KNat i] \<notin> observed_ids d"
  shows "\<exists>d' t'. fold_err (seed_bucket stamp_json sc s) [0..<48] (d, t) = Inr (d', t') \<and> only_observations d d' \<and>
    observed_ids d' \<subseteq> observed_ids d \<union> range (\<lambda>i. seed_key sc s [KStr ''col24'', KNat i])"
proof -
  let ?key = "\<lambda>i. seed_key sc s [KStr ''col24'', KNat i]"
  have "\<exists>b. fold_err (seed_bucket stamp_json sc s) [0..<48] (d, t) = Inr b \<and>
      observed_ids (fst b) \<subseteq> observed_ids (fst (d, t)) \<union> ?key ` set [0..<48] \<and> only_observations d (fst b)"
  proof (rule fold_insert_ok [where ids = "\<lambda>b. observed_ids (fst b)" and P = "\<lambda>b. only_observations d (fst b)"])
    show "\<exists>b. seed_bucket stamp_json sc s i a = Inr b \<and> observed_ids (fst b) \<subseteq> insert (?key i) (observed_ids (fst a)) \<and>
        only_observations d (fst b)"
      if "only_observations d (fst a)" "?key i \<notin> observed_ids (fst a)" for i a
    proof (cases "dv_segs s ! i = ''unknown''")
      case True
      with that show ?thesis by (cases a) (auto simp: seed_bucket_def)
    next
      case False
      obtain d1 t1 where a: "a = (d1, t1)" by (cases a)
      define final where "final = (i = 47 \<or> list_all (\<lambda>x. x = ''unknown'') (drop (i + 1) (dv_segs s)))"
      obtain p where p: "seed_payload stamp_json (so_now sc) s final (dv_series s ! i) = Inr p" using assms(1) by blast
      have "dv_id s \<in> known_servers d1" using only_observations_known that(1) assms(2) a by fastforce
      from seed_observation_ok [OF this, of "?key i"] that(2) a have
        "\<exists>d'. seed_observation (?key i) (dv_id s) ''collector'' ''all'' t ''success'' payload None d1 = Inr d' \<and>
           observed_ids d' = insert (?key i) (observed_ids d1) \<and> only_observations d1 d'" for t payload by simp
      then obtain d2 where d2: "seed_observation (?key i) (dv_id s) ''collector'' ''all''
            (if final \<and> i = 47 then latest_seen sc s else so_now sc - minutes (30 * (48 - int i)) + minutes 15) ''success''
            (JObj (p @ (if final then day_extras sc s else []))) None d1 = Inr d2"
          "observed_ids d2 = insert (?key i) (observed_ids d1)" "only_observations d1 d2" by blast
      have "\<exists>t2. seed_bucket stamp_json sc s i a = Inr (d2, t2)"
        using False p d2(1) unfolding seed_bucket_def a Let_def seed_key_def final_def [symmetric] by simp
      with d2(2,3) that(1) a show ?thesis using only_observations_trans by fastforce
    qed
  qed (use assms(3) in \<open>auto simp: distinct_map inj_on_def\<close>)
  then show ?thesis by fastforce
qed

lemma seed_sources_ok:
  assumes "\<forall>k \<in> set SOURCE_KINDS. need (or_default [] (map_of (dv_sources s) k)) ''r'' = Inr (JStr ''ok'') \<or> presence_in sc k = ''none''"
    and "dv_id s \<in> known_servers d" "\<forall>k \<in> set SOURCE_KINDS. seed_key sc s [KStr k] \<notin> observed_ids d"
  shows "\<exists>d'. fold_err (seed_source sc s) SOURCE_KINDS d = Inr d' \<and> only_observations d d' \<and>
    observed_ids d' \<subseteq> observed_ids d \<union> (\<lambda>k. seed_key sc s [KStr k]) ` set SOURCE_KINDS"
proof -
  let ?key = "\<lambda>k. seed_key sc s [KStr k]"
  have "\<exists>b. fold_err (seed_source sc s) SOURCE_KINDS d = Inr b \<and> observed_ids b \<subseteq> observed_ids d \<union> ?key ` set SOURCE_KINDS \<and>
      only_observations d b"
  proof (rule fold_insert_ok)
    show "\<exists>b. seed_source sc s k a = Inr b \<and> observed_ids b \<subseteq> insert (?key k) (observed_ids a) \<and> only_observations d b"
      if k: "k \<in> set SOURCE_KINDS" and that: "only_observations d a" "?key k \<notin> observed_ids a" for k a
    proof (cases "presence_in sc k = ''none'' \<or> as_num (jget (or_default [] (map_of (dv_sources s) k)) ''age'') = None")
      case True
      with that show ?thesis by (auto simp: seed_source_def Let_def split: option.split)
    next
      case False
      then obtain age where age: "as_num (jget (or_default [] (map_of (dv_sources s) k)) ''age'') = Some age" by blast
      have "dv_id s \<in> known_servers a" using only_observations_known [OF that(1)] assms(2) by simp
      from seed_observation_ok [OF this that(2)] obtain b where b:
          "seed_observation (?key k) (dv_id s) k (if k \<noteq> ''abroad'' then ''country'' else ''abroad'') (so_now sc - minutes_of age) ''success''
             (JObj (if k = ''abroad'' then [(''via_server_id'', jget (dv_raw s) ''abroadFrom'')] else []))
             (detail_code (or_default [] (map_of (dv_sources s) k))) a = Inr b"
          "observed_ids b = insert (?key k) (observed_ids a)" "only_observations a b" by blast
      have r: "need (or_default [] (map_of (dv_sources s) k)) ''r'' = Inr (JStr ''ok'')" using False assms(1) k by blast
      have "seed_result (plain_text (JStr ''ok'')) = Inr ''success''" by (simp add: seed_result_def)
      moreover have "presence_in sc k \<noteq> ''none''" using False by simp
      ultimately have "seed_source sc s k a = Inr b"
        using age b(1) by (simp only: seed_source_def Let_def r bind_err.simps option.case seed_key_def if_False simp_thms)
      with b(2,3) only_observations_trans [OF that(1)] show ?thesis by blast
    qed
  qed (use assms(3) in \<open>auto simp: SOURCE_KINDS_def\<close>)
  then show ?thesis by blast
qed

lemma seed_people_ok:
  assumes "dv_id s \<in> known_servers d" "seed_key sc s [KStr ''humans''] \<notin> observed_ids d"
  shows "\<exists>d'. seed_people sc s d = Inr d' \<and> only_observations d d'"
  using seed_observation_ok [OF assms] by (fastforce simp: seed_people_def seed_key_def)

end
