(* ===== verification/Demo_Server.thy ===== *)
theory Demo_Server
  imports Demo_Seed
begin

text \<open>
  The development server (src/src/vpnpulse/dev/server.py): which configuration, database and read model it
  serves, the scenario and the language of a request, and the routes under /api/v1/dev. The routes of the
  API itself are those of Api.
\<close>

definition dev_role_for :: "int \<Rightarrow> string option" where
  \<comment> \<open>\<open>DevMembership\<close>: everyone is a member\<close>
  "dev_role_for telegram_user_id = Some (if telegram_user_id = 1 then ''admin'' else ''member'')"

definition DEV_BOT_TOKEN :: string where
  "DEV_BOT_TOKEN = ''dev-server-not-a-real-token''"

datatype dev_reader = StoredReader read_settings | ScenarioReader demo_reader

record dev_app =
  de_config :: config
  de_db :: db
  de_reader :: dev_reader
  de_settings :: store_settings
  de_catalog :: catalog
  de_stored :: bool
  de_scenario :: string

definition dev_data ::
  "(rat \<Rightarrow> rat) \<Rightarrow> (stamp \<Rightarrow> json) \<Rightarrow> (uid \<Rightarrow> string) \<Rightarrow> catalog \<Rightarrow> string \<Rightarrow> datetime \<Rightarrow> string option \<Rightarrow> config option \<Rightarrow> db option \<Rightarrow>
   demo_error + config \<times> db \<times> string option" where
  \<comment> \<open>the configuration, the database and the mode of a stored read model; a real installation is never seeded\<close>
  "dev_data sine stamp_json uid_text fx default_scenario now contact_url real_config opened_db =
     bind_err (case real_config of
                 Some c \<Rightarrow> Inr c
               | None \<Rightarrow> bind_err (build sine fx default_scenario now) (\<lambda>sc. config_for fx sc contact_url)) (\<lambda>cfg.
       case opened_db of
         None \<Rightarrow> Inr (cfg, empty_db, None)
       | Some d \<Rightarrow>
           bind_err (if real_config = None \<and> db_servers d = []
                     then seed_scenario sine stamp_json uid_text fx default_scenario now contact_url d
                     else Inr (cfg, d)) (\<lambda>(cfg', d').
             Inr (cfg', d', Some (if default_scenario = ''demo'' \<and> real_config = None then ''demo'' else ''live''))))"

definition create_dev_app ::
  "(rat \<Rightarrow> rat) \<Rightarrow> (stamp \<Rightarrow> json) \<Rightarrow> (uid \<Rightarrow> string) \<Rightarrow> catalog \<Rightarrow> string \<Rightarrow> datetime \<Rightarrow> string option \<Rightarrow> config option \<Rightarrow> db option \<Rightarrow>
   demo_error + dev_app" where
  \<comment> \<open>\<open>opened_db\<close>: the migrated file of \<open>sqlite_path\<close>; \<open>create_app\<close> writes the configured servers\<close>
  "create_dev_app sine stamp_json uid_text fx default_scenario now contact_url real_config opened_db =
     (if default_scenario \<notin> set (catalog_ids fx) then Inl DemoValueError
      else bind_err (dev_data sine stamp_json uid_text fx default_scenario now contact_url real_config opened_db) (\<lambda>(cfg, d, mode).
        let st = \<lparr>st_config = cfg, st_pepper = DEV_BOT_TOKEN, st_session_minutes = 30, st_enrollment_minutes = 10\<rparr>;
            d' = (if cfg_servers cfg = [] then d else sync_servers d cfg now)
        in Inr \<lparr>de_config = cfg, de_db = d',
             de_reader =
               (case mode of
                  Some m \<Rightarrow> StoredReader (read_model_init cfg 900 60 m)
                | None \<Rightarrow> ScenarioReader \<lparr>dr_catalog = fx, dr_default_scenario = default_scenario, dr_contact_url = contact_url,
                            dr_notes = Some d', dr_revoked = []\<rparr>),
             de_settings = st, de_catalog = fx, de_stored = (opened_db \<noteq> None), de_scenario = default_scenario\<rparr>))"

subsection \<open>Requests\<close>

record dev_request =
  dq_scenario :: "string option"
  dq_lang :: "string option"
  dq_delay :: "string option"
  dq_headers :: "(string \<times> string) list"

datatype dev_passage = UnknownScenario | Passed string "(string \<times> string) list" nat

definition chosen_scenario :: "dev_app \<Rightarrow> string option \<Rightarrow> string" where
  \<comment> \<open>a database holds one scenario; a request cannot switch it\<close>
  "chosen_scenario app requested =
     (if de_stored app then de_scenario app
      else case requested of None \<Rightarrow> de_scenario app | Some s \<Rightarrow> if s = [] then de_scenario app else s)"

definition scenario_context :: "dev_app \<Rightarrow> dev_request \<Rightarrow> dev_passage" where
  \<comment> \<open>the scenario of the request, the headers the application sees and the milliseconds slept; the answer names the scenario\<close>
  "scenario_context app rq =
     (let scenario = chosen_scenario app (dq_scenario rq)
      in if scenario \<notin> set (catalog_ids (de_catalog app)) then UnknownScenario
         else Passed scenario
           (case dq_lang rq of
              None \<Rightarrow> dq_headers rq
            | Some lang \<Rightarrow> if lang = [] then dq_headers rq
                else filter (\<lambda>(k, v). k \<noteq> ''accept-language'') (dq_headers rq) @ [(''accept-language'', lang)])
           (case dq_delay rq of None \<Rightarrow> 0 | Some n \<Rightarrow> if isdigit n then min (nat_of_digits n) 10000 else 0))"

datatype dev_answer =
    Listed string "string list"
  | Done
  | SignedIn string
  | Refused int string
  | DevFailed demo_error
  | DevDatabaseError

definition list_scenarios :: "dev_app \<Rightarrow> dev_answer" where
  "list_scenarios app = Listed (de_scenario app) (catalog_ids (de_catalog app))"

definition set_default_scenario :: "dev_app \<Rightarrow> string \<Rightarrow> dev_answer \<times> dev_app" where
  "set_default_scenario app name =
     (if name \<notin> set (catalog_ids (de_catalog app)) then (Refused 400 ''SCENARIO_UNKNOWN'', app)
      else (Done, app\<lparr>de_scenario := name\<rparr>))"

definition dev_session :: "(rat \<Rightarrow> rat) \<Rightarrow> dev_app \<Rightarrow> string \<Rightarrow> string \<Rightarrow> string \<Rightarrow> datetime \<Rightarrow> dev_answer \<times> dev_app" where
  \<comment> \<open>\<open>scenario\<close> is the one the middleware put into the context, \<open>token\<close> the random token\<close>
  "dev_session sine app scenario role token now =
     (if role \<notin> {''member'', ''admin''} then (Refused 400 ''ROLE_INVALID'', app)
      else case build sine (de_catalog app) scenario now of
             Inl e \<Rightarrow> (DevFailed e, app)
           | Inr sc \<Rightarrow>
               if jget (so_raw sc) ''api'' = JStr ''auth''
               then (Refused 403 (plain_text (get_else (so_raw sc) ''code'' (JStr ''MEMBERSHIP_REQUIRED''))), app)
               else (case create_session (de_settings app) (de_db app) token
                            \<lparr>id_telegram_user = (if role = ''admin'' then 1 else 2), id_role = role\<rparr> now of
                       Inl _ \<Rightarrow> (DevDatabaseError, app)
                     | Inr (session, d) \<Rightarrow> (SignedIn (se_token session), app\<lparr>de_db := d\<rparr>)))"

subsection \<open>Properties\<close>

text \<open>A session of the development server is one of the API: it opens its role and nothing more, for half an hour.\<close>
lemma dev_session_opens:
  assumes "dev_session sine app scenario role token now = (SignedIn t, app')" "token \<noteq> []" "de_settings app = st" "st_session_minutes st = 30"
  shows "t = token \<and> role \<in> {''member'', ''admin''} \<and>
    get_session (de_db app') (Some t) later =
      (if now + minutes 30 \<le> later then None
       else Some \<lparr>se_token = t, se_identity = \<lparr>id_telegram_user = 0, id_role = role\<rparr>, se_expires_at = now + minutes 30\<rparr>)"
proof -
  obtain x d who where created: "create_session st (de_db app) token who now = Inr (x, d)" and who: "id_role who = role"
      and t: "t = se_token x" and d: "de_db app' = d" and role: "role \<in> {''member'', ''admin''}"
    using assms(1,3) by (auto simp: dev_session_def split: if_splits sum.splits)
  have "t = token" using created t by (auto simp: create_session_def Let_def split: sum.splits)
  with role sessions.lookup_opened [OF assms(2) created assms(2), of later] show ?thesis
    by (simp add: d session_at_def session_ttl_def assms(4) who)
qed

lemma sync_servers_snapshots: "db_snapshots (sync_servers d config now) = db_snapshots d"
proof -
  have "db_snapshots (foldl (sync_server now) d entries) = db_snapshots d" for entries
    by (induction entries arbitrary: d) (auto simp: sync_server_def Let_def case_prod_beta)
  then show ?thesis by (simp add: sync_servers_def Let_def)
qed

lemma shown_states_cong:
  assumes "db_snapshots d = db_snapshots d'"
  shows "map (\<lambda>c. (cd_id c, cd_state c)) (sw_servers (status rs d now lang)) =
    map (\<lambda>c. (cd_id c, cd_state c)) (sw_servers (status rs d' now lang))"
  using assms by (simp add: status_selects status_cards_def o_def snapshot_row_of_def)

text \<open>
  C27. The development server over an empty database shows the scenario it was started with: the database it
  seeds and the configuration it registers give, through the read model of an installation, the servers of the
  scenario in the states of the scenario; a request cannot switch it to another.
\<close>

theorem dev_server_shows_its_scenario:
  assumes "create_dev_app sine stamp_json uid_text fx scenario_id now contact_url None (Some empty_db) = Inr app"
    and "build sine fx scenario_id now = Inr sc" "demo_status dr sc lang = Inr v" "dr_catalog dr = fx"
    and "\<forall>s \<in> set (so_servers sc). demo_state s = ''unknown'' \<or> now \<le> latest_seen sc s + FRESHNESS"
  shows "\<exists>rs. de_reader app = StoredReader rs \<and> chosen_scenario app requested = scenario_id \<and>
    cd_id ` set (sw_servers (status rs (de_db app) now lang)) = cd_id ` set (sw_servers v) \<and>
    (\<forall>c \<in> set (sw_servers (status rs (de_db app) now lang)). \<exists>c' \<in> set (sw_servers v). cd_id c' = cd_id c \<and> cd_state c' = cd_state c)"
proof -
  obtain cfg d' m where seeded: "seed_scenario sine stamp_json uid_text fx scenario_id now contact_url empty_db = Inr (cfg, d')"
      and data: "dev_data sine stamp_json uid_text fx scenario_id now contact_url None (Some empty_db) = Inr (cfg, d', Some m)"
      and reader: "de_reader app = StoredReader (read_model_init cfg 900 60 m)" and stored: "de_stored app" "de_scenario app = scenario_id"
      and d: "de_db app = (if cfg_servers cfg = [] then d' else sync_servers d' cfg now)"
    using assms(1) by (auto simp: create_dev_app_def dev_data_def bind_err_Inr Let_def empty_db_def split: if_splits)
  let ?rs = "read_model_init cfg 900 60 m"
  have "db_snapshots (de_db app) = db_snapshots d'" by (simp add: d sync_servers_snapshots)
  note pairs = shown_states_cong [OF this, of ?rs now lang]
  have config: "rs_config ?rs = cfg" by (simp add: read_model_init_def)
  have "db_snapshots empty_db = []" by (simp add: empty_db_def)
  from seeded_states [OF seeded [folded assms(4)] this assms(2) [folded assms(4)] assms(3) config assms(5)]
  have shown: "cd_id ` set (sw_servers (status ?rs d' now lang)) = cd_id ` set (sw_servers v)"
      "\<forall>c \<in> set (sw_servers (status ?rs d' now lang)). \<exists>c' \<in> set (sw_servers v). cd_id c' = cd_id c \<and> cd_state c' = cd_state c" by blast+
  have "map cd_id (sw_servers (status ?rs (de_db app) now lang)) = map cd_id (sw_servers (status ?rs d' now lang))"
    using arg_cong [OF pairs, of "map fst"] by (simp add: o_def)
  then have "cd_id ` set (sw_servers (status ?rs (de_db app) now lang)) = cd_id ` set (sw_servers v)"
    using shown(1) by (metis image_set)
  moreover have "\<exists>c' \<in> set (sw_servers v). cd_id c' = cd_id c \<and> cd_state c' = cd_state c"
    if "c \<in> set (sw_servers (status ?rs (de_db app) now lang))" for c
  proof -
    have "(cd_id c, cd_state c) \<in> set (map (\<lambda>c. (cd_id c, cd_state c)) (sw_servers (status ?rs d' now lang)))"
      using that unfolding pairs [symmetric] by force
    then show ?thesis using shown(2) by force
  qed
  ultimately show ?thesis using reader stored by (auto simp: chosen_scenario_def)
qed

end
