(* ===== verification/Demo_Sample.thy ===== *)
theory Demo_Sample
  imports Demo_Server
begin

text \<open>
  The sample demonstration, written into an empty database: that seeding succeeds there, and the instances of
  the properties of Demo_Seed.
\<close>

subsection \<open>The server\<close>

definition no_text :: "stamp \<Rightarrow> json" where
  "no_text s = JNull"

definition first_text :: "uid \<Rightarrow> string" where
  "first_text u = ''id''"

lemma sample_ids: "dv_id (sample_shown series) = ''s1''" "so_servers (sample_scenario series) = [sample_shown series]"
  "so_now (sample_scenario series) = 1000000000000000" "so_id (sample_scenario series) = ''operational''"
  by code_simp+

lemma sample_indexed:
  "need_num (dv_load (sample_shown series)) ''awg'' = Inr 0" "need_num (dv_raw (sample_shown series)) ''seed'' = Inr 1"
  "need (dv_raw (sample_shown series)) ''protocols'' = Inr (JArr [JStr ''awg''])" "need (dv_load (sample_shown series)) ''awg'' = Inr (JInt 0)"
  "demo_state (sample_shown series) = ''operational''" "dv_segs (sample_shown series) = replicate 48 ''operational''"
  by code_simp+

lemma sample_payload: "\<exists>p. seed_payload no_text now (sample_shown series) final v = Inr p"
proof -
  have "has_answer (payload_details no_text now (sample_shown series))" by code_simp
  then show ?thesis
    by (auto simp: seed_payload_def sample_indexed Let_def has_answer_def split: sum.splits)
qed

lemma sample_sources:
  "\<forall>k \<in> set SOURCE_KINDS. need (or_default [] (map_of (dv_sources (sample_shown series)) k)) ''r'' = Inr (JStr ''ok'') \<or>
     presence_in (sample_scenario series) k = ''none''"
proof -
  have "need (or_default [] (map_of (dv_sources (sample_shown series)) ''pc'')) ''r'' = Inr (JStr ''ok'')"
    "presence_in (sample_scenario series) ''mobile'' = ''none''" "presence_in (sample_scenario series) ''abroad'' = ''none''" by code_simp+
  then show ?thesis by (simp add: SOURCE_KINDS_def)
qed

definition one_server :: "config \<Rightarrow> bool" where
  "one_server cfg = (case cfg_servers cfg of [c] \<Rightarrow> sc_id c = ''s1'' | _ \<Rightarrow> False)"

lemma sample_config: "\<exists>cfg. config_for sample_fixture (sample_scenario series) None = Inr cfg \<and> one_server cfg"
proof -
  have "case config_for sample_fixture (sample_scenario series) None of Inl _ \<Rightarrow> False | Inr cfg \<Rightarrow> one_server cfg" by code_simp
  then show ?thesis by (auto split: sum.splits)
qed

lemma fold_changes_none:
  "\<forall>i \<in> set xs. dv_segs s ! i = prev \<Longrightarrow> fold_err (seed_change sc s) xs (d, prev) = Inr (d, prev)"
  by (induction xs) (simp_all add: seed_change_def Let_def)

lemma seed_server_sample:
  assumes "one_server cfg"
  shows "\<exists>d'. seed_server sine no_text cfg (sample_scenario series) (0, sample_shown series) empty_db = Inr d' \<and>
    known_servers d' = {''s1''} \<and> db_events d' = [] \<and> db_notes d' = [] \<and> db_probes d' = [] \<and> db_reports d' = [] \<and> db_runs d' = []"
proof -
  let ?sc = "sample_scenario series" and ?s = "sample_shown series"
  obtain c where c: "find (\<lambda>c. sc_id c = dv_id ?s) (cfg_servers cfg) = Some c"
    using assms by (auto simp: one_server_def sample_ids split: list.splits)
  define d1 where "d1 = empty_db\<lparr>db_servers := [\<lparr>srv_id = dv_id ?s, srv_public_id = dv_id ?s, srv_type = sc_type c, srv_enabled = True,
      srv_display_order = 0 + 1, srv_created_at = StampZ (so_now ?sc - days 30), srv_updated_at = StampZ (so_now ?sc)\<rparr>]\<rparr>"
  obtain d2 where d2: "fold_err (seed_kind ?sc ?s) [''amneziawg''] d1 = Inr d2" "db_observations d2 = []" "known_servers d2 = {''s1''}"
      "db_snapshots d2 = []" "db_events d2 = []" "db_notes d2 = []" "db_probes d2 = []" "db_reports d2 = []" "db_runs d2 = []"
    by (simp add: d1_def seed_kind_def seed_protocol_def insert_row_def stored_or_def empty_db_def known_servers_def sample_ids)
  have known: "dv_id ?s \<in> known_servers d2" and none: "observed_ids d2 = {}" using d2 by (simp_all add: sample_ids observed_ids_def)
  obtain d3 where d3: "seed_week sine ?sc ?s d2 = Inr d3" "only_observations d2 d3"
      "observed_ids d3 \<subseteq> observed_ids d2 \<union> range (\<lambda>i. seed_key ?sc ?s [KStr ''col'', KNat i])"
    using seed_week_ok [OF sample_indexed(1,2) known, of ?sc sine] none by auto
  have known3: "dv_id ?s \<in> known_servers d3" using only_observations_known [OF d3(2)] known by simp
  have "\<exists>d4 t4. fold_err (seed_bucket no_text ?sc ?s) [0..<48] (d3, so_now ?sc - hours 25) = Inr (d4, t4) \<and> only_observations d3 d4 \<and>
      observed_ids d4 \<subseteq> observed_ids d3 \<union> range (\<lambda>i. seed_key ?sc ?s [KStr ''col24'', KNat i])"
    by (rule seed_buckets_ok) (use sample_payload known3 d3(3) none in auto)
  then obtain d4 t4 where d4: "fold_err (seed_bucket no_text ?sc ?s) [0..<48] (d3, so_now ?sc - hours 25) = Inr (d4, t4)"
      "only_observations d3 d4" "observed_ids d4 \<subseteq> observed_ids d3 \<union> range (\<lambda>i. seed_key ?sc ?s [KStr ''col24'', KNat i])" by blast
  have known4: "dv_id ?s \<in> known_servers d4" using only_observations_known [OF d4(2)] known3 by simp
  have "observed_ids d4 \<subseteq> range (\<lambda>i. seed_key ?sc ?s [KStr ''col'', KNat i]) \<union> range (\<lambda>i. seed_key ?sc ?s [KStr ''col24'', KNat i])"
    using d4(3) d3(3) none by blast
  then have single: "seed_key ?sc ?s [x] \<notin> observed_ids d4" for x by (auto dest!: subsetD)
  have "\<exists>d5. fold_err (seed_source ?sc ?s) SOURCE_KINDS d4 = Inr d5 \<and> only_observations d4 d5 \<and>
      observed_ids d5 \<subseteq> observed_ids d4 \<union> (\<lambda>k. seed_key ?sc ?s [KStr k]) ` set SOURCE_KINDS"
    by (rule seed_sources_ok) (use sample_sources known4 single in auto)
  then obtain d5 where d5: "fold_err (seed_source ?sc ?s) SOURCE_KINDS d4 = Inr d5" "only_observations d4 d5"
      "observed_ids d5 \<subseteq> observed_ids d4 \<union> (\<lambda>k. seed_key ?sc ?s [KStr k]) ` set SOURCE_KINDS" by blast
  have known5: "dv_id ?s \<in> known_servers d5" using only_observations_known [OF d5(2)] known4 by simp
  have "\<exists>d6. seed_people ?sc ?s d5 = Inr d6 \<and> only_observations d5 d6"
    by (rule seed_people_ok) (use known5 d5(3) single in \<open>auto simp: SOURCE_KINDS_def dest!: subsetD\<close>)
  then obtain d6 where d6: "seed_people ?sc ?s d5 = Inr d6" "only_observations d5 d6" by blast
  have "only_observations d2 d6" using d3(2) d4(2) d5(2) d6(2) only_observations_trans by blast
  then obtain obs where obs: "d6 = d2\<lparr>db_observations := obs\<rparr>" unfolding only_observations_def by blast
  have "\<exists>row. seed_state ?sc ?s t4 d6 = Inr (d6\<lparr>db_snapshots := [row]\<rparr>)"
    using known d2(4) by (simp add: seed_state_def Let_def sample_indexed reason_of_def seed_snapshot_def obs known_servers_def stored_or_def insert_row_def)
      (rule exI, rule refl)
  then obtain row where state: "seed_state ?sc ?s t4 d6 = Inr (d6\<lparr>db_snapshots := [row]\<rparr>)" ..
  have "seed_changes ?sc ?s (d6\<lparr>db_snapshots := [row]\<rparr>) = Inr (d6\<lparr>db_snapshots := [row]\<rparr>)"
    unfolding seed_changes_def by (subst fold_changes_none) (simp_all add: sample_indexed)
  with state d6(1) d5(1) d4(1) d3(1) d2(1) c have
    "seed_server sine no_text cfg ?sc (0, ?s) empty_db = Inr (d6\<lparr>db_snapshots := [row]\<rparr>)"
    by (simp add: seed_server_def seed_server_row_def insert_row_def stored_or_def sample_indexed(3) d1_def [symmetric]
        del: fold_err.simps) (simp add: d1_def empty_db_def)
  moreover have "known_servers (d6\<lparr>db_snapshots := [row]\<rparr>) = {''s1''}" using d2(3) by (simp add: obs known_servers_def)
  ultimately show ?thesis using d2 by (auto simp: obs)
qed

subsection \<open>The rest\<close>

lemma sample_times:
  "\<exists>t. time_at 1000000000000000 (JInt 0) ''08:02'' = Inr t" "\<exists>t. time_at 1000000000000000 (JInt 0) ''07:41'' = Inr t"
proof -
  have "has_answer (time_at 1000000000000000 (JInt 0) ''08:02'')" "has_answer (time_at 1000000000000000 (JInt 0) ''07:41'')" by code_simp+
  then show "\<exists>t. time_at 1000000000000000 (JInt 0) ''08:02'' = Inr t" "\<exists>t. time_at 1000000000000000 (JInt 0) ''07:41'' = Inr t"
    by (auto simp: has_answer_def split: sum.splits)
qed

lemma sample_events:
  "so_events (sample_scenario series) =
     [JObj [(''kind'', JStr ''recovered''), (''server'', JStr ''s1''), (''day'', JInt 0), (''time'', JStr ''08:02''), (''sev'', JStr ''ok'')],
      JObj [(''kind'', JStr ''sourceFailed''), (''server'', JStr ''s1''), (''source'', JStr ''mobile''), (''day'', JInt 0),
            (''time'', JStr ''07:41''), (''sev'', JStr ''problem'')]]"
  by code_simp

lemma sample_rest:
  "as_dict (jget (so_raw (sample_scenario series)) ''note'') = []"
  "enrolled_probes (sample_scenario series) = [(''pc'', [(''state'', JStr ''ok''), (''lastMin'', JInt 1)])]"
  by code_simp+

lemma seed_built_sample:
  assumes "one_server cfg"
  shows "\<exists>d'. seed_built sine no_text first_text cfg (sample_scenario series) empty_db = Inr d'"
proof -
  let ?sc = "sample_scenario series"
  obtain d1 where d1: "seed_server sine no_text cfg ?sc (0, sample_shown series) empty_db = Inr d1" "known_servers d1 = {''s1''}"
      "db_events d1 = []" "db_notes d1 = []" "db_probes d1 = []" "db_reports d1 = []" "db_runs d1 = []"
    using seed_server_sample [OF assms] by blast
  obtain t u where times: "time_at 1000000000000000 (JInt 0) ''08:02'' = Inr t" "time_at 1000000000000000 (JInt 0) ''07:41'' = Inr u"
    using sample_times by blast
  have "\<exists>events. fold_err (seed_event ?sc) (enumerate 0 (so_events ?sc)) d1 = Inr (d1\<lparr>db_events := events\<rparr>)"
    using d1(2,3) times
    by (simp add: sample_events seed_event_def get_else_def sample_ids known_servers_def stored_or_def insert_row_def seed_id_def Let_def)
      (rule exI, rule refl)
  then obtain events where events: "fold_err (seed_event ?sc) (enumerate 0 (so_events ?sc)) d1 = Inr (d1\<lparr>db_events := events\<rparr>)" ..
  have written: "seed_note ?sc (d1\<lparr>db_events := events\<rparr>) = Inr (d1\<lparr>db_events := events\<rparr>)"
    by (simp add: seed_note_def sample_rest)
  have "\<exists>probes reports. fold_err (seed_probe first_text ?sc) (enrolled_probes ?sc) (d1\<lparr>db_events := events\<rparr>) =
      Inr (d1\<lparr>db_events := events, db_probes := probes, db_reports := reports\<rparr>)"
    using d1(5,6) by (simp add: sample_rest seed_probe_def stored_or_def insert_row_def DEMO_NETWORK_def Let_def)
      (intro exI, rule refl)
  then obtain probes reports where probes: "fold_err (seed_probe first_text ?sc) (enrolled_probes ?sc) (d1\<lparr>db_events := events\<rparr>) =
      Inr (d1\<lparr>db_events := events, db_probes := probes, db_reports := reports\<rparr>)" by blast
  have "\<exists>d'. seed_run first_text ?sc (d1\<lparr>db_events := events, db_probes := probes, db_reports := reports\<rparr>) = Inr d'"
    using d1(7) by (simp add: seed_run_def Let_def stored_or_def insert_row_def)
  with d1(1) events written probes show ?thesis by (simp add: seed_built_def sample_ids)
qed

theorem dev_server_shows_its_scenario_witness:
  "\<exists>app rs. create_dev_app (\<lambda>_. 0) no_text first_text sample_fixture ''operational'' 1000000000000000 None None (Some empty_db) = Inr app \<and>
     de_reader app = StoredReader rs \<and>
     cd_id ` set (sw_servers (status rs (de_db app) 1000000000000000 ''en'')) = {''s1''}"
proof -
  obtain series where built: "build (\<lambda>_. 0) sample_fixture ''operational'' 1000000000000000 = Inr (sample_scenario series)"
    using sample_scenario_built by blast
  obtain cfg where cfg: "config_for sample_fixture (sample_scenario series) None = Inr cfg" "one_server cfg" using sample_config by blast
  obtain d' where "seed_built (\<lambda>_. 0) no_text first_text cfg (sample_scenario series) empty_db = Inr d'"
    using seed_built_sample [OF cfg(2)] by blast
  with built cfg(1) have seeded: "seed_scenario (\<lambda>_. 0) no_text first_text sample_fixture ''operational'' 1000000000000000 None empty_db =
      Inr (cfg, d')" by (simp add: seed_scenario_def)
  have "''operational'' \<in> set (catalog_ids sample_fixture)" by code_simp
  then obtain app where app: "create_dev_app (\<lambda>_. 0) no_text first_text sample_fixture ''operational'' 1000000000000000 None None (Some empty_db) =
      Inr app"
    using seeded built cfg(1) by (simp add: create_dev_app_def dev_data_def Let_def empty_db_def)
  have "has_answer (demo_status sample_reader (sample_scenario series) ''en'')" by code_simp
  then obtain v where v: "demo_status sample_reader (sample_scenario series) ''en'' = Inr v"
    by (auto simp: has_answer_def split: sum.splits)
  have "map_err (demo_card (sample_scenario series) (demo_lang ''en'')) (so_servers (sample_scenario series)) = Inr (sw_servers v)"
    using demo_status_cards [OF v] by blast
  then have "map cd_id (sw_servers v) = map dv_id (so_servers (sample_scenario series))" by (rule map_err_keys) (rule demo_card_id)
  then have ids: "cd_id ` set (sw_servers v) = {''s1''}" by (metis image_set list.map(1,2) list.set(1,2) sample_ids(1,2))
  have "1000000000000000 \<le> latest_seen (sample_scenario series) (sample_shown series) + FRESHNESS" by code_simp
  then have fresh: "\<forall>s \<in> set (so_servers (sample_scenario series)). demo_state s = ''unknown'' \<or>
      1000000000000000 \<le> latest_seen (sample_scenario series) s + FRESHNESS" by (simp add: sample_ids)
  have reader: "dr_catalog sample_reader = sample_fixture" by (simp add: sample_reader_def)
  from dev_server_shows_its_scenario [OF app built v reader fresh, of None] app ids show ?thesis by auto
qed

end
