(* ===== verification/Bot.thy ===== *)
theory Bot
  imports I18n Json
begin

text \<open>
  The bot's listener (src/src/vpnpulse/bot.py): one poll of the updates, the answer to a command, the
  offset that acknowledges updates, and the pauses of the loop. The Bot API is the argument: what
  getUpdates returns for an offset, and whether sendMessage succeeds for a chat.
\<close>

subsection \<open>Updates\<close>

record message =
  ms_chat_type :: "string option"
  ms_chat_id :: "int option"
  ms_text :: "string option"

record update =
  up_id :: int
  up_message :: "message option"

definition COMMANDS :: "string list" where
  "COMMANDS = [''/start'', ''/help'']"

definition command_word :: "string \<Rightarrow> string" where
  \<comment> \<open>\<open>text.split()[0].split("@")[0].lower()\<close> of a stripped text that is not empty\<close>
  "command_word s = lower (takeWhile (\<lambda>c. c \<noteq> CHR ''@'') (takeWhile (\<lambda>c. \<not> is_space c) s))"

definition is_command :: "update \<Rightarrow> bool" where
  "is_command u \<longleftrightarrow>
     (case up_message u of
        None \<Rightarrow> False
      | Some m \<Rightarrow>
          let s = strip (case ms_text m of None \<Rightarrow> [] | Some t \<Rightarrow> t)
          in ms_chat_type m = Some ''private'' \<and> s \<noteq> [] \<and> command_word s \<in> set COMMANDS)"

definition chat_of :: "update \<Rightarrow> int option" where
  "chat_of u = Option.bind (up_message u) ms_chat_id"

subsection \<open>One poll\<close>

record telegram_bot =
  bt_app_url :: string
  bt_default_language :: string
  bt_offset :: "int option"

datatype poll_result = PollReplies nat | PollRaised

definition reply_body :: "dictionaries \<Rightarrow> telegram_bot \<Rightarrow> int \<Rightarrow> jdict" where
  \<comment> \<open>the body of sendMessage in \<open>reply\<close>\<close>
  "reply_body ds b chat =
     [(''chat_id'', JInt chat), (''text'', JStr (translate ds (bt_default_language b) ''bot.start'' [])),
      (''reply_markup'', JObj [(''inline_keyboard'', JArr [JArr [JObj
         [(''text'', JStr (translate ds (bt_default_language b) ''bot.open'' [])), (''web_app'', JObj [(''url'', JStr (bt_app_url b))])]]])]),
      (''disable_notification'', JBool True)]"

fun answer_updates :: "(int \<Rightarrow> bool) \<Rightarrow> update list \<Rightarrow> telegram_bot \<Rightarrow> telegram_bot \<times> int list \<times> poll_result" where
  \<comment> \<open>the loop of \<open>poll_once\<close>: the bot, the chats a reply was attempted to, and what the poll returns\<close>
  "answer_updates send [] b = (b, [], PollReplies 0)"
| "answer_updates send (u # us) b =
     (let b' = b\<lparr>bt_offset := Some (up_id u + 1)\<rparr>
      in if \<not> is_command u then answer_updates send us b'
         else case chat_of u of
                None \<Rightarrow> (b', [], PollRaised)
              | Some chat \<Rightarrow>
                  let (b'', chats, result) = answer_updates send us b'
                  in (b'', chat # chats,
                      case result of PollRaised \<Rightarrow> PollRaised | PollReplies n \<Rightarrow> PollReplies (if send chat then n + 1 else n)))"

definition poll_once :: "(int option \<Rightarrow> update list option) \<Rightarrow> (int \<Rightarrow> bool) \<Rightarrow> telegram_bot \<Rightarrow> telegram_bot \<times> int list \<times> poll_result" where
  \<comment> \<open>\<open>None\<close> of getUpdates is the call that failed: a ConnectionError\<close>
  "poll_once get_updates send b =
     (case get_updates (bt_offset b) of None \<Rightarrow> (b, [], PollRaised) | Some us \<Rightarrow> answer_updates send us b)"

subsection \<open>The calls\<close>

text \<open>What the HTTP client gives or raises; a body that is not JSON is \<open>HttpBody None\<close>, one without bytes the empty object.\<close>

datatype http_reply = HttpStatusError | TransportFailed | HttpBody "json option"

datatype call_result = CallFailed | CallRaised | CallResult json

definition bot_call :: "http_reply \<Rightarrow> call_result" where
  \<comment> \<open>\<open>_call\<close>: None is \<open>CallFailed\<close>, also where the result is missing; an answer that is no object raises\<close>
  "bot_call r =
     (case r of
        HttpBody (Some (JObj d)) \<Rightarrow>
          if \<not> truthy (jget d ''ok'') \<or> jget d ''result'' = JNull then CallFailed else CallResult (jget d ''result'')
      | HttpBody (Some _) \<Rightarrow> CallRaised
      | _ \<Rightarrow> CallFailed)"

definition poll_params :: "int \<Rightarrow> telegram_bot \<Rightarrow> jdict" where
  "poll_params timeout b =
     [(''timeout'', JInt timeout), (''allowed_updates'', JArr [JStr ''message''])] @
     (case bt_offset b of None \<Rightarrow> [] | Some n \<Rightarrow> [(''offset'', JInt n)])"

definition json_int :: "json \<Rightarrow> int option" where
  "json_int v = (case v of JInt n \<Rightarrow> Some n | _ \<Rightarrow> None)"

definition update_of :: "jdict \<Rightarrow> update" where
  "update_of d =
     (let m = as_dict (jget d ''message''); chat = as_dict (jget m ''chat'')
      in \<lparr>up_id = (case json_int (jget d ''update_id'') of None \<Rightarrow> 0 | Some n \<Rightarrow> n),
          up_message = (if m = [] then None
                        else Some \<lparr>ms_chat_type = as_str (jget chat ''type''), ms_chat_id = json_int (jget chat ''id''), ms_text = as_str (jget m ''text'')\<rparr>)\<rparr>)"

definition got_updates :: "http_reply \<Rightarrow> update list option" where
  \<comment> \<open>what a poll makes of the answer to getUpdates\<close>
  "got_updates r =
     (case bot_call r of
        CallResult (JArr us) \<Rightarrow> Some (map (\<lambda>u. update_of (as_dict u)) us)
      | CallResult v \<Rightarrow> if truthy v then None else Some []
      | _ \<Rightarrow> None)"

definition reply_sent :: "http_reply \<Rightarrow> bool" where
  "reply_sent r = (case bot_call r of CallResult _ \<Rightarrow> True | _ \<Rightarrow> False)"

text \<open>A failed poll acknowledges nothing: the updates are still there for the next one.\<close>

lemma failed_poll_keeps_offset:
  assumes "got_updates r = None"
  shows "poll_once (\<lambda>_. got_updates r) send b = (b, [], PollRaised)" "reply_sent HttpStatusError = False" "reply_sent TransportFailed = False"
  using assms by (simp_all add: poll_once_def reply_sent_def bot_call_def)

subsection \<open>The loop\<close>

definition next_failures :: "nat \<Rightarrow> poll_result \<Rightarrow> nat" where
  "next_failures failures r = (case r of PollReplies _ \<Rightarrow> 0 | PollRaised \<Rightarrow> min (failures + 1) 6)"

definition pause_seconds :: "nat \<Rightarrow> nat" where
  "pause_seconds failures = min 60 (2 ^ failures)"

fun bot_loop ::
  "nat \<Rightarrow> (nat \<Rightarrow> int option \<Rightarrow> update list option) \<Rightarrow> (nat \<Rightarrow> int \<Rightarrow> bool) \<Rightarrow> nat \<Rightarrow> telegram_bot \<Rightarrow> telegram_bot \<times> int list \<times> nat list" where
  \<comment> \<open>the given number of rounds of \<open>run_forever\<close>: the bot, the chats answered, the pauses; a round sees the API of its number\<close>
  "bot_loop 0 api send failures b = (b, [], [])"
| "bot_loop (Suc n) api send failures b =
     (let (b', chats, result) = poll_once (api n) (send n) b;
          failures' = next_failures failures result;
          (b'', later, pauses) = bot_loop n api send failures' b'
      in (b'', chats @ later, (if result = PollRaised then [pause_seconds failures'] else []) @ pauses))"

subsection \<open>Every update is taken once\<close>

text \<open>
  The documented behaviour of getUpdates: of the updates that wait, those from the offset on are returned
  oldest first, possibly only some of them, and at least one when there is one.
\<close>

definition waiting :: "update list \<Rightarrow> int option \<Rightarrow> update list" where
  "waiting us offset = filter (\<lambda>u. case offset of None \<Rightarrow> True | Some n \<Rightarrow> n \<le> up_id u) us"

definition serves :: "update list \<Rightarrow> (int option \<Rightarrow> update list option) \<Rightarrow> bool" where
  "serves us get_updates \<longleftrightarrow>
     (\<forall>offset. \<exists>k. get_updates offset = Some (take k (waiting us offset)) \<and> (waiting us offset \<noteq> [] \<longrightarrow> 0 < k))"

definition commanding_chats :: "update list \<Rightarrow> int list" where
  "commanding_chats us = List.map_filter (\<lambda>u. if is_command u then chat_of u else None) us"

lemma commanding_chats_simps [simp]:
  "commanding_chats [] = []"
  "commanding_chats (u # us) = (if is_command u then (case chat_of u of None \<Rightarrow> [] | Some c \<Rightarrow> [c]) else []) @ commanding_chats us"
  "commanding_chats (us @ vs) = commanding_chats us @ commanding_chats vs"
  by (auto simp: commanding_chats_def List.map_filter_def split: option.split)

lemma answer_updates_takes:
  "us \<noteq> [] \<Longrightarrow> answer_updates send us b = (b', chats, result) \<Longrightarrow>
   \<exists>k. 0 < k \<and> k \<le> length us \<and> bt_offset b' = Some (up_id (us ! (k - 1)) + 1) \<and> chats = commanding_chats (take k us)"
proof (induction us arbitrary: b b' chats result)
  case (Cons u us)
  let ?b = "b\<lparr>bt_offset := Some (up_id u + 1)\<rparr>"
  have one: "\<exists>k. 0 < k \<and> k \<le> length (u # us) \<and> bt_offset b' = Some (up_id ((u # us) ! (k - 1)) + 1) \<and> chats = commanding_chats (take k (u # us))"
    if "b' = ?b" "chats = commanding_chats [u]" using that by (intro exI [of _ 1]) simp
  have more: "\<exists>k. 0 < k \<and> k \<le> length (u # us) \<and> bt_offset b' = Some (up_id ((u # us) ! (k - 1)) + 1) \<and> chats = commanding_chats (take k (u # us))"
    if "answer_updates send us ?b = (b', later, r)" "us \<noteq> []" "chats = commanding_chats [u] @ later" for later r
  proof -
    from Cons.IH [OF that(2,1)] obtain k where
      "0 < k" "k \<le> length us" "bt_offset b' = Some (up_id (us ! (k - 1)) + 1)" "later = commanding_chats (take k us)" by blast
    with that(3) show ?thesis by (intro exI [of _ "Suc k"]) (simp add: nth_Cons')
  qed
  show ?case
  proof (cases "us = [] \<or> (is_command u \<and> chat_of u = None)")
    case True
    with Cons.prems(2) show ?thesis by (intro one) (auto simp: Let_def split: option.splits if_splits)
  next
    case False
    obtain b1 later r where rest: "answer_updates send us ?b = (b1, later, r)" by (cases "answer_updates send us ?b") auto
    from Cons.prems(2) False rest have "b1 = b'" "chats = commanding_chats [u] @ later"
      by (auto simp: Let_def split: option.splits if_splits)
    with rest False show ?thesis by (intro more) auto
  qed
qed simp

definition next_offset :: "update list \<Rightarrow> int option \<Rightarrow> int option" where
  "next_offset us offset = (if us = [] then offset else Some (up_id (last us) + 1))"

lemma waiting_drop:
  assumes "sorted_wrt (<) (map up_id us)" "0 < k" "k \<le> length (waiting us offset)"
  shows "waiting us (Some (up_id (waiting us offset ! (k - 1)) + 1)) = drop k (waiting us offset)"
proof -
  let ?w = "waiting us offset" and ?n = "up_id (waiting us offset ! (k - 1)) + 1"
  have w: "sorted_wrt (<) (map up_id ?w)" using assms(1) by (simp add: waiting_def sorted_wrt_map sorted_wrt_filter)
  have split: "filter (\<lambda>u. up_id (ws ! (k - 1)) + 1 \<le> up_id u) ws = drop k ws"
    if "sorted_wrt (<) (map up_id ws)" "0 < k" "k \<le> length ws" for ws k
    using that
  proof (induction ws arbitrary: k)
    case (Cons x ws)
    show ?case
    proof (cases "k = 1")
      case True
      with Cons.prems(1) have "filter (\<lambda>u. up_id x + 1 \<le> up_id u) ws = ws" by (auto simp: filter_id_conv)
      with True show ?thesis by simp
    next
      case False
      with Cons.prems have k: "0 < k - 1" "k - 1 \<le> length ws" by auto
      with Cons.prems(1) have less: "up_id x < up_id (ws ! (k - 1 - 1))" by (simp add: nth_mem)
      have "filter (\<lambda>u. up_id (ws ! (k - 1 - 1)) + 1 \<le> up_id u) ws = drop (k - 1) ws"
        using Cons.prems(1) by (intro Cons.IH [OF _ k]) simp
      with less False Cons.prems(2) show ?thesis by (simp add: nth_Cons' drop_Cons')
    qed
  qed simp
  have "waiting us (Some ?n) = filter (\<lambda>u. ?n \<le> up_id u) ?w"
  proof (cases offset)
    case None
    then show ?thesis by (simp add: waiting_def)
  next
    case (Some m)
    have "?w ! (k - 1) \<in> set ?w" using assms(2,3) by (intro nth_mem) simp
    then have "m \<le> up_id (?w ! (k - 1))" using Some by (simp add: waiting_def)
    then show ?thesis using Some by (auto simp: waiting_def intro: filter_cong)
  qed
  then show ?thesis using split [OF w assms(2,3)] by simp
qed

lemma bot_loop_consumes:
  assumes "sorted_wrt (<) (map up_id us)" "\<And>n. serves us (api n)" "bot_loop n api send failures b = (b', chats, pauses)"
  shows "\<exists>k. chats = commanding_chats (take k (waiting us (bt_offset b))) \<and>
     waiting us (bt_offset b') = drop k (waiting us (bt_offset b)) \<and> min n (length (waiting us (bt_offset b))) \<le> k"
  using assms(3)
proof (induction n arbitrary: failures b b' chats pauses)
  case 0
  then show ?case by (intro exI [of _ 0]) simp
next
  case (Suc n)
  let ?w = "waiting us (bt_offset b)"
  obtain b1 now result where poll: "poll_once (api n) (send n) b = (b1, now, result)" by (cases "poll_once (api n) (send n) b") auto
  obtain b2 later ps where rest: "bot_loop n api send (next_failures failures result) b1 = (b2, later, ps)"
    by (cases "bot_loop n api send (next_failures failures result) b1") auto
  from Suc.prems poll rest have out: "b' = b2" "chats = now @ later" by (auto simp: Let_def)
  from assms(2) obtain k where served: "api n (bt_offset b) = Some (take k ?w)" "?w \<noteq> [] \<longrightarrow> 0 < k" unfolding serves_def by blast
  obtain j where j: "now = commanding_chats (take j ?w)" "waiting us (bt_offset b1) = drop j ?w" "?w \<noteq> [] \<longrightarrow> 0 < j"
  proof (cases "?w = []")
    case True
    with poll served(1) have "b1 = b" "now = []" by (simp_all add: poll_once_def)
    with True show thesis by (intro that [of 0]) simp_all
  next
    case False
    with served(2) have "take k ?w \<noteq> []" by simp
    moreover have "answer_updates (send n) (take k ?w) b = (b1, now, result)" using poll served(1) by (simp add: poll_once_def)
    ultimately obtain j where taken: "0 < j" "j \<le> length (take k ?w)" "bt_offset b1 = Some (up_id (take k ?w ! (j - 1)) + 1)"
        "now = commanding_chats (take j (take k ?w))"
      using answer_updates_takes by blast
    have "j \<le> k" "j \<le> length ?w" using taken(2) by simp_all
    then have "take j (take k ?w) = take j ?w" "take k ?w ! (j - 1) = ?w ! (j - 1)" "j \<le> length ?w"
      using taken(1) by (simp_all add: min_def)
    with taken waiting_drop [OF assms(1) taken(1), of "bt_offset b"] show thesis by (intro that [of j]) simp_all
  qed
  from Suc.IH [OF rest] obtain i where i: "later = commanding_chats (take i (drop j ?w))" "waiting us (bt_offset b2) = drop i (drop j ?w)"
      "min n (length (drop j ?w)) \<le> i" unfolding j(2) by blast
  have "take (j + i) ?w = take j ?w @ take i (drop j ?w)" by (rule take_add)
  with j(1) i(1) have "chats = commanding_chats (take (j + i) ?w)" by (simp add: out)
  moreover have "waiting us (bt_offset b') = drop (j + i) ?w" using i(2) by (simp add: out add.commute)
  moreover have "min (Suc n) (length ?w) \<le> j + i"
  proof (cases "?w = []")
    case False
    then have "0 < j" using j(3) by blast
    moreover have "min n (length ?w - j) \<le> i" using i(3) by simp
    ultimately show ?thesis by linarith
  qed simp
  ultimately show ?case by blast
qed

text \<open>
  C36. Every command is answered: however Telegram splits the waiting updates over polls, and whatever
  replies fail or polls stop at a malformed update, after at most as many rounds as there are updates none
  waits any more, and a reply was attempted to every private chat that sent a command - once, in the order
  the commands came, and to nobody else. No pause between two rounds is longer than a minute.
\<close>

theorem every_command_is_answered:
  assumes "sorted_wrt (<) (map up_id us)" "\<And>n. serves us (api n)" "bt_offset b = None" "length us \<le> n"
    "bot_loop n api send 0 b = (b', chats, pauses)"
  shows "waiting us (bt_offset b') = [] \<and> chats = commanding_chats us \<and> (\<forall>p\<in>set pauses. 2 \<le> p \<and> p \<le> 60)"
proof -
  have all: "waiting us (bt_offset b) = us" by (simp add: assms(3) waiting_def)
  from bot_loop_consumes [OF assms(1,2,5)] obtain k where k: "chats = commanding_chats (take k us)" "waiting us (bt_offset b') = drop k us"
      "min n (length us) \<le> k" unfolding all by blast
  have "\<forall>p\<in>set pauses. 2 \<le> p \<and> p \<le> 60" if "bot_loop n api send failures b = (b', chats, pauses)" for n failures b b' chats pauses
    using that
  proof (induction n arbitrary: failures b b' chats pauses)
    case (Suc n)
    have "2 \<le> pause_seconds (next_failures failures PollRaised) \<and> pause_seconds (next_failures failures PollRaised) \<le> 60" for failures
      using power_increasing [of 1 "min (failures + 1) 6" "2::nat"] by (auto simp: pause_seconds_def next_failures_def)
    with Suc show ?case by (fastforce simp: Let_def split: prod.splits if_splits)
  qed simp
  with k assms(4,5) show ?thesis by simp
qed

definition sample_updates :: "update list" where
  "sample_updates =
     [\<lparr>up_id = 5, up_message = Some \<lparr>ms_chat_type = Some ''private'', ms_chat_id = Some 42, ms_text = Some '' /Start@my_bot hello''\<rparr>\<rparr>,
      \<lparr>up_id = 6, up_message = Some \<lparr>ms_chat_type = Some ''group'', ms_chat_id = Some 7, ms_text = Some ''/start''\<rparr>\<rparr>]"

definition sample_bot :: telegram_bot where
  "sample_bot = \<lparr>bt_app_url = ''https://example.org/app'', bt_default_language = ''ru'', bt_offset = None\<rparr>"

theorem every_command_is_answered_witness:
  "fst (snd (bot_loop 2 (\<lambda>_ offset. Some (waiting sample_updates offset)) (\<lambda>_ _. False) 0 sample_bot)) = [42]"
proof -
  let ?api = "\<lambda>(_ :: nat) offset. Some (waiting sample_updates offset)"
  have served: "serves sample_updates (?api n)" for n :: nat
    unfolding serves_def
  proof
    fix offset
    show "\<exists>k. ?api n offset = Some (take k (waiting sample_updates offset)) \<and> (waiting sample_updates offset \<noteq> [] \<longrightarrow> 0 < k)"
      by (intro exI [of _ "length (waiting sample_updates offset)"]) simp
  qed
  have sorted: "sorted_wrt (<) (map up_id sample_updates)" by (simp add: sample_updates_def)
  have "commanding_chats sample_updates = [42]" by code_simp
  moreover have "fst (snd (bot_loop 2 ?api (\<lambda>_ _. False) 0 sample_bot)) = commanding_chats sample_updates"
    using every_command_is_answered [where n = 2 and send = "\<lambda>_ _. False", OF sorted served, of sample_bot]
    by (cases "bot_loop 2 ?api (\<lambda>_ _. False) 0 sample_bot") (simp add: sample_bot_def sample_updates_def)
  ultimately show ?thesis by simp
qed

end
