(* ===== verification/Setup_Cli.thy ===== *)
theory Setup_Cli
  imports Admin_Cli Bot
begin

text \<open>
  The commands that make and change an installation: \<open>vpn-pulse init\<close>, \<open>server add | list | remove\<close>, the start of
  \<open>bot\<close> and \<open>demo clear\<close> (src/src/vpnpulse/cli/init.py, server.py, bot.py, demo.py). A configuration is written
  as a whole or not at all.
\<close>

subsection \<open>server\<close>

record add_args =
  sa_id :: string
  sa_type :: string
  sa_name_ru :: string
  sa_name_en :: string
  sa_country :: string
  sa_priority :: "int option"
  sa_collector_ref :: "string option"
  sa_disabled :: bool
  sa_db :: "string option"

definition added_entry :: "add_args \<Rightarrow> server_config" where
  "added_entry a =
     \<lparr>sc_id = sa_id a, sc_type = sa_type a, sc_enabled = Some (\<not> sa_disabled a),
      sc_name = JObj [(''ru'', JStr (sa_name_ru a)), (''en'', JStr (sa_name_en a))], sc_country_code = upper (sa_country a),
      sc_collector_ref = (if text_set (sa_collector_ref a) then sa_collector_ref a else None),
      sc_recommended_priority = sa_priority a\<rparr>"

definition servers_of :: "full_config \<Rightarrow> server_config list" where
  "servers_of c = cfg_servers (fc_public c)"

definition with_servers :: "full_config \<Rightarrow> server_config list \<Rightarrow> full_config" where
  "with_servers c servers = c\<lparr>fc_public := (fc_public c)\<lparr>cfg_servers := servers\<rparr>\<rparr>"

definition synced :: "string option \<Rightarrow> full_config \<Rightarrow> datetime \<Rightarrow> site \<Rightarrow> site" where
  \<comment> \<open>\<open>_sync\<close>\<close>
  "synced args_db c now w =
     (let db_path = resolve_db args_db (Some c)
      in case si_dbs w db_path of None \<Rightarrow> w | Some d \<Rightarrow> stored db_path (sync_servers d (fc_public c) now) w)"

definition written_config :: "path \<Rightarrow> full_config \<Rightarrow> site \<Rightarrow> cli_error + site" where
  "written_config p c w = bind_err (write_config_atomic p c (si_inst w)) (\<lambda>i. Inr (w\<lparr>si_inst := i\<rparr>))"

definition command_server_add :: "add_args \<Rightarrow> path option \<Rightarrow> datetime \<Rightarrow> site \<Rightarrow> answer \<times> site" where
  "command_server_add a config_path now w =
     (case load_public_config config_path (si_inst w) of
        Inl e \<Rightarrow> (Inl e, w)
      | Inr (p, c) \<Rightarrow>
          if \<not> public_id_pattern (sa_id a)
          then (Inl (cli_fail ''--id must match ^[a-z][a-z0-9-]{1,63}$ (letters, digits, dashes; not a hostname)''), w)
          else if configured c (sa_id a) then (Inl (cli_fail (''server '' @ sa_id a @ '' is already in '' @ as_posix p)), w)
          else if \<not> country_pattern (upper (sa_country a)) then (Inl (cli_fail ''--country must be two letters (ISO 3166-1 alpha-2)''), w)
          else let c' = with_servers c (servers_of c @ [added_entry a])
               in case written_config p c' w of
                    Inl e \<Rightarrow> (Inl e, w)
                  | Inr w' \<Rightarrow>
                      (Inr ([''added '' @ sa_id a @ '' ('' @ sa_type a @ '', '' @ upper (sa_country a) @ '') to '' @ as_posix p,
                             ''The read-only collector helper for this server is installed by a later increment; until then'',
                             ''probe reports (PC, Android, cross-server) are the evidence for it. Next: vpn-pulse doctor servers''], 0),
                       synced (sa_db a) c' now w'))"

definition command_server_remove ::
  "string \<Rightarrow> bool \<Rightarrow> terminal \<Rightarrow> string option \<Rightarrow> path option \<Rightarrow> datetime \<Rightarrow> site \<Rightarrow> answer \<times> site" where
  "command_server_remove server_id yes tty args_db config_path now w =
     (case load_public_config config_path (si_inst w) of
        Inl e \<Rightarrow> (Inl e, w)
      | Inr (p, c) \<Rightarrow>
          if \<not> configured c server_id then (Inl (CliError (''server '' @ server_id @ '' is not in '' @ as_posix p) 1), w)
          else case confirm yes tty (''Remove '' @ server_id @ '' from '' @ as_posix p @ ''? Collection stops; history stays in the database'') of
                 Inl e \<Rightarrow> (Inl e, w)
               | Inr (asked, False) \<Rightarrow> (Inr (asked @ [''nothing changed''], 1), w)
               | Inr (asked, True) \<Rightarrow>
                   let c' = with_servers c (filter (\<lambda>s. sc_id s \<noteq> server_id) (servers_of c))
                   in case written_config p c' w of
                        Inl e \<Rightarrow> (Inl e, w)
                      | Inr w' \<Rightarrow>
                          (Inr (asked @ [''removed '' @ server_id @ '' from '' @ as_posix p @ ''; restart vpn-pulse run and the API to apply'',
                                  ''The VPN itself is untouched. When a collector helper exists on the server, remove it there with the'',
                                  ''command printed by the real-collectors increment (see docs/connect-server.md).''], 0),
                           synced args_db c' now w'))"

record server_row_view =
  rv_id :: string
  rv_type :: string
  rv_country_code :: string
  rv_name :: json
  rv_enabled :: bool
  rv_recommended_priority :: int
  rv_state :: "state option"
  rv_is_stale :: "bool option"
  rv_observed_at :: "stamp option"
  rv_recommended :: "bool option"

definition listed_server :: "string \<Rightarrow> card list \<Rightarrow> server_config \<Rightarrow> server_row_view" where
  \<comment> \<open>a later card of the same id would win\<close>
  "listed_server lang cards s =
     (let card = find (\<lambda>c. cd_id c = sc_id s) (rev cards)
      in \<lparr>rv_id = sc_id s, rv_type = sc_type s, rv_country_code = sc_country_code s,
          rv_name = json_or (jget (as_dict (sc_name s)) lang) (jget (as_dict (sc_name s)) ''ru''),
          rv_enabled = is_enabled s, rv_recommended_priority = or_default 0 (sc_recommended_priority s),
          rv_state = map_option cd_state card, rv_is_stale = map_option (\<lambda>c. fv_is_stale (cd_freshness c)) card,
          rv_observed_at = Option.bind card (\<lambda>c. fv_observed_at (cd_freshness c)), rv_recommended = map_option cd_recommended card\<rparr>)"

definition server_line :: "nat \<Rightarrow> server_row_view \<Rightarrow> string" where
  "server_line width r =
     (let state_text = (case rv_state r of
                          None \<Rightarrow> ''-''
                        | Some s \<Rightarrow> if rv_observed_at r = None then ''no data yet''
                                    else state_value s @ (if rv_is_stale r = Some True then '' (stale)'' else []))
      in pad width (rv_id r) @ ''  '' @ pad 10 (rv_type r) @ ''  '' @ rv_country_code r @ ''  '' @ pad 20 state_text @ ''  '' @
         plain_text (rv_name r) @ (if rv_enabled r then [] else '' disabled'') @ (if rv_recommended r = Some True then '' *'' else []))"

definition command_server_list ::
  "(server_row_view list \<Rightarrow> string) \<Rightarrow> (full_config \<Rightarrow> read_settings) \<Rightarrow> bool \<Rightarrow> string option \<Rightarrow> string option \<Rightarrow> path option \<Rightarrow> datetime \<Rightarrow> site \<Rightarrow> answer" where
  "command_server_list dumps settings as_json args_lang args_db config_path now w =
     bind_err (load_public_config config_path (si_inst w)) (\<lambda>(p, c).
       let lang = cli_lang_of args_lang (Some c);
           cards = (case si_dbs w (resolve_db args_db (Some c)) of None \<Rightarrow> [] | Some d \<Rightarrow> sw_servers (status (settings c) d now lang));
           rows = map (listed_server lang cards) (servers_of c)
       in Inr (if as_json then [dumps rows]
               else if rows = [] then [''no servers in '' @ as_posix p @ '' - vpn-pulse server add'']
               else map (server_line (Max (set (map (\<lambda>r. length (rv_id r)) rows)))) rows, 0))"

subsection \<open>init\<close>

datatype token_source = NoToken | TokenFile path | TokenTyped string

record init_args =
  ia_dir :: path
  ia_data_dir :: "path option"
  ia_secrets_dir :: "path option"
  ia_language :: string
  ia_timezone :: string
  ia_contact_url :: "string option"
  ia_group_chat_id :: "string option"
  ia_admin_chat_id :: "string option"
  ia_token :: token_source
  ia_force :: bool

definition init_config_path :: "init_args \<Rightarrow> path" where
  "init_config_path a = path_join (ia_dir a) (path_of ''config.yaml'')"

definition init_db_path :: "init_args \<Rightarrow> path" where
  "init_db_path a = path_join (or_default (path_join (ia_dir a) (path_of ''data'')) (ia_data_dir a)) (path_of ''vpnpulse.sqlite3'')"

definition init_secrets_dir :: "init_args \<Rightarrow> path" where
  "init_secrets_dir a = or_default (path_join (ia_dir a) (path_of ''secrets'')) (ia_secrets_dir a)"

definition init_token_path :: "init_args \<Rightarrow> path" where
  "init_token_path a = path_join (init_secrets_dir a) (path_of ''telegram-bot.token'')"

datatype read_token = TokenRead "string option" | TokenRefused cli_error | TokenUnreadable

definition read_init_token :: "files \<Rightarrow> token_source \<Rightarrow> read_token" where
  "read_init_token fs source =
     (case source of
        NoToken \<Rightarrow> TokenRead None
      | TokenTyped line \<Rightarrow> TokenRead (Some (strip line))
      | TokenFile p \<Rightarrow>
          (case fs p of
             None \<Rightarrow> TokenRefused (cli_fail (''token file not found: '' @ as_posix p))
           | Some f \<Rightarrow> (case file_text f of None \<Rightarrow> TokenUnreadable | Some content \<Rightarrow> TokenRead (Some (strip content)))))"

definition init_config :: "init_args \<Rightarrow> string option \<Rightarrow> full_config" where
  \<comment> \<open>with \<open>DEFAULT_MONITORING\<close> and \<open>DEFAULT_RETENTION\<close>\<close>
  "init_config a token =
     \<lparr>fc_public =
        \<lparr>cfg_servers = [], cfg_freshness_seconds = Some 180, cfg_collection_interval_seconds = Some 60, cfg_confirmations = Some 2,
         cfg_quiet_notice_seconds = None, cfg_pc_target_interval_seconds = Some 60, cfg_observations_days = Some 7,
         cfg_events_days = Some 180, cfg_analytics_raw_days = Some 30, cfg_audit_days = Some 365, cfg_aggregates_days = Some 90,
         cfg_default_language = Some (ia_language a),
         cfg_admin_contact_url = (if text_set (ia_contact_url a) then ia_contact_url a else None)\<rparr>,
      fc_database = Some (as_posix (init_db_path a)), fc_collectors_file = None,
      fc_telegram =
        (case token of
           None \<Rightarrow> None
         | Some _ \<Rightarrow> Some \<lparr>tc_bot_token_file = as_posix (init_token_path a), tc_group_chat_id = or_default [] (ia_group_chat_id a),
                        tc_admin_chat_id = (if text_set (ia_admin_chat_id a) then ia_admin_chat_id a else None), tc_open_url = None\<rparr>),
      fc_public_url = None, fc_timezone = ia_timezone a\<rparr>"

definition app_block_valid :: "full_config \<Rightarrow> bool" where
  \<comment> \<open>the contract of the block only \<open>init\<close> writes\<close>
  "app_block_valid c \<longleftrightarrow>
     cfg_default_language (fc_public c) \<in> {Some ''ru'', Some ''en''} \<and>
     (case cfg_admin_contact_url (fc_public c) of None \<Rightarrow> True | Some url \<Rightarrow> starts_with ''https://t.me/'' url)"

definition double_quoted :: "string \<Rightarrow> string" where
  "double_quoted s = CHR 0x22 # s @ [CHR 0x22]"

definition init_lines :: "init_args \<Rightarrow> string option \<Rightarrow> string list" where
  "init_lines a token =
     [''config:    '' @ as_posix (init_config_path a), ''database:  '' @ as_posix (init_db_path a),
      ''secrets:   '' @ as_posix (init_secrets_dir a) @
        (if token \<noteq> None then ''  (0700; token file 0600)'' else ''  (0700; Telegram not configured yet)''),
      [], ''Next:'', ''  export VPN_PULSE_CONFIG='' @ as_posix (init_config_path a),
      ''  vpn-pulse server add --id my-vpn --type awg-host --name-ru '' @ double_quoted ''Moj server'' @ '' --name-en '' @
        double_quoted ''My server'' @ '' --country NL'',
      ''  vpn-pulse doctor'']"

definition command_init :: "init_args \<Rightarrow> site \<Rightarrow> outcome \<times> site" where
  "command_init a w =
     (let p = init_config_path a; fs = in_files (si_inst w)
      in if in_configs (si_inst w) p \<noteq> None \<and> \<not> ia_force a
         then (Finished (Inl (cli_fail (as_posix p @ '' exists; pass --force to overwrite it (servers and settings in it will be lost)''))), w)
         else case read_init_token fs (ia_token a) of
                TokenRefused e \<Rightarrow> (Finished (Inl e), w)
              | TokenUnreadable \<Rightarrow> (Uncaught, w)
              | TokenRead token \<Rightarrow>
                  if token = Some [] then (Finished (Inl (cli_fail ''the bot token is empty'')), w)
                  else if (token = None) \<noteq> (ia_group_chat_id a = None)
                  then (Finished (Inl (cli_fail (''Telegram needs both the bot token (--telegram-token-file or --telegram-token-stdin) and '' @
                          ''--group-chat-id; pass neither to configure it later''))), w)
                  else let c = init_config a token;
                           fs' = (case token of None \<Rightarrow> fs | Some t \<Rightarrow> write_secret_file (init_token_path a) t fs);
                           w1 = w\<lparr>si_inst := (si_inst w)\<lparr>in_files := fs'\<rparr>\<rparr>
                       in if \<not> app_block_valid c then (Finished (Inl (cli_fail ''config would be invalid'')), w1)
                          else case written_config p c w1 of
                                 Inl e \<Rightarrow> (Finished (Inl e), w1)
                               | Inr w2 \<Rightarrow>
                                   (Finished (Inr (map (redact (register_secret token [])) (init_lines a token), 0)),
                                    stored (init_db_path a) (or_default empty_db (si_dbs w2 (init_db_path a))) w2))"

subsection \<open>bot\<close>

datatype bot_start = BotAnswer answer | BotRaises | BotPollsOnce string telegram_bot | BotListens string telegram_bot

definition command_bot :: "bool \<Rightarrow> path option \<Rightarrow> site \<Rightarrow> bot_start" where
  \<comment> \<open>the token and the bot that polls; \<open>BotRaises\<close> when the token file cannot be read\<close>
  "command_bot once config_path w =
     (case config_path of
        None \<Rightarrow> BotAnswer (Inl (cli_fail ''vpn-pulse bot: --config PATH is required (or VPN_PULSE_CONFIG)''))
      | Some _ \<Rightarrow>
          (case load_public_config config_path (si_inst w) of
             Inl e \<Rightarrow> BotAnswer (Inl e)
           | Inr (p, c) \<Rightarrow>
               (case fc_telegram c of
                  None \<Rightarrow> BotAnswer (Inr ([''vpn-pulse bot: Telegram is not configured (telegram block in config.yaml) - nothing to listen to''], 0))
                | Some t \<Rightarrow>
                    if \<not> text_set (fc_public_url c)
                    then BotAnswer (Inl (cli_fail ''vpn-pulse bot: app.public_url is missing in config.yaml - the /start button needs the Mini App address''))
                    else let token_file = path_of (tc_bot_token_file t); status = secret_file_status (in_files (si_inst w)) token_file
                         in if status \<noteq> ''ok''
                            then BotAnswer (Inl (cli_fail (''telegram token file '' @ as_posix token_file @ '': '' @ status @ '' (vpn-pulse doctor telegram)'')))
                            else case Option.bind (in_files (si_inst w) token_file) file_text of
                                   None \<Rightarrow> BotRaises
                                 | Some content \<Rightarrow>
                                     (if once then BotPollsOnce else BotListens) (strip content)
                                       \<lparr>bt_app_url = or_default [] (fc_public_url c),
                                        bt_default_language = or_default ''ru'' (cfg_default_language (fc_public c)), bt_offset = None\<rparr>)))"

subsection \<open>demo clear\<close>

definition demo_marker :: "path \<Rightarrow> path" where
  "demo_marker db_path = path_join (parent db_path) (path_of ''demo-data'')"

definition cleared_tables :: "db \<Rightarrow> db" where
  \<comment> \<open>\<open>TABLES_TO_CLEAR\<close>\<close>
  "cleared_tables d =
     d\<lparr>db_queue := [], db_events := [], db_transitions := [], db_snapshots := [], db_metrics := [], db_observations := [],
       db_reports := [], db_probes := [], db_enrollments := [], db_notes := [], db_runs := [], db_protocols := [], db_servers := []\<rparr>"

definition command_demo_clear :: "bool \<Rightarrow> terminal \<Rightarrow> string option \<Rightarrow> path option \<Rightarrow> site \<Rightarrow> answer \<times> site" where
  "command_demo_clear yes tty args_db config_path w =
     (case load_public_config config_path (si_inst w) of
        Inl e \<Rightarrow> (Inl e, w)
      | Inr (p, c) \<Rightarrow>
          let db_path = resolve_db args_db (Some c); marker = demo_marker db_path
          in if in_files (si_inst w) marker = None
             then (Inl (CliError ''no demo marker next to the database - nothing to clear (this protects real data)'' 1), w)
             else case confirm yes tty (''Remove the demo data from '' @ as_posix db_path @ '' and the demo servers from '' @ as_posix p @ ''?'') of
                    Inl e \<Rightarrow> (Inl e, w)
                  | Inr (asked, False) \<Rightarrow> (Inr (asked @ [''nothing changed''], 1), w)
                  | Inr (asked, True) \<Rightarrow>
                      (case si_dbs w db_path of
                         None \<Rightarrow> (Inl (cli_fail (''database not found: '' @ as_posix db_path @ '' (vpn-pulse init creates it, or pass --db)'')), w)
                       | Some d \<Rightarrow>
                           let w1 = stored db_path (cleared_tables d) w;
                               w2 = w1\<lparr>si_inst := (si_inst w1)\<lparr>in_files := (in_files (si_inst w1))(marker := None)\<rparr>\<rparr>
                           in case written_config p (with_servers c []) w2 of
                                Inl e \<Rightarrow> (Inl e, w2)
                              | Inr w3 \<Rightarrow> (Inr (asked @ [''demo data removed; config.yaml has no servers - vpn-pulse server add''], 0), w3)))"

subsection \<open>Adding and removing a server\<close>

lemma with_servers_simps [simp]:
  "servers_of (with_servers c ss) = ss" "with_servers (with_servers c ss) ss' = with_servers c ss'" "with_servers c (servers_of c) = c"
  "resolve_db args_db (Some (with_servers c ss)) = resolve_db args_db (Some c)"
  "cfg_servers (fc_public (with_servers c ss)) = ss" "sc_id (added_entry a) = sa_id a"
  "fc_database (with_servers c ss) = fc_database c" "fc_collectors_file (with_servers c ss) = fc_collectors_file c"
  by (simp_all add: with_servers_def servers_of_def resolve_db_def added_entry_def)

lemma configured_iff: "configured c server_id \<longleftrightarrow> server_id \<in> sc_id ` set (servers_of c)"
  by (auto simp: configured_def servers_of_def list_ex_iff)

lemma written_config_Inr:
  "written_config p c w = Inr w' \<longleftrightarrow>
   full_config_valid c \<and> w' = w\<lparr>si_inst := (si_inst w)\<lparr>in_configs := (in_configs (si_inst w))(p \<mapsto> Inr c)\<rparr>\<rparr>"
  by (auto simp: written_config_def write_config_atomic_def)

lemma load_written:
  "load_public_config (Some p) (i\<lparr>in_configs := (in_configs i)(p \<mapsto> Inr c)\<rparr>) = Inr (p, c)"
  by (simp add: load_public_config_def)

lemma load_path: "load_public_config config_path i = Inr (p, c) \<Longrightarrow> config_path = Some p"
  by (auto simp: load_public_config_def split: option.splits sum.splits)

lemma synced_inst [simp]: "si_inst (synced args_db c now w) = si_inst w"
  by (simp add: synced_def stored_def Let_def split: option.split)

lemma valid_subset: "full_config_valid (with_servers c ss) \<Longrightarrow> set ss' \<subseteq> set ss \<Longrightarrow> full_config_valid (with_servers c ss')"
  by (auto simp: full_config_valid_def with_servers_def list_all_iff)

text \<open>Adding a server makes it known at once and removing it takes exactly that back: after \<open>server add\<close> the
  configuration is valid and ends in the new server, whose id no other has, and the database (when there is one)
  knows it, so notes and probes may refer to it; \<open>server remove\<close> then restores the configuration as it was.\<close>
theorem added_then_removed:
  assumes "command_server_add a config_path now w = (Inr out, w1)" "load_public_config config_path (si_inst w) = Inr (p, c)"
  shows "load_public_config config_path (si_inst w1) = Inr (p, with_servers c (servers_of c @ [added_entry a])) \<and>
    full_config_valid (with_servers c (servers_of c @ [added_entry a])) \<and> sa_id a \<notin> sc_id ` set (servers_of c) \<and>
    (\<forall>d. si_dbs w (resolve_db (sa_db a) (Some c)) = Some d \<longrightarrow>
       (\<exists>d1. si_dbs w1 (resolve_db (sa_db a) (Some c)) = Some d1 \<and> sa_id a \<in> known_servers d1 \<and> known_servers d \<subseteq> known_servers d1)) \<and>
    (\<exists>lines w2. command_server_remove (sa_id a) True tty args_db config_path later w1 = (Inr (lines, 0), w2) \<and>
       load_public_config config_path (si_inst w2) = Inr (p, c))"
proof -
  let ?c = "with_servers c (servers_of c @ [added_entry a])"
  have path: "config_path = Some p" by (rule load_path [OF assms(2)])
  from assms have new: "sa_id a \<notin> sc_id ` set (servers_of c)"
    by (auto simp: command_server_add_def configured_iff Let_def split: if_splits sum.splits)
  from assms obtain w' where w': "written_config p ?c w = Inr w'" "w1 = synced (sa_db a) ?c now w'"
    by (auto simp: command_server_add_def Let_def split: if_splits sum.splits)
  then have valid: "full_config_valid ?c" and inst: "si_inst w1 = (si_inst w)\<lparr>in_configs := (in_configs (si_inst w))(p \<mapsto> Inr ?c)\<rparr>"
    and dbs: "si_dbs w' = si_dbs w" by (auto simp: written_config_Inr)
  have load1: "load_public_config config_path (si_inst w1) = Inr (p, ?c)" unfolding inst path by (rule load_written)
  have known: "\<exists>d1. si_dbs w1 (resolve_db (sa_db a) (Some c)) = Some d1 \<and> sa_id a \<in> known_servers d1 \<and> known_servers d \<subseteq> known_servers d1"
    if "si_dbs w (resolve_db (sa_db a) (Some c)) = Some d" for d
    using that by (auto simp: w'(2) synced_def dbs stored_def Let_def sync_servers_known)
  have "filter (\<lambda>s. sc_id s \<noteq> sa_id a) (servers_of c @ [added_entry a]) = servers_of c"
    using new by (force simp: filter_id_conv)
  moreover have "full_config_valid c" using valid_subset [OF valid, of "servers_of c"] by auto
  ultimately have "\<exists>lines w2. command_server_remove (sa_id a) True tty args_db config_path later w1 = (Inr (lines, 0), w2) \<and>
       load_public_config config_path (si_inst w2) = Inr (p, c)"
    using load1 by (simp add: command_server_remove_def configured_iff confirm_def Let_def written_config_def
        write_config_atomic_def path load_public_config_def del: fun_upd_apply) (simp)
  with load1 valid new known show ?thesis by blast
qed

definition sample_add :: add_args where
  "sample_add = \<lparr>sa_id = ''s2'', sa_type = ''awg-host'', sa_name_ru = ''B'', sa_name_en = ''B'', sa_country = ''nl'', sa_priority = None,
     sa_collector_ref = None, sa_disabled = False, sa_db = None\<rparr>"

theorem added_then_removed_witness:
  "\<exists>w2 lines. command_server_remove ''s2'' True NotATerminal None (Some sample_config_path) 9
       (snd (command_server_add sample_add (Some sample_config_path) 5 sample_site)) = (Inr (lines, 0), w2) \<and>
     load_public_config (Some sample_config_path) (si_inst w2) = Inr (sample_config_path, sample_full_config)"
proof -
  have "\<not> isl (fst (command_server_add sample_add (Some sample_config_path) 5 sample_site))" by code_simp
  then obtain out where "command_server_add sample_add (Some sample_config_path) 5 sample_site =
      (Inr out, snd (command_server_add sample_add (Some sample_config_path) 5 sample_site))"
    by (cases "fst (command_server_add sample_add (Some sample_config_path) 5 sample_site)") (auto simp: prod_eq_iff)
  moreover have "load_public_config (Some sample_config_path) (si_inst sample_site) = Inr (sample_config_path, sample_full_config)"
    by (simp add: sample_site_def)
  ultimately show ?thesis using added_then_removed by (fastforce simp: sample_add_def)
qed

subsection \<open>A new installation\<close>

lemma strip_trailing: "is_space c \<Longrightarrow> strip (s @ [c]) = strip s"
  by (cases "\<forall>x\<in>set s. is_space x") (auto simp: strip_def dropWhile_append dest: set_dropWhileD)

lemma strip_strip: "strip (strip s) = strip s"
  using strip_strip_newline [of s] strip_trailing [of "CHR 0x0A" "strip s"] by (simp add: is_space_def)

lemma as_posix_not_Nil: "clean_path p \<Longrightarrow> as_posix p \<noteq> []"
proof
  assume clean: "clean_path p" and nil: "as_posix p = []"
  then have "p = path_of []" using path_of_as_posix by metis
  then have "as_posix p = ''.''" by (simp add: path_of_def as_posix_def starts_with_def)
  with nil show False by simp
qed

lemma init_success:
  assumes "command_init a w = (Finished (Inr (lines, code)), w')"
  obtains token where "read_init_token (in_files (si_inst w)) (ia_token a) = TokenRead token" "token \<noteq> Some []" "(token = None) = (ia_group_chat_id a = None)"
    "si_inst w' = (si_inst w)\<lparr>in_files := (case token of None \<Rightarrow> in_files (si_inst w) | Some t \<Rightarrow> write_secret_file (init_token_path a) t (in_files (si_inst w))),
       in_configs := (in_configs (si_inst w))(init_config_path a \<mapsto> Inr (init_config a token))\<rparr>"
    "si_dbs w' (init_db_path a) = Some (or_default empty_db (si_dbs w (init_db_path a)))"
    "lines = map (redact (register_secret token [])) (init_lines a token)" "code = 0"
proof -
  from assms obtain token where t: "read_init_token (in_files (si_inst w)) (ia_token a) = TokenRead token"
    by (auto simp: command_init_def Let_def split: if_splits read_token.splits)
  let ?p = "init_config_path a" and ?c = "init_config a token" and ?fs = "in_files (si_inst w)"
  let ?fs' = "case token of None \<Rightarrow> ?fs | Some t \<Rightarrow> write_secret_file (init_token_path a) t ?fs"
  let ?w1 = "w\<lparr>si_inst := (si_inst w)\<lparr>in_files := ?fs'\<rparr>\<rparr>"
  from assms have both: "token \<noteq> Some []" "(token = None) = (ia_group_chat_id a = None)"
    by (auto simp: command_init_def Let_def t split: if_splits)
  from assms obtain w2 where w2: "written_config ?p ?c ?w1 = Inr w2"
    by (auto simp: command_init_def Let_def t split: if_splits sum.splits)
  with assms have out: "lines = map (redact (register_secret token [])) (init_lines a token)" "code = 0"
      "w' = stored (init_db_path a) (or_default empty_db (si_dbs w2 (init_db_path a))) w2"
    by (auto simp: command_init_def Let_def t split: if_splits)
  from w2 have "w2 = ?w1\<lparr>si_inst := (si_inst ?w1)\<lparr>in_configs := (in_configs (si_inst ?w1))(?p \<mapsto> Inr ?c)\<rparr>\<rparr>" by (simp add: written_config_Inr)
  then have inst: "si_inst w' = (si_inst w)\<lparr>in_files := ?fs', in_configs := (in_configs (si_inst w))(?p \<mapsto> Inr ?c)\<rparr>"
      "si_dbs w' (init_db_path a) = Some (or_default empty_db (si_dbs w (init_db_path a)))"
    by (simp_all add: out(3) stored_def)
  show thesis by (rule that [OF t both inst out(1,2)])
qed

lemma init_database: "clean_path (init_db_path a) \<Longrightarrow> resolve_db None (Some (init_config a token)) = init_db_path a"
  using path_of_as_posix as_posix_not_Nil by (simp add: resolve_db_def init_config_def text_set_def or_default_def)

lemma read_token_stripped: "read_init_token fs source = TokenRead (Some secret) \<Longrightarrow> strip secret = secret"
  by (auto simp: read_init_token_def strip_strip split: token_source.splits option.splits)

text \<open>\<open>init\<close> leaves an installation the other commands work with: its configuration loads and leads to the
  database, which is there (an existing one untouched) with the current tables; with a bot token the messenger
  can be made and its token file is readable by the owner only, without one messages are printed; and no line
  printed contains the token.\<close>
theorem init_gives_installation:
  assumes "command_init a w = (Finished (Inr (lines, code)), w')"
    "clean_path (init_db_path a)" "clean_path (init_token_path a)" "ia_group_chat_id a \<noteq> Some []"
  shows "\<exists>token. read_init_token (in_files (si_inst w)) (ia_token a) = TokenRead token \<and> code = 0 \<and>
    opened None (Some (init_config_path a)) w' = Inr (init_config a token, init_db_path a, or_default empty_db (si_dbs w (init_db_path a))) \<and>
    make_notifier (init_config a token) (in_files (si_inst w')) None None None =
      Inr (case token of None \<Rightarrow> ConsoleMessenger
           | Some t \<Rightarrow> TelegramMessenger (init_token_path a) (or_default [] (ia_group_chat_id a))
                         (if text_set (ia_admin_chat_id a) then ia_admin_chat_id a else None) None) \<and>
    (\<forall>t. token = Some t \<longrightarrow> plain_secret t \<longrightarrow> 6 \<le> length t \<longrightarrow> (\<forall>l\<in>set lines. \<not> contains t l))"
proof -
  obtain token where t: "read_init_token (in_files (si_inst w)) (ia_token a) = TokenRead token" "token \<noteq> Some []"
      "(token = None) = (ia_group_chat_id a = None)"
    and w': "si_inst w' = (si_inst w)\<lparr>in_files := (case token of None \<Rightarrow> in_files (si_inst w) | Some t \<Rightarrow> write_secret_file (init_token_path a) t (in_files (si_inst w))),
       in_configs := (in_configs (si_inst w))(init_config_path a \<mapsto> Inr (init_config a token))\<rparr>"
      "si_dbs w' (init_db_path a) = Some (or_default empty_db (si_dbs w (init_db_path a)))"
    and out: "lines = map (redact (register_secret token [])) (init_lines a token)" "code = 0"
    by (rule init_success [OF assms(1)])
  let ?c = "init_config a token"
  have "opened None (Some (init_config_path a)) w' = Inr (?c, init_db_path a, or_default empty_db (si_dbs w (init_db_path a)))"
    using w'(2) by (simp add: opened_def w'(1) load_public_config_def init_database [OF assms(2)] Let_def)
  moreover have "make_notifier ?c (in_files (si_inst w')) None None None =
      Inr (case token of None \<Rightarrow> ConsoleMessenger
           | Some t \<Rightarrow> TelegramMessenger (init_token_path a) (or_default [] (ia_group_chat_id a))
                         (if text_set (ia_admin_chat_id a) then ia_admin_chat_id a else None) None)"
  proof (cases token)
    case None
    then show ?thesis by (simp add: make_notifier_def init_config_def flag_or_def text_set_def)
  next
    case (Some secret)
    with t read_token_stripped have "strip secret \<noteq> []" by force
    then have "secret_file_status (in_files (si_inst w')) (init_token_path a) = ''ok''"
      by (simp add: w'(1) Some written_secret_is_ok)
    moreover obtain g where "ia_group_chat_id a = Some g" "g \<noteq> []" using t(3) assms(4) Some by auto
    ultimately show ?thesis
      using path_of_as_posix [OF assms(3)] as_posix_not_Nil [OF assms(3)]
      by (simp add: make_notifier_def init_config_def Some flag_or_def text_set_def or_default_def Let_def)
  qed
  moreover have "\<not> contains secret l" if "token = Some secret" "plain_secret secret" "6 \<le> length secret" "l \<in> set lines" for secret l
    using that redacted_hides [where later = "[]" and secrets = "[]" and others = "[]"] by (auto simp: out(1))
  ultimately show ?thesis using t(1) out(2) by blast
qed

definition sample_init_args :: init_args where
  "sample_init_args = \<lparr>ia_dir = Path True [''srv''], ia_data_dir = None, ia_secrets_dir = None, ia_language = ''en'', ia_timezone = ''UTC'',
     ia_contact_url = None, ia_group_chat_id = Some ''-100'', ia_admin_chat_id = None, ia_token = TokenTyped ''123:abcdef '', ia_force = False\<rparr>"

theorem init_gives_installation_witness:
  "\<exists>token. read_init_token (in_files (si_inst sample_site)) (ia_token sample_init_args) = TokenRead token \<and>
     opened None (Some (Path True [''srv'', ''config.yaml''])) (snd (command_init sample_init_args sample_site)) =
       Inr (init_config sample_init_args token, Path True [''srv'', ''data'', ''vpnpulse.sqlite3''], empty_db)"
proof -
  have "(case fst (command_init sample_init_args sample_site) of Finished (Inr _) \<Rightarrow> True | _ \<Rightarrow> False)" by code_simp
  then obtain lines code where run: "command_init sample_init_args sample_site = (Finished (Inr (lines, code)), snd (command_init sample_init_args sample_site))"
    by (auto simp: prod_eq_iff split: outcome.splits sum.splits)
  have paths: "init_config_path sample_init_args = Path True [''srv'', ''config.yaml'']"
      "init_db_path sample_init_args = Path True [''srv'', ''data'', ''vpnpulse.sqlite3'']" by code_simp+
  have ok: "clean_path (init_db_path sample_init_args)" "clean_path (init_token_path sample_init_args)" by code_simp+
  have "ia_group_chat_id sample_init_args \<noteq> Some []" by (simp add: sample_init_args_def)
  from init_gives_installation [OF run ok this] show ?thesis
    unfolding paths by (auto simp: or_default_def sample_site_def)
qed

subsection \<open>Demo data\<close>

text \<open>\<open>demo clear\<close> touches nothing unless the marker says the data is a demonstration; when it is done no server,
  observation, state or probe is left and the marker is gone, while sessions and the audit trail stay.\<close>
theorem demo_clear_needs_marker:
  assumes "command_demo_clear yes tty args_db config_path w = (result, w')" "load_public_config config_path (si_inst w) = Inr (p, c)"
  defines "db_path \<equiv> resolve_db args_db (Some c)"
  shows "(in_files (si_inst w) (demo_marker db_path) = None \<longrightarrow> w' = w \<and> isl result) \<and>
    (\<forall>lines. result = Inr (lines, 0) \<longrightarrow>
       (\<exists>d d'. si_dbs w db_path = Some d \<and> si_dbs w' db_path = Some d' \<and> known_servers d' = {} \<and> db_observations d' = [] \<and>
          db_snapshots d' = [] \<and> db_probes d' = [] \<and> db_sessions d' = db_sessions d \<and> db_audit d' = db_audit d) \<and>
       in_files (si_inst w') (demo_marker db_path) = None \<and>
       load_public_config config_path (si_inst w') = Inr (p, with_servers c []))"
proof -
  have path: "config_path = Some p" by (rule load_path [OF assms(2)])
  have "load_public_config config_path (si_inst w') = Inr (p, with_servers c []) \<and>
      in_files (si_inst w') (demo_marker db_path) = None \<and> (\<exists>d. si_dbs w db_path = Some d \<and> si_dbs w' db_path = Some (cleared_tables d))"
    if "result = Inr (lines, 0)" for lines
  proof -
    from assms(1) that obtain d w3 where "si_dbs w db_path = Some d"
        "written_config p (with_servers c []) ((stored db_path (cleared_tables d) w)\<lparr>si_inst := (si_inst w)\<lparr>in_files := (in_files (si_inst w))(demo_marker db_path := None)\<rparr>\<rparr>) = Inr w3" "w' = w3"
      by (auto simp: command_demo_clear_def assms(2) db_path_def [symmetric] Let_def stored_def split: if_splits sum.splits bool.splits option.splits prod.splits)
    then show ?thesis by (simp add: written_config_Inr stored_def path load_public_config_def)
  qed
  moreover have "in_files (si_inst w) (demo_marker db_path) = None \<longrightarrow> w' = w \<and> isl result"
    using assms(1) by (auto simp: command_demo_clear_def assms(2) db_path_def [symmetric] Let_def)
  ultimately show ?thesis by (fastforce simp: cleared_tables_def known_servers_def)
qed

definition sample_demo_site :: site where
  "sample_demo_site =
     \<lparr>si_inst = sample_installation\<lparr>in_files := [Path True [''var'', ''demo-data''] \<mapsto> owner_only ''demo'']\<rparr>,
      si_dbs = [Path True [''var'', ''db''] \<mapsto> sync_servers empty_db (fc_public sample_full_config) 5]\<rparr>"

theorem demo_clear_needs_marker_witness:
  "\<exists>d'. si_dbs (snd (command_demo_clear True NotATerminal None (Some sample_config_path) sample_demo_site)) (Path True [''var'', ''db'']) = Some d' \<and>
     known_servers d' = {}"
proof -
  let ?run = "command_demo_clear True NotATerminal None (Some sample_config_path) sample_demo_site"
  have "(case fst ?run of Inr (_, n) \<Rightarrow> n = 0 | _ \<Rightarrow> False)" by code_simp
  then obtain lines where run: "?run = (Inr (lines, 0), snd ?run)" by (auto simp: prod_eq_iff split: sum.splits)
  have load: "load_public_config (Some sample_config_path) (si_inst sample_demo_site) = Inr (sample_config_path, sample_full_config)"
    by (simp add: sample_demo_site_def load_public_config_def sample_installation_def)
  have "resolve_db None (Some sample_full_config) = Path True [''var'', ''db'']" by code_simp
  with demo_clear_needs_marker [OF run load] show ?thesis by auto
qed

end
