(* ===== verification/Processes.thy ===== *)
theory Processes
  imports Setup_Cli Auth
begin

text \<open>
  The long-running processes: the monitoring loop (\<open>Pipeline.run_forever\<close> of src/src/vpnpulse/pipeline.py) and the
  command that starts it (cli/run.py), the API process (serve.py, cli/serve.py), the Mini App's files as it serves
  them (api/static.py), and the phases of the scripted collector (collectors/fixture.py).
\<close>

subsection \<open>The loop\<close>

function naps :: "timedelta \<Rightarrow> timedelta list" where
  \<comment> \<open>the sleeps until the next run when nobody stops the loop\<close>
  "naps remaining = (if remaining \<le> 0 then [] else let step = min second remaining in step # naps (remaining - step))"
  by pat_completeness auto
termination by (relation "measure nat") (auto simp: second_def)

declare naps.simps [simp del]

text \<open>One round: its instant, what the run meets, how long it takes, and whether and when \<open>stop\<close> is called.\<close>

datatype stop_call = NoStop | StopInRun | StopInNap nat

record loop_round =
  lo_now :: datetime
  lo_inputs :: run_inputs
  lo_elapsed :: timedelta
  lo_stop :: stop_call

definition loop_run :: "config \<Rightarrow> collector list \<Rightarrow> int \<Rightarrow> timedelta \<Rightarrow> pipeline_state \<Rightarrow> loop_round \<Rightarrow> pipeline_state \<times> (run_error + run_summary)" where
  "loop_run config collectors backoff maintenance p r = run_once config collectors backoff maintenance (lo_inputs r) (lo_now r) p"

fun run_forever ::
  "config \<Rightarrow> collector list \<Rightarrow> int \<Rightarrow> timedelta \<Rightarrow> timedelta \<Rightarrow> loop_round list \<Rightarrow> pipeline_state \<Rightarrow> nat \<times> timedelta list \<times> pipeline_state" where
  \<comment> \<open>the successful runs, the sleeps and the state after the rounds; an error of a run is logged only\<close>
  "run_forever config collectors backoff maintenance interval [] p = (0, [], p)"
| "run_forever config collectors backoff maintenance interval (r # rs) p =
     (let (p', outcome) = loop_run config collectors backoff maintenance p r;
          runs = (case outcome of Inl _ \<Rightarrow> 0 | Inr _ \<Rightarrow> 1);
          sleeps = naps (interval - lo_elapsed r)
      in case lo_stop r of
           StopInRun \<Rightarrow> (runs, [], p')
         | StopInNap k \<Rightarrow> (runs, take (k + 1) sleeps, p')
         | NoStop \<Rightarrow> (case run_forever config collectors backoff maintenance interval rs p' of (n, later, p'') \<Rightarrow> (runs + n, sleeps @ later, p'')))"

lemma naps_facts: "sum_list (naps remaining) = max 0 remaining \<and> (\<forall>x\<in>set (naps remaining). 0 < x \<and> x \<le> second)"
proof (induction remaining rule: naps.induct)
  case (1 remaining)
  show ?case
  proof (cases "remaining \<le> 0")
    case True
    then show ?thesis by (simp add: naps.simps)
  next
    case False
    then have unfold: "naps remaining = min second remaining # naps (remaining - min second remaining)"
      by (subst naps.simps) (simp add: Let_def)
    with 1 [OF False refl] False show ?thesis by (auto simp: unfold min_def)
  qed
qed

text \<open>C21. The loop never gives up: whatever a run raises, the next one starts, with the state the last one left;
  keys and references of the database stay intact; and between the starts of two runs lies the interval (or the
  duration of the run, if that is longer), slept in steps of at most a second, so that a call of \<open>stop\<close> is
  noticed within one.\<close>
theorem loop_never_gives_up:
  assumes "\<forall>r\<in>set rounds. lo_stop r = NoStop"
  shows "\<exists>n sleeps. run_forever config collectors backoff maintenance interval rounds p =
      (n, sleeps, foldl (\<lambda>p r. fst (loop_run config collectors backoff maintenance p r)) p rounds) \<and>
    sum_list sleeps = sum_list (map (\<lambda>r. max 0 (interval - lo_elapsed r)) rounds) \<and> (\<forall>x\<in>set sleeps. 0 < x \<and> x \<le> second) \<and>
    (pipeline_inv (pl_db p) \<longrightarrow> pipeline_inv (pl_db (foldl (\<lambda>p r. fst (loop_run config collectors backoff maintenance p r)) p rounds)))"
  using assms
proof (induction rounds arbitrary: p)
  case (Cons r rs)
  obtain p' outcome where run: "loop_run config collectors backoff maintenance p r = (p', outcome)" by fastforce
  have "pipeline_inv (pl_db p) \<Longrightarrow> pipeline_inv (pl_db p')"
    using pipeline_inv_run_once [of p] run unfolding loop_run_def by (metis fst_conv)
  moreover obtain n sleeps where "run_forever config collectors backoff maintenance interval rs p' =
      (n, sleeps, foldl (\<lambda>p r. fst (loop_run config collectors backoff maintenance p r)) p' rs)"
      "sum_list sleeps = sum_list (map (\<lambda>r. max 0 (interval - lo_elapsed r)) rs)" "\<forall>x\<in>set sleeps. 0 < x \<and> x \<le> second"
      "pipeline_inv (pl_db p') \<longrightarrow> pipeline_inv (pl_db (foldl (\<lambda>p r. fst (loop_run config collectors backoff maintenance p r)) p' rs))"
    using Cons by force
  ultimately show ?case
    using Cons.prems naps_facts [of "interval - lo_elapsed r"] by (auto simp: run)
qed simp

definition sample_rounds :: "loop_round list" where
  "sample_rounds = replicate 2 \<lparr>lo_now = 5, lo_inputs = \<lparr>in_run_id = Uuid4 ''r'', in_trace_id = ''t'', in_duration_ms = 1, in_messenger = (\<lambda>_. Raised)\<rparr>,
     lo_elapsed = 0, lo_stop = NoStop\<rparr>"

theorem loop_never_gives_up_witness:
  "\<exists>n sleeps p'. run_forever sample_config [] 30 hour (seconds 60) sample_rounds \<lparr>pl_db = empty_db, pl_runs = 0, pl_last_maintenance = None\<rparr> = (n, sleeps, p') \<and>
     sum_list sleeps = seconds 120 \<and> pipeline_inv (pl_db p')"
  using loop_never_gives_up [of sample_rounds sample_config "[]" 30 hour "seconds 60" "\<lparr>pl_db = empty_db, pl_runs = 0, pl_last_maintenance = None\<rparr>"] pipeline_inv_empty
  by (simp add: sample_rounds_def seconds_def numeral_2_eq_2) blast

subsection \<open>run\<close>

record run_args =
  ra_once :: bool
  ra_interval :: "int option"
  ra_demo :: bool
  ra_token_file :: "string option"
  ra_group_chat_id :: "string option"
  ra_admin_chat_id :: "string option"
  ra_db :: "string option"

text \<open>What the loop is started with; \<open>rc_demo\<close> puts the scripted collector before the real ones.\<close>

record run_choice =
  rc_config :: full_config
  rc_db_path :: path
  rc_demo :: bool
  rc_collectors :: "built_collector list"
  rc_notifier :: notifier_choice
  rc_once :: bool
  rc_interval_seconds :: int

definition command_run :: "full_config \<Rightarrow> run_args \<Rightarrow> path option \<Rightarrow> site \<Rightarrow> (cli_error + run_choice) \<times> site" where
  \<comment> \<open>\<open>demo_config\<close> is the configuration of the demonstration; a database is made when there is none\<close>
  "command_run demo_config a config_path w =
     (case (case config_path of
              Some _ \<Rightarrow> map_sum id snd (load_public_config config_path (si_inst w))
            | None \<Rightarrow> if ra_demo a then Inr demo_config else Inl (cli_fail ''vpn-pulse run: --config PATH is required (or --demo)'')) of
        Inl e \<Rightarrow> (Inl e, w)
      | Inr c \<Rightarrow>
          let db_path = resolve_db (ra_db a) (Some c); w' = stored db_path (or_default empty_db (si_dbs w db_path)) w
          in (bind_err (real_collectors c config_path (in_maps (si_inst w)) (in_files (si_inst w))) (\<lambda>collectors.
              bind_err (make_notifier c (in_files (si_inst w)) (ra_token_file a) (ra_group_chat_id a) (ra_admin_chat_id a)) (\<lambda>notifier.
                Inr \<lparr>rc_config = c, rc_db_path = db_path, rc_demo = ra_demo a, rc_collectors = collectors, rc_notifier = notifier,
                     rc_once = ra_once a, rc_interval_seconds =
                       nonzero_or (or_default 60 (cfg_collection_interval_seconds (fc_public c))) (ra_interval a)\<rparr>)), w'))"

subsection \<open>serve\<close>

record served =
  sv_config :: full_config
  sv_token :: string
  sv_membership :: "(string \<times> membership) option"   \<comment> \<open>the group and the check; None is \<open>NoMembership\<close>\<close>
  sv_mode :: string
  sv_store :: store_settings
  sv_contact_url :: "string option"
  sv_default_language :: string

definition admin_ids_of :: "string \<Rightarrow> int list option" where
  \<comment> \<open>the administrator's id when the chat is a person's; None is the ValueError of \<open>int\<close>\<close>
  "admin_ids_of admin =
     (if isdigit (dropWhile (\<lambda>c. c = CHR ''-'') admin)
      then map_option (\<lambda>n. if 0 < n then [n] else []) (parse_int admin) else Some [])"

datatype built_app = Served served | NotServed cli_error | ServeRaises

definition build_app :: "path \<Rightarrow> site \<Rightarrow> built_app \<times> site" where
  "build_app config_path w =
     (case load_public_config (Some config_path) (si_inst w) of
        Inl e \<Rightarrow> (NotServed e, w)
      | Inr (p, c) \<Rightarrow>
          let db_path = resolve_db None (Some c); w' = stored db_path (or_default empty_db (si_dbs w db_path)) w;
              app = (\<lambda>token membership.
                \<lparr>sv_config = c, sv_token = token, sv_membership = membership,
                 sv_mode = (if in_files (si_inst w) (demo_marker db_path) = None then ''live'' else ''demo''),
                 sv_store = \<lparr>st_config = fc_public c, st_pepper = (if token = [] then ''vpn-pulse'' else token),
                             st_session_minutes = 30, st_enrollment_minutes = 10\<rparr>,
                 sv_contact_url = cfg_admin_contact_url (fc_public c),
                 sv_default_language = or_default ''ru'' (cfg_default_language (fc_public c))\<rparr>)
          in (case fc_telegram c of
                None \<Rightarrow> Served (app [] None)
              | Some t \<Rightarrow>
                  (let token_file = path_of (tc_bot_token_file t);
                       missing = NotServed (cli_fail (''telegram token file '' @ as_posix token_file @ '': missing or empty (vpn-pulse doctor telegram)''))
                   in case in_files (si_inst w) token_file of
                        None \<Rightarrow> missing
                      | Some f \<Rightarrow>
                          (case file_text f of
                             None \<Rightarrow> ServeRaises
                           | Some content \<Rightarrow>
                               if strip content = [] then missing
                               else (case admin_ids_of (or_default [] (tc_admin_chat_id t)) of
                                       None \<Rightarrow> ServeRaises
                                     | Some ids \<Rightarrow> Served (app (strip content) (Some (tc_group_chat_id t, membership_init ids 300)))))),
              w'))"

definition app_from_environment :: "string option \<Rightarrow> site \<Rightarrow> built_app \<times> site" where
  "app_from_environment variable w =
     (if text_set variable then build_app (path_of (or_default [] variable)) w
      else (NotServed (cli_fail ''VPN_PULSE_CONFIG is not set''), w))"

lemma admin_ids_positive: "admin_ids_of admin = Some ids \<Longrightarrow> \<forall>n\<in>set ids. 0 < n \<and> parse_int admin = Some n"
  by (auto simp: admin_ids_of_def split: if_splits)

text \<open>C32. The API process of a new installation: the files \<open>init\<close> wrote with a bot token are all it needs. It
  runs with that token as key of the Telegram signatures and as pepper, asks about members of the configured
  group, has an administrator only where the configured chat is a person, and shows demonstration data only when
  the marker lies next to the database.\<close>
theorem init_then_serve:
  assumes "command_init a w = (Finished (Inr (lines, code)), w')" "clean_path (init_db_path a)" "clean_path (init_token_path a)"
    "read_init_token (in_files (si_inst w)) (ia_token a) = TokenRead (Some secret)"
    "admin_ids_of (or_default [] (ia_admin_chat_id a)) = Some ids"
    "demo_marker (init_db_path a) \<noteq> init_token_path a"
  shows "\<exists>app w''. build_app (init_config_path a) w' = (Served app, w'') \<and> sv_token app = secret \<and> st_pepper (sv_store app) = secret \<and>
    sv_membership app = Some (or_default [] (ia_group_chat_id a), membership_init ids 300) \<and> (\<forall>n\<in>set ids. 0 < n) \<and>
    sv_mode app = (if in_files (si_inst w) (demo_marker (init_db_path a)) = None then ''live'' else ''demo'') \<and>
    si_dbs w'' (init_db_path a) = Some (or_default empty_db (si_dbs w (init_db_path a)))"
proof -
  obtain token where t: "read_init_token (in_files (si_inst w)) (ia_token a) = TokenRead token" "token \<noteq> Some []"
    and w': "si_inst w' = (si_inst w)\<lparr>in_files := (case token of None \<Rightarrow> in_files (si_inst w) | Some t \<Rightarrow> write_secret_file (init_token_path a) t (in_files (si_inst w))),
       in_configs := (in_configs (si_inst w))(init_config_path a \<mapsto> Inr (init_config a token))\<rparr>"
      "si_dbs w' (init_db_path a) = Some (or_default empty_db (si_dbs w (init_db_path a)))"
    by (rule init_success [OF assms(1)])
  from t assms(4) have token: "token = Some secret" "secret \<noteq> []" by auto
  have secret: "strip (strip secret @ [CHR 0x0A]) = secret"
    using read_token_stripped [OF assms(4)] strip_strip_newline [of secret] by (simp only:)
  have load: "load_public_config (Some (init_config_path a)) (si_inst w') = Inr (init_config_path a, init_config a token)"
    by (simp add: load_public_config_def w'(1))
  have token_file: "in_files (si_inst w') (path_of (as_posix (init_token_path a))) = Some (owner_only (strip secret @ [CHR 0x0A]))"
    by (simp add: path_of_as_posix [OF assms(3)] w'(1) token(1) write_secret_file_def)
  have "or_default [] (if text_set v then v else None) = or_default [] v" for v :: "string option"
    by (cases v) (auto simp: text_set_def or_default_def)
  with assms(5) have admin: "admin_ids_of (or_default [] (if text_set (ia_admin_chat_id a) then ia_admin_chat_id a else None)) = Some ids"
    by (simp only:)
  have mode: "in_files (si_inst w') (demo_marker (init_db_path a)) = in_files (si_inst w) (demo_marker (init_db_path a))"
    using assms(6) by (simp add: w'(1) token(1) write_secret_file_def)
  have config: "fc_telegram (init_config a token) = Some \<lparr>tc_bot_token_file = as_posix (init_token_path a), tc_group_chat_id = or_default [] (ia_group_chat_id a),
      tc_admin_chat_id = (if text_set (ia_admin_chat_id a) then ia_admin_chat_id a else None), tc_open_url = None\<rparr>"
    by (simp add: init_config_def token(1))
  show ?thesis
    using admin_ids_positive [OF assms(5)] w'(2) token(2)
    by (simp add: build_app_def load init_database [OF assms(2)] Let_def config token_file mode admin secret owner_only_def stored_def)
qed

theorem init_then_serve_witness:
  "\<exists>app w''. build_app (Path True [''srv'', ''config.yaml'']) (snd (command_init sample_init_args sample_site)) = (Served app, w'') \<and>
     sv_token app = ''123:abcdef'' \<and> sv_mode app = ''live''"
proof -
  have "(case fst (command_init sample_init_args sample_site) of Finished (Inr _) \<Rightarrow> True | _ \<Rightarrow> False)" by code_simp
  then obtain lines code where run: "command_init sample_init_args sample_site = (Finished (Inr (lines, code)), snd (command_init sample_init_args sample_site))"
    by (auto simp: prod_eq_iff split: outcome.splits sum.splits)
  have ok: "clean_path (init_db_path sample_init_args)" "clean_path (init_token_path sample_init_args)"
      "read_init_token (in_files (si_inst sample_site)) (ia_token sample_init_args) = TokenRead (Some ''123:abcdef'')"
      "admin_ids_of (or_default [] (ia_admin_chat_id sample_init_args)) = Some []"
      "demo_marker (init_db_path sample_init_args) \<noteq> init_token_path sample_init_args" by code_simp+
  have paths: "init_config_path sample_init_args = Path True [''srv'', ''config.yaml'']"
      "in_files (si_inst sample_site) (demo_marker (init_db_path sample_init_args)) = None" by code_simp+
  from init_then_serve [OF run ok] show ?thesis unfolding paths by auto
qed

subsection \<open>The Mini App's files\<close>

text \<open>
  The answer for the page of the Mini App in an installation whose language is not Russian; \<open>md5\<close> is the
  digest of a text. \<open>PlainFile\<close> is what a static mount answers, to which the header is added.
\<close>

datatype page_answer = NotModified string | OnlyHeaders string | WholePage string string | PlainFile

definition PAGE :: string where
  "PAGE = ''mvp.html''"

definition html_tag :: "string \<Rightarrow> string" where
  "html_tag lang = ''<html lang='' @ double_quoted lang @ ''>''"

definition BUILT_LANG :: string where
  "BUILT_LANG = html_tag ''ru''"

fun replace_first :: "string \<Rightarrow> string \<Rightarrow> string \<Rightarrow> string" where
  \<comment> \<open>\<open>text.replace(old, new, 1)\<close> for an old text that is not empty\<close>
  "replace_first old new_text [] = []"
| "replace_first old new_text (c # cs) =
     (if starts_with old (c # cs) then new_text @ drop (length old) (c # cs) else c # replace_first old new_text cs)"

definition localized_page :: "string \<Rightarrow> string \<Rightarrow> string" where
  "localized_page lang content = replace_first BUILT_LANG (html_tag lang) content"

definition page_etag :: "(string \<Rightarrow> string) \<Rightarrow> string \<Rightarrow> string" where
  "page_etag md5 body = double_quoted (md5 body)"

definition get_response ::
  "(string \<Rightarrow> string) \<Rightarrow> string \<Rightarrow> string \<Rightarrow> string option \<Rightarrow> string option \<Rightarrow> string \<Rightarrow> page_answer" where
  \<comment> \<open>\<open>content\<close> is the text of the file when it is found\<close>
  "get_response md5 default_language http_method if_none_match content requested =
     (if requested = PAGE \<and> default_language \<noteq> ''ru'' then
        (case content of
           None \<Rightarrow> PlainFile
         | Some file_content \<Rightarrow>
             let body = localized_page default_language file_content; etag = page_etag md5 body
             in if if_none_match = Some etag then NotModified etag
                else if http_method = ''HEAD'' then OnlyHeaders etag else WholePage etag body)
      else PlainFile)"

lemma replace_first_spec: "\<not> contains old pre \<Longrightarrow> old \<noteq> [] \<Longrightarrow> replace_first old new_text (old @ post) = new_text @ post"
  by (cases old) (auto simp: starts_with_def)

text \<open>A client that asks again with the tag it was given gets the page again exactly when the page has changed.\<close>

lemma page_asked_again:
  assumes "get_response md5 lang ''GET'' None (Some old_file) PAGE = WholePage etag body" "inj md5"
  shows "get_response md5 lang ''GET'' (Some etag) (Some new_file) PAGE =
    (if localized_page lang new_file = body then NotModified etag
     else WholePage (page_etag md5 (localized_page lang new_file)) (localized_page lang new_file))"
proof -
  from assms(1) have "lang \<noteq> ''ru''" "body = localized_page lang old_file" "etag = page_etag md5 body"
    by (auto simp: get_response_def Let_def split: if_splits)
  moreover have "page_etag md5 a = page_etag md5 b \<longleftrightarrow> a = b" for a b
    using assms(2) by (auto simp: page_etag_def double_quoted_def inj_eq)
  ultimately show ?thesis by (auto simp: get_response_def Let_def)
qed

subsection \<open>The phases of the scripted collector\<close>

record phase =
  ph_scenario :: string
  ph_minutes :: nat

definition DEFAULT_PHASES :: "phase list" where
  "DEFAULT_PHASES = [\<lparr>ph_scenario = ''operational'', ph_minutes = 10\<rparr>, \<lparr>ph_scenario = ''degraded'', ph_minutes = 5\<rparr>,
     \<lparr>ph_scenario = ''unavailable'', ph_minutes = 10\<rparr>, \<lparr>ph_scenario = ''operational'', ph_minutes = 15\<rparr>]"

definition cycle_minutes :: "phase list \<Rightarrow> nat" where
  "cycle_minutes phases = sum_list (map ph_minutes phases)"

fun phase_at :: "phase list \<Rightarrow> rat \<Rightarrow> string option" where
  \<comment> \<open>the loop over the phases; None is its end\<close>
  "phase_at [] elapsed = None"
| "phase_at (ph # phs) elapsed =
     (if elapsed < of_nat (ph_minutes ph) then Some (ph_scenario ph) else phase_at phs (elapsed - of_nat (ph_minutes ph)))"

definition scenario_at :: "phase list \<Rightarrow> rat \<Rightarrow> datetime option \<Rightarrow> datetime \<Rightarrow> string \<times> datetime option" where
  \<comment> \<open>the scenario and the start the collector keeps; the arithmetic of the floats is exact\<close>
  "scenario_at phases speed start now =
     (let begun = or_default now start; minutes_played = of_int (now - begun) / 1000000 * speed / 60; cycle = of_nat (cycle_minutes phases);
          elapsed = minutes_played - cycle * of_int \<lfloor>minutes_played / cycle\<rfloor>
      in (or_default (ph_scenario (last phases)) (phase_at phases elapsed), Some begun))"

lemma phase_at_some: "0 \<le> elapsed \<Longrightarrow> elapsed < of_nat (cycle_minutes phs) \<Longrightarrow> \<exists>ph\<in>set phs. phase_at phs elapsed = Some (ph_scenario ph)"
proof (induction phs arbitrary: elapsed)
  case (Cons ph phs)
  then have "elapsed - of_nat (ph_minutes ph) < of_nat (cycle_minutes phs)" by (simp add: cycle_minutes_def)
  with Cons.IH [of "elapsed - of_nat (ph_minutes ph)"] show ?case by auto
qed (simp add: cycle_minutes_def)

text \<open>At every instant the scripted world is in one of its phases: the fallback of the code is never needed.\<close>

lemma scenario_is_a_phase:
  assumes "0 < cycle_minutes phases"
  shows "\<exists>ph\<in>set phases. fst (scenario_at phases speed start now) = ph_scenario ph"
proof -
  let ?m = "of_int (now - or_default now start) / 1000000 * speed / 60 :: rat" and ?c = "of_nat (cycle_minutes phases) :: rat"
  have "0 < ?c" using assms by simp
  then have "?m - ?c * of_int \<lfloor>?m / ?c\<rfloor> < ?c"
    using floor_divide_upper [of ?c ?m] by (simp add: algebra_simps)
  moreover have "0 \<le> ?m - ?c * of_int \<lfloor>?m / ?c\<rfloor>"
    using floor_divide_lower [OF \<open>0 < ?c\<close>, of ?m] by (simp add: algebra_simps)
  ultimately show ?thesis using phase_at_some [of "?m - ?c * of_int \<lfloor>?m / ?c\<rfloor>" phases] by (auto simp: scenario_at_def Let_def or_default_def split: option.split)
qed

end
