(* ===== verification/Demo_Run.thy ===== *)
theory Demo_Run
  imports Demo_Sample Processes
begin

text \<open>
  The demonstration inside an installation: \<open>vpn-pulse demo seed\<close> (src/src/vpnpulse/cli/demo.py) and the
  scripted collector that keeps the demonstration moving (src/src/vpnpulse/collectors/fixture.py).
\<close>

subsection \<open>demo seed\<close>

definition demo_file :: "string \<Rightarrow> stored_file" where
  \<comment> \<open>a new text file under the usual umask: 420 is \<open>0o644\<close>\<close>
  "demo_file content = \<lparr>file_text = Some content, file_size = length content, file_mode = 420\<rparr>"

definition seed_lines :: "string \<Rightarrow> path \<Rightarrow> nat \<Rightarrow> string list" where
  "seed_lines scenario_id db_path n =
     [''demo scenario '' @ [CHR 0x27] @ scenario_id @ [CHR 0x27] @ '' seeded into '' @ as_posix db_path @ '': '' @ show_nat n @ '' fictional servers, seven days of history'',
      ''config.yaml now lists those servers; marker '' @ last (path_parts (demo_marker db_path)) @ '' makes the API answer mode=demo'',
      ''Next: vpn-pulse run --demo   (keeps the demo world moving)   -   vpn-pulse doctor'']"

definition command_demo_seed ::
  "(rat \<Rightarrow> rat) \<Rightarrow> (stamp \<Rightarrow> json) \<Rightarrow> (uid \<Rightarrow> string) \<Rightarrow> catalog \<Rightarrow> string \<Rightarrow> string option \<Rightarrow> path option \<Rightarrow> datetime \<Rightarrow> site \<Rightarrow> outcome \<times> site" where
  \<comment> \<open>a database is made when there is none\<close>
  "command_demo_seed sine stamp_json uid_text fx scenario_id args_db config_path now w =
     (case load_public_config config_path (si_inst w) of
        Inl e \<Rightarrow> (Finished (Inl e), w)
      | Inr (p, c) \<Rightarrow>
          let db_path = resolve_db args_db (Some c); d = or_default empty_db (si_dbs w db_path); w0 = stored db_path d w
          in if db_servers d \<noteq> [] \<or> db_observations d \<noteq> []
             then (Finished (Inl (cli_fail ''the database is not empty - vpn-pulse demo clear first (or use a fresh --db)'')), w0)
             else if scenario_id \<notin> set (catalog_ids fx)
             then (Finished (Inl (cli_fail (''unknown scenario '' @ scenario_id @ ''; known: '' @ join '', '' (catalog_ids fx)))), w0)
             else case seed_scenario sine stamp_json uid_text fx scenario_id now (cfg_admin_contact_url (fc_public c)) d of
                    Inl _ \<Rightarrow> (Uncaught, w0)
                  | Inr (cfg, d') \<Rightarrow>
                      let w1 = stored db_path d' w
                      in (case written_config p (with_servers c (cfg_servers cfg)) w1 of
                            Inl e \<Rightarrow> (Finished (Inl e), w1)
                          | Inr w2 \<Rightarrow>
                              (Finished (Inr (seed_lines scenario_id db_path (length (cfg_servers cfg)), 0)),
                               w2\<lparr>si_inst := (si_inst w2)\<lparr>in_files := (in_files (si_inst w2))(demo_marker db_path \<mapsto> demo_file (scenario_id @ [CHR 0x0A]))\<rparr>\<rparr>)))"

subsection \<open>The scripted collector\<close>

definition error_code_of :: "jdict \<Rightarrow> string" where
  \<comment> \<open>\<open>str(src.get("detailKey", "")).split(".")[-1]\<close>\<close>
  "error_code_of src = last (split_on (CHR ''.'') (py_str (get_else src ''detailKey'' (JStr []))))"

definition scripted_evidence :: "scenario \<Rightarrow> demo_server \<Rightarrow> string \<Rightarrow> demo_error + collected list" where
  "scripted_evidence sc s k =
     (let src = or_default [] (map_of (dv_sources s) k)
      in if presence_in sc k = ''none'' \<or> as_num (jget src ''age'') = None then Inr []
         else bind_err (need src ''r'') (\<lambda>r. bind_err (seed_result (plain_text r)) (\<lambda>result.
                Inr [\<lparr>co_server_id = dv_id s, co_source = k, co_result = result, co_observed_at = so_now sc - seconds 5,
                  co_metrics =
                    (if k = ''abroad'' then [(''via_server_id'', jget (dv_raw s) ''abroadFrom'')]
                     else [(''checks'', JObj (if k = ''pc'' then [(''handshake'', JStr result), (''https'', JStr result)] else [(''dns'', JStr result)]))]),
                  co_error_code = (if plain_text r \<noteq> ''ok'' then Some (error_code_of src) else None),
                  co_network_scope = (if k = ''abroad'' then ''abroad'' else ''country''), co_full_vpn_test = (k = ''pc''),
                  co_control_internet_ok = (if k = ''pc'' then Some True else None), co_probe_id = Some (''probe-'' @ kind_probe k)\<rparr>])))"

definition day_slot :: "datetime \<Rightarrow> nat" where
  \<comment> \<open>the half hour of the day\<close>
  "day_slot now = nat ((now - date_of now) div minutes 30) mod 48"

definition scripted_server :: "(stamp \<Rightarrow> json) \<Rightarrow> bool \<Rightarrow> scenario \<Rightarrow> demo_server \<Rightarrow> demo_error + collected list" where
  "scripted_server stamp_json probes sc s =
     bind_err (seed_payload stamp_json (so_now sc) s True (dv_series s ! day_slot (so_now sc))) (\<lambda>payload.
     bind_err (if probes then map_err (scripted_evidence sc s) SOURCE_KINDS else Inr []) (\<lambda>evidence.
       let seen = (\<lambda>source metrics.
             \<lparr>co_server_id = dv_id s, co_source = source, co_result = ''success'', co_observed_at = so_now sc, co_metrics = metrics,
              co_error_code = None, co_network_scope = ''all'', co_full_vpn_test = False, co_control_internet_ok = None, co_probe_id = None\<rparr>)
       in Inr (seen ''collector'' payload #
               (if confirmed_by_people s then [seen ''human_activity'' [(''connections'', jget payload ''connections'')]] else []) @
               concat evidence)))"

definition scripted_collect ::
  "(rat \<Rightarrow> rat) \<Rightarrow> (stamp \<Rightarrow> json) \<Rightarrow> catalog \<Rightarrow> phase list \<Rightarrow> bool \<Rightarrow> rat \<Rightarrow> datetime option \<Rightarrow> datetime \<Rightarrow> demo_error + collected list" where
  "scripted_collect sine stamp_json fx phases probes speed start now =
     bind_err (build sine fx (fst (scenario_at phases speed start now)) now) (\<lambda>sc.
     bind_err (map_err (scripted_server stamp_json probes sc) (so_servers sc)) (\<lambda>items. Inr (concat items)))"

definition scripted_collector ::
  "(rat \<Rightarrow> rat) \<Rightarrow> (stamp \<Rightarrow> json) \<Rightarrow> catalog \<Rightarrow> phase list \<Rightarrow> bool \<Rightarrow> rat \<Rightarrow> datetime \<Rightarrow> collector" where
  \<comment> \<open>\<open>start\<close>: the instant of the first run, which the collector keeps\<close>
  "scripted_collector sine stamp_json fx phases probes speed start =
     \<lparr>col_name = ''fixture'',
      col_collect = (\<lambda>now. case scripted_collect sine stamp_json fx phases probes speed (Some start) now of Inl _ \<Rightarrow> None | Inr items \<Rightarrow> Some items)\<rparr>"

subsection \<open>What a demonstration writes, the command clears\<close>

lemma cleared_updates [simp]:
  "cleared_tables (d\<lparr>db_servers := servers\<rparr>) = cleared_tables d" "cleared_tables (d\<lparr>db_protocols := protocols\<rparr>) = cleared_tables d"
  "cleared_tables (d\<lparr>db_snapshots := snapshots\<rparr>) = cleared_tables d" "cleared_tables (d\<lparr>db_observations := obs\<rparr>) = cleared_tables d"
  "cleared_tables (d\<lparr>db_transitions := transitions\<rparr>) = cleared_tables d" "cleared_tables (d\<lparr>db_events := evs\<rparr>) = cleared_tables d"
  "cleared_tables (d\<lparr>db_notes := written\<rparr>) = cleared_tables d" "cleared_tables (d\<lparr>db_probes := probes\<rparr>) = cleared_tables d"
  "cleared_tables (d\<lparr>db_reports := reports\<rparr>) = cleared_tables d" "cleared_tables (d\<lparr>db_runs := runs\<rparr>) = cleared_tables d"
  by (simp_all add: cleared_tables_def)

lemma seed_rows_cleared:
  "seed_server_row srv d = Inr d' \<Longrightarrow> cleared_tables d' = cleared_tables d"
  "seed_protocol pr d = Inr d' \<Longrightarrow> cleared_tables d' = cleared_tables d"
  "seed_snapshot sn d = Inr d' \<Longrightarrow> cleared_tables d' = cleared_tables d"
  by (auto simp: seed_server_row_def seed_protocol_def seed_snapshot_def bind_err_Inr split: if_splits)

lemma seed_observation_cleared:
  "seed_observation i server_id source scope t result payload code d = Inr d' \<Longrightarrow> cleared_tables d' = cleared_tables d"
  by (auto simp: seed_observation_def insert_observation_def split: if_splits option.splits sum.splits)

lemma seed_transition_cleared:
  "seed_transition scenario_id server_id part a b t d = Inr d' \<Longrightarrow> cleared_tables d' = cleared_tables d"
  by (auto simp: seed_transition_def bind_err_Inr Let_def split: if_splits)

lemma seed_week_cleared: "seed_week sine sc s d = Inr d' \<Longrightarrow> cleared_tables d' = cleared_tables d"
  unfolding seed_week_def bind_err_Inr Let_def
  by (elim exE conjE) (erule fold_err_frame [where g = cleared_tables], erule seed_observation_cleared)

lemma seed_bucket_cleared: "seed_bucket stamp_json sc s i (d, t) = Inr (d', t') \<Longrightarrow> cleared_tables d' = cleared_tables d"
  by (auto simp: seed_bucket_def bind_err_Inr Let_def dest!: seed_observation_cleared split: if_splits)

lemma seed_source_cleared: "seed_source sc s k d = Inr d' \<Longrightarrow> cleared_tables d' = cleared_tables d"
  by (auto simp: seed_source_def bind_err_Inr Let_def dest!: seed_observation_cleared split: if_splits option.splits)

lemma seed_people_cleared: "seed_people sc s d = Inr d' \<Longrightarrow> cleared_tables d' = cleared_tables d"
  by (auto simp: seed_people_def dest!: seed_observation_cleared split: if_splits)

lemma seed_state_cleared: "seed_state sc s t d = Inr d' \<Longrightarrow> cleared_tables d' = cleared_tables d"
  by (auto simp: seed_state_def bind_err_Inr Let_def dest!: seed_rows_cleared(3))

lemma seed_changes_cleared:
  assumes "seed_changes sc s d = Inr d'"
  shows "cleared_tables d' = cleared_tables d"
proof -
  obtain d1 prev where f: "fold_err (seed_change sc s) [0..<48] (d, ''operational'') = Inr (d1, prev)"
      and rest: "cleared_tables d' = cleared_tables d1"
    using assms by (auto simp: seed_changes_def bind_err_Inr dest: seed_transition_cleared split: if_splits)
  have "cleared_tables (fst (d1, prev)) = cleared_tables (fst (d, ''operational''))"
    by (rule fold_err_frame [OF f]) (auto simp: seed_change_def bind_err_Inr Let_def dest: seed_transition_cleared split: if_splits)
  with rest show ?thesis by simp
qed

lemma seed_server_cleared:
  assumes "seed_server sine stamp_json cfg sc entry d = Inr d'"
  shows "cleared_tables d' = cleared_tables d"
proof -
  obtain s d1 kinds d2 d3 d4 t d5 d6 d7 where "cleared_tables d1 = cleared_tables d"
      and steps: "fold_err (seed_kind sc s) kinds d1 = Inr d2" "seed_week sine sc s d2 = Inr d3"
        "fold_err (seed_bucket stamp_json sc s) [0..<48] (d3, so_now sc - hours 25) = Inr (d4, t)"
        "fold_err (seed_source sc s) SOURCE_KINDS d4 = Inr d5" "seed_people sc s d5 = Inr d6"
        "seed_state sc s t d6 = Inr d7" "seed_changes sc s d7 = Inr d'"
    using assms
    by (cases entry) (auto simp: seed_server_def bind_err_Inr simp del: fold_err.simps(2) dest!: seed_rows_cleared(1) split: option.splits)
  moreover have "cleared_tables d2 = cleared_tables d1"
    using steps(1) by (rule fold_err_frame) (auto simp: seed_kind_def dest: seed_rows_cleared(2))
  moreover have "cleared_tables (fst (d4, t)) = cleared_tables (fst (d3, so_now sc - hours 25))"
    using steps(3) by (rule fold_err_frame) (auto dest: seed_bucket_cleared)
  moreover have "cleared_tables d5 = cleared_tables d4"
    using steps(4) by (rule fold_err_frame) (rule seed_source_cleared)
  ultimately show ?thesis
    using seed_week_cleared [OF steps(2)] seed_people_cleared [OF steps(5)] seed_state_cleared [OF steps(6)] seed_changes_cleared [OF steps(7)]
    by simp
qed

lemma seed_event_cleared: "seed_event sc entry d = Inr d' \<Longrightarrow> cleared_tables d' = cleared_tables d"
  by (auto simp: seed_event_def bind_err_Inr Let_def case_prod_beta split: if_splits)

lemma seed_note_cleared: "seed_note sc d = Inr d' \<Longrightarrow> cleared_tables d' = cleared_tables d"
  by (auto simp: seed_note_def bind_err_Inr Let_def split: if_splits)

lemma seed_probe_cleared: "seed_probe uid_text sc entry d = Inr d' \<Longrightarrow> cleared_tables d' = cleared_tables d"
  by (cases entry; cases "as_num (jget (snd entry) ''lastMin'')"; cases "map_of DEMO_NETWORK (fst entry)")
    (auto simp: seed_probe_def bind_err_Inr Let_def split: if_splits)

lemma seed_run_cleared: "seed_run uid_text sc d = Inr d' \<Longrightarrow> cleared_tables d' = cleared_tables d"
  by (auto simp: seed_run_def bind_err_Inr Let_def split: if_splits)

lemma seed_scenario_cleared:
  assumes "seed_scenario sine stamp_json uid_text fx scenario_id now contact_url d = Inr (cfg, d')"
  shows "cleared_tables d' = cleared_tables d"
proof -
  obtain sc where "seed_built sine stamp_json uid_text cfg sc d = Inr d'" using assms by (auto simp: seed_scenario_def bind_err_Inr)
  then obtain d1 d2 d3 d4 where servers: "fold_err (seed_server sine stamp_json cfg sc) (enumerate 0 (so_servers sc)) d = Inr d1"
      and events: "fold_err (seed_event sc) (enumerate 0 (so_events sc)) d1 = Inr d2" and written: "seed_note sc d2 = Inr d3"
      and probes: "fold_err (seed_probe uid_text sc) (enrolled_probes sc) d3 = Inr d4" and run: "seed_run uid_text sc d4 = Inr d'"
    unfolding seed_built_def bind_err_Inr by blast
  have "cleared_tables d1 = cleared_tables d" using servers by (rule fold_err_frame) (rule seed_server_cleared)
  moreover have "cleared_tables d2 = cleared_tables d1" using events by (rule fold_err_frame) (rule seed_event_cleared)
  moreover have "cleared_tables d4 = cleared_tables d3" using probes by (rule fold_err_frame) (rule seed_probe_cleared)
  ultimately show ?thesis using seed_note_cleared [OF written] seed_run_cleared [OF run] by simp
qed

text \<open>C31. A demonstration can be taken back: after \<open>demo seed\<close> the configuration lists the servers of the scenario,
  the database holds its rows and the marker lies next to it; \<open>demo clear\<close> then succeeds and leaves the
  configuration without servers, every table of the monitoring empty and every other table, every other database and
  every other file as they were before the seed.\<close>
theorem demo_seed_is_undone:
  assumes "command_demo_seed sine stamp_json uid_text fx scenario_id args_db config_path now w = (Finished (Inr answer), w1)"
    "load_public_config config_path (si_inst w) = Inr (p, c)"
  defines "db_path \<equiv> resolve_db args_db (Some c)"
  defines "d \<equiv> or_default empty_db (si_dbs w db_path)"
  shows "\<exists>cfg d' lines w2.
    seed_scenario sine stamp_json uid_text fx scenario_id now (cfg_admin_contact_url (fc_public c)) d = Inr (cfg, d') \<and>
    si_dbs w1 db_path = Some d' \<and> load_public_config config_path (si_inst w1) = Inr (p, with_servers c (cfg_servers cfg)) \<and>
    in_files (si_inst w1) (demo_marker db_path) \<noteq> None \<and>
    command_demo_clear True tty args_db config_path w1 = (Inr (lines, 0), w2) \<and>
    load_public_config config_path (si_inst w2) = Inr (p, with_servers c []) \<and>
    in_files (si_inst w2) = (in_files (si_inst w))(demo_marker db_path := None) \<and> si_dbs w2 = (si_dbs w)(db_path \<mapsto> cleared_tables d)"
proof -
  have path: "config_path = Some p" by (rule load_path [OF assms(2)])
  let ?files = "(in_files (si_inst w))(demo_marker db_path \<mapsto> demo_file (scenario_id @ [CHR 0x0A]))"
  obtain cfg d' w2 where seeded: "seed_scenario sine stamp_json uid_text fx scenario_id now (cfg_admin_contact_url (fc_public c)) d = Inr (cfg, d')"
      and config: "written_config p (with_servers c (cfg_servers cfg)) (stored db_path d' w) = Inr w2"
      and w1: "w1 = w2\<lparr>si_inst := (si_inst w2)\<lparr>in_files := (in_files (si_inst w2))(demo_marker db_path \<mapsto> demo_file (scenario_id @ [CHR 0x0A]))\<rparr>\<rparr>"
    using assms(1)
    by (auto simp: command_demo_seed_def assms(2) Let_def simp flip: db_path_def d_def split: if_splits sum.splits)
  from config have valid: "full_config_valid (with_servers c (cfg_servers cfg))"
    and w2: "si_dbs w1 = (si_dbs w)(db_path \<mapsto> d')" "in_files (si_inst w1) = ?files"
      "in_configs (si_inst w1) = (in_configs (si_inst w))(p \<mapsto> Inr (with_servers c (cfg_servers cfg)))"
    by (auto simp: w1 written_config_Inr stored_def)
  have load: "load_public_config config_path (si_inst w1) = Inr (p, with_servers c (cfg_servers cfg))"
    by (simp add: path load_public_config_def w2(3))
  have cleared: "cleared_tables d' = cleared_tables d" by (rule seed_scenario_cleared [OF seeded])
  let ?w3 = "w1\<lparr>si_dbs := (si_dbs w)(db_path \<mapsto> cleared_tables d), si_inst := (si_inst w1)\<lparr>in_files := (in_files (si_inst w))(demo_marker db_path := None),
      in_configs := (in_configs (si_inst w))(p \<mapsto> Inr (with_servers c []))\<rparr>\<rparr>"
  have "full_config_valid (with_servers c [])" using valid_subset [OF valid, of "[]"] by simp
  then have "\<exists>lines. command_demo_clear True tty args_db config_path w1 = (Inr (lines, 0), ?w3)"
    unfolding command_demo_clear_def load sum.case prod.case with_servers_simps db_path_def [symmetric] Let_def
    by (simp add: w2 confirm_def stored_def written_config_def write_config_atomic_def cleared)
  then obtain lines where "command_demo_clear True tty args_db config_path w1 = (Inr (lines, 0), ?w3)" by blast
  moreover have "load_public_config config_path (si_inst ?w3) = Inr (p, with_servers c [])" by (simp add: path load_public_config_def)
  ultimately show ?thesis using seeded w2 load by (intro exI [of _ cfg] exI [of _ d'] exI [of _ lines] exI [of _ ?w3]) simp
qed

definition seed_site :: site where
  "seed_site = \<lparr>si_inst = sample_installation, si_dbs = [Path True [''var'', ''db''] \<mapsto> empty_db]\<rparr>"

lemma sample_seed_config:
  "\<exists>cfg. config_for sample_fixture (sample_scenario series) None = Inr cfg \<and> one_server cfg \<and>
     full_config_valid (with_servers sample_full_config (cfg_servers cfg))"
proof -
  have "case config_for sample_fixture (sample_scenario series) None of Inl _ \<Rightarrow> False
      | Inr cfg \<Rightarrow> one_server cfg \<and> full_config_valid (with_servers sample_full_config (cfg_servers cfg))" by code_simp
  then show ?thesis by (auto split: sum.splits)
qed

theorem demo_seed_is_undone_witness:
  "\<exists>answer w1 lines w2. command_demo_seed (\<lambda>_. 0) no_text first_text sample_fixture ''operational'' None (Some sample_config_path) 1000000000000000 seed_site =
       (Finished (Inr answer), w1) \<and>
     command_demo_clear True NotATerminal None (Some sample_config_path) w1 = (Inr (lines, 0), w2) \<and>
     si_dbs w2 (Path True [''var'', ''db'']) = Some (cleared_tables empty_db)"
proof -
  let ?seed = "command_demo_seed (\<lambda>_. 0) no_text first_text sample_fixture ''operational'' None (Some sample_config_path) 1000000000000000 seed_site"
  obtain series where built: "build (\<lambda>_. 0) sample_fixture ''operational'' 1000000000000000 = Inr (sample_scenario series)"
    using sample_scenario_built by blast
  obtain cfg where cfg: "config_for sample_fixture (sample_scenario series) None = Inr cfg" "one_server cfg"
      "full_config_valid (with_servers sample_full_config (cfg_servers cfg))" using sample_seed_config by blast
  obtain d' where "seed_built (\<lambda>_. 0) no_text first_text cfg (sample_scenario series) empty_db = Inr d'"
    using seed_built_sample [OF cfg(2)] by blast
  with built cfg(1) have seeded: "seed_scenario (\<lambda>_. 0) no_text first_text sample_fixture ''operational'' 1000000000000000 None empty_db =
      Inr (cfg, d')" by (simp add: seed_scenario_def)
  have load: "load_public_config (Some sample_config_path) (si_inst seed_site) = Inr (sample_config_path, sample_full_config)"
    by (simp add: seed_site_def load_public_config_def sample_installation_def)
  have here: "resolve_db None (Some sample_full_config) = Path True [''var'', ''db'']" "''operational'' \<in> set (catalog_ids sample_fixture)"
    "cfg_admin_contact_url (fc_public sample_full_config) = None" "or_default empty_db (si_dbs seed_site (Path True [''var'', ''db''])) = empty_db"
    "db_servers empty_db = []" "db_observations empty_db = []" by code_simp+
  have "\<exists>answer w1. ?seed = (Finished (Inr answer), w1)"
    using seeded cfg(3)
    by (simp add: command_demo_seed_def load here Let_def written_config_def write_config_atomic_def)
  then obtain answer w1 where run: "?seed = (Finished (Inr answer), w1)" by blast
  from demo_seed_is_undone [OF run load, of NotATerminal] run show ?thesis unfolding here by auto
qed

subsection \<open>What the scripted collector says\<close>

lemma scripted_evidence_items:
  assumes "scripted_evidence sc s k = Inr items" "k \<in> set SOURCE_KINDS"
  shows "\<forall>i \<in> set items. co_server_id i = dv_id s \<and> co_source i = k \<and> co_result i \<in> {''success'', ''failure'', ''not_run''} \<and>
    co_observed_at i = so_now sc - seconds 5 \<and> co_full_vpn_test i = (k = ''pc'') \<and>
    (\<exists>kind. map_of PROBE_KIND_OF_SOURCE k = Some kind \<and> co_probe_id i = Some (''probe-'' @ kind)) \<and> (k = ''pc'' \<longrightarrow> co_control_internet_ok i = Some True)"
proof -
  have "\<exists>kind. map_of PROBE_KIND_OF_SOURCE k = Some kind \<and> ''probe-'' @ kind_probe k = ''probe-'' @ kind"
    using assms(2) by (auto simp: SOURCE_KINDS_def PROBE_KIND_OF_SOURCE_def kind_probe_def)
  with assms(1) show ?thesis
    by (auto simp: scripted_evidence_def Let_def bind_err_Inr seed_result_def split: if_splits)
qed

lemma scripted_server_items:
  assumes "scripted_server stamp_json probes sc s = Inr items"
  shows "map co_server_id (filter (\<lambda>i. co_source i = ''collector'') items) = [dv_id s]" (is ?one)
    "\<forall>i \<in> set items. co_server_id i = dv_id s \<and> co_result i \<in> {''success'', ''failure'', ''not_run''} \<and>
       so_now sc - seconds 5 \<le> co_observed_at i \<and> co_observed_at i \<le> so_now sc \<and>
       (case co_probe_id i of
          None \<Rightarrow> co_source i \<in> {''collector'', ''human_activity''} \<and> co_result i = ''success''
        | Some probe \<Rightarrow> probes \<and> (\<exists>kind. map_of PROBE_KIND_OF_SOURCE (co_source i) = Some kind \<and> probe = ''probe-'' @ kind)) \<and>
       (co_source i = ''pc'' \<longrightarrow> co_full_vpn_test i \<and> co_control_internet_ok i = Some True)" (is ?all)
proof -
  obtain payload evidence where evidence: "(if probes then map_err (scripted_evidence sc s) SOURCE_KINDS else Inr []) = Inr evidence"
    and items: "items = \<lparr>co_server_id = dv_id s, co_source = ''collector'', co_result = ''success'', co_observed_at = so_now sc, co_metrics = payload,
              co_error_code = None, co_network_scope = ''all'', co_full_vpn_test = False, co_control_internet_ok = None, co_probe_id = None\<rparr> #
        (if confirmed_by_people s
         then [\<lparr>co_server_id = dv_id s, co_source = ''human_activity'', co_result = ''success'', co_observed_at = so_now sc,
                co_metrics = [(''connections'', jget payload ''connections'')], co_error_code = None, co_network_scope = ''all'',
                co_full_vpn_test = False, co_control_internet_ok = None, co_probe_id = None\<rparr>] else []) @ concat evidence"
    using assms by (auto simp: scripted_server_def bind_err_Inr Let_def)
  have said: "probes \<and> (\<exists>k \<in> set SOURCE_KINDS. \<exists>ys. scripted_evidence sc s k = Inr ys \<and> i \<in> set ys)" if "i \<in> set (concat evidence)" for i
    using that evidence map_err_source [of "scripted_evidence sc s" SOURCE_KINDS evidence] by (fastforce split: if_splits)
  then have probe: "probes \<and> co_source i \<in> set SOURCE_KINDS \<and> co_server_id i = dv_id s \<and> co_result i \<in> {''success'', ''failure'', ''not_run''} \<and>
      co_observed_at i = so_now sc - seconds 5 \<and> co_full_vpn_test i = (co_source i = ''pc'') \<and>
      (\<exists>kind. map_of PROBE_KIND_OF_SOURCE (co_source i) = Some kind \<and> co_probe_id i = Some (''probe-'' @ kind)) \<and>
      (co_source i = ''pc'' \<longrightarrow> co_control_internet_ok i = Some True)" if "i \<in> set (concat evidence)" for i
  proof -
    from said [OF that] obtain k ys where k: "probes" "k \<in> set SOURCE_KINDS" "scripted_evidence sc s k = Inr ys" "i \<in> set ys" by blast
    with scripted_evidence_items [OF k(3,2)] show ?thesis by auto
  qed
  then have "filter (\<lambda>i. co_source i = ''collector'') (concat evidence) = []"
    by (force simp: filter_empty_conv SOURCE_KINDS_def simp del: set_concat)
  then show ?one by (simp add: items)
  show ?all
  proof
    fix i assume "i \<in> set items"
    then consider "i \<in> set (concat evidence)"
      | "co_probe_id i = None" "co_source i \<in> {''collector'', ''human_activity''}" "co_result i = ''success''" "co_observed_at i = so_now sc" "co_server_id i = dv_id s"
      unfolding items by (auto split: if_splits)
    then show "co_server_id i = dv_id s \<and> co_result i \<in> {''success'', ''failure'', ''not_run''} \<and>
       so_now sc - seconds 5 \<le> co_observed_at i \<and> co_observed_at i \<le> so_now sc \<and>
       (case co_probe_id i of
          None \<Rightarrow> co_source i \<in> {''collector'', ''human_activity''} \<and> co_result i = ''success''
        | Some probe \<Rightarrow> probes \<and> (\<exists>kind. map_of PROBE_KIND_OF_SOURCE (co_source i) = Some kind \<and> probe = ''probe-'' @ kind)) \<and>
       (co_source i = ''pc'' \<longrightarrow> co_full_vpn_test i \<and> co_control_internet_ok i = Some True)"
    proof cases
      case 1
      from probe [OF 1] show ?thesis by (auto simp: seconds_def second_def)
    next
      case 2
      then show ?thesis by (auto simp: seconds_def second_def)
    qed
  qed
qed

text \<open>
  A run of the scripted collector gives every server of the scenario one successful observation of its own, and
  evidence of check sources only under the probe of their kind, at most five seconds old; a failure of the PC is a full
  test with a working control connection, so two of them confirm an outage as those of a real probe do.
\<close>

lemma scripted_collect_items:
  assumes "scripted_collect sine stamp_json fx phases probes speed start now = Inr items"
    "build sine fx (fst (scenario_at phases speed start now)) now = Inr sc"
  shows "map co_server_id (filter (\<lambda>i. co_source i = ''collector'') items) = map dv_id (so_servers sc)"
    "\<forall>i \<in> set items. co_source i = ''pc'' \<and> co_result i = ''failure'' \<longrightarrow> co_full_vpn_test i \<and> co_control_internet_ok i = Some True"
proof -
  obtain parts where parts: "map_err (scripted_server stamp_json probes sc) (so_servers sc) = Inr parts" "items = concat parts"
    using assms by (auto simp: scripted_collect_def bind_err_Inr)
  from parts(1) have "map co_server_id (filter (\<lambda>i. co_source i = ''collector'') (concat parts)) = map dv_id (so_servers sc)"
    unfolding map_err_Inr by (induction rule: list_all2_induct) (simp_all add: scripted_server_items(1))
  with parts(2) show "map co_server_id (filter (\<lambda>i. co_source i = ''collector'') items) = map dv_id (so_servers sc)" by simp
  show "\<forall>i \<in> set items. co_source i = ''pc'' \<and> co_result i = ''failure'' \<longrightarrow> co_full_vpn_test i \<and> co_control_internet_ok i = Some True"
    using map_err_source [OF parts(1)] scripted_server_items(2) by (fastforce simp: parts(2))
qed

end
