(* ===== verification/Fixture_Adapter.thy ===== *)
theory Fixture_Adapter
  imports Demo_Screens Evaluator
begin

text \<open>
  The fixture adapter (src/src/vpnpulse/adapters/fixture.py): a list of scenarios, parsed, becomes the
  observations of one of them at an instant. Times of a fixture are ages, so the verdict on it does not depend on
  the instant it is loaded at.
\<close>

definition observation_from :: "datetime \<Rightarrow> jdict \<Rightarrow> demo_error + observation" where
  "observation_from now item =
     bind_err (need item ''source'') (\<lambda>source.
     bind_err (need item ''result'') (\<lambda>result.
     bind_err (case parse_result (plain_text result) of None \<Rightarrow> Inl DemoValueError | Some r \<Rightarrow> Inr r) (\<lambda>r.
     bind_err (need_num item ''age'') (\<lambda>age.
     bind_err (need item ''full'') (\<lambda>full.
     bind_err (need item ''control'') (\<lambda>control.
       let observed = now - round_half_even (age * 1000000)
       in Inr \<lparr>obs_source = plain_text source, obs_result = r, obs_observed_at = observed, obs_fresh_until = observed + seconds 180,
               obs_full_vpn_test = truthy full, obs_control_internet_ok = as_bool control, obs_reason_code = None,
               obs_route_verified = None\<rparr>))))))"

definition load_scenario :: "json list \<Rightarrow> string \<Rightarrow> datetime \<Rightarrow> demo_error + observation list" where
  \<comment> \<open>\<open>next(item for item in scenarios if item["id"] == scenario_id)\<close>\<close>
  "load_scenario scenarios scenario_id now =
     (case find (\<lambda>item. map_of (as_dict item) ''id'' = None \<or> map_of (as_dict item) ''id'' = Some (JStr scenario_id)) scenarios of
        None \<Rightarrow> Inl DemoStopIteration
      | Some item \<Rightarrow>
          if map_of (as_dict item) ''id'' = None then Inl DemoKeyError
          else bind_err (need (as_dict item) ''observations'') (\<lambda>obs.
                 map_err (\<lambda>o1. observation_from now (as_dict o1)) (as_list obs)))"

subsection \<open>Shifting time\<close>

definition shifted :: "timedelta \<Rightarrow> observation \<Rightarrow> observation" where
  "shifted t o1 = o1\<lparr>obs_observed_at := obs_observed_at o1 + t, obs_fresh_until := obs_fresh_until o1 + t\<rparr>"

lemma shifted_selects [simp]:
  "obs_source (shifted t o1) = obs_source o1" "obs_result (shifted t o1) = obs_result o1"
  "obs_observed_at (shifted t o1) = obs_observed_at o1 + t" "obs_fresh_until (shifted t o1) = obs_fresh_until o1 + t"
  "obs_full_vpn_test (shifted t o1) = obs_full_vpn_test o1" "obs_control_internet_ok (shifted t o1) = obs_control_internet_ok o1"
  "obs_route_verified (shifted t o1) = obs_route_verified o1"
  by (simp_all add: shifted_def)

lemma insort_shifted: "insort_key obs_observed_at (shifted t x) (map (shifted t) xs) = map (shifted t) (insort_key obs_observed_at x xs)"
  by (induction xs) simp_all

lemma sort_shifted: "sort_key obs_observed_at (map (shifted t) xs) = map (shifted t) (sort_key obs_observed_at xs)"
  by (induction xs) (simp_all add: insort_shifted)

lemma usable_shifted: "usable (now + t) (shifted t o1) = usable now o1"
  by (simp add: usable_def)

lemma full_runs_shifted: "full_runs (now + t) (map (shifted t) xs) src = map (shifted t) (full_runs now xs src)"
  by (simp add: full_runs_def filter_map o_def usable_shifted sort_shifted)

lemma predicates_shifted:
  "valid_full_failure (shifted t o1) = valid_full_failure o1" "proof_of_life (shifted t o1) = proof_of_life o1"
  "proof_from_members (shifted t o1) = proof_from_members o1"
  by (simp_all add: valid_full_failure_def proof_of_life_def proof_from_members_def is_valid_success_def)

lemma outage_shifted: "outage_confirmed n (now + t) (map (shifted t) xs) = outage_confirmed n now xs"
  by (simp add: outage_confirmed_def full_runs_shifted drop_map predicates_shifted Let_def)

lemma scope_verdict_shifted: "scope_verdict n (now + t) (map (shifted t) xs) = scope_verdict n now xs"
proof -
  have evidence: "{item \<in> set (map (shifted t) xs). usable (now + t) item} = shifted t ` {item \<in> set xs. usable now item}"
    by (auto simp: usable_shifted)
  show ?thesis unfolding scope_verdict_def Let_def evidence
    by (simp only: outage_shifted bex_simps(7) predicates_shifted shifted_selects)
qed

lemma map_err_shifted:
  "(\<And>x y. f x = Inr y \<Longrightarrow> g x = Inr (h y)) \<Longrightarrow> map_err f xs = Inr ys \<Longrightarrow> map_err g xs = Inr (map h ys)"
  by (induction xs arbitrary: ys) (auto simp: bind_err_Inr)

lemma observation_shifted: "observation_from now item = Inr o1 \<Longrightarrow> observation_from (now + t) item = Inr (shifted t o1)"
  by (auto simp: observation_from_def bind_err_Inr Let_def shifted_def)

text \<open>
  A scenario of the fixture gives the same verdict at whatever instant it is loaded: its times are ages,
  and shifting the observations with the clock changes nothing of the evaluation.
\<close>

theorem fixture_verdict_is_timeless:
  assumes "load_scenario scenarios scenario_id now = Inr obs" "1 \<le> n"
  shows "\<exists>obs'. load_scenario scenarios scenario_id (now + t) = Inr obs' \<and>
    ev_state (evaluate_scope obs' (now + t) expected n) = ev_state (evaluate_scope obs now expected n)"
proof -
  have "load_scenario scenarios scenario_id (now + t) = Inr (map (shifted t) obs)"
    using assms(1) map_err_shifted [OF observation_shifted]
    by (fastforce simp: load_scenario_def bind_err_Inr split: option.splits if_splits)
  with assms(2) show ?thesis by (simp add: evaluate_scope_state scope_verdict_shifted)
qed

definition sample_observations :: "json list" where
  "sample_observations =
     [JObj [(''id'', JStr ''outage''), (''observations'', JArr
        [JObj [(''source'', JStr ''pc''), (''result'', JStr ''failure''), (''age'', JInt 30), (''full'', JBool True), (''control'', JBool True)],
         JObj [(''source'', JStr ''pc''), (''result'', JStr ''failure''), (''age'', JInt 90), (''full'', JBool True), (''control'', JBool True)]])]]"

theorem fixture_verdict_is_timeless_witness:
  "\<exists>obs obs'. load_scenario sample_observations ''outage'' 0 = Inr obs \<and> load_scenario sample_observations ''outage'' 1000 = Inr obs' \<and>
     length obs = 2 \<and> ev_state (evaluate_scope obs' 1000 1 2) = ev_state (evaluate_scope obs 0 1 2)"
proof -
  have "case load_scenario sample_observations ''outage'' 0 of Inl _ \<Rightarrow> False | Inr obs \<Rightarrow> length obs = 2" by code_simp
  then obtain obs where "load_scenario sample_observations ''outage'' 0 = Inr obs" "length obs = 2" by (auto split: sum.splits)
  with fixture_verdict_is_timeless [of sample_observations "''outage''" 0 obs 2 1000 1] show ?thesis by auto
qed

end
