(* ===== verification/Monitoring.thy ===== *)
theory Monitoring
  imports Pipeline Read_Model
begin

text \<open>
  The way of the evidence: what the monitoring loop makes of the observations (src/src/vpnpulse/pipeline.py,
  domain/evaluator.py, storage/repository.py) is what the screens show (storage/read_model.py), until
  the evidence has gone stale and never longer.
\<close>

lemma evaluate_scope_fresh_until:
  "ev_fresh_until (evaluate_scope observations now expected n) =
     (if filter (usable now) observations = [] then None
      else Some (Max (obs_fresh_until ` {item \<in> set observations. usable now item})))"
proof -
  have "fresh_items now observations = [] \<longleftrightarrow> filter (usable now) observations = []"
    by (simp add: fresh_items_def flip: length_0_conv)
  then show ?thesis
    by (auto simp: evaluate_scope_def fresh_items_eq Let_def set_fresh_items image_def split: prod.splits if_splits)
qed

lemma snapshot_after_server:
  "snapshot_row_of (fst (evaluate_server config now (d, ts) server)) (server_scope sid) =
     (if sid = sc_id server
      then snapshot_row_of (write_snapshot d (server_scope sid) sid ''all'' (evaluation_of config d sid now) now) (server_scope sid)
      else snapshot_row_of d (server_scope sid))"
proof -
  have "db_snapshots (fst (evaluate_server config now (d, ts) server)) =
      db_snapshots (write_snapshot d (server_scope (sc_id server)) (sc_id server) ''all'' (evaluation_of config d (sc_id server) now) now)"
    using save_evaluation_snapshots [of "quiet_seconds config" d "server_scope (sc_id server)" "sc_id server" "''all''"
        "evaluation_of config d (sc_id server) now" now]
    by (cases "save_evaluation (quiet_seconds config) d (server_scope (sc_id server)) (sc_id server) ''all'' (evaluation_of config d (sc_id server) now) now")
      (auto simp: evaluate_server_db split: option.split)
  from snapshot_row_of_cong [OF this, of "server_scope sid"] show ?thesis by (simp add: snapshot_row_of_write)
qed

lemma snapshot_after_servers:
  "sid \<in> sc_id ` set servers \<Longrightarrow>
   \<exists>row. snapshot_row_of (fst (foldl (evaluate_server config now) (d, ts) servers)) (server_scope sid) = Some row \<and>
     sn_state row = ev_state (evaluation_of config d sid now) \<and> sn_fresh_until row = iso_p (ev_fresh_until (evaluation_of config d sid now))"
proof (induction servers rule: rev_induct)
  case (snoc server servers)
  let ?s = "foldl (evaluate_server config now) (d, ts) servers"
  have same: "evaluation_of config (fst ?s) sid now = evaluation_of config d sid now"
    by (rule evaluation_of_cong) (use evaluate_servers [of config now d ts servers] in blast)
  note step = snapshot_after_server [of config now "fst ?s" "snd ?s" server sid]
  show ?case
  proof (cases "sid = sc_id server")
    case True
    then show ?thesis using step same by (simp add: snapshot_row_of_write)
  next
    case False
    with snoc have "\<exists>row. snapshot_row_of (fst ?s) (server_scope sid) = Some row \<and> sn_state row = ev_state (evaluation_of config d sid now) \<and>
        sn_fresh_until row = iso_p (ev_fresh_until (evaluation_of config d sid now))" by auto
    then show ?thesis using step False by simp
  qed
qed simp

lemma card_follows_evidence:
  assumes "1 \<le> confirmations (rs_config rs)" "db_snapshots d' = db_snapshots (fst (evaluate (rs_config rs) d now))"
    and "c \<in> set (sw_servers (status rs d' later lang))"
  shows "cd_state c =
    (if \<exists>item \<in> set (observations_of d (cd_id c) now). usable now item \<and> later \<le> obs_fresh_until item
     then scope_verdict (confirmations (rs_config rs)) now (observations_of d (cd_id c) now) else Unknown)"
proof -
  let ?obs = "observations_of d (cd_id c) now"
  let ?e = "evaluation_of (rs_config rs) d (cd_id c) now" and ?fresh = "{item \<in> set (observations_of d (cd_id c) now). usable now item}"
  obtain cfg where cfg: "cfg \<in> set (enabled_servers (rs_config rs))" "cd_id c = sc_id cfg" "cd_state c = cd_state (card_of d' cfg later None)"
    using assms(3) by (auto simp: status_selects status_cards_def localized_card_def card_of_def Let_def case_prod_beta)
  have key: "server_scope (cd_id c) = server_key (sc_id cfg)" by (simp add: server_scope_def server_key_def cfg(2))
  obtain row where row: "snapshot_row_of d' (server_key (sc_id cfg)) = Some row" "sn_state row = ev_state ?e" "sn_fresh_until row = iso_p (ev_fresh_until ?e)"
    using snapshot_after_servers [of "cd_id c" "enabled_servers (rs_config rs)" "rs_config rs" now d "[]"] cfg(1,2)
    unfolding snapshot_row_of_cong [OF assms(2)] evaluate_def key by blast
  have state: "ev_state ?e = scope_verdict (confirmations (rs_config rs)) now ?obs"
    by (simp add: evaluation_of_def evaluate_scope_state [OF assms(1)])
  have "finite (obs_fresh_until ` ?fresh)" by simp
  then have "later \<le> Max (obs_fresh_until ` ?fresh) \<longleftrightarrow> (\<exists>item \<in> ?fresh. later \<le> obs_fresh_until item)" if "?fresh \<noteq> {}"
    using that by (simp add: Max_ge_iff)
  moreover have "?fresh \<noteq> {} \<longleftrightarrow> filter (usable now) ?obs \<noteq> []" by (auto simp: filter_empty_conv)
  moreover have "ev_fresh_until ?e = (if filter (usable now) ?obs = [] then None else Some (Max (obs_fresh_until ` ?fresh)))"
    by (simp add: evaluation_of_def evaluate_scope_fresh_until)
  moreover have "scope_verdict (confirmations (rs_config rs)) now ?obs = Unknown" if "filter (usable now) ?obs = []"
    using that assms(1) by (auto simp: scope_verdict_def outage_confirmed_def full_runs_def filter_empty_conv Let_def)
  ultimately show ?thesis
    by (auto simp: cfg(3) card_of_def Let_def case_prod_beta row dt_def iso_p_def is_stale_def state not_less split: if_splits)
qed

lemma card_of_enabled:
  "sid \<in> sc_id ` set (enabled_servers (rs_config rs)) \<Longrightarrow> \<exists>c. c \<in> set (sw_servers (status rs d later lang)) \<and> cd_id c = sid"
  by (force simp: status_selects status_cards_def card_of_def Let_def case_prod_beta localized_card_def)

text \<open>
  C23. What the screen says is what the evidence says: at any instant after an evaluation the card of every enabled
  server shows the verdict the monitoring policy gives for the observations stored when it ran, as long
  as one of those it rested on is still fresh; from then on it says unknown until the next evaluation.
\<close>

theorem screen_follows_evidence:
  assumes "1 \<le> confirmations (rs_config rs)"
    and "c \<in> set (sw_servers (status rs (fst (evaluate (rs_config rs) d now)) later lang))"
  shows "cd_state c =
    (if \<exists>item \<in> set (observations_of d (cd_id c) now). usable now item \<and> later \<le> obs_fresh_until item
     then scope_verdict (confirmations (rs_config rs)) now (observations_of d (cd_id c) now) else Unknown)"
  by (rule card_follows_evidence [OF assms(1) refl assms(2)])

definition seen_failing :: "datetime \<Rightarrow> observation" where
  "seen_failing t =
     \<lparr>obs_source = ''pc'', obs_result = Failure, obs_observed_at = t, obs_fresh_until = t + 180000000, obs_full_vpn_test = True,
      obs_control_internet_ok = Some True, obs_reason_code = None, obs_route_verified = None\<rparr>"

definition failed_test :: "string \<Rightarrow> datetime \<Rightarrow> observation_row" where
  "failed_test n t =
     \<lparr>ob_id = Uuid4 n, ob_server_id = ''s1'', ob_source_kind = ''pc'', ob_network_scope = ''country'', ob_observed_at = StampZ t,
      ob_received_at = StampZ t, ob_result = ''failure'', ob_fresh_until = StampZ (t + seconds 180), ob_confidence = ''sufficient'',
      ob_metrics = Some (JObj [(''full_vpn_test'', JBool True), (''control_internet_ok'', JBool True)]), ob_error_code = None,
      ob_run_id = None, ob_report_id = Some n\<rparr>"

definition outage_db :: db where
  "outage_db = empty_db\<lparr>db_observations := [failed_test ''a'' 1000000000000000, failed_test ''b'' 1000000060000000]\<rparr>"

definition outage_settings :: read_settings where
  "outage_settings = view_settings\<lparr>rs_config := sample_config\<rparr>"

theorem screen_follows_evidence_witness:
  "\<exists>c c'. c \<in> set (sw_servers (status outage_settings (fst (evaluate sample_config outage_db 1000000070000000)) 1000000100000000 ''en'')) \<and>
     cd_state c = Unavailable \<and>
     c' \<in> set (sw_servers (status outage_settings (fst (evaluate sample_config outage_db 1000000070000000)) 1000000300000000 ''en'')) \<and>
     cd_state c' = Unknown"
proof -
  let ?now = "1000000070000000" and ?shown = "\<lambda>later. sw_servers (status outage_settings (fst (evaluate sample_config outage_db 1000000070000000)) later ''en'')"
  have here: "rs_config outage_settings = sample_config" "confirmations sample_config = 2" "map sc_id (enabled_servers sample_config) = [''s1'']"
    by code_simp+
  have "''s1'' \<in> sc_id ` set (enabled_servers (rs_config outage_settings))" unfolding here by code_simp
  then have card: "\<exists>c. c \<in> set (?shown later) \<and> cd_id c = ''s1''" for later by (rule card_of_enabled)
  have one: "1 \<le> confirmations (rs_config outage_settings)" by (simp add: here)
  have obs: "observations_of outage_db ''s1'' ?now = [seen_failing 1000000000000000, seen_failing 1000000060000000]"
    by code_simp
  have "scope_verdict 2 ?now (observations_of outage_db ''s1'' ?now) = Unavailable"
    unfolding obs
    by (auto simp: unavailable_iff outage_confirmed_def full_runs_def usable_def proof_from_members_def seen_failing_def
        is_valid_success_def valid_full_failure_def Let_def intro!: exI [of _ "''pc''"])
  moreover have "(\<exists>item \<in> set (observations_of outage_db ''s1'' ?now). usable ?now item \<and> 1000000100000000 \<le> obs_fresh_until item) = True"
      "(\<exists>item \<in> set (observations_of outage_db ''s1'' ?now). usable ?now item \<and> 1000000300000000 \<le> obs_fresh_until item) = False"
    unfolding obs by code_simp+
  note verdict = calculation this
  obtain c c' where shown: "c \<in> set (?shown 1000000100000000)" "cd_id c = ''s1''" "c' \<in> set (?shown 1000000300000000)" "cd_id c' = ''s1''"
    using card by blast
  then have "cd_state c = Unavailable" "cd_state c' = Unknown"
    using screen_follows_evidence [OF one, of c outage_db ?now 1000000100000000 "''en''"]
      screen_follows_evidence [OF one, of c' outage_db ?now 1000000300000000 "''en''"] verdict by (simp_all only: here if_True if_False)
  with shown show ?thesis by blast
qed

end
