(* ===== verification/Evidence.thy ===== *)
theory Evidence
  imports Ssh Demo_Run Monitoring
begin

text \<open>
  From a collector to the screen: what the monitoring loop may rely on in the observations of a collector
  (collectors/base.py), the two collectors of src/src/vpnpulse/collectors that provide it, and what the status screen
  says after a run in which the helper of a server answered, or did not.
\<close>

subsection \<open>The interface of a collector\<close>

lemma jget_dict_set: "jget (dict_set k v d) k' = (if k' = k then v else jget d k')"
  by (auto simp: jget_def dict_set_def update_conv')

lemma observation_read:
  assumes "parse_result (co_result i) = Some r"
  shows "\<exists>seen. parse_observation (observation_of config i run n now) = Some seen \<and> obs_source seen = co_source i \<and> obs_result seen = r \<and>
    obs_fresh_until seen = co_observed_at i + freshness config \<and> obs_route_verified seen = as_bool (jget (co_metrics i) ''route_verified'')"
  using assms by (simp add: parse_observation_def observation_of_def loads_or_empty_def Let_def jget_dict_set)

locale evidence_source =
  fixes answers :: "datetime \<Rightarrow> collected list \<Rightarrow> bool"
    and lag :: timedelta
  assumes known_result: "answers now items \<Longrightarrow> i \<in> set items \<Longrightarrow> parse_result (co_result i) \<noteq> None"
    and recent: "answers now items \<Longrightarrow> i \<in> set items \<Longrightarrow> now - lag \<le> co_observed_at i"
begin

lemma evidence_counts:
  assumes "answers now items" "i \<in> set items"
    and "fresh_run run d" "c \<in> set collectors" "col_collect c now = Some items" "co_server_id i \<in> known_servers d"
    and "lag + second \<le> freshness config"
  shows "\<exists>seen \<in> set (observations_of (fst (collect config collectors d now run trace ms)) (co_server_id i) now).
    obs_source seen = co_source i \<and> parse_result (co_result i) = Some (obs_result seen) \<and>
    now + freshness config - lag \<le> obs_fresh_until seen \<and> obs_route_verified seen = as_bool (jget (co_metrics i) ''route_verified'')"
proof -
  let ?d = "fst (collect config collectors d now run trace ms)"
  have "i \<in> set (collected_items collectors now (known_servers d))"
    using assms(2,4-6) by (force simp: collected_items_def)
  then obtain n where "n < length (collected_items collectors now (known_servers d))" "collected_items collectors now (known_servers d) ! n = i"
    by (auto simp: in_set_conv_nth)
  then have "(n, i) \<in> set (enumerate 0 (collected_items collectors now (known_servers d)))" by (simp add: in_set_enumerate_eq)
  then have "observation_of config i run n now \<in> set (run_observations config run now 0 (collected_items collectors now (known_servers d)))"
    by (auto simp: run_observations_def intro!: image_eqI [of _ _ "(n, i)"])
  then have "observation_of config i run n now \<in> set (db_observations ?d)"
    using collect_all [OF assms(3), of config collectors now trace ms] by auto
  note stored = this
  have current: "StampZ now < ob_fresh_until (observation_of config i run n now)"
    using recent [OF assms(1,2)] assms(7) by (simp add: observation_of_def Let_def stampz_le_complete)
  obtain r where r: "parse_result (co_result i) = Some r" using known_result [OF assms(1,2)] by blast
  from observation_read [OF r, of config run n now] obtain seen where
    seen: "parse_observation (observation_of config i run n now) = Some seen" "obs_source seen = co_source i" "obs_result seen = r"
      "obs_fresh_until seen = co_observed_at i + freshness config" "obs_route_verified seen = as_bool (jget (co_metrics i) ''route_verified'')"
    by blast
  have "seen \<in> set (observations_of ?d (co_server_id i) now)"
    using stored current seen(1) by (force simp: observations_of_def List.map_filter_def)
  with seen r recent [OF assms(1,2)] show ?thesis by (intro bexI [of _ seen]) auto
qed

end

subsection \<open>The two collectors\<close>

lemma ssh_items:
  assumes "ssh_collect ds show_time c result now previous = Some (items, counters)" "i \<in> set items"
  shows "co_server_id i = sh_server_id c" "co_result i \<in> {''success'', ''failure''}" "now - seconds 60 \<le> co_observed_at i"
  using assms observed_at_near
  by (auto simp: ssh_collect_def plain_collected_def seconds_def Let_def abs_le_iff split: sum.splits option.splits if_splits) force+

lemma build_now: "build sine fx sid now = Inr sc \<Longrightarrow> so_now sc = now"
  by (auto simp: build_def build_scenario_def bind_err_Inr split: option.splits)

interpretation helper: evidence_source
  "\<lambda>now items. \<exists>result previous counters. ssh_collect ds show_time c result now previous = Some (items, counters)" "seconds 60"
  for ds show_time c
proof
  fix now items i
  assume "\<exists>result previous counters. ssh_collect ds show_time c result now previous = Some (items, counters)" "i \<in> set items"
  then obtain result previous counters where "ssh_collect ds show_time c result now previous = Some (items, counters)" by blast
  from ssh_items [OF this \<open>i \<in> set items\<close>]
  have "co_result i \<in> {''success'', ''failure''}" "now - seconds 60 \<le> co_observed_at i" by blast+
  then show "parse_result (co_result i) \<noteq> None" "now - seconds 60 \<le> co_observed_at i" by (auto simp: parse_result_def)
qed

interpretation script: evidence_source
  "\<lambda>now items. \<exists>phases probes speed start. scripted_collect sine stamp_json fx phases probes speed start now = Inr items" "seconds 5"
  for sine stamp_json fx
proof
  fix now items i
  assume "\<exists>phases probes speed start. scripted_collect sine stamp_json fx phases probes speed start now = Inr items" "i \<in> set items"
  then obtain sid sc s ys probes where "build sine fx sid now = Inr sc" "scripted_server stamp_json probes sc s = Inr ys" "i \<in> set ys"
    using map_err_source by (fastforce simp: scripted_collect_def bind_err_Inr)
  with scripted_server_items(2) [OF this(2)] build_now [OF this(1)]
  have "co_result i \<in> {''success'', ''failure'', ''not_run''}" "now - seconds 5 \<le> co_observed_at i" by auto
  then show "parse_result (co_result i) \<noteq> None" "now - seconds 5 \<le> co_observed_at i" by (auto simp: parse_result_def)
qed

subsection \<open>What a run says of a server\<close>

lemma verdict_of_member:
  "item \<in> set observations \<Longrightarrow> usable now item \<Longrightarrow> proof_from_members item \<Longrightarrow>
   scope_verdict n now observations = (if \<exists>x \<in> set observations. usable now x \<and> obs_result x = Failure then Degraded else Operational)"
  by (auto simp: scope_verdict_def Let_def proof_of_life_def proof_from_members_def)

lemma verdict_of_failure:
  "item \<in> set observations \<Longrightarrow> usable now item \<Longrightarrow> obs_result item = Failure \<Longrightarrow>
   scope_verdict n now observations \<in> {Degraded, Unavailable}"
  by (auto simp: scope_verdict_def Let_def)

definition prepared :: "config \<Rightarrow> pipeline_state \<Rightarrow> datetime \<Rightarrow> db" where
  \<comment> \<open>the database a run collects into: the first one mirrors the configured servers\<close>
  "prepared config p now = (if pl_runs p = 0 then sync_servers (pl_db p) config now else pl_db p)"

definition gathered :: "config \<Rightarrow> collector list \<Rightarrow> run_inputs \<Rightarrow> datetime \<Rightarrow> pipeline_state \<Rightarrow> db" where
  "gathered config collectors inp now p =
     fst (collect config collectors (prepared config p now) now (in_run_id inp) (in_trace_id inp) (in_duration_ms inp))"

lemma fresh_run_prepared: "fresh_run run (prepared config p now) = fresh_run run (pl_db p)"
  by (simp add: prepared_def fresh_run_def sync_servers_def sync_fold Let_def)

lemma sweep_snapshots: "db_snapshots (snd (sweep config d now)) = db_snapshots d"
  by (simp add: sweep_def Let_def delete_expired_def sweep_rows_def)

lemma aggregate_hourly_snapshots: "aggregate_hourly config d now hrs = Inr (n, d') \<Longrightarrow> db_snapshots d' = db_snapshots d"
  by (auto simp: aggregate_hourly_def Let_def bind_err_Inr)

lemma maintain_snapshots: "db_snapshots (fst (maintain config d now)) = db_snapshots d"
  using aggregate_hourly_snapshots [of config _ now 25] sweep_snapshots [of config d now]
  by (fastforce simp: maintain_def Let_def split_def split: sum.split)

lemma run_once_snapshots:
  assumes "fresh_run (in_run_id inp) (pl_db p)"
  shows "db_snapshots (pl_db (fst (run_once config collectors backoff interval inp now p))) =
    db_snapshots (fst (evaluate config (gathered config collectors inp now p) now))"
proof -
  obtain d1 summary where "collect config collectors (prepared config p now) now (in_run_id inp) (in_trace_id inp) (in_duration_ms inp) = (d1, Inr summary)"
    using collect_all [of "in_run_id inp" "prepared config p now" config collectors now "in_trace_id inp" "in_duration_ms inp"] assms
    by (auto simp: fresh_run_prepared)
  then show ?thesis
    using maintain_snapshots [of config "snd (notify (in_messenger inp) backoff now (fst (evaluate config d1 now)))" now]
    by (auto simp: run_once_def gathered_def prepared_def notify_def Let_def case_prod_beta split: sum.split prod.split)
qed

lemma status_cards_configured:
  "c \<in> set (sw_servers (status rs d now lang)) \<Longrightarrow> cd_id c \<in> sc_id ` set (cfg_servers (rs_config rs))"
  by (auto simp: status_selects status_cards_def card_of_def Let_def case_prod_beta localized_card_def enabled_servers_def)

text \<open>
  C24. What the helper of a server says reaches the screen at once: after a run in which it could not be read the
  server is shown as degraded or unavailable; after one in which its engine had a peer with a fresh handshake
  it is operational, or degraded when other fresh evidence failed, whatever failures of probes are confirmed. Both
  hold until the evidence is stale, for any freshness longer than the minute by which clocks may differ.
\<close>

theorem helper_answer_is_shown:
  assumes "ssh_collect ds show_time c result now previous = Some (items, counters)"
    and "source \<in> set collectors" "col_collect source now = Some items"
    and "fresh_run (in_run_id inp) (pl_db p)" "pl_runs p = 0 \<or> sh_server_id c \<in> known_servers (pl_db p)"
    and "1 \<le> confirmations (rs_config rs)" "seconds 60 + second \<le> freshness (rs_config rs)"
    and "shown \<in> set (sw_servers (status rs (pl_db (fst (run_once (rs_config rs) collectors backoff interval inp now p))) later lang))"
    and "cd_id shown = sh_server_id c" "later + seconds 60 \<le> now + freshness (rs_config rs)"
  shows "case call_helper result of
      Inl code \<Rightarrow> cd_state shown \<in> {Degraded, Unavailable}
    | Inr payload \<Rightarrow> engine_readable payload \<and> 0 < fresh_handshakes (sh_freshness c) payload \<longrightarrow>
        cd_state shown = (if \<exists>x \<in> set (observations_of (gathered (rs_config rs) collectors inp now p) (sh_server_id c) now).
                              usable now x \<and> obs_result x = Failure then Degraded else Operational)"
proof -
  let ?d = "gathered (rs_config rs) collectors inp now p" and ?id = "sh_server_id c"
  have card: "cd_state shown = (if \<exists>item \<in> set (observations_of ?d ?id now). usable now item \<and> later \<le> obs_fresh_until item
      then scope_verdict (confirmations (rs_config rs)) now (observations_of ?d ?id now) else Unknown)"
    using card_follows_evidence [OF assms(6) run_once_snapshots [OF assms(4)] assms(8)] unfolding assms(9) .
  have configured: "?id \<in> sc_id ` set (cfg_servers (rs_config rs))"
    using status_cards_configured [OF assms(8)] by (simp add: assms(9))
  have fresh: "fresh_run (in_run_id inp) (prepared (rs_config rs) p now)" using assms(4) by (simp add: fresh_run_prepared)
  have known: "?id \<in> known_servers (prepared (rs_config rs) p now)"
    using assms(5) configured by (auto simp: prepared_def sync_servers_known)
  have told: "\<exists>seen \<in> set (observations_of ?d ?id now). obs_source seen = co_source i \<and> parse_result (co_result i) = Some (obs_result seen) \<and>
      usable now seen \<and> later \<le> obs_fresh_until seen"
    if "i \<in> set items" "jget (co_metrics i) ''route_verified'' = JNull" for i
  proof -
    have "\<exists>result previous counters. ssh_collect ds show_time c result now previous = Some (items, counters)" using assms(1) by blast
    from helper.evidence_counts [OF this that(1) fresh assms(2,3) _ assms(7), of "in_trace_id inp" "in_duration_ms inp"] ssh_items(1) [OF assms(1) that(1)] known
    obtain seen where seen: "seen \<in> set (observations_of ?d ?id now)" "obs_source seen = co_source i"
      "parse_result (co_result i) = Some (obs_result seen)" "now + freshness (rs_config rs) - seconds 60 \<le> obs_fresh_until seen"
      "obs_route_verified seen = as_bool (jget (co_metrics i) ''route_verified'')"
      by (auto simp: gathered_def)
    moreover have "now \<le> obs_fresh_until seen" using seen(4) assms(7) by (simp add: duration_defs)
    moreover have "later \<le> obs_fresh_until seen" using seen(4) assms(10) by linarith
    ultimately show ?thesis using that(2) by (auto simp: usable_def intro!: bexI [of _ seen])
  qed
  show ?thesis
  proof (cases "call_helper result")
    case (Inl code)
    then obtain i where "i \<in> set items" "co_result i = ''failure''" "jget (co_metrics i) ''route_verified'' = JNull"
      using assms(1) by (auto simp: ssh_collect_def plain_collected_def)
    with told [of i] verdict_of_failure show ?thesis
      by (fastforce simp: card Inl parse_result_def)
  next
    case (Inr payload)
    have "\<exists>i \<in> set items. co_source i = ''human_activity'' \<and> co_result i = ''success'' \<and> jget (co_metrics i) ''route_verified'' = JNull"
      if "engine_readable payload \<and> 0 < fresh_handshakes (sh_freshness c) payload"
    proof -
      from assms(1) Inr obtain observed m where ok: "metrics_from ds show_time c payload observed previous = Some (m, counters)"
          "items = plain_collected (sh_server_id c) ''collector'' ''success'' observed m None #
            (if truthy (jget (as_dict (jget m ''connections'')) ''amneziawg'') then
               [plain_collected (sh_server_id c) ''human_activity'' ''success'' observed
                  [(''connections'', JObj [(''amneziawg'', jget (as_dict (jget m ''connections'')) ''amneziawg'')])] None] else [])"
        by (auto simp: ssh_collect_def Let_def split: option.splits prod.splits)
      from metrics_from_contract [OF ok(1)] that show ?thesis
        unfolding ok(2) by (auto simp: plain_collected_def known_if_def json_nat_def)
    qed
    then obtain seen where "seen \<in> set (observations_of ?d ?id now)" "usable now seen" "later \<le> obs_fresh_until seen" "proof_from_members seen"
      if "engine_readable payload \<and> 0 < fresh_handshakes (sh_freshness c) payload"
      using told by (fastforce simp: parse_result_def proof_from_members_def is_valid_success_def SUCCESS_SOURCES_def)
    then have "cd_state shown = (if \<exists>x \<in> set (observations_of ?d ?id now). usable now x \<and> obs_result x = Failure then Degraded else Operational)"
      if "engine_readable payload \<and> 0 < fresh_handshakes (sh_freshness c) payload"
      using that card verdict_of_member by metis
    then show ?thesis unfolding Inr sum.case by (intro impI)
  qed
qed

definition helper_source :: "run_result \<Rightarrow> collector" where
  "helper_source result =
     \<lparr>col_name = ''helper'',
      col_collect = (\<lambda>now. map_option fst (ssh_collect [] (\<lambda>t. []) \<lparr>sh_server_id = ''s1'', sh_freshness = 180\<rparr> result now None))\<rparr>"

definition told_inputs :: run_inputs where
  "told_inputs = \<lparr>in_run_id = Uuid4 ''r'', in_trace_id = ''t'', in_duration_ms = 1, in_messenger = (\<lambda>row. Raised)\<rparr>"

definition told_db :: "run_result \<Rightarrow> db" where
  "told_db result = pl_db (fst (run_once sample_config [helper_source result] 30 hour told_inputs (seconds 60)
     \<lparr>pl_db = sample_report_db, pl_runs = 0, pl_last_maintenance = None\<rparr>))"

lemma told_shown:
  assumes "ssh_collect [] (\<lambda>t. []) \<lparr>sh_server_id = ''s1'', sh_freshness = 180\<rparr> result (seconds 60) None = Some (items, counters)"
  shows "\<exists>shown. shown \<in> set (sw_servers (status outage_settings (told_db result) (seconds 90) ''en'')) \<and> cd_id shown = ''s1'' \<and>
    fresh_run (Uuid4 ''r'') sample_report_db \<and> 1 \<le> confirmations sample_config \<and>
    seconds 60 + second \<le> freshness sample_config \<and> seconds 90 + seconds 60 \<le> seconds 60 + freshness sample_config \<and>
    rs_config outage_settings = sample_config \<and> col_collect (helper_source result) (seconds 60) = Some items"
proof -
  have "rs_config outage_settings = sample_config" "''s1'' \<in> sc_id ` set (enabled_servers sample_config)" "1 \<le> confirmations sample_config"
      "fresh_run (Uuid4 ''r'') sample_report_db" "freshness sample_config = seconds 180"
    by (simp_all add: outage_settings_def fresh_run_def sample_report_db_def empty_db_def) code_simp+
  with card_of_enabled [of "''s1''" outage_settings "told_db result" "seconds 90" "''en''"] assms
  show ?thesis by (simp add: helper_source_def duration_defs)
qed

theorem helper_answer_is_shown_witness:
  "\<exists>c c'. c \<in> set (sw_servers (status outage_settings (told_db TimeoutExpired) (seconds 90) ''en'')) \<and> cd_state c \<in> {Degraded, Unavailable} \<and>
     c' \<in> set (sw_servers (status outage_settings (told_db (Completed 0 (Some (JObj sample_answer)) [])) (seconds 90) ''en'')) \<and>
     cd_state c' \<in> {Operational, Degraded}"
proof -
  let ?answers = "\<lambda>result. \<exists>items counters. ssh_collect [] (\<lambda>t. []) \<lparr>sh_server_id = ''s1'', sh_freshness = 180\<rparr> result (seconds 60) None = Some (items, counters)"
  have told: "\<exists>c. c \<in> set (sw_servers (status outage_settings (told_db result) (seconds 90) ''en'')) \<and>
      (case call_helper result of
         Inl code \<Rightarrow> cd_state c \<in> {Degraded, Unavailable}
       | Inr payload \<Rightarrow> engine_readable payload \<and> 0 < fresh_handshakes 180 payload \<longrightarrow> cd_state c \<in> {Operational, Degraded})"
    if "?answers result" for result
  proof -
    from that obtain items counters where run:
      "ssh_collect [] (\<lambda>t. []) \<lparr>sh_server_id = ''s1'', sh_freshness = 180\<rparr> result (seconds 60) None = Some (items, counters)" by blast
    from told_shown [OF run] obtain c where c: "c \<in> set (sw_servers (status outage_settings (told_db result) (seconds 90) ''en''))" "cd_id c = ''s1''"
      "fresh_run (Uuid4 ''r'') sample_report_db" "1 \<le> confirmations sample_config"
      "seconds 60 + second \<le> freshness sample_config" "seconds 90 + seconds 60 \<le> seconds 60 + freshness sample_config"
      "rs_config outage_settings = sample_config" "col_collect (helper_source result) (seconds 60) = Some items" by blast
    let ?p = "\<lparr>pl_db = sample_report_db, pl_runs = 0, pl_last_maintenance = None\<rparr>"
    have shown: "c \<in> set (sw_servers (status outage_settings
        (pl_db (fst (run_once (rs_config outage_settings) [helper_source result] 30 hour told_inputs (seconds 60) ?p))) (seconds 90) ''en''))"
      using c(1) by (simp only: told_db_def c(7))
    from helper_answer_is_shown [OF run _ c(8) _ _ _ _ shown] c
    show ?thesis by (auto simp: told_inputs_def split: sum.splits if_splits)
  qed
  have "call_helper TimeoutExpired = Inl ''SSH_TIMEOUT''" by (simp add: call_helper_def)
  moreover have "?answers TimeoutExpired" by (simp add: ssh_collect_def call_helper_def)
  ultimately obtain c where "c \<in> set (sw_servers (status outage_settings (told_db TimeoutExpired) (seconds 90) ''en''))"
    "cd_state c \<in> {Degraded, Unavailable}" using told [of TimeoutExpired] by auto
  moreover from sample_collected told [of "Completed 0 (Some (JObj sample_answer)) []"] obtain c' where
    "c' \<in> set (sw_servers (status outage_settings (told_db (Completed 0 (Some (JObj sample_answer)) [])) (seconds 90) ''en''))"
    "cd_state c' \<in> {Operational, Degraded}" by auto
  ultimately show ?thesis by blast
qed

end
