(* ===== verification/Connection.thy ===== *)
theory Connection
  imports Prelude
begin

text \<open>
  The connection the worker threads of the API share (\<open>SerializedConnection\<close> of
  src/src/vpnpulse/storage/database.py). The sqlite3 module does not take concurrent statements, so every method
  holds a re-entrant lock while it touches the connection and \<open>with connection:\<close> holds it from its first line to
  its last. The threads are interleaved here at every touch and at every operation of the lock; that the rest
  of the library may treat a transaction as one operation is what is proved.
\<close>

subsection \<open>The methods\<close>

text \<open>What touches the connection: the sqlite3 methods the class calls on \<open>super()\<close>, and reading the rows of a cursor.\<close>

datatype touch = RunStatement string | FetchRows | RunMany string | RunScript string | CommitNow | RollbackNow | EnterNow

datatype micro = Acquire | Touch touch | Release

text \<open>\<open>ExitBlock\<close> is told whether the block ends with an exception.\<close>

datatype call = Execute string bool | ExecuteMany string | ExecuteScript string | Commit | Rollback | EnterBlock | ExitBlock bool

fun body :: "call \<Rightarrow> micro list" where
  \<comment> \<open>\<open>Execute\<close>: the flag says that the statement has rows\<close>
  "body (Execute sql rows) = Acquire # Touch (RunStatement sql) # (if rows then [Touch FetchRows] else []) @ [Release]"
| "body (ExecuteMany sql) = [Acquire, Touch (RunMany sql), Release]"
| "body (ExecuteScript script) = [Acquire, Touch (RunScript script), Release]"
| "body Commit = [Acquire, Touch CommitNow, Release]"
| "body Rollback = [Acquire, Touch RollbackNow, Release]"
| "body EnterBlock = [Acquire, Touch EnterNow]"
| "body (ExitBlock failed) = [Touch (if failed then RollbackNow else CommitNow), Release]"

definition program :: "call list \<Rightarrow> micro list" where
  "program calls = concat (map body calls)"

subsection \<open>Threads\<close>

type_synonym thread = nat

text \<open>\<open>lk_depth\<close>: how often the owner has acquired the lock. \<open>lk_trace\<close>: who touched the connection, in order.\<close>

record shared =
  lk_owner :: "thread option"
  lk_depth :: nat
  lk_rest :: "thread \<Rightarrow> micro list"
  lk_trace :: "(thread \<times> touch) list"

definition started :: "(thread \<Rightarrow> call list) \<Rightarrow> shared" where
  "started calls = \<lparr>lk_owner = None, lk_depth = 0, lk_rest = (\<lambda>t. program (calls t)), lk_trace = []\<rparr>"

definition advance :: "thread \<Rightarrow> shared \<Rightarrow> shared" where
  "advance t s = s\<lparr>lk_rest := (lk_rest s)(t := tl (lk_rest s t))\<rparr>"

inductive thread_step :: "shared \<Rightarrow> shared \<Rightarrow> bool" where
  acquire: "lk_rest s t = Acquire # r \<Longrightarrow> lk_owner s = None \<or> lk_owner s = Some t \<Longrightarrow>
    thread_step s ((advance t s)\<lparr>lk_owner := Some t, lk_depth := lk_depth s + 1\<rparr>)"
| touch: "lk_rest s t = Touch a # r \<Longrightarrow> thread_step s ((advance t s)\<lparr>lk_trace := lk_trace s @ [(t, a)]\<rparr>)"
| release: "lk_rest s t = Release # r \<Longrightarrow> lk_owner s = Some t \<Longrightarrow>
    thread_step s ((advance t s)\<lparr>lk_owner := (if lk_depth s = 1 then None else Some t), lk_depth := lk_depth s - 1\<rparr>)"

inductive_cases thread_stepE: "thread_step s s'"

abbreviation thread_steps :: "shared \<Rightarrow> shared \<Rightarrow> bool" where
  "thread_steps \<equiv> thread_step\<^sup>*\<^sup>*"

subsection \<open>Sections\<close>

fun guarded :: "nat \<Rightarrow> micro list \<Rightarrow> bool" where
  \<comment> \<open>at depth \<open>k\<close>: the connection is touched under the lock only, and the lock is given back\<close>
  "guarded k [] \<longleftrightarrow> k = 0"
| "guarded k (Acquire # r) \<longleftrightarrow> guarded (k + 1) r"
| "guarded k (Touch a # r) \<longleftrightarrow> 0 < k \<and> guarded k r"
| "guarded k (Release # r) \<longleftrightarrow> 0 < k \<and> guarded (k - 1) r"

fun well_nested :: "nat \<Rightarrow> call list \<Rightarrow> bool" where
  \<comment> \<open>every \<open>with\<close> block that is entered is left\<close>
  "well_nested k [] \<longleftrightarrow> k = 0"
| "well_nested k (EnterBlock # cs) \<longleftrightarrow> well_nested (k + 1) cs"
| "well_nested k (ExitBlock failed # cs) \<longleftrightarrow> 0 < k \<and> well_nested (k - 1) cs"
| "well_nested k (c # cs) \<longleftrightarrow> well_nested k cs"

fun sections_from :: "nat \<Rightarrow> touch list \<Rightarrow> micro list \<Rightarrow> touch list list" where
  \<comment> \<open>what a thread does between taking the lock and giving it back, with \<open>held\<close> done at depth \<open>k\<close>\<close>
  "sections_from k held [] = []"
| "sections_from k held (Acquire # r) = sections_from (k + 1) held r"
| "sections_from k held (Touch a # r) = sections_from k (held @ [a]) r"
| "sections_from k held (Release # r) = (if k \<le> 1 then held # sections_from 0 [] r else sections_from (k - 1) held r)"

definition sections :: "call list \<Rightarrow> touch list list" where
  "sections calls = sections_from 0 [] (program calls)"

lemma guarded_program: "well_nested k calls \<Longrightarrow> guarded k (program calls)"
  unfolding program_def by (induction k calls rule: well_nested.induct) auto

text \<open>A block is one section, whatever it runs; so is a statement with its rows.\<close>

lemma sections_block:
  "sections_from 0 [] (program [EnterBlock, Execute sql rows, ExecuteMany sql', ExitBlock failed]) =
     [[EnterNow, RunStatement sql] @ (if rows then [FetchRows] else []) @ [RunMany sql', if failed then RollbackNow else CommitNow]]"
  "sections_from 0 [] (program [Execute sql True]) = [[RunStatement sql, FetchRows]]"
  by (simp_all add: program_def)

subsection \<open>The invariant\<close>

definition depth_of :: "shared \<Rightarrow> thread \<Rightarrow> nat" where
  "depth_of s t = (if lk_owner s = Some t then lk_depth s else 0)"

definition held_by :: "shared \<Rightarrow> touch list \<Rightarrow> thread \<Rightarrow> touch list" where
  "held_by s cur t = (if lk_owner s = Some t then cur else [])"

definition by_sections :: "(thread \<times> touch list) list \<Rightarrow> (thread \<times> touch) list" where
  "by_sections ws = concat (map (\<lambda>(t, w). map (Pair t) w) ws)"

definition done_by :: "(thread \<times> touch list) list \<Rightarrow> thread \<Rightarrow> touch list list" where
  "done_by ws t = map snd (filter (\<lambda>w. fst w = t) ws)"

definition lock_inv :: "(thread \<Rightarrow> call list) \<Rightarrow> shared \<Rightarrow> bool" where
  "lock_inv calls s \<longleftrightarrow> (lk_owner s = None \<longleftrightarrow> lk_depth s = 0) \<and> (\<forall>t. guarded (depth_of s t) (lk_rest s t)) \<and>
     (\<exists>ws cur. lk_trace s = by_sections ws @ (case lk_owner s of None \<Rightarrow> [] | Some u \<Rightarrow> map (Pair u) cur) \<and>
        (\<forall>t. sections (calls t) = done_by ws t @ sections_from (depth_of s t) (held_by s cur t) (lk_rest s t)))"

lemma lock_inv_started:
  assumes "\<forall>t. well_nested 0 (calls t)"
  shows "lock_inv calls (started calls)"
  unfolding lock_inv_def
  using guarded_program [of 0] assms
  by (auto simp: started_def depth_of_def held_by_def sections_def by_sections_def done_by_def intro!: exI [of _ "[]"])

lemma lock_inv_step:
  assumes "thread_step s s'" "lock_inv calls s"
  shows "lock_inv calls s'"
proof -
  obtain ws cur where owned: "lk_owner s = None \<longleftrightarrow> lk_depth s = 0" and guard: "\<And>t. guarded (depth_of s t) (lk_rest s t)"
    and trace: "lk_trace s = by_sections ws @ (case lk_owner s of None \<Rightarrow> [] | Some u \<Rightarrow> map (Pair u) cur)"
    and split: "\<And>t. sections (calls t) = done_by ws t @ sections_from (depth_of s t) (held_by s cur t) (lk_rest s t)"
    using assms(2) by (auto simp: lock_inv_def)
  from assms(1) show ?thesis
  proof (cases rule: thread_step.cases)
    case (acquire t r)
    let ?cur = "if lk_owner s = None then [] else cur"
    have "guarded (depth_of s' u) (lk_rest s' u)" for u
      using guard [of u] guard [of t] acquire by (auto simp: advance_def depth_of_def owned split: if_splits)
    moreover have "sections (calls u) = done_by ws u @ sections_from (depth_of s' u) (held_by s' ?cur u) (lk_rest s' u)" for u
      using split [of u] acquire owned by (cases "lk_owner s") (auto simp: advance_def depth_of_def held_by_def)
    moreover have "lk_trace s' = by_sections ws @ (case lk_owner s' of None \<Rightarrow> [] | Some u \<Rightarrow> map (Pair u) ?cur)"
      using trace acquire by (auto simp: advance_def)
    ultimately show ?thesis unfolding lock_inv_def using acquire(1) by (intro conjI exI [of _ ws] exI [of _ ?cur]) (auto simp: advance_def)
  next
    case (touch t a r)
    have mine: "lk_owner s = Some t" using guard [of t] touch(2) by (auto simp: depth_of_def split: if_splits)
    have "guarded (depth_of s' u) (lk_rest s' u)" for u
      using guard [of u] touch by (auto simp: advance_def depth_of_def split: if_splits)
    moreover have "sections (calls u) = done_by ws u @ sections_from (depth_of s' u) (held_by s' (cur @ [a]) u) (lk_rest s' u)" for u
      using split [of u] touch mine by (auto simp: advance_def depth_of_def held_by_def)
    moreover have "lk_trace s' = by_sections ws @ (case lk_owner s' of None \<Rightarrow> [] | Some u \<Rightarrow> map (Pair u) (cur @ [a]))"
      using trace touch mine by (auto simp: advance_def)
    ultimately show ?thesis
      unfolding lock_inv_def using touch(1) owned by (intro conjI exI [of _ ws] exI [of _ "cur @ [a]"]) (auto simp: advance_def)
  next
    case (release t r)
    have guards: "guarded (depth_of s' u) (lk_rest s' u)" for u
      using guard [of u] release owned by (auto simp: advance_def depth_of_def split: if_splits)
    show ?thesis
    proof (cases "lk_depth s = 1")
      case True
      have "sections (calls u) = done_by (ws @ [(t, cur)]) u @ sections_from (depth_of s' u) (held_by s' [] u) (lk_rest s' u)" for u
        using split [of u] release True by (auto simp: advance_def depth_of_def held_by_def done_by_def)
      moreover have "lk_trace s' = by_sections (ws @ [(t, cur)]) @ (case lk_owner s' of None \<Rightarrow> [] | Some u \<Rightarrow> map (Pair u) [])"
        using trace release True by (auto simp: advance_def by_sections_def)
      ultimately show ?thesis
        unfolding lock_inv_def using guards release True
        by (intro conjI exI [of _ "ws @ [(t, cur)]"] exI [of _ "[]"]) (auto simp: advance_def)
    next
      case False
      then have "1 < lk_depth s" using release owned by (cases "lk_depth s") auto
      then have "sections (calls u) = done_by ws u @ sections_from (depth_of s' u) (held_by s' cur u) (lk_rest s' u)" for u
        using split [of u] release False by (auto simp: advance_def depth_of_def held_by_def)
      moreover have "lk_trace s' = by_sections ws @ (case lk_owner s' of None \<Rightarrow> [] | Some u \<Rightarrow> map (Pair u) cur)"
        using trace release False by (auto simp: advance_def)
      ultimately show ?thesis
        unfolding lock_inv_def using guards release False \<open>1 < lk_depth s\<close>
        by (intro conjI exI [of _ ws] exI [of _ cur]) (auto simp: advance_def)
    qed
  qed
qed

lemma lock_inv_steps: "thread_steps s s' \<Longrightarrow> lock_inv calls s \<Longrightarrow> lock_inv calls s'"
  by (induction rule: rtranclp_induct) (auto intro: lock_inv_step)

lemma lock_progress:
  assumes "lock_inv calls s" "lk_rest s t \<noteq> []"
  shows "\<exists>s'. thread_step s s'"
proof (cases "lk_owner s")
  case None
  then have "guarded 0 (lk_rest s t)" using assms(1) by (auto simp: lock_inv_def depth_of_def)
  then obtain r where "lk_rest s t = Acquire # r" using assms(2) by (cases "lk_rest s t"; cases "hd (lk_rest s t)") auto
  from thread_step.acquire [OF this] None show ?thesis by blast
next
  case (Some u)
  then have guard: "guarded (lk_depth s) (lk_rest s u)" and "lk_depth s \<noteq> 0"
    using assms(1) by (auto simp: lock_inv_def depth_of_def dest!: spec [of _ u])
  then obtain m r where r: "lk_rest s u = m # r" by (cases "lk_rest s u") auto
  then show ?thesis
    using thread_step.acquire [of s u r] thread_step.touch [of s u] thread_step.release [of s u r] Some by (cases m) blast+
qed

subsection \<open>Threads are serialized\<close>

text \<open>
  C18. However the threads are scheduled, what they do to the connection is a sequence of whole sections: a statement
  with its rows and a transaction from its first line to its commit or rollback are never interrupted by
  another thread, each thread's sections come in the order of its program, and together they are all of them
  when the threads are done. No schedule gets stuck before that.
\<close>

theorem transactions_are_serial:
  assumes "thread_steps (started calls) s" "\<forall>t. well_nested 0 (calls t)"
  shows "((\<exists>t. lk_rest s t \<noteq> []) \<longrightarrow> (\<exists>s'. thread_step s s')) \<and>
    ((\<forall>t. lk_rest s t = []) \<longrightarrow> (\<exists>ws. lk_trace s = by_sections ws \<and> (\<forall>t. done_by ws t = sections (calls t))))"
proof -
  have inv: "lock_inv calls s" by (rule lock_inv_steps [OF assms(1) lock_inv_started [OF assms(2)]])
  moreover have "\<exists>ws. lk_trace s = by_sections ws \<and> (\<forall>t. done_by ws t = sections (calls t))" if finished: "\<forall>t. lk_rest s t = []"
  proof -
    from inv finished have "lk_owner s = None" by (auto simp: lock_inv_def depth_of_def split: if_splits)
    with inv finished show ?thesis by (auto simp: lock_inv_def)
  qed
  ultimately show ?thesis using lock_progress by blast
qed

definition two_writers :: "thread \<Rightarrow> call list" where
  "two_writers t = (if t = 0 then [EnterBlock, Execute ''INSERT'' False, ExitBlock False] else if t = 1 then [Execute ''SELECT'' True] else [])"

theorem transactions_are_serial_witness:
  "\<exists>s ws. thread_steps (started two_writers) s \<and> lk_trace s = by_sections ws \<and>
     done_by ws 0 = [[EnterNow, RunStatement ''INSERT'', CommitNow]] \<and> done_by ws 1 = [[RunStatement ''SELECT'', FetchRows]]"
proof -
  have nested: "\<forall>t. well_nested 0 (two_writers t)" by (simp add: two_writers_def)
  have size: "(\<Sum>t\<in>{0, 1}. length (lk_rest s' t)) < (\<Sum>t\<in>{0, 1}. length (lk_rest s t))"
    if "thread_step s s'" "\<forall>t. t \<notin> {0, 1} \<longrightarrow> lk_rest s t = []" for s s'
    using that by (auto elim!: thread_stepE simp: advance_def split: if_splits)
  have others: "\<forall>t. t \<notin> {0, 1} \<longrightarrow> lk_rest s t = []" if "thread_steps (started two_writers) s" for s
    using that
  proof (induction rule: rtranclp_induct)
    case (step s s')
    then show ?case by (auto elim!: thread_stepE simp: advance_def)
  qed (simp add: started_def two_writers_def program_def)
  have "\<exists>s'. thread_steps (started two_writers) s' \<and> (\<forall>t. lk_rest s' t = [])" if "thread_steps (started two_writers) s" for s
    using that
  proof (induction "\<Sum>t\<in>{0, 1}. length (lk_rest s t)" arbitrary: s rule: less_induct)
    case less
    show ?case
    proof (cases "\<exists>t. lk_rest s t \<noteq> []")
      case True
      then obtain s' where "thread_step s s'" using transactions_are_serial [OF less.prems nested] by blast
      with less size [OF this others [OF less.prems]] show ?thesis by (meson rtranclp.rtrancl_into_rtrancl)
    qed (use less.prems in blast)
  qed
  then obtain s where s: "thread_steps (started two_writers) s" "\<forall>t. lk_rest s t = []" by blast
  have "sections (two_writers 0) = [[EnterNow, RunStatement ''INSERT'', CommitNow]]" "sections (two_writers 1) = [[RunStatement ''SELECT'', FetchRows]]"
    by (simp_all add: sections_def two_writers_def program_def)
  with transactions_are_serial [OF s(1) nested] s show ?thesis by metis
qed

end
