(* ===== verification/Regex.thy ===== *)
theory Regex
  imports Text
begin

text \<open>
  The regular expressions of the standard library (\<open>re\<close>) as the scripts of the repository use them: a backtracking
  matcher that tries the alternatives in order and repeats greedily, \<open>search\<close> and \<open>findall\<close>. A position in a text is
  what was read, backwards, and what is ahead; a class is a predicate on characters (ASCII). No pattern of the
  sources repeats a pattern that can match the empty text, so a repetition goes on as long as it consumes.
\<close>

subsection \<open>Patterns\<close>

datatype rx =
    Empty
  | Cls "char \<Rightarrow> bool"
  | Boundary                 \<comment> \<open>\<open>\b\<close>\<close>
  | Cat rx rx
  | Alt rx rx                \<comment> \<open>the left one first\<close>
  | Star rx                  \<comment> \<open>greedy\<close>
  | Lazy rx                  \<comment> \<open>\<open>*?\<close>\<close>

type_synonym position = "string \<times> string"

definition Lit :: "string \<Rightarrow> rx" where
  "Lit s = foldr (\<lambda>c r. Cat (Cls (\<lambda>x. x = c)) r) s Empty"

definition Opt :: "rx \<Rightarrow> rx" where
  "Opt r = Alt r Empty"

definition Plus :: "rx \<Rightarrow> rx" where
  "Plus r = Cat r (Star r)"

fun Times :: "nat \<Rightarrow> rx \<Rightarrow> rx" where
  "Times 0 r = Empty"
| "Times (Suc n) r = Cat r (Times n r)"

fun UpTo :: "nat \<Rightarrow> rx \<Rightarrow> rx" where
  "UpTo 0 r = Empty"
| "UpTo (Suc n) r = Opt (Cat r (UpTo n r))"

definition Between :: "nat \<Rightarrow> nat \<Rightarrow> rx \<Rightarrow> rx" where
  "Between lo hi r = Cat (Times lo r) (UpTo (hi - lo) r)"

definition AtLeast :: "nat \<Rightarrow> rx \<Rightarrow> rx" where
  "AtLeast n r = Cat (Times n r) (Star r)"

definition Seqs :: "rx list \<Rightarrow> rx" where
  "Seqs rs = foldr Cat rs Empty"

definition is_lower :: "char \<Rightarrow> bool" where
  "is_lower c \<longleftrightarrow> 97 \<le> (of_char c :: nat) \<and> (of_char c :: nat) \<le> 122"

definition is_upper :: "char \<Rightarrow> bool" where
  "is_upper c \<longleftrightarrow> 65 \<le> (of_char c :: nat) \<and> (of_char c :: nat) \<le> 90"

definition is_letter :: "char \<Rightarrow> bool" where
  "is_letter c \<longleftrightarrow> is_lower c \<or> is_upper c"

definition is_word :: "char \<Rightarrow> bool" where
  "is_word c \<longleftrightarrow> is_letter c \<or> is_digit c \<or> c = CHR ''_''"

definition any_of :: "string \<Rightarrow> char \<Rightarrow> bool" where
  "any_of s c \<longleftrightarrow> c \<in> set s"

subsection \<open>Lines\<close>

definition line_end :: "char \<Rightarrow> bool" where
  "line_end c \<longleftrightarrow> (of_char c :: nat) \<in> {10, 11, 12, 13, 28, 29, 30}"

fun lines_from :: "string \<Rightarrow> string \<Rightarrow> string list" where
  \<comment> \<open>\<open>str.splitlines\<close>; the first argument is the line begun, backwards\<close>
  "lines_from l [] = (if l = [] then [] else [rev l])"
| "lines_from l [c] = (if line_end c then [rev l] else [rev (c # l)])"
| "lines_from l (c # c' # s) =
     (if c = CHR 0x0D \<and> c' = CHR 0x0A then rev l # lines_from [] s
      else if line_end c then rev l # lines_from [] (c' # s) else lines_from (c # l) (c' # s))"

definition splitlines :: "string \<Rightarrow> string list" where
  "splitlines s = lines_from [] s"

definition ends_with :: "string \<Rightarrow> string \<Rightarrow> bool" where
  "ends_with w s \<longleftrightarrow> starts_with (rev w) (rev s)"

subsection \<open>Matching\<close>

definition at_boundary :: "position \<Rightarrow> bool" where
  "at_boundary p =
     ((case fst p of [] \<Rightarrow> False | c # _ \<Rightarrow> is_word c) \<noteq> (case snd p of [] \<Rightarrow> False | c # _ \<Rightarrow> is_word c))"

function runs :: "rx \<Rightarrow> position \<Rightarrow> position list" where
  \<comment> \<open>where a match from here may end, in the order in which they are tried\<close>
  "runs Empty p = [p]"
| "runs (Cls P) p = (case snd p of [] \<Rightarrow> [] | c # s \<Rightarrow> if P c then [(c # fst p, s)] else [])"
| "runs Boundary p = (if at_boundary p then [p] else [])"
| "runs (Cat r q) p = concat (map (runs q) (runs r p))"
| "runs (Alt r q) p = runs r p @ runs q p"
| "runs (Star r) p = concat (map (\<lambda>p'. if length (snd p') < length (snd p) then runs (Star r) p' else []) (runs r p)) @ [p]"
| "runs (Lazy r) p = p # concat (map (\<lambda>p'. if length (snd p') < length (snd p) then runs (Lazy r) p' else []) (runs r p))"
  by pat_completeness auto
termination
  by (relation "inv_image (less_than <*lex*> less_than) (\<lambda>(r, p). (size r, length (snd p)))") auto

inductive matches :: "rx \<Rightarrow> position \<Rightarrow> position \<Rightarrow> bool" where
  empty: "matches Empty p p"
| cls: "P c \<Longrightarrow> matches (Cls P) (l, c # s) (c # l, s)"
| boundary: "at_boundary p \<Longrightarrow> matches Boundary p p"
| cat: "matches r p p' \<Longrightarrow> matches q p' p'' \<Longrightarrow> matches (Cat r q) p p''"
| left: "matches r p p' \<Longrightarrow> matches (Alt r q) p p'"
| right: "matches q p p' \<Longrightarrow> matches (Alt r q) p p'"
| star_stop: "matches (Star r) p p"
| star_step: "matches r p p' \<Longrightarrow> length (snd p') < length (snd p) \<Longrightarrow> matches (Star r) p' p'' \<Longrightarrow> matches (Star r) p p''"
| lazy_stop: "matches (Lazy r) p p"
| lazy_step: "matches r p p' \<Longrightarrow> length (snd p') < length (snd p) \<Longrightarrow> matches (Lazy r) p' p'' \<Longrightarrow> matches (Lazy r) p p''"

inductive_cases matches_cases:
  "matches Empty p p'" "matches (Cls P) p p'" "matches Boundary p p'" "matches (Cat r q) p p'" "matches (Alt r q) p p'"

inductive_cases matches_loops: "matches (Star r) p p'" "matches (Lazy r) p p'"

record rx_pattern =
  \<comment> \<open>\<open>findall\<close> returns the group when the pattern has one: what is before it, the group, what is after it\<close>
  rp_before :: rx
  rp_group :: rx
  rp_after :: rx

definition whole :: "rx \<Rightarrow> rx_pattern" where
  "whole r = \<lparr>rp_before = Empty, rp_group = r, rp_after = Empty\<rparr>"

definition match_at :: "rx_pattern \<Rightarrow> position \<Rightarrow> (string \<times> position) option" where
  \<comment> \<open>the group and the position behind the first match from here\<close>
  "match_at r p =
     (case concat (map (\<lambda>p1. concat (map (\<lambda>p2. map (\<lambda>p3. (rev (take (length (fst p2) - length (fst p1)) (fst p2)), p3)) (runs (rp_after r) p2))
              (runs (rp_group r) p1))) (runs (rp_before r) p)) of
        [] \<Rightarrow> None
      | found # _ \<Rightarrow> Some found)"

function find_all :: "rx_pattern \<Rightarrow> position \<Rightarrow> string list" where
  "find_all r (l, s) =
     (case match_at r (l, s) of
        Some (g, p) \<Rightarrow> if length (snd p) < length s then g # find_all r p
                        else g # (case s of [] \<Rightarrow> [] | c # s' \<Rightarrow> find_all r (c # l, s'))
      | None \<Rightarrow> (case s of [] \<Rightarrow> [] | c # s' \<Rightarrow> find_all r (c # l, s')))"
  by pat_completeness auto
termination
  by (relation "measure (\<lambda>(r, p). length (snd p))") auto

definition findall :: "rx_pattern \<Rightarrow> string \<Rightarrow> string list" where
  "findall r s = find_all r ([], s)"

fun search_from :: "rx_pattern \<Rightarrow> string \<Rightarrow> string \<Rightarrow> (string \<times> position) option" where
  "search_from r l [] = match_at r (l, [])"
| "search_from r l (c # s) = (case match_at r (l, c # s) of None \<Rightarrow> search_from r (c # l) s | found \<Rightarrow> found)"

definition search :: "rx_pattern \<Rightarrow> string \<Rightarrow> string option" where
  "search r s = map_option fst (search_from r [] s)"

subsection \<open>What the matcher finds\<close>

declare runs.simps(6,7) find_all.simps [simp del]

lemma in_concat_if: "x \<in> set (concat (map (\<lambda>y. if P y then f y else []) ys)) \<longleftrightarrow> (\<exists>y \<in> set ys. P y \<and> x \<in> set (f y))"
  by (induction ys) auto

lemma runs_star:
  "p' \<in> set (runs (Star r) p) \<longleftrightarrow>
     p' = p \<or> (\<exists>p1 \<in> set (runs r p). length (snd p1) < length (snd p) \<and> p' \<in> set (runs (Star r) p1))"
  unfolding runs.simps(6) [of r p] set_append Un_iff in_concat_if list.set insert_iff by blast

lemma runs_lazy:
  "p' \<in> set (runs (Lazy r) p) \<longleftrightarrow>
     p' = p \<or> (\<exists>p1 \<in> set (runs r p). length (snd p1) < length (snd p) \<and> p' \<in> set (runs (Lazy r) p1))"
  unfolding runs.simps(7) [of r p] list.set insert_iff in_concat_if ..

text \<open>The matcher finds exactly the matches.\<close>

lemma runs_sound: "p' \<in> set (runs r p) \<Longrightarrow> matches r p p'"
proof (induction r p arbitrary: p' rule: runs.induct)
  case (2 P p)
  then show ?case by (cases p) (auto split: list.splits if_splits intro: cls)
next
  case (4 r q p)
  from 4(3) obtain p1 where "p1 \<in> set (runs r p)" "p' \<in> set (runs q p1)" by auto
  with 4(1,2) show ?case by (blast intro: cat)
next
  case (6 r p)
  from 6(3) runs_star [of p' r p] 6(1,2) show ?case by (blast intro: star_stop star_step)
next
  case (7 r p)
  from 7(3) runs_lazy [of p' r p] 7(1,2) show ?case by (blast intro: lazy_stop lazy_step)
qed (auto split: if_splits intro: matches.intros)

lemma runs_complete: "matches r p p' \<Longrightarrow> p' \<in> set (runs r p)"
proof (induction rule: matches.induct)
  case (star_step r p p' p'')
  then show ?case using runs_star [of p'' r p] by blast
next
  case (lazy_step r p p' p'')
  then show ?case using runs_lazy [of p'' r p] by blast
next
  case (cat r p p' q p'')
  then show ?case by (auto intro: bexI [of _ p'])
next
  case (star_stop r p)
  show ?case using runs_star [of p r p] by blast
next
  case (lazy_stop r p)
  show ?case using runs_lazy [of p r p] by blast
qed simp_all

lemma runs_iff: "p' \<in> set (runs r p) \<longleftrightarrow> matches r p p'"
  using runs_sound runs_complete by blast

lemma matches_Empty [simp]: "matches Empty p p' \<longleftrightarrow> p' = p"
  by (auto intro: matches.empty elim: matches_cases)

lemma matches_text: "matches r p p' \<Longrightarrow> \<exists>w. fst p' = rev w @ fst p \<and> snd p = w @ snd p'"
proof (induction rule: matches.induct)
  case (cat r p p' q p'')
  then obtain w v where "fst p' = rev w @ fst p" "snd p = w @ snd p'" "fst p'' = rev v @ fst p'" "snd p' = v @ snd p''" by blast
  then show ?case by (intro exI [of _ "w @ v"]) simp
next
  case (star_step r p p' p'')
  then obtain w v where "fst p' = rev w @ fst p" "snd p = w @ snd p'" "fst p'' = rev v @ fst p'" "snd p' = v @ snd p''" by blast
  then show ?case by (intro exI [of _ "w @ v"]) simp
next
  case (lazy_step r p p' p'')
  then obtain w v where "fst p' = rev w @ fst p" "snd p = w @ snd p'" "fst p'' = rev v @ fst p'" "snd p' = v @ snd p''" by blast
  then show ?case by (intro exI [of _ "w @ v"]) simp
next
  case (cls P c l s)
  then show ?case by (intro exI [of _ "[c]"]) simp
qed simp_all

text \<open>\<open>findall\<close> gives nothing exactly when the pattern matches nowhere in the text.\<close>

lemma no_first: "(case xs of [] \<Rightarrow> None | x # _ \<Rightarrow> Some x) = None \<longleftrightarrow> xs = []"
  by (cases xs) simp_all

lemma match_at_None:
  "match_at r p = None \<longleftrightarrow>
     (\<nexists>p1 p2 p3. matches (rp_before r) p p1 \<and> matches (rp_group r) p1 p2 \<and> matches (rp_after r) p2 p3)"
proof -
  have "match_at r p = None \<longleftrightarrow>
      (\<forall>p1 \<in> set (runs (rp_before r) p). \<forall>p2 \<in> set (runs (rp_group r) p1). runs (rp_after r) p2 = [])"
    by (simp add: match_at_def no_first)
  also have "\<dots> \<longleftrightarrow> (\<nexists>p1 p2 p3. p1 \<in> set (runs (rp_before r) p) \<and> p2 \<in> set (runs (rp_group r) p1) \<and> p3 \<in> set (runs (rp_after r) p2))"
    by (metis ex_in_conv set_empty)
  finally show ?thesis by (simp only: runs_iff)
qed

lemma find_all_Nil:
  "find_all r (l, s) = [] \<longleftrightarrow> (\<forall>a b. s = a @ b \<longrightarrow> match_at r (rev a @ l, b) = None)"
proof (induction s arbitrary: l)
  case Nil
  show ?case by (subst find_all.simps) (simp split: option.split)
next
  case (Cons c s)
  have step: "find_all r (l, c # s) = [] \<longleftrightarrow> match_at r (l, c # s) = None \<and> find_all r (c # l, s) = []"
    by (subst find_all.simps) (simp split: option.split)
  have "(\<forall>a b. c # s = a @ b \<longrightarrow> match_at r (rev a @ l, b) = None) \<longleftrightarrow>
      match_at r (l, c # s) = None \<and> (\<forall>a b. s = a @ b \<longrightarrow> match_at r (rev a @ c # l, b) = None)"
    (is "?all \<longleftrightarrow> ?here \<and> ?later")
  proof
    assume all: ?all
    have ?here using all [rule_format, of "[]" "c # s"] by simp
    moreover have ?later using all [rule_format, of "c # a" b for a b] by simp
    ultimately show "?here \<and> ?later" ..
  next
    assume "?here \<and> ?later"
    then show ?all by (auto simp: Cons_eq_append_conv)
  qed
  then show ?case by (simp only: step Cons)
qed

end
