(* ===== verification/Repo_Checks.thy ===== *)
theory Repo_Checks
  imports Regex I18n Demo_Screens
begin

text \<open>
  Checks and builds a developer runs over the sources: the links of the documentation
  (src/scripts/check_links.py), the contracts and dictionaries (src/scripts/validate_specs.py), the pages of the
  Mini App (src/scripts/build_prototypes.py), the budgets of the measurements (src/scripts/perf_check.py). Parsed
  documents, the schema library and what lies in the repository are arguments.
\<close>

subsection \<open>Links\<close>

definition not_in :: "string \<Rightarrow> char \<Rightarrow> bool" where
  "not_in s c \<longleftrightarrow> c \<notin> set s"

definition LINK :: rx_pattern where
  \<comment> \<open>an optional exclamation mark, the text in brackets, the target, a title in quotes\<close>
  "LINK =
     \<lparr>rp_before = Seqs [Opt (Lit ''!''), Lit ''['', Star (Cls (not_in '']'')), Lit ''](''],
      rp_group = Plus (Cls (\<lambda>c. c \<noteq> CHR '')'' \<and> \<not> is_space c)),
      rp_after = Cat (Opt (Seqs [Plus (Cls is_space), Lit [CHR 0x22], Star (Cls (not_in [CHR 0x22])), Lit [CHR 0x22]])) (Lit '')'')\<rparr>"

definition SKIPPED :: "string list" where
  "SKIPPED = [''.git'', ''.venv'', ''node_modules'', ''__pycache__'', ''.pytest_cache'']"

record source_file =
  sf_path :: "string list"  \<comment> \<open>below the root\<close>
  sf_text :: string

definition markdown_files :: "string list \<Rightarrow> source_file list \<Rightarrow> source_file list" where
  "markdown_files base tree =
     filter (\<lambda>f. ends_with ''.md'' (last (sf_path f)) \<and> \<not> list_ex (\<lambda>part. part \<in> set SKIPPED) (base @ sf_path f)) tree"

definition step_into :: "string list \<Rightarrow> string \<Rightarrow> string list" where
  "step_into path part = (if part = [] \<or> part = ''.'' then path else if part = ''..'' then butlast path else path @ [part])"

definition resolve_from :: "string list \<Rightarrow> string \<Rightarrow> string list" where
  \<comment> \<open>\<open>(directory / target).resolve()\<close>, in a tree without symbolic links\<close>
  "resolve_from directory target =
     foldl step_into (if starts_with ''/'' target then [] else directory) (split_on (CHR ''/'') target)"

definition external_target :: "string \<Rightarrow> bool" where
  "external_target target \<longleftrightarrow> list_ex (\<lambda>p. starts_with p target) [''http://'', ''https://'', ''mailto:'', ''#'']"

definition checked_links :: "source_file list \<Rightarrow> (source_file \<times> string \<times> string) list" where
  \<comment> \<open>the file, the target, the part of it that names a path\<close>
  "checked_links files =
     concat (map (\<lambda>f. map (\<lambda>t. (f, t, fst (split_first (CHR ''#'') t)))
       (filter (\<lambda>t. \<not> external_target t \<and> fst (split_first (CHR ''#'') t) \<noteq> []) (findall LINK (sf_text f)))) files)"

definition main_links :: "string list \<Rightarrow> (string list \<Rightarrow> bool) \<Rightarrow> source_file list \<Rightarrow> string list \<times> int" where
  "main_links base there tree =
     (let links = checked_links (markdown_files base tree);
          broken = map (\<lambda>(f, t, _). join ''/'' (sf_path f) @ '' -> '' @ t)
            (filter (\<lambda>(f, t, p). \<not> there (resolve_from (butlast (base @ sf_path f)) p)) links)
      in (map (\<lambda>b. ''broken: '' @ b) broken @ [''links checked: '' @ show_nat (length links) @ '', broken: '' @ show_nat (length broken)],
          if broken = [] then 0 else 1))"

lemma links_hold:
  "snd (main_links base there tree) = 0 \<longleftrightarrow>
     (\<forall>(f, t, p) \<in> set (checked_links (markdown_files base tree)). there (resolve_from (butlast (base @ sf_path f)) p))"
  by (auto simp: main_links_def Let_def filter_empty_conv case_prod_beta)

lemma link_samples:
  "findall LINK ''[a](b.md#c) ![](x y)'' = [''b.md#c'']"
  "resolve_from [''r'', ''docs''] ''../web/./x.md'' = [''r'', ''web'', ''x.md'']"
  by code_simp+

subsection \<open>Contracts and dictionaries\<close>

datatype spec_error =
    NotOpenApi31
  | NoPaths
  | NoSchemas
  | WrongDraft
  | OpenAnalytics
  | OpenCollector
  | SchemaRejected        \<comment> \<open>an exception of the schema library\<close>
  | Unresolved            \<comment> \<open>a reference that is not local or leads nowhere, a key that is missing\<close>
  | KeyMismatch "string list" "string list"   \<comment> \<open>missing in English, missing in Russian\<close>
  | PlaceholderMismatch string
  | HtmlInText string
  | LiteralAddress string string

definition PLACEHOLDER :: rx_pattern where
  "PLACEHOLDER = \<lparr>rp_before = Lit ''{'', rp_group = Cat (Cls is_letter) (Star (Cls is_word)), rp_after = Lit ''}''\<rparr>"

definition placeholders :: "string \<Rightarrow> string set" where
  "placeholders value = set (findall PLACEHOLDER value)"

fun json_at :: "json \<Rightarrow> string list \<Rightarrow> bool" where
  "json_at v [] = True"
| "json_at (JObj d) (k # ks) = (case map_of d k of None \<Rightarrow> False | Some v \<Rightarrow> json_at v ks)"
| "json_at v (k # ks) = False"

definition resolve_local_ref :: "json \<Rightarrow> json \<Rightarrow> bool" where
  "resolve_local_ref document ref =
     (case ref of
        JStr r \<Rightarrow> starts_with ''#/'' r \<and>
          json_at document (map (\<lambda>part. py_replace ''~0'' ''~'' (py_replace ''~1'' ''/'' part)) (split_on (CHR ''/'') (drop 2 r)))
      | _ \<Rightarrow> False)"

function visit :: "json \<Rightarrow> json \<Rightarrow> bool" where
  "visit document (JObj d) =
     ((case map_of d ''$ref'' of None \<Rightarrow> True | Some r \<Rightarrow> resolve_local_ref document r) \<and> (\<forall>v \<in> snd ` set d. visit document v))"
| "visit document (JArr xs) = (\<forall>v \<in> set xs. visit document v)"
| "visit document JNull = True"
| "visit document (JBool b) = True"
| "visit document (JInt i) = True"
| "visit document (JFloat x) = True"
| "visit document (JStr s) = True"
  by pat_completeness auto
termination
  by (relation "measure (\<lambda>(_, v). size v)")
    (auto simp: size_list_estimation' less_Suc_eq_le intro!: size_list_estimation')

record spec_files =
  sp_config_schema :: jdict
  sp_analytics_schema :: jdict
  sp_collector_schema :: jdict
  sp_ru :: "(string \<times> string) list"
  sp_en :: "(string \<times> string) list"
  sp_openapi :: jdict
  sp_example :: json
  sp_texts :: "(string \<times> string) list"  \<comment> \<open>the seven public files by name\<close>

definition check_that :: "bool \<Rightarrow> spec_error \<Rightarrow> spec_error + unit" where
  "check_that ok e = (if ok then Inr () else Inl e)"

definition check_openapi :: "jdict \<Rightarrow> spec_error + unit" where
  "check_openapi api =
     (case as_str (jget api ''openapi'') of
        None \<Rightarrow> Inl Unresolved
      | Some v \<Rightarrow>
          bind_err (check_that (starts_with ''3.1'' v) NotOpenApi31) (\<lambda>_.
          bind_err (check_that (truthy (jget api ''paths'')) NoPaths) (\<lambda>_.
          check_that (truthy (jget (as_dict (jget api ''components'')) ''schemas'')) NoSchemas)))"

definition check_schemas :: "(jdict \<Rightarrow> bool) \<Rightarrow> (jdict \<Rightarrow> json \<Rightarrow> bool) \<Rightarrow> spec_files \<Rightarrow> spec_error + unit" where
  "check_schemas well_formed valid s =
     bind_err (case as_str (jget (sp_config_schema s) ''$schema'') of
                 None \<Rightarrow> Inl Unresolved | Some u \<Rightarrow> check_that (ends_with ''2020-12/schema'' u) WrongDraft) (\<lambda>_.
     bind_err (check_that (as_bool (jget (sp_analytics_schema s) ''additionalProperties'') = Some False) OpenAnalytics) (\<lambda>_.
     bind_err (check_that (well_formed (sp_config_schema s) \<and> well_formed (sp_analytics_schema s) \<and> well_formed (sp_collector_schema s)) SchemaRejected) (\<lambda>_.
     bind_err (check_that (as_bool (jget (sp_collector_schema s) ''additionalProperties'') = Some False) OpenCollector) (\<lambda>_.
     check_that (valid (sp_config_schema s) (sp_example s)) SchemaRejected))))"

definition check_key :: "spec_files \<Rightarrow> string \<Rightarrow> spec_error + unit" where
  "check_key s key =
     (let ru = or_default [] (map_of (sp_ru s) key); en = or_default [] (map_of (sp_en s) key)
      in bind_err (check_that (placeholders ru = placeholders en) (PlaceholderMismatch key)) (\<lambda>_.
         check_that (CHR ''<'' \<notin> set ru \<and> CHR ''<'' \<notin> set en) (HtmlInText key)))"

definition check_dictionaries :: "spec_files \<Rightarrow> spec_error + unit" where
  "check_dictionaries s =
     (let ru = map fst (sp_ru s); en = map fst (sp_en s)
      in bind_err (check_that (set ru = set en) (KeyMismatch (sort (filter (\<lambda>k. k \<notin> set en) ru)) (sort (filter (\<lambda>k. k \<notin> set ru) en)))) (\<lambda>_.
         bind_err (map_err (check_key s) (sort ru)) (\<lambda>_. Inr ())))"

definition DOCUMENTED :: "string list" where
  "DOCUMENTED = [''192.0.2.'', ''198.51.100.'', ''203.0.113.'', ''0.0.0.0'', ''127.0.0.1'']"

definition ADDRESS :: rx where
  "ADDRESS = Seqs [Boundary, Times 3 (Cat (Between 1 3 (Cls is_digit)) (Lit ''.'')), Between 1 3 (Cls is_digit), Boundary]"

definition check_addresses :: "string \<times> string \<Rightarrow> spec_error + unit" where
  "check_addresses = (\<lambda>(relative, s).
     bind_err (map_err (\<lambda>m. check_that (list_ex (\<lambda>r. starts_with r m) DOCUMENTED) (LiteralAddress m relative)) (findall (whole ADDRESS) s)) (\<lambda>_. Inr ()))"

definition main_specs :: "(jdict \<Rightarrow> bool) \<Rightarrow> (jdict \<Rightarrow> json \<Rightarrow> bool) \<Rightarrow> spec_files \<Rightarrow> spec_error + string" where
  "main_specs well_formed valid s =
     bind_err (check_openapi (sp_openapi s)) (\<lambda>_.
     bind_err (check_schemas well_formed valid s) (\<lambda>_.
     bind_err (check_that (visit (JObj (sp_openapi s)) (JObj (sp_openapi s))) Unresolved) (\<lambda>_.
     bind_err (check_dictionaries s) (\<lambda>_.
     bind_err (map_err check_addresses (sp_texts s)) (\<lambda>_.
       Inr (''specs OK: '' @ show_nat (length (as_dict (jget (sp_openapi s) ''paths''))) @ '' API paths, '' @
            show_nat (length (as_dict (jget (as_dict (jget (sp_openapi s) ''components'')) ''schemas''))) @ '' schemas, '' @
            show_nat (length (sp_ru s)) @ '' i18n keys''))))))"

text \<open>Specifications that pass have texts for the same keys in both languages, so no text of either falls back, and
  what the program fills into one translation it fills into the other.\<close>

lemma specs_dictionaries:
  assumes "main_specs well_formed valid s = Inr said"
  shows "set (map fst (sp_ru s)) = set (map fst (sp_en s))"
    "\<forall>key ru en. map_of (sp_ru s) key = Some ru \<and> map_of (sp_en s) key = Some en \<longrightarrow>
       placeholders ru = placeholders en \<and> CHR ''<'' \<notin> set ru \<and> CHR ''<'' \<notin> set en"
proof -
  from assms have ok: "check_dictionaries s = Inr ()" by (auto simp: main_specs_def bind_err_Inr)
  then show keys: "set (map fst (sp_ru s)) = set (map fst (sp_en s))"
    by (auto simp: check_dictionaries_def Let_def bind_err_Inr check_that_def split: if_splits)
  show "\<forall>key ru en. map_of (sp_ru s) key = Some ru \<and> map_of (sp_en s) key = Some en \<longrightarrow>
       placeholders ru = placeholders en \<and> CHR ''<'' \<notin> set ru \<and> CHR ''<'' \<notin> set en"
  proof (intro allI impI)
    fix key ru en assume here: "map_of (sp_ru s) key = Some ru \<and> map_of (sp_en s) key = Some en"
    then have "key \<in> set (sort (map fst (sp_ru s)))" using map_of_SomeD by force
    moreover obtain us where "map_err (check_key s) (sort (map fst (sp_ru s))) = Inr us"
      using ok by (auto simp: check_dictionaries_def Let_def bind_err_Inr)
    ultimately have "check_key s key = Inr ()"
      unfolding map_err_Inr list_all2_conv_all_nth by (metis in_set_conv_nth old.unit.exhaust)
    with here show "placeholders ru = placeholders en \<and> CHR ''<'' \<notin> set ru \<and> CHR ''<'' \<notin> set en"
      by (auto simp: check_key_def Let_def bind_err_Inr check_that_def or_default_def split: if_splits)
  qed
qed

lemma specs_texts:
  assumes "main_specs well_formed valid s = Inr said" "key \<in> fst ` set (sp_ru s)" "lang \<in> {''ru'', ''en''}"
  shows "\<exists>txt. map_of (dictionary [(''ru'', sp_ru s), (''en'', sp_en s)] lang) key = Some txt \<and>
    translate [(''ru'', sp_ru s), (''en'', sp_en s)] lang key [] = txt"
  using assms(2,3) specs_dictionaries(1) [OF assms(1)]
  by (auto simp: translate_def dictionary_def split: option.split) (force simp: map_of_eq_None_iff)+

text \<open>Every reference of the API description leads somewhere in it.\<close>

lemma specs_references:
  assumes "main_specs well_formed valid s = Inr said"
  shows "visit (JObj (sp_openapi s)) (JObj (sp_openapi s))"
  using assms by (auto simp: main_specs_def bind_err_Inr check_that_def split: if_splits)

subsection \<open>The pages\<close>

definition fill :: "string \<Rightarrow> (string \<times> string) list \<Rightarrow> string" where
  "fill template parts = foldl (\<lambda>t (key, value). py_replace (''/*__'' @ key @ ''__*/'') value t) template parts"

definition TITLE :: rx_pattern where
  "TITLE = whole (Seqs [Lit ''<title>'', Lazy (Cls (\<lambda>c. True)), Lit ''</title>''])"

definition TELEGRAM_JS :: string where
  "TELEGRAM_JS = ''telegram-web-app.js''"

definition quote_mark :: char where
  "quote_mark = CHR 0x22"

definition nl :: string where
  "nl = [CHR 0x0A]"

definition attr :: "string \<Rightarrow> string" where
  "attr s = quote_mark # s @ [quote_mark]"

definition page_head :: string where
  "page_head =
     ''<!doctype html>'' @ nl @ ''<html lang='' @ attr ''ru'' @ ''>'' @ nl @ ''<head>'' @ nl @ ''<meta charset='' @ attr ''utf-8'' @ ''>'' @ nl @
     ''<meta name='' @ attr ''viewport'' @ '' content='' @ attr ''width=device-width, initial-scale=1, viewport-fit=cover'' @ ''>'' @ nl @
     ''<meta name='' @ attr ''color-scheme'' @ '' content='' @ attr ''light dark'' @ ''>'' @ nl @
     ''<link rel='' @ attr ''icon'' @ '' type='' @ attr ''image/svg+xml'' @ '' href='' @ attr ''favicon.svg'' @ ''>'' @ nl"

definition cut_first :: "string \<Rightarrow> string \<Rightarrow> string" where
  \<comment> \<open>\<open>text.replace(old, \<dots>, 1)\<close> with the empty text\<close>
  "cut_first old s =
     (if contains old s then before old s @ drop (length (before old s) + length old) s else s)"

definition page :: "string \<Rightarrow> string \<Rightarrow> string" where
  "page name body =
     (let title = search TITLE body;
          fragment = (case title of None \<Rightarrow> body | Some t \<Rightarrow> cut_first t body);
          bridge = (if name = ''mvp'' then ''<script src='' @ attr TELEGRAM_JS @ ''></script>'' @ nl else [])
      in page_head @ or_default ''<title>VPN Pulse</title>'' title @ nl @ bridge @ ''</head>'' @ nl @ ''<body>'' @ nl @ fragment @ nl @
         ''</body>'' @ nl @ ''</html>'' @ nl)"

record web_sources =
  ws_files :: "(string \<times> string) list"  \<comment> \<open>web/src by name\<close>
  ws_ru :: string                         \<comment> \<open>the dictionaries and the scenarios, minified\<close>
  ws_en :: string
  ws_fixtures :: string
  ws_telegram :: string
  ws_logo :: string

definition read_source :: "web_sources \<Rightarrow> string \<Rightarrow> string + string" where
  \<comment> \<open>\<open>Inl\<close>: the file that is missing\<close>
  "read_source w name = (case map_of (ws_files w) name of None \<Rightarrow> Inl name | Some s \<Rightarrow> Inr s)"

definition PART_FILES :: "(string \<times> string) list" where
  "PART_FILES =
     [(''TOKENS'', ''ui-tokens.css''), (''APP_CSS'', ''app.css''), (''APP_JS'', ''app.js''), (''MODEL_JS'', ''model.js''), (''API_JS'', ''api.js''),
      (''ANDROID_CSS'', ''android.css''), (''ANDROID_JS'', ''android.js''), (''ICONS'', ''icons.svg'')]"

definition page_parts :: "web_sources \<Rightarrow> string + (string \<times> string) list" where
  "page_parts w =
     bind_err (map_err (\<lambda>(key, file). bind_err (read_source w file) (\<lambda>s. Inr (key, s))) PART_FILES) (\<lambda>parts.
       Inr (parts @ [(''I18N'', ''{'' @ join '','' [attr ''ru'' @ '':'' @ ws_ru w, attr ''en'' @ '':'' @ ws_en w] @ ''}''), (''FIXTURES'', ws_fixtures w)]))"

definition build_prototypes :: "web_sources \<Rightarrow> string + (string \<times> string) list" where
  \<comment> \<open>the files of docs/prototypes, in the order they are written\<close>
  "build_prototypes w =
     bind_err (page_parts w) (\<lambda>parts.
     bind_err (map_err (\<lambda>name. bind_err (read_source w (name @ ''.src.html'')) (\<lambda>template. Inr (name @ ''.html'', page name (fill template parts))))
                [''mvp'', ''android'', ''onboarding'']) (\<lambda>pages.
       Inr ((''ui-tokens.css'', or_default [] (map_of parts ''TOKENS'')) # (TELEGRAM_JS, ws_telegram w) # (''favicon.svg'', ws_logo w) # pages)))"

text \<open>Only the Mini App loads Telegram's script, before any script of its own; every page carries one head.\<close>

lemma page_shape:
  "\<exists>rest. page name body = page_head @ rest"
  "name \<noteq> ''mvp'' \<Longrightarrow> search TITLE body = None \<Longrightarrow>
     page name body = page_head @ ''<title>VPN Pulse</title>'' @ nl @ ''</head>'' @ nl @ ''<body>'' @ nl @ body @ nl @ ''</body>'' @ nl @ ''</html>'' @ nl"
  by (simp_all add: page_def Let_def or_default_def)

lemma fill_keeps_plain:
  "\<forall>(key, value) \<in> set parts. \<forall>i. \<not> starts_with (''/*__'' @ key @ ''__*/'') (drop i t) \<Longrightarrow> fill t parts = t"
proof (induction parts)
  case (Cons p parts)
  then show ?case by (cases p) (simp add: fill_def py_replace_absent)
qed (simp add: fill_def)

subsection \<open>Budgets\<close>

definition percentile :: "rat list \<Rightarrow> rat \<Rightarrow> rat" where
  "percentile samples p =
     sort samples ! nat (max 0 (min (int (length samples) - 1) (\<lfloor>of_nat (length samples) * p + 999 / 1000\<rfloor> - 1)))"

definition over_budget :: "(string \<times> rat \<times> rat) list \<Rightarrow> int \<Rightarrow> bool" where
  \<comment> \<open>the rows of the measurements, the compressed size of the bundle\<close>
  "over_budget rows zipped \<longleftrightarrow> snd (snd (hd rows)) > 300 \<or> snd (snd (last rows)) > 100 \<or> zipped > 350 * 1024"

lemma percentile_measured: "samples \<noteq> [] \<Longrightarrow> percentile samples p \<in> set samples"
proof -
  assume "samples \<noteq> []"
  then have "nat (max 0 (min (int (length samples) - 1) (\<lfloor>of_nat (length samples) * p + 999 / 1000\<rfloor> - 1))) < length (sort samples)"
    by (cases samples) auto
  then show ?thesis unfolding percentile_def by (metis nth_mem set_sort)
qed

end
