(* ===== verification/Contrast.thy ===== *)
theory Contrast
  imports Regex "HOL-Library.AList" Demo_Screens
begin

text \<open>
  The contrast of the design tokens (src/scripts/check_contrast.py): colours of a style sheet, composed over what
  they are drawn on, and the WCAG ratio of every pair that is read together. Numbers are exact rationals; the power 2.4 of
  the sRGB curve is the argument \<open>pow\<close>. The printed table is the list of measured pairs.
\<close>

type_synonym colour = "rat \<times> rat \<times> rat"
type_synonym tokens = "(string \<times> string) list"

subsection \<open>The ratio\<close>

definition TEXT :: rat where "TEXT = 9 / 2"

definition UI :: rat where "UI = 3"

definition srgb_to_lin :: "(rat \<Rightarrow> rat) \<Rightarrow> rat \<Rightarrow> rat" where
  "srgb_to_lin pow c =
     (let c = c / 255 in if c \<le> 4045 / 100000 then c / (1292 / 100) else pow ((c + 55 / 1000) / (1055 / 1000)))"

definition luminance :: "(rat \<Rightarrow> rat) \<Rightarrow> colour \<Rightarrow> rat" where
  "luminance pow rgb =
     (let (r, g, b) = rgb
      in 2126 / 10000 * srgb_to_lin pow r + 7152 / 10000 * srgb_to_lin pow g + 722 / 10000 * srgb_to_lin pow b)"

definition ratio :: "(rat \<Rightarrow> rat) \<Rightarrow> colour \<Rightarrow> colour \<Rightarrow> rat" where
  "ratio pow a b =
     (let la = luminance pow a; lb = luminance pow b; hi = max la lb; lo = min la lb in (hi + 5 / 100) / (lo + 5 / 100))"

subsection \<open>Colours\<close>

definition hex_digit_value :: "char \<Rightarrow> int option" where
  "hex_digit_value c =
     (let n = (of_char c :: nat)
      in if is_digit c then Some (int n - 48) else if 97 \<le> n \<and> n \<le> 102 then Some (int n - 87)
         else if 65 \<le> n \<and> n \<le> 70 then Some (int n - 55) else None)"

fun hex_digits :: "int \<Rightarrow> string \<Rightarrow> int option" where
  "hex_digits n [] = Some n"
| "hex_digits n (c # s) = (case hex_digit_value c of None \<Rightarrow> None | Some v \<Rightarrow> hex_digits (16 * n + v) s)"

definition int_of_hex :: "string \<Rightarrow> int option" where
  \<comment> \<open>\<open>int(text, 16)\<close> of at most two characters\<close>
  "int_of_hex s =
     (case strip s of
        [] \<Rightarrow> None
      | c # ds \<Rightarrow>
          if c = CHR ''+'' \<or> c = CHR ''-'' then
            (if ds = [] then None else map_option (\<lambda>n. if c = CHR ''-'' then - n else n) (hex_digits 0 ds))
          else hex_digits 0 (c # ds))"

definition parse_hex :: "string \<Rightarrow> string + colour" where
  "parse_hex text =
     (let s = dropWhile (\<lambda>c. c = CHR ''#'') text;
          s = (if length s = 3 then concat (map (\<lambda>c. [c, c]) s) else s)
      in case (int_of_hex (take 2 s), int_of_hex (take 2 (drop 2 s)), int_of_hex (take 2 (drop 4 s))) of
           (Some r, Some g, Some b) \<Rightarrow> Inr (of_int r, of_int g, of_int b)
         | _ \<Rightarrow> Inl ''ValueError'')"

definition composite :: "colour \<Rightarrow> rat \<Rightarrow> colour \<Rightarrow> colour" where
  "composite fg alpha bg =
     (let (r, g, b) = fg; (r', g', b') = bg
      in (r * alpha + r' * (1 - alpha), g * alpha + g' * (1 - alpha), b * alpha + b' * (1 - alpha)))"

definition float_of :: "string \<Rightarrow> rat option" where
  \<comment> \<open>\<open>float(text)\<close> of digits and dots\<close>
  "float_of s =
     (case split_on (CHR ''.'') s of
        [a] \<Rightarrow> map_option of_nat (parse_nat a)
      | [a, b] \<Rightarrow> if a @ b = [] \<or> \<not> list_all is_digit (a @ b) then None
                  else Some (of_nat (nat_of_digits a) + of_nat (nat_of_digits b) / 10 ^ length b)
      | _ \<Rightarrow> None)"

definition RGBA :: rx_pattern where
  "RGBA =
     (let channel = Seqs [Star (Cls is_space), Plus (Cls is_digit), Lit '','']
      in \<lparr>rp_before = Lit ''rgba('', rp_group = Seqs [channel, channel, channel, Star (Cls is_space), Plus (Cls (\<lambda>c. is_digit c \<or> c = CHR ''.''))],
          rp_after = Lit '')''\<rparr>)"

definition token_value :: "tokens \<Rightarrow> string \<Rightarrow> string + string" where
  "token_value tokens name = (case map_of tokens name of None \<Rightarrow> Inl (''KeyError: '' @ name) | Some v \<Rightarrow> Inr v)"

definition colour_of :: "tokens \<Rightarrow> string \<Rightarrow> colour \<Rightarrow> string + colour" where
  "colour_of tokens name over =
     bind_err (token_value tokens name) (\<lambda>v.
       if starts_with ''#'' v then parse_hex v
       else case match_at RGBA ([], v) of
              None \<Rightarrow> Inl (''cannot parse '' @ name @ '': '' @ v)
            | Some (parts, _) \<Rightarrow>
                (case map strip (split_on (CHR '','') parts) of
                   [r, g, b, alpha] \<Rightarrow>
                     (case float_of alpha of
                        None \<Rightarrow> Inl ''ValueError''
                      | Some x \<Rightarrow> Inr (composite (of_nat (nat_of_digits r), of_nat (nat_of_digits g), of_nat (nat_of_digits b)) x over))
                 | _ \<Rightarrow> Inl ''ValueError''))"

definition gradient_stops :: "tokens \<Rightarrow> string \<Rightarrow> string + colour list" where
  "gradient_stops tokens name =
     bind_err (token_value tokens name) (\<lambda>v. map_err parse_hex (findall (whole (Cat (Lit ''#'') (Times 6 (Cls (\<lambda>c. hex_digit_value c \<noteq> None))))) v))"

subsection \<open>Tokens of a style sheet\<close>

definition declaration_of :: "string \<Rightarrow> (string \<times> string) option" where
  "declaration_of line =
     (case split_first (CHR '':'') line of
        (k, Some v) \<Rightarrow> Some (strip k, rev (dropWhile (\<lambda>c. c = CHR '';'') (rev (strip v))))
      | _ \<Rightarrow> None)"

definition token_lines :: "string \<Rightarrow> string list" where
  "token_lines block = filter (starts_with ''--'') (map strip (splitlines block))"

definition as_tokens :: "(string \<times> string) list \<Rightarrow> tokens" where
  "as_tokens kvs = foldl (\<lambda>d (k, v). AList.update k v d) [] kvs"

definition parse_block :: "string \<Rightarrow> string \<Rightarrow> string + tokens" where
  "parse_block css selector =
     (case search \<lparr>rp_before = Seqs [Lit selector, Star (Cls is_space), Lit ''{''], rp_group = Lazy (Cls (\<lambda>c. True)),
             rp_after = Lit [CHR 0x0A, CHR ''}'']\<rparr> css of
        None \<Rightarrow> Inl (''block '' @ selector @ '' not found'')
      | Some block \<Rightarrow> Inr (as_tokens (List.map_filter declaration_of (token_lines block))))"

definition DARK_MEDIA :: rx_pattern where
  "DARK_MEDIA =
     \<lparr>rp_before = Seqs [Lit ''@media (prefers-color-scheme: dark) {'', Star (Cls is_space),
          Lit (('':root:not([data-theme='' @ [CHR 0x22]) @ ''light'' @ [CHR 0x22] @ '']) {'')],
      rp_group = Lazy (Cls (\<lambda>c. True)), rp_after = Lit (CHR 0x0A # ''  }'')\<rparr>"

definition mirrored_tokens :: "string \<Rightarrow> string + tokens" where
  \<comment> \<open>a line without a colon raises\<close>
  "mirrored_tokens block =
     bind_err (map_err (\<lambda>line. case declaration_of line of None \<Rightarrow> Inl ''ValueError'' | Some kv \<Rightarrow> Inr kv) (token_lines block)) (\<lambda>kvs.
       Inr (as_tokens kvs))"

subsection \<open>The pairs\<close>

record pair_check =
  pc_name :: string
  pc_front :: colour
  pc_back :: colour
  pc_need :: rat

definition pair_of :: "string \<times> colour \<times> colour \<times> rat \<Rightarrow> pair_check" where
  "pair_of = (\<lambda>(n, a, b, need). \<lparr>pc_name = n, pc_front = a, pc_back = b, pc_need = need\<rparr>)"

definition LAMPS :: "string list" where
  "LAMPS = [''operational'', ''degraded'', ''unavailable'', ''unknown'', ''admin'']"

definition contrast_pairs :: "tokens \<Rightarrow> string + pair_check list" where
  "contrast_pairs tokens =
     bind_err (colour_of tokens ''--color-bg'' (0, 0, 0)) (\<lambda>bg.
     bind_err (colour_of tokens ''--color-surface'' bg) (\<lambda>surface.
     bind_err (colour_of tokens ''--color-raised'' bg) (\<lambda>raised.
     bind_err (colour_of tokens ''--color-well'' bg) (\<lambda>well.
     bind_err (colour_of tokens ''--color-text'' bg) (\<lambda>txt.
     bind_err (colour_of tokens ''--color-muted'' bg) (\<lambda>muted.
     bind_err (colour_of tokens ''--color-accent'' bg) (\<lambda>accent.
     bind_err (colour_of tokens ''--color-accent-text'' bg) (\<lambda>accent_text.
     bind_err (map_err (\<lambda>k. bind_err (colour_of tokens (''--color-'' @ k) bg) (\<lambda>c. Inr (k, c))) LAMPS) (\<lambda>lamps.
     bind_err (colour_of tokens ''--color-border-strong'' bg) (\<lambda>border_bg.
     bind_err (colour_of tokens ''--color-border-strong'' surface) (\<lambda>border_surface.
     bind_err (gradient_stops tokens ''--metal'') (\<lambda>metal.
       Inr (map pair_of
         ([(''text on bg'', txt, bg, TEXT), (''text on surface'', txt, surface, TEXT), (''text on raised'', txt, raised, TEXT),
           (''text on well'', txt, well, TEXT), (''muted on bg (captions, nav labels)'', muted, bg, TEXT),
           (''muted on surface (panels, hint)'', muted, surface, TEXT), (''muted on raised (selected segment caption)'', muted, raised, TEXT),
           (''muted on well (unselected segment)'', muted, well, TEXT), (''accent on bg (text buttons, links)'', accent, bg, TEXT),
           (''bg on text (toast)'', bg, txt, TEXT), (''border-strong on bg (ghost button outline)'', border_bg, bg, UI),
           (''border-strong on surface (outline in panels)'', border_surface, surface, UI),
           (''accent on bg (nav indicator, focus ring)'', accent, bg, UI)] @
          concat (map (\<lambda>(k, c).
            [(k @ '' on bg (state text, arcs)'', c, bg, TEXT), (k @ '' on surface (state text in panels)'', c, surface, TEXT)] @
            (if k \<noteq> ''admin'' then [(''accent-text glyph on '' @ k @ '' lamp badge'', accent_text, c, UI),
               (''bg glyph on '' @ k @ '' ring mark'', bg, c, UI)] else [])) lamps) @
          concat (map (\<lambda>(i, stop).
            [(''accent-text on metal stop '' @ show_nat (i + 1) @ '' (primary button)'', accent_text, stop, TEXT),
             (''metal stop '' @ show_nat (i + 1) @ '' against bg (primary button boundary)'', stop, bg, UI)]) (enumerate 0 metal))))))))))))))))"

definition check_theme :: "(rat \<Rightarrow> rat) \<Rightarrow> string \<Rightarrow> tokens \<Rightarrow> string + (string \<times> string \<times> rat \<times> rat) list" where
  \<comment> \<open>a failure: the theme, the pair, its ratio, the ratio it needs\<close>
  "check_theme pow label tokens =
     bind_err (contrast_pairs tokens) (\<lambda>pairs.
       Inr (List.map_filter (\<lambda>p. let r = ratio pow (pc_front p) (pc_back p)
              in if pc_need p \<le> r then None else Some (label, pc_name p, r, pc_need p)) pairs))"

datatype contrast_result = BlocksDiffer "string set" | ContrastFailed "(string \<times> string \<times> rat \<times> rat) list" | ContrastOk

definition main_contrast :: "(rat \<Rightarrow> rat) \<Rightarrow> string \<Rightarrow> string + contrast_result" where
  "main_contrast pow css =
     bind_err (parse_block css '':root'') (\<lambda>light.
     bind_err (parse_block css ('':root[data-theme='' @ [CHR 0x22] @ ''dark'' @ [CHR 0x22] @ '']'')) (\<lambda>dark.
     bind_err (case search DARK_MEDIA css of
                 None \<Rightarrow> Inr {}
               | Some block \<Rightarrow> bind_err (mirrored_tokens block) (\<lambda>mirrored.
                   Inr {k \<in> fst ` set mirrored \<union> fst ` set dark. map_of mirrored k \<noteq> map_of dark k})) (\<lambda>differing.
       if differing \<noteq> {} then Inr (BlocksDiffer differing)
       else bind_err (check_theme pow ''light'' light) (\<lambda>a.
            bind_err (check_theme pow ''dark'' (foldl (\<lambda>d (k, v). AList.update k v d) light dark)) (\<lambda>b.
              Inr (if a @ b = [] then ContrastOk else ContrastFailed (a @ b)))))))"

definition contrast_exit :: "contrast_result \<Rightarrow> int" where
  "contrast_exit r = (case r of ContrastOk \<Rightarrow> 0 | _ \<Rightarrow> 1)"

subsection \<open>Facts\<close>

lemma ratio_commute: "ratio pow a b = ratio pow b a"
  by (simp add: ratio_def Let_def max.commute min.commute)

lemma ratio_same: "0 \<le> luminance pow a \<Longrightarrow> ratio pow a a = 1"
  by (simp add: ratio_def Let_def)

lemma luminance_nonneg:
  assumes "\<And>x. 0 \<le> x \<Longrightarrow> 0 \<le> pow x" "0 \<le> r" "0 \<le> g" "0 \<le> b"
  shows "0 \<le> luminance pow (r, g, b)"
  using assms by (simp add: luminance_def srgb_to_lin_def Let_def)

lemma ratio_ge_1: "0 \<le> luminance pow a \<Longrightarrow> 0 \<le> luminance pow b \<Longrightarrow> 1 \<le> ratio pow a b"
  by (auto simp: ratio_def Let_def le_divide_eq min_def max_def)

lemma black_on_white: "pow 1 = 1 \<Longrightarrow> ratio pow (0, 0, 0) (255, 255, 255) = 21"
  by (simp add: ratio_def luminance_def srgb_to_lin_def Let_def)

text \<open>When the check passes every pair of the theme has the contrast it needs.\<close>

lemma check_theme_passes:
  assumes "check_theme pow label tokens = Inr []" "contrast_pairs tokens = Inr pairs" "p \<in> set pairs"
  shows "pc_need p \<le> ratio pow (pc_front p) (pc_back p)"
  using assms by (auto simp: check_theme_def List.map_filter_def filter_empty_conv Let_def split: if_splits)

lemma contrast_ok_themes:
  "main_contrast pow css = Inr ContrastOk \<Longrightarrow> \<exists>light. parse_block css '':root'' = Inr light \<and> check_theme pow ''light'' light = Inr []"
  by (auto simp: main_contrast_def bind_err_Inr split: if_splits)

lemma contrast_samples:
  "parse_hex ''#fA0'' = Inr (255, 170, 0)" "parse_hex ''#12'' = Inl ''ValueError''"
  "colour_of [(''a'', ''rgba(10, 20,30, .5)'')] ''a'' (0, 0, 0) = Inr (5, 10, 15)"
  by code_simp+

end
