(* ===== verification/Arguments.thy ===== *)
theory Arguments
  imports Admin_Cli
begin

text \<open>
  The grammar of the command line (src/src/vpnpulse/cli/__init__.py and the \<open>add_parser\<close> of every command,
  src/src/vpnpulse/dev/__main__.py): options and positional arguments as data, and the part of \<open>argparse\<close> that reads
  them. An option may be abbreviated; a word that starts with a dash is a value only when it is a negative number or has a
  blank in it. \<open>float_text\<close> is what \<open>float\<close> makes of a text. The usage message is not modelled.
\<close>

subsection \<open>Parsers\<close>

datatype arg_value = Nothing | Txt string | Num int | Real rat | On bool

datatype arg_type = TextArg | IntArg | FloatArg | FlagArg | HelpArg

record option_spec =
  op_name :: string
  op_type :: arg_type
  op_choices :: "string list option"
  op_default :: "arg_value option"  \<comment> \<open>None: \<open>SUPPRESS\<close>, no attribute unless it is given\<close>
  op_required :: bool
  op_exclusive :: bool              \<comment> \<open>in the mutually exclusive group\<close>

record positional =
  po_dest :: string
  po_choices :: "string list option"
  po_optional :: bool               \<comment> \<open>\<open>nargs="?"\<close>\<close>

datatype arg_parser =
    Leaf string "option_spec list" "positional list"                   \<comment> \<open>the handler\<close>
  | Group string "option_spec list" "(string \<times> arg_parser) list"  \<comment> \<open>the dest of the subparsers\<close>

datatype arg_error = HelpShown | Ambiguous | Unrecognized | ExpectedArgument | ExplicitArgument | InvalidValue | InvalidChoice | NotAllowedTogether | MissingRequired

type_synonym namespace = "string \<rightharpoonup> arg_value"

definition dest_of :: "string \<Rightarrow> string" where
  "dest_of name = map (\<lambda>c. if c = CHR ''-'' then CHR ''_'' else c) (drop 2 name)"

definition help_option :: option_spec where
  "help_option = \<lparr>op_name = ''--help'', op_type = HelpArg, op_choices = None, op_default = None, op_required = False, op_exclusive = False\<rparr>"

definition option_with :: "string \<Rightarrow> arg_value \<Rightarrow> option_spec" where
  "option_with name d = \<lparr>op_name = name, op_type = TextArg, op_choices = None, op_default = Some d, op_required = False, op_exclusive = False\<rparr>"

definition text_option :: "string \<Rightarrow> option_spec" where
  "text_option name = option_with name Nothing"

definition required_option :: "string \<Rightarrow> option_spec" where
  "required_option name = (text_option name)\<lparr>op_required := True\<rparr>"

definition int_option :: "string \<Rightarrow> arg_value \<Rightarrow> option_spec" where
  "int_option name d = (option_with name d)\<lparr>op_type := IntArg\<rparr>"

definition flag_option :: "string \<Rightarrow> option_spec" where
  "flag_option name = (option_with name (On False))\<lparr>op_type := FlagArg\<rparr>"

definition word :: "string \<Rightarrow> positional" where
  "word dest = \<lparr>po_dest = dest, po_choices = None, po_optional = False\<rparr>"

subsection \<open>Reading\<close>

datatype arg_token = Argument | Dashes | Known option_spec "string option" | Unknown | Doubtful

definition negative_number :: "string \<Rightarrow> bool" where
  "negative_number s \<longleftrightarrow>
     (case s of
        [] \<Rightarrow> False
      | c # ds \<Rightarrow> c = CHR ''-'' \<and>
          (isdigit ds \<or> (case split_first (CHR ''.'') ds of (a, Some b) \<Rightarrow> list_all is_digit a \<and> isdigit b | _ \<Rightarrow> False)))"

definition classify :: "option_spec list \<Rightarrow> string \<Rightarrow> arg_token" where
  "classify options t =
     (if t = ''--'' then Dashes
      else if \<not> starts_with ''-'' t \<or> length t = 1 then Argument
      else if t = ''-h'' then Known help_option None
      else case find (\<lambda>o'. op_name o' = t) options of
        Some o' \<Rightarrow> Known o' None
      | None \<Rightarrow>
          let (name, value) = split_first (CHR ''='') t;
              candidates = (if starts_with ''--'' t then filter (\<lambda>o'. starts_with name (op_name o')) options else [])
          in case find (\<lambda>o'. value \<noteq> None \<and> op_name o' = name) options of
               Some o' \<Rightarrow> Known o' value
             | None \<Rightarrow>
                 (case candidates of
                    [o'] \<Rightarrow> Known o' value
                  | [] \<Rightarrow> if negative_number t \<or> CHR '' '' \<in> set t then Argument else Unknown
                  | _ \<Rightarrow> Doubtful))"

definition convert :: "(string \<Rightarrow> rat option) \<Rightarrow> arg_type \<Rightarrow> string list option \<Rightarrow> string \<Rightarrow> arg_error + arg_value" where
  "convert float_text ty choices v =
     bind_err (case ty of
                 IntArg \<Rightarrow> (case parse_int (strip v) of None \<Rightarrow> Inl InvalidValue | Some n \<Rightarrow> Inr (Num n))
               | FloatArg \<Rightarrow> (case float_text v of None \<Rightarrow> Inl InvalidValue | Some x \<Rightarrow> Inr (Real x))
               | _ \<Rightarrow> Inr (Txt v)) (\<lambda>value.
       if (case choices of None \<Rightarrow> True | Some cs \<Rightarrow> v \<in> set cs) then Inr value else Inl InvalidChoice)"

record arg_reading =
  rg_set :: "(string \<times> arg_value) list"  \<comment> \<open>in the order of the command line\<close>
  rg_used :: "string list"                  \<comment> \<open>names of the options given\<close>
  rg_left :: "positional list"              \<comment> \<open>positionals not filled yet\<close>
  rg_extra :: bool

definition put_option :: "(string \<Rightarrow> rat option) \<Rightarrow> option_spec list \<Rightarrow> option_spec \<Rightarrow> arg_error + arg_value \<Rightarrow> arg_reading \<Rightarrow> arg_error + arg_reading" where
  "put_option float_text options o' v s =
     bind_err v (\<lambda>value.
       if op_exclusive o' \<and> list_ex (\<lambda>x. op_exclusive x \<and> op_name x \<noteq> op_name o' \<and> op_name x \<in> set (rg_used s)) options then Inl NotAllowedTogether
       else Inr (s\<lparr>rg_set := rg_set s @ [(dest_of (op_name o'), value)], rg_used := rg_used s @ [op_name o']\<rparr>))"

definition put_word :: "(string \<Rightarrow> rat option) \<Rightarrow> string \<Rightarrow> arg_reading \<Rightarrow> arg_error + arg_reading" where
  "put_word float_text t s =
     (case rg_left s of
        [] \<Rightarrow> Inr (s\<lparr>rg_extra := True\<rparr>)
      | p # ps \<Rightarrow> bind_err (convert float_text TextArg (po_choices p) t) (\<lambda>v.
          Inr (s\<lparr>rg_set := rg_set s @ [(po_dest p, v)], rg_left := ps\<rparr>)))"

fun put_words :: "(string \<Rightarrow> rat option) \<Rightarrow> string list \<Rightarrow> arg_reading \<Rightarrow> arg_error + arg_reading" where
  \<comment> \<open>after two dashes every word is an argument\<close>
  "put_words float_text [] s = Inr s"
| "put_words float_text (t # ts) s = bind_err (put_word float_text t s) (put_words float_text ts)"

definition is_argument :: "option_spec list \<Rightarrow> string \<Rightarrow> bool" where
  "is_argument options t \<longleftrightarrow> classify options t = Argument"

fun read_words :: "(string \<Rightarrow> rat option) \<Rightarrow> option_spec list \<Rightarrow> bool \<Rightarrow> string list \<Rightarrow> arg_reading \<Rightarrow> arg_error + arg_reading \<times> string list" where
  \<comment> \<open>with \<open>stop\<close> at the first argument, the name of a command: what follows is its own\<close>
  "read_words float_text options stop [] s = Inr (s, [])"
| "read_words float_text options stop (t # ts) s =
     (case classify options t of
        Doubtful \<Rightarrow> Inl Ambiguous
      | Unknown \<Rightarrow> read_words float_text options stop ts (s\<lparr>rg_extra := True\<rparr>)
      | Dashes \<Rightarrow>
          if stop then Inl InvalidChoice
          else bind_err (put_words float_text ts (if ts = [] \<and> rg_left s = [] then s\<lparr>rg_extra := True\<rparr> else s)) (\<lambda>s'. Inr (s', []))
      | Argument \<Rightarrow>
          if stop then Inr (s, t # ts)
          else bind_err (put_word float_text t s) (read_words float_text options stop ts)
      | Known o' given \<Rightarrow>
          (case op_type o' of
             HelpArg \<Rightarrow> if given = None then Inl HelpShown else Inl ExplicitArgument
           | FlagArg \<Rightarrow> if given = None then bind_err (put_option float_text options o' (Inr (On True)) s) (read_words float_text options stop ts)
                        else Inl ExplicitArgument
           | ty \<Rightarrow>
               (case given of
                  Some v \<Rightarrow> bind_err (put_option float_text options o' (convert float_text ty (op_choices o') v) s) (read_words float_text options stop ts)
                | None \<Rightarrow>
                    (case ts of
                       [] \<Rightarrow> Inl ExpectedArgument
                     | v # ts' \<Rightarrow>
                         if is_argument options v
                         then bind_err (put_option float_text options o' (convert float_text ty (op_choices o') v) s) (read_words float_text options stop ts')
                         else Inl ExpectedArgument))))"

fun doubtful_before_dashes :: "option_spec list \<Rightarrow> string list \<Rightarrow> bool" where
  \<comment> \<open>every word is classified before anything is read\<close>
  "doubtful_before_dashes options [] = False"
| "doubtful_before_dashes options (t # ts) =
     (classify options t = Doubtful \<or> classify options t \<noteq> Dashes \<and> doubtful_before_dashes options ts)"

definition read_level :: "(string \<Rightarrow> rat option) \<Rightarrow> option_spec list \<Rightarrow> bool \<Rightarrow> positional list \<Rightarrow> string list \<Rightarrow> arg_error + arg_reading \<times> string list" where
  "read_level float_text options stop ps ts =
     (if doubtful_before_dashes options ts then Inl Ambiguous
      else read_words float_text options stop ts \<lparr>rg_set = [], rg_used = [], rg_left = ps, rg_extra = False\<rparr>)"

definition set_all :: "(string \<times> arg_value) list \<Rightarrow> namespace \<Rightarrow> namespace" where
  "set_all kvs ns = foldl (\<lambda>m (k, v). m(k \<mapsto> v)) ns kvs"

definition level_defaults :: "option_spec list \<Rightarrow> positional list \<Rightarrow> namespace" where
  "level_defaults options ps =
     set_all (map (\<lambda>p. (po_dest p, Nothing)) ps @
       List.map_filter (\<lambda>o'. map_option (\<lambda>v. (dest_of (op_name o'), v)) (op_default o')) options) (\<lambda>_. None)"

definition required_given :: "option_spec list \<Rightarrow> arg_reading \<Rightarrow> bool" where
  "required_given options s \<longleftrightarrow>
     list_all (\<lambda>o'. op_required o' \<longrightarrow> op_name o' \<in> set (rg_used s)) options \<and> list_all po_optional (rg_left s)"

lemma size_member_parser: "map_of subs name = Some p \<Longrightarrow> size p < size (Group dest options subs)"
  by (induction subs) (auto split: if_splits)

function parse_level :: "(string \<Rightarrow> rat option) \<Rightarrow> arg_parser \<Rightarrow> string list \<Rightarrow> arg_error + bool \<times> string \<times> namespace" where
  \<comment> \<open>\<open>parse_known_args\<close>: whether anything was not recognized, the handler, the namespace\<close>
  "parse_level float_text (Leaf handler options ps) ts =
     bind_err (read_level float_text options False ps ts) (\<lambda>(s, _).
       if required_given options s then Inr (rg_extra s, handler, set_all (rg_set s) (level_defaults options ps)) else Inl MissingRequired)"
| "parse_level float_text (Group dest options subs) ts =
     bind_err (read_level float_text options True [] ts) (\<lambda>(s, rest).
       case rest of
         [] \<Rightarrow> Inl MissingRequired
       | name # ts' \<Rightarrow>
           (case map_of subs name of
              None \<Rightarrow> Inl InvalidChoice
            | Some p \<Rightarrow> bind_err (parse_level float_text p ts') (\<lambda>(extra, handler, ns).
                if required_given options s
                then Inr (rg_extra s \<or> extra, handler, (set_all (rg_set s) (level_defaults options []))(dest \<mapsto> Txt name) ++ ns) else Inl MissingRequired)))"
  by pat_completeness auto
termination
  by (relation "measure (\<lambda>(_, p, _). size p)") (auto simp del: arg_parser.size dest: size_member_parser)

definition parse_args :: "(string \<Rightarrow> rat option) \<Rightarrow> arg_parser \<Rightarrow> string list \<Rightarrow> arg_error + string \<times> namespace" where
  "parse_args float_text p ts =
     bind_err (parse_level float_text p ts) (\<lambda>(extra, handler, ns). if extra then Inl Unrecognized else Inr (handler, ns))"

definition parse_exit :: "arg_error \<Rightarrow> int" where
  "parse_exit e = (if e = HelpShown then 0 else 2)"

subsection \<open>The command line of vpn-pulse\<close>

definition common_options :: "bool \<Rightarrow> option_spec list" where
  \<comment> \<open>\<open>_common(suppress)\<close>\<close>
  "common_options suppress =
     map (\<lambda>o'. o'\<lparr>op_default := (if suppress then None else Some Nothing)\<rparr>)
       [text_option ''--config'', text_option ''--db'', (text_option ''--lang'')\<lparr>op_choices := Some [''ru'', ''en'']\<rparr>]"

definition command_parser :: "string \<Rightarrow> option_spec list \<Rightarrow> positional list \<Rightarrow> arg_parser" where
  "command_parser handler options ps = Leaf handler (help_option # common_options True @ options) ps"

definition action_parser :: "(string \<times> arg_parser) list \<Rightarrow> arg_parser" where
  "action_parser subs = Group ''action'' (help_option # common_options True) subs"

definition init_parser :: arg_parser where
  "init_parser = command_parser ''init''
     [option_with ''--dir'' (Txt ''.''), text_option ''--data-dir'', text_option ''--secrets-dir'',
      (option_with ''--language'' (Txt ''ru''))\<lparr>op_choices := Some [''ru'', ''en'']\<rparr>, option_with ''--timezone'' (Txt ''UTC''),
      text_option ''--contact-url'', text_option ''--group-chat-id'', text_option ''--admin-chat-id'',
      (text_option ''--telegram-token-file'')\<lparr>op_exclusive := True\<rparr>, (flag_option ''--telegram-token-stdin'')\<lparr>op_exclusive := True\<rparr>,
      flag_option ''--force''] []"

definition run_parser :: arg_parser where
  "run_parser = command_parser ''run''
     [flag_option ''--once'', int_option ''--interval'' Nothing, flag_option ''--demo'', (option_with ''--demo-speed'' (Real 1))\<lparr>op_type := FloatArg\<rparr>,
      text_option ''--telegram-token-file'', text_option ''--group-chat-id'', text_option ''--admin-chat-id'', flag_option ''--quiet''] []"

definition serve_parser :: arg_parser where
  "serve_parser = command_parser ''serve''
     [option_with ''--host'' (Txt ''127.0.0.1''), int_option ''--port'' (Num 8765), option_with ''--log-level'' (Txt ''info''), flag_option ''--access-log''] []"

definition bot_parser :: arg_parser where
  "bot_parser = command_parser ''bot'' [flag_option ''--once'', flag_option ''--quiet''] []"

definition SECTIONS :: "string list" where
  "SECTIONS = [''servers'', ''probes'', ''collector'', ''queue'', ''storage'', ''telegram'', ''https'', ''collectors'']"

definition doctor_parser :: arg_parser where
  "doctor_parser = command_parser ''doctor'' [flag_option ''--json''] [\<lparr>po_dest = ''section'', po_choices = Some SECTIONS, po_optional = True\<rparr>]"

definition server_parser :: arg_parser where
  "server_parser = action_parser
     [(''add'', command_parser ''server add''
        [required_option ''--id'', (required_option ''--type'')\<lparr>op_choices := Some [''awg-host'', ''awg-docker'', ''hiddify'']\<rparr>,
         required_option ''--name-ru'', required_option ''--name-en'', required_option ''--country'', int_option ''--priority'' Nothing,
         text_option ''--collector-ref'', flag_option ''--disabled''] []),
      (''list'', command_parser ''server list'' [flag_option ''--json''] []),
      (''remove'', command_parser ''server remove'' [flag_option ''--yes''] [word ''id''])]"

definition probe_parser :: arg_parser where
  "probe_parser = action_parser
     [(''enroll'', command_parser ''probe enroll'' [text_option ''--via'', int_option ''--minutes'' (Num 10)]
        [(word ''kind'')\<lparr>po_choices := Some PROBE_KINDS\<rparr>]),
      (''list'', command_parser ''probe list'' [flag_option ''--json''] []),
      (''revoke'', command_parser ''probe revoke'' [flag_option ''--yes''] [word ''id''])]"

definition collector_parser :: arg_parser where
  "collector_parser = action_parser
     [(''keygen'', command_parser ''collector keygen''
        [required_option ''--host'', (text_option ''--kind'')\<lparr>op_choices := Some [''awg-host'', ''awg-docker'']\<rparr>,
         option_with ''--user'' (Txt ''vpnpulse''), int_option ''--port'' (Num 22), flag_option ''--force''] [word ''server_id'']),
      (''pin'', command_parser ''collector pin'' [text_option ''--fingerprint''] [word ''server_id'']),
      (''test'', command_parser ''collector test'' [flag_option ''--json''] [word ''server_id'']),
      (''list'', command_parser ''collector list'' [] [])]"

definition note_parser :: arg_parser where
  "note_parser = action_parser
     [(''set'', command_parser ''note set'' [text_option ''--expires'', text_option ''--server''] [word ''text'']),
      (''clear'', command_parser ''note clear'' [] []), (''show'', command_parser ''note show'' [] [])]"

definition demo_parser :: arg_parser where
  "demo_parser = action_parser
     [(''seed'', command_parser ''demo seed'' [option_with ''--scenario'' (Txt ''demo'')] []),
      (''clear'', command_parser ''demo clear'' [flag_option ''--yes''] [])]"

definition backup_parsers :: "(string \<times> arg_parser) list" where
  "backup_parsers =
     [(''backup'', command_parser ''backup'' [text_option ''--to'', int_option ''--keep'' (Num 5), flag_option ''--json''] []),
      (''restore'', command_parser ''restore'' [text_option ''--into'', flag_option ''--yes'', flag_option ''--dry-run''] [word ''archive''])]"

definition build_parser :: arg_parser where
  "build_parser = Group ''command'' (help_option # common_options False)
     ([(''init'', init_parser), (''run'', run_parser), (''serve'', serve_parser), (''bot'', bot_parser), (''doctor'', doctor_parser),
       (''server'', server_parser), (''probe'', probe_parser), (''collector'', collector_parser), (''note'', note_parser), (''demo'', demo_parser)] @
      backup_parsers)"

datatype ended = Returned int | Failed cli_error | Interrupted

definition main_cli ::
  "(string \<Rightarrow> rat option) \<Rightarrow> (string \<Rightarrow> namespace \<Rightarrow> string list \<times> ended) \<Rightarrow> string list \<Rightarrow> string list \<times> int" where
  \<comment> \<open>\<open>main\<close>: a command prints and returns, fails with a CliError or is interrupted; usage messages are left out\<close>
  "main_cli float_text handle argv =
     (case parse_args float_text build_parser argv of
        Inl e \<Rightarrow> ([], parse_exit e)
      | Inr (handler, ns) \<Rightarrow>
          (case handle handler ns of
             (lines, Returned code) \<Rightarrow> (lines, code)
           | (lines, Failed (CliError message code)) \<Rightarrow> (lines @ [''vpn-pulse: '' @ message], int code)
           | (lines, Interrupted) \<Rightarrow> (lines, 130)))"

definition dev_parser :: arg_parser where
  "dev_parser = Leaf ''dev''
     [help_option, option_with ''--host'' (Txt ''127.0.0.1''), int_option ''--port'' (Num 8765), option_with ''--scenario'' (Txt ''operational''),
      text_option ''--fixtures'', text_option ''--app'', option_with ''--contact-url'' (Txt ''https://t.me/example_admin''), text_option ''--sqlite'',
      text_option ''--config''] []"

subsection \<open>Facts\<close>


end
