(* ===== verification/Wiring.thy ===== *)
theory Wiring
  imports Arguments App_Start Processes Demo_Server
begin

text \<open>
  What holds the parts together: the search for the directories of a checkout (cli/common.py, api/app.py,
  pipeline.py, dev/server.py, i18n.py), the loading of configuration and dictionaries (config.py, i18n.py), the
  terminal (\<open>Output\<close> of cli/common.py), \<open>vpn-pulse serve\<close> and the development server as commands (cli/serve.py,
  dev/__main__.py), and the pages both processes mount (serve.py, dev/server.py). A file system is a predicate on
  lists of components.
\<close>

subsection \<open>Looking for a directory\<close>

type_synonym location = "string list"

definition parents_of :: "location \<Rightarrow> location list" where
  \<comment> \<open>\<open>Path.parents\<close>, the nearest first\<close>
  "parents_of file = map (\<lambda>n. take n file) (rev [0..<length file])"

definition repo_root :: "(location \<Rightarrow> bool) \<Rightarrow> location \<Rightarrow> cli_error + location" where
  \<comment> \<open>of the command line\<close>
  "repo_root there file =
     (case find (\<lambda>p. there (p @ [''contracts'', ''config.schema.json'']) \<and> there (p @ [''migrations''])) (parents_of file) of
        Some p \<Rightarrow> Inr p
      | None \<Rightarrow> Inl (cli_fail ''contracts/ and migrations/ not found: run from a repository checkout or an installed tree''))"

definition contracts_dir :: "(location \<Rightarrow> bool) \<Rightarrow> location \<Rightarrow> cli_error + location" where
  "contracts_dir there file = bind_err (repo_root there file) (\<lambda>p. Inr (p @ [''contracts'']))"

definition cli_migrations_dir :: "(location \<Rightarrow> bool) \<Rightarrow> location \<Rightarrow> cli_error + location" where
  "cli_migrations_dir there file = bind_err (repo_root there file) (\<lambda>p. Inr (p @ [''migrations'']))"

definition search_up :: "(location \<Rightarrow> bool) \<Rightarrow> location \<Rightarrow> string \<Rightarrow> string \<Rightarrow> location option" where
  \<comment> \<open>the first \<open>parent / directory\<close> that holds the file; None is the FileNotFoundError\<close>
  "search_up there file directory member =
     map_option (\<lambda>p. p @ [directory]) (find (\<lambda>p. there (p @ [directory, member])) (parents_of file))"

definition app_migrations_dir :: "(location \<Rightarrow> bool) \<Rightarrow> location \<Rightarrow> location option" where
  "app_migrations_dir there file = search_up there file ''migrations'' ''0001_initial.sql''"

definition pipeline_contracts_dir :: "(location \<Rightarrow> bool) \<Rightarrow> location \<Rightarrow> location option" where
  "pipeline_contracts_dir there file = search_up there file ''contracts'' ''analytics-events.schema.json''"

definition dev_repo_root :: "(location \<Rightarrow> bool) \<Rightarrow> location \<Rightarrow> location option" where
  "dev_repo_root there file = find (\<lambda>p. there (p @ [''contracts'', ''openapi.yaml''])) (parents_of file)"

datatype i18n_dir = FromEnvironment string | Found location | I18nMissing

definition default_i18n_dir :: "string option \<Rightarrow> (location \<Rightarrow> bool) \<Rightarrow> location \<Rightarrow> i18n_dir" where
  "default_i18n_dir variable there file =
     (if text_set variable then FromEnvironment (or_default [] variable)
      else case search_up there file ''i18n'' ''ru.json'' of Some p \<Rightarrow> Found p | None \<Rightarrow> I18nMissing)"

lemma find_nearest:
  "find P (parents_of file) = Some p \<longleftrightarrow>
     (\<exists>n < length file. p = take n file \<and> P p \<and> (\<forall>m. n < m \<and> m < length file \<longrightarrow> \<not> P (take m file)))"
proof -
  have "find P (map (\<lambda>n. take n file) (rev [0..<k])) = Some p \<longleftrightarrow> (\<exists>n < k. p = take n file \<and> P p \<and> (\<forall>m. n < m \<and> m < k \<longrightarrow> \<not> P (take m file)))" for k
  proof (induction k)
    case (Suc k)
    then show ?case by (auto simp: less_Suc_eq)
  qed simp
  then show ?thesis by (simp add: parents_of_def)
qed

text \<open>The directory found is that of the nearest tree around the module: an installed copy is never shadowed by a
  checkout further up.\<close>

lemma search_up_nearest:
  assumes "search_up there file directory member = Some found"
  shows "\<exists>n < length file. found = take n file @ [directory] \<and> there (found @ [member]) \<and>
    (\<forall>m. n < m \<and> m < length file \<longrightarrow> \<not> there (take m file @ [directory, member]))"
  using assms by (auto simp: search_up_def find_nearest)

subsection \<open>Configuration and dictionaries\<close>

datatype 'a file_content = Unreadable string | NotUtf8 | Content 'a

datatype 'a loaded = Loaded 'a | ConfigurationError string | LoadRaises

definition load_config ::
  "(string \<Rightarrow> string + json) \<Rightarrow> (string \<Rightarrow> string + json) \<Rightarrow> (json \<Rightarrow> json \<Rightarrow> string option) \<Rightarrow> string file_content \<Rightarrow> string file_content \<Rightarrow> json loaded" where
  \<comment> \<open>the YAML and the JSON parser and the schema validator are arguments; text that is not UTF-8 raises another ValueError\<close>
  "load_config yaml loads validate file schema_file =
     (case file of
        Unreadable e \<Rightarrow> ConfigurationError e
      | NotUtf8 \<Rightarrow> LoadRaises
      | Content text \<Rightarrow>
          (case yaml text of
             Inl e \<Rightarrow> ConfigurationError e
           | Inr config \<Rightarrow>
               (case schema_file of
                  Unreadable e \<Rightarrow> ConfigurationError e
                | NotUtf8 \<Rightarrow> LoadRaises
                | Content schema_text \<Rightarrow>
                    (case loads schema_text of
                       Inl e \<Rightarrow> ConfigurationError e
                     | Inr schema \<Rightarrow> (case validate schema config of Some e \<Rightarrow> ConfigurationError e | None \<Rightarrow> Loaded config)))))"

lemma load_config_valid:
  "load_config yaml loads validate file schema_file = Loaded config \<Longrightarrow>
   \<exists>text schema_text schema. file = Content text \<and> yaml text = Inr config \<and> schema_file = Content schema_text \<and>
     loads schema_text = Inr schema \<and> validate schema config = None"
  by (auto simp: load_config_def split: file_content.splits sum.splits option.splits)

text \<open>A configuration that is not UTF-8 is no ConfigurationError: the commands that turn one into a message do not.\<close>

lemma load_config_not_utf8: "load_config yaml loads validate NotUtf8 schema_file = LoadRaises"
  by (simp add: load_config_def)

definition load_dictionaries :: "(string \<Rightarrow> (string \<times> string) list option) \<Rightarrow> dictionaries" where
  \<comment> \<open>\<open>_load\<close>: the parsed file of a language, when there is one\<close>
  "load_dictionaries files = map (\<lambda>lang. (lang, or_default [] (files (lang @ ''.json'')))) [''ru'', ''en'']"

lemma missing_language_falls_back:
  "files ''en.json'' = None \<Longrightarrow> translate (load_dictionaries files) ''en'' key params = translate (load_dictionaries files) ''ru'' key params"
  by (simp add: translate_def dictionary_def load_dictionaries_def or_default_def split: option.split)

subsection \<open>The terminal\<close>

record output_state =
  tm_out :: "string list"
  tm_err :: "string list"
  tm_secrets :: output_secrets

definition output_line :: "string \<Rightarrow> output_state \<Rightarrow> output_state" where
  "output_line text t = t\<lparr>tm_out := tm_out t @ [redact (tm_secrets t) text]\<rparr>"

definition output_error :: "string \<Rightarrow> output_state \<Rightarrow> output_state" where
  "output_error text t = t\<lparr>tm_err := tm_err t @ [redact (tm_secrets t) text]\<rparr>"

definition output_json :: "('a \<Rightarrow> string) \<Rightarrow> 'a \<Rightarrow> output_state \<Rightarrow> output_state" where
  "output_json dumps payload = output_line (dumps payload)"

definition config_path_of :: "string option \<Rightarrow> string option \<Rightarrow> path option" where
  \<comment> \<open>the option, or VPN_PULSE_CONFIG\<close>
  "config_path_of arg variable =
     (if text_set arg then map_option path_of arg else if text_set variable then map_option path_of variable else None)"

subsection \<open>Serving\<close>

datatype mounted_page = AppPage string | ToApp   \<comment> \<open>a file under /app; / redirects to /app/mvp.html\<close>

definition mounts :: "bool \<Rightarrow> string \<Rightarrow> mounted_page option" where
  \<comment> \<open>without the directory of the pages neither is there\<close>
  "mounts static_dir path =
     (if \<not> static_dir then None
      else if path = ''/'' then Some ToApp
      else if starts_with ''/app/'' path then Some (AppPage (drop 5 path)) else None)"

record uvicorn_run =
  uv_app :: served
  uv_host :: string
  uv_port :: int
  uv_log_level :: string
  uv_access_log :: bool

definition command_serve ::
  "bool \<Rightarrow> string \<Rightarrow> int \<Rightarrow> string \<Rightarrow> bool \<Rightarrow> path option \<Rightarrow> site \<Rightarrow> (cli_error + (string \<times> uvicorn_run) option) \<times> site" where
  \<comment> \<open>\<open>Some\<close>: what is printed to the error stream and the server that runs then; \<open>None\<close>: an exception that is no CliError\<close>
  "command_serve uvicorn_installed host port log_level access_log config_path w =
     (if \<not> uvicorn_installed then (Inl (cli_fail ''uvicorn is missing: pip install vpn-pulse''), w)
      else case config_path of
             None \<Rightarrow> (Inl (cli_fail ''vpn-pulse serve: --config PATH is required (or VPN_PULSE_CONFIG)''), w)
           | Some p \<Rightarrow>
               (case build_app p w of
                  (NotServed e, w') \<Rightarrow> (Inl e, w')
                | (ServeRaises, w') \<Rightarrow> (Inr None, w')
                | (Served app, w') \<Rightarrow>
                    (Inr (Some (''vpn-pulse serve ('' @ sv_mode app @ ''): http://'' @ host @ '':'' @ show_int port @ ''/app/mvp.html'',
                       \<lparr>uv_app = app, uv_host = host, uv_port = port, uv_log_level = log_level, uv_access_log = access_log\<rparr>)), w')))"

text \<open>What is served listens where the options say, on this machine only unless they say otherwise, and logs
  addresses of clients only when asked to.\<close>

lemma serve_defaults:
  "(case parse_args float_text build_parser [''serve''] of
      Inr (handler, ns) \<Rightarrow> Some (handler, ns ''host'', ns ''access_log'', ns ''config'') | Inl _ \<Rightarrow> None) =
   Some (''serve'', Some (Txt ''127.0.0.1''), Some (On False), Some Nothing)"
  by code_simp

definition demo_config :: "(rat \<Rightarrow> rat) \<Rightarrow> catalog \<Rightarrow> datetime \<Rightarrow> demo_error + config" where
  "demo_config sine fx now = bind_err (build sine fx ''operational'' now) (\<lambda>sc. config_for fx sc (Some ''https://t.me/example_admin''))"

definition dev_main ::
  "(string \<Rightarrow> rat option) \<Rightarrow> (rat \<Rightarrow> rat) \<Rightarrow> (stamp \<Rightarrow> json) \<Rightarrow> (uid \<Rightarrow> string) \<Rightarrow> (string option \<Rightarrow> catalog) \<Rightarrow> (string \<Rightarrow> cli_error + config) \<Rightarrow>
   (string \<Rightarrow> db) \<Rightarrow> datetime \<Rightarrow> string list \<Rightarrow> (arg_error + cli_error) + (demo_error + dev_app)" where
  \<comment> \<open>the catalog of a path, the configuration of a path and the migrated database of a path are arguments\<close>
  "dev_main float_text sine stamp_json uid_text load load_file open_file now argv =
     (case parse_args float_text dev_parser argv of
        Inl e \<Rightarrow> Inl (Inl e)
      | Inr (_, ns) \<Rightarrow>
          let given = (\<lambda>k. case ns k of Some (Txt t) \<Rightarrow> Some t | _ \<Rightarrow> None);
              serve = (\<lambda>config. Inr (create_dev_app sine stamp_json uid_text (load (given ''fixtures'')) (or_default [] (given ''scenario'')) now
                         (given ''contact_url'') config (map_option open_file (given ''sqlite''))))
          in case given ''config'' of
               None \<Rightarrow> serve None
             | Some c \<Rightarrow>
                 if given ''sqlite'' = None then Inl (Inl MissingRequired)
                 else (case load_file c of Inl e \<Rightarrow> Inl (Inr e) | Inr config \<Rightarrow> serve (Some config)))"

subsection \<open>The monitoring loop\<close>

record pipeline =
  pi_config :: config
  pi_collectors :: "collector list"
  pi_messenger :: messenger
  pi_freshness :: timedelta
  pi_interval :: timedelta
  pi_confirmations :: int
  pi_quiet :: int
  pi_aggregates :: timedelta
  pi_backoff :: int
  pi_maintenance_interval :: timedelta
  pi_state :: pipeline_state
  pi_stop :: bool

definition pipeline_init :: "db \<Rightarrow> config \<Rightarrow> collector list \<Rightarrow> messenger \<Rightarrow> timedelta option \<Rightarrow> int option \<Rightarrow> pipeline" where
  \<comment> \<open>the defaults of \<open>Pipeline.__init__\<close>: maintenance once an hour, retries after thirty seconds\<close>
  "pipeline_init d config collectors messenger maintenance_interval backoff =
     \<lparr>pi_config = config, pi_collectors = collectors, pi_messenger = messenger, pi_freshness = freshness config,
      pi_interval = seconds (collection_interval config), pi_confirmations = confirmations config, pi_quiet = quiet_seconds config,
      pi_aggregates = aggregates_kept config, pi_backoff = or_default 30 backoff,
      pi_maintenance_interval = or_default (hours 1) maintenance_interval,
      pi_state = \<lparr>pl_db = d, pl_runs = 0, pl_last_maintenance = None\<rparr>, pi_stop = False\<rparr>"

definition ensure_servers :: "datetime \<Rightarrow> pipeline \<Rightarrow> pipeline" where
  "ensure_servers now p = p\<lparr>pi_state := (pi_state p)\<lparr>pl_db := sync_servers (pl_db (pi_state p)) (pi_config p) now\<rparr>\<rparr>"

definition stop_pipeline :: "pipeline \<Rightarrow> pipeline" where
  "stop_pipeline p = p\<lparr>pi_stop := True\<rparr>"

definition pipeline_once :: "uid \<Rightarrow> string \<Rightarrow> int \<Rightarrow> datetime \<Rightarrow> pipeline \<Rightarrow> pipeline \<times> (run_error + run_summary)" where
  \<comment> \<open>\<open>run_once\<close> with the fields of the object\<close>
  "pipeline_once run trace_id duration_ms now p =
     (let (st, result) = run_once (pi_config p) (pi_collectors p) (pi_backoff p) (pi_maintenance_interval p)
            \<lparr>in_run_id = run, in_trace_id = trace_id, in_duration_ms = duration_ms, in_messenger = pi_messenger p\<rparr> now (pi_state p)
      in (p\<lparr>pi_state := st\<rparr>, result))"

text \<open>A new pipeline over a sound database stays sound, whatever its collectors and its messenger do.\<close>

lemma pipeline_once_keeps_invariant:
  assumes "pipeline_inv d"
  shows "pipeline_inv (pl_db (pi_state (fst (pipeline_once run trace_id duration_ms now (pipeline_init d config collectors messenger every backoff)))))"
  using assms by (simp add: pipeline_once_def pipeline_init_def case_prod_beta Let_def pipeline_inv_run_once)

end
