(* ===== verification/Spec2Isabelle.thy ===== *)
theory Spec2Isabelle
  imports Api App_Start Doctor Messages Observability Backup_Cli Migrations Demo_Run Fixture_Adapter Evidence Connection Public_Tree Repo_Checks Contrast Wiring
begin

text \<open>
  VPN Pulse watches a handful of VPN servers and tells the members of a Telegram group whether they work. This
  development models its Python code (src/src/vpnpulse) and proves what the parts promise.

  \<^bold>\<open>The parts and how they interact.\<close> A monitoring loop (pipeline.py) asks collectors for observations
  (collectors/ssh.py over SSH, collectors/fixture.py from a script), probes send reports over HTTP (api/app.py,
  storage/store.py); both end as rows of the table of observations. The evaluator (domain/evaluator.py) turns the
  observations of a server into one of four states; the repository (storage/repository.py) keeps the snapshot of
  each scope, records a transition when it changes and queues messages; the notification worker of the same file
  delivers them through a messenger (notify.py), with retries. The read model (storage/read_model.py, i18n.py)
  computes the screens the API serves behind its guards (api/security.py, auth.py, telegram.py, api/schemas.py). A
  bot (bot.py) answers commands. The command line (cli) installs, configures, checks, backs up and restores an
  installation. A demonstration (dev, cli/demo.py) fills a database, or a read model, with scripted scenarios.

  \<^bold>\<open>Theories and sources.\<close>
  Library: Prelude (instants, the SQL statements as list operations, the locale \<open>key_update\<close>, lemma collections),
  Text (string functions of the standard library), Json, Calendar (printed instants), Timestamps (the order of the
  stored texts), Config (config.py).
  Domain: Domain (domain/models.py), Evaluator and Recommendation (domain/evaluator.py).
  Storage: Database (the tables of migrations/), Repository and Notifications (storage/repository.py), Store,
  Reports and Retention (storage/store.py, analytics.py), Connection and Migrations (storage/database.py,
  cli/common.py).
  Monitoring: Pipeline and Processes (pipeline.py, collectors/base.py, serve.py, cli/run.py, cli/serve.py), Ssh
  (collectors/ssh.py), Registry (collectors/registry.py, cli/run.py), Messages (notify.py), Monitoring (from the
  stored evidence to the screen), Evidence (from a collector to the screen).
  Screens: Timeline, Read_Model, Events, Admin_View (storage/read_model.py), Read_View (the protocol of
  api/read_model.py and its implementations), I18n (i18n.py), Schemas (api/schemas.py).
  HTTP: Security (api/security.py), Auth (auth.py, telegram.py), Api and App_Start (api/app.py), Observability
  (observability.py), Bot (bot.py).
  Commands: Cli_Common (cli/common.py), Setup_Cli (cli/init.py, cli/server.py, cli/bot.py, api/static.py), Collector_Cli
  (cli/collector.py), Admin_Cli (cli/note.py, cli/probe.py), Doctor (cli/doctor.py), Backup and Backup_Cli
  (cli/backup.py).
  Demonstration: Demo_Catalog, Demo_View, Demo_Screens, Demo_Laws (dev/scenarios.py), Demo_Seed and Demo_Sample
  (dev/seed.py), Demo_Server (dev/server.py), Demo_Run (cli/demo.py, collectors/fixture.py), Fixture_Adapter
  (adapters/fixture.py).
  Start: Arguments (cli/__init__.py, the \<open>add_parser\<close> of every command, dev/__main__.py), Wiring (config.py, i18n.py,
  cli/common.py, cli/serve.py: directories, files, the terminal).
  Tooling: Regex (the regular expressions of the standard library), Public_Tree (scripts/check_public_tree.py),
  Contrast (scripts/check_contrast.py), Repo_Checks (scripts/check_links.py, validate_specs.py, build_prototypes.py,
  perf_check.py).

  \<^bold>\<open>State and operations.\<close> The database is the record \<open>db\<close>, one list of rows per table in rowid order; a
  query is a filter, a stable sort and a limit over it, an UPDATE a map, an INSERT an append, a violated
  constraint a branch that fails. An operation takes the database and returns it updated with its result;
  fallible operations return \<open>error + 'a\<close> or an option. In-memory state (token buckets, membership cache, the
  lock of the connection, files of an installation, the offset of the bot) is a record or a map of its own, passed
  and returned in the same way.

  \<^bold>\<open>What the lemmas show.\<close> Evaluator proves the code's evaluation equal to the monitoring policy \<open>scope_verdict\<close>;
  Recommendation that what it picks is eligible and best. Repository and Notifications define
  the step relation \<open>repo_step\<close> of saving and delivering and prove the storage invariant of every
  reachable state, delivery against a per-scope specification and its termination; Messages adds that the queue
  drains. Store, Reports and Retention prove the contracts of sessions (refinement of a map), enrollment codes
  (\<open>enrollment_step\<close>), probe tokens, reports, the note and the sweep. Connection runs threads over the shared
  connection (\<open>thread_step\<close>, any interleaving) and proves their transactions serial; Migrations that
  upgrading gives what a fresh installation has. Ssh, Pipeline and Processes prove that whatever a server answers,
  what is stored keeps to the contract, that one failing collector costs nobody else, and that the loop goes on;
  Monitoring composes evaluator, repository and read model, Evidence adds the collectors. Timeline, Read_Model, Events, Admin_View, Read_View and
  Schemas prove the screens consistent with each other, with their response models and under paging. Security,
  Auth and Api prove the rate bound, what a signature vouches for and which requests reach which route. The
  command theories prove round trips (init then serve, keygen, pin and test, backup and restore, demo seed and
  clear), strictness (pinning, verification, rehearsal) and the agreement of doctor and run. The demonstration
  theories prove its screens coherent and the same as the states its catalog gives. Regex proves its matcher sound
  and complete for the matches of a pattern; the tooling theories say what a check that passes guarantees.

  \<^bold>\<open>Interfaces.\<close> \<open>key_update\<close> is the contract of an UPDATE that keeps the key of a row; it is interpreted for every
  such statement (\<open>superseding\<close>, \<open>closing\<close>, \<open>delivering\<close>, \<open>finishing\<close>, \<open>disabling\<close>, \<open>note_status\<close>, \<open>using_code\<close>,
  \<open>revoking\<close>, \<open>revoking_id\<close>). \<open>session_contract\<close> is what the API needs of sessions (\<open>sessions\<close>);
  \<open>membership_checker\<close> what signing in needs of a checker (\<open>telegram_membership\<close>, \<open>closed_membership\<close>);
  \<open>cursor_list\<close> a list read page by page (\<open>event_list\<close>, \<open>demo_list\<close>); \<open>read_view\<close> the screens of one read model
  (\<open>stored\<close>, \<open>status_only\<close>, \<open>demo\<close>); \<open>evidence_source\<close> what the loop needs of a collector (\<open>helper\<close>, \<open>script\<close>).

  \<^bold>\<open>Modelling choices.\<close> An instant or a duration is an integer of microseconds, as \<open>datetime\<close> has it. The
  columns that hold instants as text are compared as text: Timestamps gives both renderings and proves their order.
  Where a query leaves ties open the order is that of rowids. Floats are exact rationals, with \<open>round\<close> written
  out. Hashes, generated identifiers and tokens are constructors of their input, so that they
  collide only on equal inputs; the keyed hash of Telegram's signature and the sine of a demo curve are arguments. A
  path is a list of components; a secret file is its text; a parsed YAML or JSON document is a value. A command
  reads the clock once. Messages outside ASCII in the output of a command are transliterated.

  \<^bold>\<open>Bounds and fuel.\<close> Loops over tables are structural recursions or folds. The inheritance of scenarios may loop, so
  it is a \<open>partial_function\<close>, with \<open>inherits\<close> characterising when it returns. The sleep of the loop
  (\<open>naps\<close>) and the replacement of text terminate by a measure. The rounds of the bot and the pages of a list take
  fuel, and the theorems say how much is enough: as many rounds as waiting updates, as many pages as
  items. Delivery is bounded by the attempts left (\<open>MAX_ATTEMPTS\<close>).

  \<^bold>\<open>Arguments of the model.\<close> Telegram's Bot API (answers per request), the helper on a server (the result of a
  process), SSH key generation and scanning, the SQL of a migration script, JSON and YAML parsing, the
  keyed hash and uuid functions are arguments of the definitions that use them; what a property needs of them is a
  named hypothesis of it.

  \<^bold>\<open>Not modelled.\<close> The routing, validation and serving of FastAPI, pydantic and uvicorn beyond the rules the code
  states to them; usage messages; setting up logging handlers; PRAGMAs and other processes on the same database
  file; the encoding of tar archives and of SQLite snapshots (contents only); the YAML, JSON and schema libraries. The
  scripts that drive a browser (scripts/ui_check.py, ui_parity_check.py, browser_perf.py) check what it renders of the
  web application, which is JavaScript like the prototypes of the documentation; deployment helpers are shell.
\<close>

end
